(* ===== verification/Prelude.thy ===== *)
theory Prelude
  imports Main "HOL-Library.AList"
begin

text \<open>
  Shared ground of the development.

  \<^item> The errors the service throws, as one datatype.
  \<^item> The effect type \<open>io\<close>: a JavaScript function that reads and writes state of type
    \<open>'w\<close> and may throw. The state survives a throw, as it does in JavaScript: writes made
    before a throw are not undone.
  \<^item> The JavaScript \<open>Map\<close> as an interface (a locale) and its insertion-ordered
    implementation on association lists.
  \<^item> The collections of rewrite and introduction rules the component theories fill.
\<close>

named_theorems io_simps \<open>unfolding rules of the effect combinators\<close>
named_theorems keeps_intros \<open>rules that an effect preserves a state predicate\<close>
named_theorems runs_rules \<open>weakest-precondition rules of the effect combinators\<close>
named_theorems store_simps \<open>rewrite rules of the in-memory store\<close>

section \<open>Errors\<close>

text \<open>
  \<open>Error\<close> carries the message of a plain \<open>throw new Error(...)\<close>. The other
  constructors are the error classes of the service and of its audit package; \<open>Foreign\<close> is
  anything thrown by code outside the repository (a database driver, a telemetry library).
\<close>

datatype js_error =
    Error string
  | RangeError string
  | TypeError string
  | AuthenticationError string
  | ReservationRequestAlreadyExistsError string
  | SeatReservationCommitError
  | AuditEmissionUnavailableError
  | AuditContractError "(string \<times> string) list"
  | AuditPublisherConfigurationError string
  | Foreign string

section \<open>Effects\<close>

type_synonym ('w, 'a) io = "'w \<Rightarrow> (js_error + 'a) \<times> 'w"

definition ret :: "'a \<Rightarrow> ('w, 'a) io" where
  "ret x = (\<lambda>w. (Inr x, w))"

definition throw :: "js_error \<Rightarrow> ('w, 'a) io" where
  "throw e = (\<lambda>w. (Inl e, w))"

definition lift :: "js_error + 'a \<Rightarrow> ('w, 'a) io" where
  "lift r = (\<lambda>w. (r, w))"

definition bind_io :: "('w, 'a) io \<Rightarrow> ('a \<Rightarrow> ('w, 'b) io) \<Rightarrow> ('w, 'b) io" where
  "bind_io m f = (\<lambda>w. case m w of (Inl e, w') \<Rightarrow> (Inl e, w') | (Inr x, w') \<Rightarrow> f x w')"

definition then_io :: "('w, 'a) io \<Rightarrow> ('w, 'b) io \<Rightarrow> ('w, 'b) io" where
  "then_io m k = bind_io m (\<lambda>_. k)"

definition catch_io :: "('w, 'a) io \<Rightarrow> (js_error \<Rightarrow> ('w, 'a) io) \<Rightarrow> ('w, 'a) io" where
  "catch_io m h = (\<lambda>w. case m w of (Inl e, w') \<Rightarrow> h e w' | (Inr x, w') \<Rightarrow> (Inr x, w'))"

text \<open>
  \<open>finally_io m f\<close> is \<open>try { m } finally { f }\<close>: \<open>f\<close> runs in either
  case, and an error of \<open>f\<close> replaces the outcome of \<open>m\<close>.
\<close>

definition finally_io :: "('w, 'a) io \<Rightarrow> ('w, unit) io \<Rightarrow> ('w, 'a) io" where
  "finally_io m f = (\<lambda>w. case m w of (r, w') \<Rightarrow>
     (case f w' of (Inl e, w'') \<Rightarrow> (Inl e, w'') | (Inr _, w'') \<Rightarrow> (r, w'')))"

definition gets :: "('w \<Rightarrow> 'a) \<Rightarrow> ('w, 'a) io" where
  "gets f = (\<lambda>w. (Inr (f w), w))"

definition modify :: "('w \<Rightarrow> 'w) \<Rightarrow> ('w, unit) io" where
  "modify f = (\<lambda>w. (Inr (), f w))"

text \<open>
  Most operations work on two disjoint parts of the world: a database the repositories own
  and an environment (clock, id generators, logging, metrics) that holds no reference to the
  database.
\<close>

definition on_db :: "('s, 'a) io \<Rightarrow> ('s \<times> 'e, 'a) io" where
  "on_db m = (\<lambda>(s, e). case m s of (r, s') \<Rightarrow> (r, (s', e)))"

definition on_env :: "('e, 'a) io \<Rightarrow> ('s \<times> 'e, 'a) io" where
  "on_env m = (\<lambda>(s, e). case m e of (r, e') \<Rightarrow> (r, (s, e')))"

text \<open>\<open>for (const x of xs) f(x)\<close>\<close>

fun for_each :: "('a \<Rightarrow> ('w, unit) io) \<Rightarrow> 'a list \<Rightarrow> ('w, unit) io" where
  "for_each f [] = ret ()"
| "for_each f (x # xs) = then_io (f x) (for_each f xs)"

text \<open>A local variable of a function, here a part \<open>'l\<close> of the world that ends with it.\<close>

definition with_local :: "'l \<Rightarrow> ('w \<times> 'l, 'a) io \<Rightarrow> ('w, 'a) io" where
  "with_local l m = (\<lambda>w. case m (w, l) of (r, (w', _)) \<Rightarrow> (r, w'))"

text \<open>Pure code that may throw.\<close>

definition bind_err :: "js_error + 'a \<Rightarrow> ('a \<Rightarrow> js_error + 'b) \<Rightarrow> js_error + 'b" where
  "bind_err r f = (case r of Inl e \<Rightarrow> Inl e | Inr x \<Rightarrow> f x)"

fun map_err :: "('a \<Rightarrow> js_error + 'b) \<Rightarrow> 'a list \<Rightarrow> js_error + 'b list" where
  "map_err f [] = Inr []"
| "map_err f (x # xs) = bind_err (f x) (\<lambda>y. bind_err (map_err f xs) (\<lambda>ys. Inr (y # ys)))"

lemmas io_defs = ret_def throw_def lift_def bind_io_def then_io_def catch_io_def
  finally_io_def gets_def modify_def on_db_def on_env_def

lemma bind_err_simps [simp]:
  "bind_err (Inl e) f = Inl e" "bind_err (Inr x) f = f x"
  by (simp_all add: bind_err_def)

lemma bind_err_Inr:
  "bind_err r f = Inr y \<longleftrightarrow> (\<exists>x. r = Inr x \<and> f x = Inr y)"
  by (cases r) auto

lemma ret_app [io_simps, simp]: "ret x w = (Inr x, w)"
  and throw_app [io_simps, simp]: "throw e w = (Inl e, w)"
  and lift_app [io_simps, simp]: "lift r w = (r, w)"
  and gets_app [io_simps, simp]: "gets g w = (Inr (g w), w)"
  and modify_app [io_simps, simp]: "modify h w = (Inr (), h w)"
  and then_bind [io_simps, simp]: "then_io m k = bind_io m (\<lambda>_. k)"
  by (simp_all add: io_defs)

lemma bind_io_Inl: "m w = (Inl e, w') \<Longrightarrow> bind_io m f w = (Inl e, w')"
  and bind_io_Inr: "m w = (Inr x, w') \<Longrightarrow> bind_io m f w = f x w'"
  by (simp_all add: bind_io_def)

lemma bind_io_cases:
  assumes "bind_io m f w = (r, w')"
  obtains (error) e where "m w = (Inl e, w')" "r = Inl e"
    | (ok) x v where "m w = (Inr x, v)" "f x v = (r, w')"
  using assms by (auto simp: bind_io_def split: prod.splits sum.splits)

lemma bind_io_ret [simp]: "bind_io (ret x) f w = f x w"
  and bind_io_throw [simp]: "bind_io (throw e) f' w = (Inl e, w)"
  and bind_io_gets [simp]: "bind_io (gets g) f2 w = f2 (g w) w"
  and bind_io_modify [simp]: "bind_io (modify h) f3 w = f3 () (h w)"
  and bind_io_lift: "bind_io (lift r) f4 w = (case r of Inl e \<Rightarrow> (Inl e, w) | Inr x \<Rightarrow> f4 x w)"
  by (auto simp: io_defs split: sum.splits)

lemma bind_io_lift_simps [simp]:
  "bind_io (lift (Inl e)) f w = (Inl e, w)" "bind_io (lift (Inr x)) f w = f x w"
  by (auto simp: io_defs)

lemma fst_on_env: "fst (snd (on_env m w)) = fst w"
  by (auto simp: on_env_def split: prod.splits)

lemma on_env_app: "on_env m (s, e) = (fst (m e), (s, snd (m e)))"
  and on_db_app: "on_db m' (s, e) = (fst (m' s), (snd (m' s), e))"
  by (auto simp: io_defs split: prod.splits)

text \<open>
  \<open>keeps P m\<close>: the effect \<open>m\<close> preserves the state predicate \<open>P\<close>, whether it
  returns or throws. The rules follow the structure of the code.
\<close>

definition keeps :: "('w \<Rightarrow> bool) \<Rightarrow> ('w, 'a) io \<Rightarrow> bool" where
  "keeps P m \<longleftrightarrow> (\<forall>w. P w \<longrightarrow> P (snd (m w)))"

lemma keepsI: "(\<And>w. P w \<Longrightarrow> P (snd (m w))) \<Longrightarrow> keeps P m"
  and keepsD: "keeps P m \<Longrightarrow> P w \<Longrightarrow> P (snd (m w))"
  by (auto simp: keeps_def)

lemma keeps_pure [keeps_intros]:
  "keeps P (ret x)" "keeps P (throw e)" "keeps P (lift r)" "keeps P (gets g)"
  by (simp_all add: keeps_def)

lemma keeps_bind [keeps_intros]:
  "keeps P m \<Longrightarrow> (\<And>x. keeps P (f x)) \<Longrightarrow> keeps P (bind_io m f)"
  by (auto simp: keeps_def bind_io_def split: prod.splits sum.splits)

lemma keeps_catch [keeps_intros]:
  "keeps P m \<Longrightarrow> (\<And>e. keeps P (h e)) \<Longrightarrow> keeps P (catch_io m h)"
  by (auto simp: keeps_def catch_io_def split: prod.splits sum.splits)

lemma keeps_finally [keeps_intros]:
  "keeps P m \<Longrightarrow> keeps P f \<Longrightarrow> keeps P (finally_io m f)"
  by (auto simp: keeps_def finally_io_def split: prod.splits sum.splits)

lemma keeps_for_each [keeps_intros]: "(\<And>x. x \<in> set xs \<Longrightarrow> keeps P (f x)) \<Longrightarrow> keeps P (for_each f xs)"
  by (induction xs) (auto intro!: keeps_bind keeps_pure)

lemma keeps_on_env [keeps_intros]: "keeps (\<lambda>w. P (fst w)) (on_env m)"
  by (auto simp: keeps_def on_env_def split: prod.splits)

lemma keeps_on_db [keeps_intros]: "keeps P m \<Longrightarrow> keeps (\<lambda>w. P (fst w)) (on_db m)"
  by (auto simp: keeps_def on_db_def split: prod.splits)

text \<open>
  \<open>runs m w Q\<close>: run from \<open>w\<close>, \<open>m\<close> ends in an outcome and a state that satisfy
  \<open>Q\<close>, whether it returns or throws. The environment may do anything to its own part of
  the world.
\<close>

definition runs :: "('w, 'a) io \<Rightarrow> 'w \<Rightarrow> (js_error + 'a \<Rightarrow> 'w \<Rightarrow> bool) \<Rightarrow> bool" where
  "runs m w Q \<longleftrightarrow> Q (fst (m w)) (snd (m w))"

lemma runsI: "(\<And>r w'. m w = (r, w') \<Longrightarrow> Q r w') \<Longrightarrow> runs m w Q"
  and runsD: "runs m w Q \<Longrightarrow> m w = (r, w') \<Longrightarrow> Q r w'"
  by (auto simp: runs_def)

lemma runs_mono: "runs m w Q \<Longrightarrow> (\<And>r w'. Q r w' \<Longrightarrow> Q' r w') \<Longrightarrow> runs m w Q'"
  by (simp add: runs_def)

lemma runs_pure [runs_rules]:
  "Q (Inr x) w \<Longrightarrow> runs (ret x) w Q" "Q (Inl e) w \<Longrightarrow> runs (throw e) w Q"
  "Q r w \<Longrightarrow> runs (lift r) w Q"
  by (simp_all add: runs_def)

lemma runs_gets [runs_rules]: "Q (Inr (g w)) w \<Longrightarrow> runs (gets g) w Q"
  and runs_modify [runs_rules]: "Q' (Inr ()) (h w) \<Longrightarrow> runs (modify h) w Q'"
  by (simp_all add: runs_def)

lemma runs_bind [runs_rules]:
  "runs m w (\<lambda>r w'. case r of Inl e \<Rightarrow> Q (Inl e) w' | Inr x \<Rightarrow> runs (f x) w' Q) \<Longrightarrow> runs (bind_io m f) w Q"
  by (auto simp: runs_def bind_io_def split: prod.splits sum.splits)

lemma runs_then [runs_rules]:
  "runs m w (\<lambda>r w'. case r of Inl e \<Rightarrow> Q (Inl e) w' | Inr x \<Rightarrow> runs k w' Q) \<Longrightarrow> runs (then_io m k) w Q"
  by (simp add: runs_bind)

lemma runs_catch [runs_rules]:
  "runs m w (\<lambda>r w'. case r of Inl e \<Rightarrow> runs (h e) w' Q | Inr x \<Rightarrow> Q (Inr x) w') \<Longrightarrow> runs (catch_io m h) w Q"
  by (auto simp: runs_def catch_io_def split: prod.splits sum.splits)

lemma runs_finally [runs_rules]:
  "runs m w (\<lambda>r w'. runs f w' (\<lambda>r' w''. case r' of Inl e \<Rightarrow> Q (Inl e) w'' | Inr _ \<Rightarrow> Q r w'')) \<Longrightarrow>
    runs (finally_io m f) w Q"
  by (auto simp: runs_def finally_io_def split: prod.splits sum.splits)

lemma runs_local [runs_rules]: "runs m (w, l) (\<lambda>r w'. Q r (fst w')) \<Longrightarrow> runs (with_local l m) w Q"
  by (auto simp: runs_def with_local_def split: prod.splits)

lemma runs_on_db [runs_rules]: "runs m (fst w) (\<lambda>r s. Q r (s, snd w)) \<Longrightarrow> runs (on_db m) w Q"
  by (auto simp: runs_def on_db_def split: prod.splits)

lemma runs_on_env: "(\<And>r e. Q r (fst w, e)) \<Longrightarrow> runs (on_env m) w Q"
  by (auto simp: runs_def on_env_def split: prod.splits)

text \<open>The same rules for the sequences code is made of.\<close>

lemma runs_env_bind:
  assumes "\<And>x e. Q (Inl x) (fst w, e)" "\<And>x e. runs (f x) (fst w, e) Q"
  shows "runs (bind_io (on_env m) f) w Q"
  by (intro runs_bind runs_on_env) (auto simp: assms split: sum.split)

lemma runs_env_bind_value:
  assumes "\<And>x e. Q (Inl x) (fst w, e)" "\<And>x e. fst (m (snd w)) = Inr x \<Longrightarrow> runs (f x) (fst w, e) Q"
  shows "runs (bind_io (on_env m) f) w Q"
  using assms by (cases "m (snd w)"; cases w) (auto simp: runs_def bind_io_def on_env_def split: sum.splits)

lemma runs_env_then:
  assumes "\<And>x e. Q (Inl x) (fst w, e)" "\<And>e. runs k (fst w, e) Q"
  shows "runs (then_io (on_env m) k) w Q"
  by (intro runs_then runs_on_env) (auto simp: assms split: sum.split)

lemma runs_db_bind:
  assumes "\<And>x s. m (fst w) = (Inl x, s) \<Longrightarrow> Q (Inl x) (s, snd w)"
    "\<And>x s. m (fst w) = (Inr x, s) \<Longrightarrow> runs (f x) (s, snd w) Q"
  shows "runs (bind_io (on_db m) f) w Q"
  by (intro runs_bind runs_on_db runsI) (auto simp: assms split: sum.split)

lemma runs_lift_bind:
  assumes "\<And>x. r = Inl x \<Longrightarrow> Q (Inl x) w" "\<And>x. r = Inr x \<Longrightarrow> runs (f x) w Q"
  shows "runs (bind_io (lift r) f) w Q"
  by (intro runs_bind runs_pure) (auto simp: assms split: sum.split)

lemma runs_seq:
  assumes "runs m w P" "\<And>x w'. P (Inl x) w' \<Longrightarrow> Q (Inl x) w'" "\<And>x w'. P (Inr x) w' \<Longrightarrow> runs (f x) w' Q"
  shows "runs (bind_io m f) w Q"
  by (rule runs_bind, rule runs_mono [OF assms(1)]) (auto simp: assms(2,3) split: sum.split)

lemma runs_gets_bind: "runs (f (g w)) w Q \<Longrightarrow> runs (bind_io (gets g) f) w Q"
  by (simp add: runs_def)

section \<open>The JavaScript Map\<close>

text \<open>
  What the service uses of \<open>Map\<close>: \<open>get\<close>, \<open>has\<close>, \<open>set\<close>,
  \<open>size\<close> and \<open>values()\<close>. A \<open>Map\<close> iterates in insertion order, and
  \<open>set\<close> on a present key keeps its place. The laws of the interface are what the
  clients rely on.
\<close>

locale js_map =
  fixes get :: "'m \<Rightarrow> 'k \<Rightarrow> 'v option"
    and put :: "'m \<Rightarrow> 'k \<Rightarrow> 'v \<Rightarrow> 'm"
    and vals :: "'m \<Rightarrow> 'v list"
    and inv :: "'m \<Rightarrow> bool"
  assumes get_put: "get (put m k v) k' = (if k' = k then Some v else get m k')"
    and put_inv: "inv m \<Longrightarrow> inv (put m k v)"
    and vals_set: "inv m \<Longrightarrow> set (vals m) = {v. \<exists>k. get m k = Some v}"
begin

lemma get_put_same: "get (put m k v) k = Some v"
  and get_put_other: "k' \<noteq> k \<Longrightarrow> get (put m k v) k' = get m k'"
  by (simp_all add: get_put)

lemma get_put_fun: "get (put m k v) = (get m)(k \<mapsto> v)"
  by (auto simp: get_put)

lemma put_vals: "inv m \<Longrightarrow> set (vals (put m k v)) \<subseteq> insert v (set (vals m))"
  by (auto simp: vals_set put_inv get_put split: if_splits)

lemma put_in_vals: "inv m \<Longrightarrow> v \<in> set (vals (put m k v))"
  by (auto simp: vals_set put_inv get_put)

lemma all_vals: "inv m \<Longrightarrow> (\<forall>v \<in> set (vals m). P v) \<longleftrightarrow> (\<forall>k v. get m k = Some v \<longrightarrow> P v)"
  by (auto simp: vals_set)

end

type_synonym ('k, 'v) jsmap = "('k \<times> 'v) list"

definition jm_get :: "('k, 'v) jsmap \<Rightarrow> 'k \<Rightarrow> 'v option" where
  "jm_get m k = map_of m k"

definition jm_has :: "('k, 'v) jsmap \<Rightarrow> 'k \<Rightarrow> bool" where
  "jm_has m k \<longleftrightarrow> jm_get m k \<noteq> None"

definition jm_set :: "('k, 'v) jsmap \<Rightarrow> 'k \<Rightarrow> 'v \<Rightarrow> ('k, 'v) jsmap" where
  "jm_set m k v = AList.update k v m"

definition jm_values :: "('k, 'v) jsmap \<Rightarrow> 'v list" where
  "jm_values m = List.map snd m"

definition jm_inv :: "('k, 'v) jsmap \<Rightarrow> bool" where
  "jm_inv m \<longleftrightarrow> distinct (List.map fst m)"

text \<open>\<open>new Map(entries)\<close>: later entries overwrite earlier ones in place.\<close>

definition jm_new :: "('k \<times> 'v) list \<Rightarrow> ('k, 'v) jsmap" where
  "jm_new xs = fold (\<lambda>(k, v) m. jm_set m k v) xs []"

interpretation jm: js_map jm_get jm_set jm_values jm_inv
proof
  show "jm_get (jm_set m k v) k' = (if k' = k then Some v else jm_get m k')" for m :: "('k, 'v) jsmap" and k v k'
    by (simp add: jm_get_def jm_set_def update_conv')
  show "jm_inv m \<Longrightarrow> jm_inv (jm_set m k v)" for m :: "('k, 'v) jsmap" and k v
    by (simp add: jm_inv_def jm_set_def distinct_update)
  show "jm_inv m \<Longrightarrow> set (jm_values m) = {v. \<exists>k. jm_get m k = Some v}" for m :: "('k, 'v) jsmap"
    by (force simp: jm_inv_def jm_values_def jm_get_def map_of_eq_Some_iff image_iff)
qed

lemma jm_get_Nil [simp]: "jm_get [] k = None"
  and jm_inv_Nil [simp]: "jm_inv []"
  and jm_values_Nil [simp]: "jm_values [] = []"
  by (simp_all add: jm_get_def jm_inv_def jm_values_def)

lemma jm_has_set [simp]: "jm_has (jm_set m k v) k' \<longleftrightarrow> k' = k \<or> jm_has m k'"
  by (auto simp: jm_has_def jm.get_put)

lemma jm_inv_new [simp]: "jm_inv (jm_new xs)"
proof -
  have "jm_inv m \<Longrightarrow> jm_inv (fold (\<lambda>(k, v) m. jm_set m k v) xs m)" for m
    by (induction xs arbitrary: m) (auto simp: jm.put_inv)
  then show ?thesis by (simp add: jm_new_def)
qed

end
