(* ===== verification/Js_String.thy ===== *)
theory Js_String
  imports Prelude
begin

text \<open>
  The JavaScript string operations the service uses. A string is a list of UTF-16 code units;
  each is a \<open>char\<close>, so the model covers the code units below 256 (ISO Latin 1), and every
  function below agrees with JavaScript on that range. Regular expressions of fixed length are
  lists of character classes.
\<close>

section \<open>Character classes\<close>

definition code_unit :: "char \<Rightarrow> nat" where
  "code_unit c = of_char c"

definition is_js_space :: "char \<Rightarrow> bool" where
  "is_js_space c \<longleftrightarrow> (9 \<le> code_unit c \<and> code_unit c \<le> 13) \<or> code_unit c = 32 \<or> code_unit c = 160"

definition in_range :: "nat \<Rightarrow> nat \<Rightarrow> char \<Rightarrow> bool" where
  "in_range lo hi c \<longleftrightarrow> lo \<le> code_unit c \<and> code_unit c \<le> hi"

definition is_digit :: "char \<Rightarrow> bool" where
  "is_digit = in_range 48 57"

definition is_lower_az :: "char \<Rightarrow> bool" where
  "is_lower_az = in_range 97 122"

definition is_upper_az :: "char \<Rightarrow> bool" where
  "is_upper_az = in_range 65 90"

definition is_hex_lower :: "char \<Rightarrow> bool" where
  "is_hex_lower c \<longleftrightarrow> is_digit c \<or> in_range 97 102 c"

definition is_hex :: "char \<Rightarrow> bool" where
  "is_hex c \<longleftrightarrow> is_hex_lower c \<or> in_range 65 70 c"

section \<open>trim, toLowerCase, split\<close>

definition js_trim :: "string \<Rightarrow> string" where
  "js_trim s = rev (dropWhile is_js_space (rev (dropWhile is_js_space s)))"

definition lower_char :: "char \<Rightarrow> char" where
  "lower_char c = (if in_range 65 90 c \<or> in_range 192 214 c \<or> in_range 216 222 c
     then char_of (code_unit c + 32) else c)"

definition js_lower :: "string \<Rightarrow> string" where
  "js_lower s = List.map lower_char s"

fun js_split :: "char \<Rightarrow> string \<Rightarrow> string list" where
  "js_split sep [] = [[]]"
| "js_split sep (c # cs) =
     (if c = sep then [] # js_split sep cs
      else (case js_split sep cs of [] \<Rightarrow> [[c]] | p # ps \<Rightarrow> (c # p) # ps))"

fun js_starts_with :: "string \<Rightarrow> string \<Rightarrow> bool" where
  "js_starts_with s [] = True"
| "js_starts_with [] (p # ps) = False"
| "js_starts_with (c # cs) (p # ps) = (c = p \<and> js_starts_with cs ps)"

fun js_includes :: "string \<Rightarrow> string \<Rightarrow> bool" where
  "js_includes [] sub = (sub = [])"
| "js_includes (c # cs) sub = (js_starts_with (c # cs) sub \<or> js_includes cs sub)"

text \<open>\<open>s.replaceAll(/[\r\n]/g, ' ')\<close>\<close>

definition replace_crlf :: "string \<Rightarrow> string" where
  "replace_crlf s = List.map (\<lambda>c. if code_unit c = 10 \<or> code_unit c = 13 then CHR '' '' else c) s"

section \<open>Fixed-length patterns\<close>

definition matches_classes :: "(char \<Rightarrow> bool) list \<Rightarrow> string \<Rightarrow> bool" where
  "matches_classes ps s \<longleftrightarrow> list_all2 (\<lambda>p c. p c) ps s"

text \<open>\<open>^[class]{lo,hi}$\<close>\<close>

definition matches_bounded :: "(char \<Rightarrow> bool) \<Rightarrow> nat \<Rightarrow> nat \<Rightarrow> string \<Rightarrow> bool" where
  "matches_bounded p lo hi s \<longleftrightarrow> lo \<le> length s \<and> length s \<le> hi \<and> list_all p s"

definition is_dash :: "char \<Rightarrow> bool" where
  "is_dash c \<longleftrightarrow> c = CHR ''-''"

section \<open>Numbers in template literals\<close>

fun nat_str :: "nat \<Rightarrow> string" where
  "nat_str n = (if n < 10 then [char_of (48 + n)] else nat_str (n div 10) @ [char_of (48 + n mod 10)])"

declare nat_str.simps [simp del]

definition int_str :: "int \<Rightarrow> string" where
  "int_str i = (if i < 0 then CHR ''-'' # nat_str (nat (- i)) else nat_str (nat i))"

section \<open>Facts\<close>

lemmas class_defs = code_unit_def in_range_def is_digit_def is_lower_az_def is_upper_az_def
  is_hex_lower_def is_hex_def is_js_space_def is_dash_def

lemma dropWhile_none: "list_all (\<lambda>c. \<not> p c) s \<Longrightarrow> dropWhile p s = s"
  by (cases s) auto

text \<open>The same test on the bits of a character, for evaluation.\<close>

lemma is_hex_lower_bits [code]:
  "is_hex_lower (Char b0 b1 b2 b3 b4 b5 b6 b7) \<longleftrightarrow> \<not> b7 \<and> b5 \<and>
     (if b6 then \<not> b4 \<and> \<not> b3 \<and> (b0 \<or> b1 \<or> b2) \<and> \<not> (b0 \<and> b1 \<and> b2) else b4 \<and> (b3 \<longrightarrow> \<not> b2 \<and> \<not> b1))"
  by (cases b0; cases b1; cases b2; cases b3; cases b4; cases b5; cases b6; cases b7) (simp_all add: class_defs)

lemma js_trim_id: "list_all (\<lambda>c. \<not> is_js_space c) s \<Longrightarrow> js_trim s = s"
  by (simp add: js_trim_def dropWhile_none list_all_rev)

lemma js_trim_Nil [simp]: "js_trim [] = []"
  by (simp add: js_trim_def)

lemma dropWhile_hd: "dropWhile p s = [] \<or> \<not> p (hd (dropWhile p s))"
  by (induction s) auto

lemma dropWhile_stays:
  assumes "s = [] \<or> \<not> p (hd s)"
  shows "dropWhile p s = s"
  using assms by (cases s) auto

lemma js_trim_ends:
  "js_trim s = [] \<or> (\<not> is_js_space (hd (js_trim s)) \<and> \<not> is_js_space (last (js_trim s)))"
proof -
  define t where "t = dropWhile is_js_space s"
  define u where "u = dropWhile is_js_space (rev t)"
  have u: "js_trim s = rev u" by (simp add: js_trim_def t_def u_def)
  obtain pre where pre: "rev t = pre @ u"
    unfolding u_def by (metis takeWhile_dropWhile_id)
  have "\<not> is_js_space (last (rev u))" if "u \<noteq> []"
    using that dropWhile_hd [of is_js_space "rev t"] by (simp add: u_def [symmetric] last_rev)
  moreover have "\<not> is_js_space (hd (rev u))" if "u \<noteq> []"
  proof -
    have "t = rev u @ rev pre" using pre by (metis rev_append rev_rev_ident)
    then have "hd t = hd (rev u)" "t \<noteq> []" using that by simp_all
    then show ?thesis using dropWhile_hd [of is_js_space s] by (simp add: t_def [symmetric])
  qed
  ultimately show ?thesis using u by auto
qed

lemma js_trim_idem [simp]: "js_trim (js_trim s) = js_trim s"
proof -
  have *: "js_trim u = u" if "u = [] \<or> (\<not> is_js_space (hd u) \<and> \<not> is_js_space (last u))" for u
  proof (cases "u = []")
    case False
    then have "dropWhile is_js_space u = u" using that by (simp add: dropWhile_stays)
    moreover have "dropWhile is_js_space (rev u) = rev u"
      using that False by (simp add: dropWhile_stays hd_rev)
    ultimately show ?thesis by (simp add: js_trim_def)
  qed simp
  show ?thesis by (rule *) (rule js_trim_ends)
qed

lemma length_js_lower [simp]: "length (js_lower s) = length s"
  by (simp add: js_lower_def)

lemma lower_char_code: "code_unit c < 192 \<Longrightarrow>
    code_unit (lower_char c) = (if in_range 65 90 c then code_unit c + 32 else code_unit c)"
  by (auto simp: lower_char_def class_defs)

lemma lower_char_idem [simp]: "lower_char (lower_char c) = lower_char c"
  by (auto simp: lower_char_def class_defs)

lemma js_lower_idem [simp]: "js_lower (js_lower s) = js_lower s"
  by (simp add: js_lower_def)

lemma lower_char_hex: "is_hex c \<Longrightarrow> is_hex_lower (lower_char c)"
  by (auto simp: lower_char_def class_defs)

lemma hex_lower_fixed: "is_hex_lower c \<Longrightarrow> lower_char c = c"
  and hex_lower_hex: "is_hex_lower c \<Longrightarrow> is_hex c"
  and hex_not_space: "is_hex c \<Longrightarrow> \<not> is_js_space c"
  and dash_fixed: "is_dash c \<Longrightarrow> lower_char c = c"
  and dash_not_space: "is_dash c \<Longrightarrow> \<not> is_js_space c"
  and digit_fixed: "is_digit c \<Longrightarrow> lower_char c = c"
  by (auto simp: lower_char_def class_defs)

lemma matches_classes_all:
  assumes "matches_classes ps s" "\<And>p c. p \<in> set ps \<Longrightarrow> p c \<Longrightarrow> q c"
  shows "list_all q s"
  using assms unfolding matches_classes_def
  by (induction rule: list_all2_induct) auto

lemma matches_classes_map:
  assumes "matches_classes ps s" "list_all2 (\<lambda>p q. \<forall>c. p c \<longrightarrow> q (f c)) ps qs"
  shows "matches_classes qs (List.map f s)"
  using assms unfolding matches_classes_def
proof (induction arbitrary: qs rule: list_all2_induct)
  case Nil
  then show ?case by simp
next
  case (Cons p ps c s)
  then obtain q qs' where "qs = q # qs'" "\<forall>c. p c \<longrightarrow> q (f c)"
    "list_all2 (\<lambda>p q. \<forall>c. p c \<longrightarrow> q (f c)) ps qs'"
    by (auto simp: list_all2_Cons1)
  with Cons show ?case by auto
qed

lemma matches_classes_length: "matches_classes ps s \<Longrightarrow> length s = length ps"
  by (simp add: matches_classes_def list_all2_lengthD)

lemma js_split_nonempty [simp]: "js_split sep s \<noteq> []"
  by (induction s) (auto split: list.splits)

lemma js_split_no_sep: "p \<in> set (js_split sep s) \<Longrightarrow> sep \<notin> set p"
  by (induction s arbitrary: p) (auto split: list.splits if_splits)

text \<open>Joining the pieces with the separator gives the string back.\<close>

fun js_join :: "char \<Rightarrow> string list \<Rightarrow> string" where
  "js_join sep [] = []"
| "js_join sep [p] = p"
| "js_join sep (p # q # ps) = p @ sep # js_join sep (q # ps)"

lemma js_join_head: "ps \<noteq> [] \<Longrightarrow> js_join sep (p # ps) = p @ sep # js_join sep ps"
  by (cases ps) auto

lemma js_join_prefix: "js_join sep ((c # p) # ps) = c # js_join sep (p # ps)"
  by (cases ps) auto

lemma js_join_split [simp]: "js_join sep (js_split sep s) = s"
proof (induction s)
  case (Cons c s)
  then show ?case
    by (cases "js_split sep s") (auto simp: js_join_head js_join_prefix)
qed simp

lemma js_split_unit: "sep \<notin> set s \<Longrightarrow> js_split sep s = [s]"
  by (induction s) auto

lemma js_split_app: "sep \<notin> set p \<Longrightarrow> js_split sep (p @ sep # s) = p # js_split sep s"
  by (induction p) auto

end
