(* ===== verification/Domain.thy ===== *)
theory Domain
  imports Js_String
begin

text \<open>
  The domain model, \<open>src/src/domain\<close>: branded ids and their guards, the catalogue
  entities, reservation requests with their status machine, reservations, and the
  authenticated user. Optional fields are options; \<open>Foo | null\<close> results are options too.
\<close>

section \<open>Ids\<close>

type_synonym id = string

definition create_non_empty_id :: "string \<Rightarrow> string \<Rightarrow> js_error + id" where
  "create_non_empty_id value typeName =
    (let trimmedValue = js_trim value in
     if length trimmedValue = 0 then Inl (Error (typeName @ '' cannot be empty''))
     else Inr trimmedValue)"

definition uuid_pattern :: "(char \<Rightarrow> bool) list" where
  "uuid_pattern = replicate 8 is_hex @ [is_dash] @ replicate 4 is_hex @ [is_dash] @
     [in_range 49 56] @ replicate 3 is_hex @ [is_dash] @
     [\<lambda>c. c \<in> set ''89abAB''] @ replicate 3 is_hex @ [is_dash] @ replicate 12 is_hex"

definition create_uuid_id :: "string \<Rightarrow> string \<Rightarrow> js_error + id" where
  "create_uuid_id value typeName =
    (let trimmedValue = js_trim value in
     if \<not> matches_classes uuid_pattern trimmedValue then Inl (Error (typeName @ '' must be a UUID''))
     else Inr (js_lower trimmedValue))"

definition create_movie_id :: "string \<Rightarrow> js_error + id" where
  "create_movie_id value = create_uuid_id value ''MovieId''"

definition create_movie_provider_id :: "string \<Rightarrow> js_error + id" where
  "create_movie_provider_id value = create_uuid_id value ''MovieProviderId''"

definition create_auditorium_id :: "string \<Rightarrow> js_error + id" where
  "create_auditorium_id value = create_uuid_id value ''AuditoriumId''"

definition create_screening_id :: "string \<Rightarrow> js_error + id" where
  "create_screening_id value = create_uuid_id value ''ScreeningId''"

definition create_seat_id :: "string \<Rightarrow> js_error + id" where
  "create_seat_id value = create_uuid_id value ''SeatId''"

definition create_reservation_id :: "string \<Rightarrow> js_error + id" where
  "create_reservation_id value = create_uuid_id value ''ReservationId''"

definition create_reservation_request_id :: "string \<Rightarrow> js_error + id" where
  "create_reservation_request_id value = create_uuid_id value ''ReservationRequestId''"

definition create_user_id :: "string \<Rightarrow> js_error + id" where
  "create_user_id value =
    (let trimmedValue = js_trim value in
     if length trimmedValue = 0 then Inl (Error ''UserId cannot be empty'') else Inr trimmedValue)"

definition max_safe_integer :: int where
  "max_safe_integer = 9007199254740991"

definition create_reservation_request_sequence :: "int \<Rightarrow> js_error + int" where
  "create_reservation_request_sequence value =
    (if \<bar>value\<bar> > max_safe_integer \<or> value < 1
     then Inl (Error ''ReservationRequestSequence must be a positive safe integer'') else Inr value)"

section \<open>Catalogue\<close>

record movie_provider =
  mp_id :: id
  mp_code :: string
  mp_name :: string

record auditorium =
  au_id :: id
  au_movieProviderId :: id
  au_name :: string

record movie =
  mv_id :: id
  mv_movieProviderId :: id
  mv_title :: string
  mv_rating :: string
  mv_durationMinutes :: int

record screening =
  sc_id :: id
  sc_movieProviderId :: id
  sc_movieId :: id
  sc_auditoriumId :: id
  sc_startsAt :: string
  sc_endsAt :: string

record seat =
  st_id :: id
  st_movieProviderId :: id
  st_auditoriumId :: id
  st_row :: string
  st_number :: int

section \<open>Reservation requests\<close>

datatype reservation_request_status = REQUESTED | PROCESSING | CONFIRMED | REJECTED | FAILED

fun status_str :: "reservation_request_status \<Rightarrow> string" where
  "status_str REQUESTED = ''REQUESTED''"
| "status_str PROCESSING = ''PROCESSING''"
| "status_str CONFIRMED = ''CONFIRMED''"
| "status_str REJECTED = ''REJECTED''"
| "status_str FAILED = ''FAILED''"

instantiation reservation_request_status :: enum
begin

definition enum_reservation_request_status :: "reservation_request_status list" where
  "enum_reservation_request_status = [REQUESTED, PROCESSING, CONFIRMED, REJECTED, FAILED]"

definition enum_all_reservation_request_status :: "(reservation_request_status \<Rightarrow> bool) \<Rightarrow> bool" where
  "enum_all_reservation_request_status P \<longleftrightarrow> list_all P [REQUESTED, PROCESSING, CONFIRMED, REJECTED, FAILED]"

definition enum_ex_reservation_request_status :: "(reservation_request_status \<Rightarrow> bool) \<Rightarrow> bool" where
  "enum_ex_reservation_request_status P \<longleftrightarrow> list_ex P [REQUESTED, PROCESSING, CONFIRMED, REJECTED, FAILED]"

instance proof (standard, goal_cases)
  case 1
  show ?case by (auto simp: enum_reservation_request_status_def) (metis reservation_request_status.exhaust)
next
  case 2
  show ?case by (simp add: enum_reservation_request_status_def)
next
  case (3 P)
  show ?case by (simp add: enum_all_reservation_request_status_def) (metis reservation_request_status.exhaust)
next
  case (4 P)
  show ?case by (simp add: enum_ex_reservation_request_status_def) (metis reservation_request_status.exhaust)
qed

end

record reservation_request =
  rr_id :: id
  rr_movieProviderId :: id
  rr_screeningId :: id
  rr_seatIds :: "id list"
  rr_requestedByUserId :: id
  rr_status :: reservation_request_status

record create_reservation_request_input =
  cri_id :: id
  cri_movieProviderId :: id
  cri_screeningId :: id
  cri_seatIds :: "id list"
  cri_requestedByUserId :: id

text \<open>\<open>new Set(xs).size\<close> is the number of different elements.\<close>

definition set_size :: "'a list \<Rightarrow> nat" where
  "set_size xs = length (remdups xs)"

definition create_reservation_request :: "create_reservation_request_input \<Rightarrow> js_error + reservation_request" where
  "create_reservation_request input =
    (if length (cri_seatIds input) = 0
     then Inl (Error ''ReservationRequest must include at least one seat'')
     else if set_size (cri_seatIds input) \<noteq> length (cri_seatIds input)
     then Inl (Error ''ReservationRequest cannot include duplicate seats'')
     else Inr \<lparr>rr_id = cri_id input, rr_movieProviderId = cri_movieProviderId input,
               rr_screeningId = cri_screeningId input, rr_seatIds = cri_seatIds input,
               rr_requestedByUserId = cri_requestedByUserId input, rr_status = REQUESTED\<rparr>)"

definition transition_reservation_request ::
  "reservation_request \<Rightarrow> reservation_request_status \<Rightarrow> reservation_request_status list
    \<Rightarrow> js_error + reservation_request" where
  "transition_reservation_request request nextStatus allowedStatuses =
    (if rr_status request \<notin> set allowedStatuses
     then Inl (Error (''Cannot transition reservation request '' @ rr_id request @ '' from '' @
                      status_str (rr_status request) @ '' to '' @ status_str nextStatus))
     else Inr (request\<lparr>rr_status := nextStatus\<rparr>))"

definition start_processing_reservation_request :: "reservation_request \<Rightarrow> js_error + reservation_request" where
  "start_processing_reservation_request request = transition_reservation_request request PROCESSING [REQUESTED]"

definition confirm_reservation_request :: "reservation_request \<Rightarrow> js_error + reservation_request" where
  "confirm_reservation_request request = transition_reservation_request request CONFIRMED [PROCESSING]"

definition reject_reservation_request :: "reservation_request \<Rightarrow> js_error + reservation_request" where
  "reject_reservation_request request = transition_reservation_request request REJECTED [PROCESSING]"

definition fail_reservation_request :: "reservation_request \<Rightarrow> js_error + reservation_request" where
  "fail_reservation_request request = transition_reservation_request request FAILED [PROCESSING]"

section \<open>Reservations\<close>

record reservation =
  rv_id :: id
  rv_movieProviderId :: id
  rv_reservationRequestId :: id
  rv_screeningId :: id
  rv_seatIds :: "id list"
  rv_reservedByUserId :: id
  rv_confirmedAt :: string

text \<open>The input type of the factory has exactly the fields of a reservation.\<close>

type_synonym create_reservation_input = reservation

definition create_reservation :: "create_reservation_input \<Rightarrow> js_error + reservation" where
  "create_reservation input =
    (if length (rv_seatIds input) = 0 then Inl (Error ''Reservation must include at least one seat'')
     else if set_size (rv_seatIds input) \<noteq> length (rv_seatIds input)
     then Inl (Error ''Reservation cannot include duplicate seats'')
     else Inr input)"

section \<open>Users\<close>

datatype user_role = CUSTOMER | TENANT_ADMIN | SYSTEM

fun role_str :: "user_role \<Rightarrow> string" where
  "role_str CUSTOMER = ''CUSTOMER''"
| "role_str TENANT_ADMIN = ''TENANT_ADMIN''"
| "role_str SYSTEM = ''SYSTEM''"

instantiation user_role :: enum
begin

definition enum_user_role :: "user_role list" where
  "enum_user_role = [CUSTOMER, TENANT_ADMIN, SYSTEM]"

definition enum_all_user_role :: "(user_role \<Rightarrow> bool) \<Rightarrow> bool" where
  "enum_all_user_role P \<longleftrightarrow> list_all P [CUSTOMER, TENANT_ADMIN, SYSTEM]"

definition enum_ex_user_role :: "(user_role \<Rightarrow> bool) \<Rightarrow> bool" where
  "enum_ex_user_role P \<longleftrightarrow> list_ex P [CUSTOMER, TENANT_ADMIN, SYSTEM]"

instance proof (standard, goal_cases)
  case 1
  show ?case by (auto simp: enum_user_role_def) (metis user_role.exhaust)
next
  case 2
  show ?case by (simp add: enum_user_role_def)
next
  case (3 P)
  show ?case by (simp add: enum_all_user_role_def) (metis user_role.exhaust)
next
  case (4 P)
  show ?case by (simp add: enum_ex_user_role_def) (metis user_role.exhaust)
qed

end

record authenticated_user =
  us_userId :: id
  us_username :: string
  us_email :: string
  us_roles :: "user_role list"
  us_scopes :: "string list"
  us_movieProviderId :: id
  us_movieProviderCode :: "string option"

section \<open>Facts\<close>

lemmas create_id_defs = create_movie_id_def create_movie_provider_id_def create_auditorium_id_def
  create_screening_id_def create_seat_id_def create_reservation_id_def
  create_reservation_request_id_def

lemmas transition_defs = start_processing_reservation_request_def confirm_reservation_request_def
  reject_reservation_request_def fail_reservation_request_def transition_reservation_request_def

lemma set_size_distinct: "set_size xs = length xs \<longleftrightarrow> distinct xs"
  by (simp add: set_size_def)

definition uuid_lower_pattern :: "(char \<Rightarrow> bool) list" where
  "uuid_lower_pattern = replicate 8 is_hex_lower @ [is_dash] @ replicate 4 is_hex_lower @ [is_dash] @
     [in_range 49 56] @ replicate 3 is_hex_lower @ [is_dash] @
     [\<lambda>c. c \<in> set ''89ab''] @ replicate 3 is_hex_lower @ [is_dash] @ replicate 12 is_hex_lower"

lemma uuid_pattern_chars:
  "matches_classes uuid_pattern s \<Longrightarrow> list_all (\<lambda>c. is_hex c \<or> is_dash c) s"
  by (erule matches_classes_all) (auto simp: uuid_pattern_def class_defs)

lemma list_all2_rep: "P x y \<Longrightarrow> list_all2 P (replicate n x) (replicate n y)"
  by (induction n) auto

lemma list_all2_one: "P x y \<Longrightarrow> list_all2 P [x] [y]"
  by simp

lemma version_fixed: "in_range 49 56 c \<Longrightarrow> lower_char c = c"
  by (rule digit_fixed) (simp add: is_digit_def in_range_def)

lemma variant_fixed: "c \<in> set ''89ab'' \<Longrightarrow> lower_char c = c"
  by (rule hex_lower_fixed) (auto simp: class_defs)

lemma lower_AB: "lower_char CHR ''A'' = CHR ''a''" "lower_char CHR ''B'' = CHR ''b''"
  by code_simp+

lemma variant_lower:
  assumes "c \<in> set ''89abAB''"
  shows "lower_char c \<in> set ''89ab''"
proof (cases "c \<in> set ''89ab''")
  case True
  then show ?thesis by (simp only: variant_fixed)
next
  case False
  with assms have "c = CHR ''A'' \<or> c = CHR ''B''" by simp
  then show ?thesis by (elim disjE) (simp_all add: lower_AB)
qed

lemma uuid_lower_matches:
  assumes "matches_classes uuid_pattern s"
  shows "matches_classes uuid_lower_pattern (js_lower s)"
  unfolding js_lower_def
proof (rule matches_classes_map [OF assms])
  show "list_all2 (\<lambda>p q. \<forall>c. p c \<longrightarrow> q (lower_char c)) uuid_pattern uuid_lower_pattern"
    unfolding uuid_pattern_def uuid_lower_pattern_def
    by (intro list_all2_appendI list_all2_rep list_all2_one allI impI)
      (simp_all only: lower_char_hex dash_fixed version_fixed variant_lower)
qed

lemma matches_classes_weaken:
  assumes "matches_classes ps s" "list_all2 (\<lambda>p q. \<forall>c. p c \<longrightarrow> q c) ps qs"
  shows "matches_classes qs s"
  using matches_classes_map [OF assms(1), of "\<lambda>c. c" qs] assms(2) by simp

lemma uuid_lower_pattern_weaken: "matches_classes uuid_lower_pattern s \<Longrightarrow> matches_classes uuid_pattern s"
  unfolding uuid_pattern_def uuid_lower_pattern_def
  by (erule matches_classes_weaken, intro list_all2_appendI list_all2_rep list_all2_one allI impI)
    (auto simp: hex_lower_hex)

lemma uuid_lower_fixed: "matches_classes uuid_lower_pattern s \<Longrightarrow> js_lower s = s"
proof -
  assume "matches_classes uuid_lower_pattern s"
  then have "list_all (\<lambda>c. lower_char c = c) s"
    by (rule matches_classes_all)
      (auto simp: uuid_lower_pattern_def hex_lower_fixed dash_fixed version_fixed
        intro: variant_fixed [simplified])
  then show ?thesis by (simp add: js_lower_def list_all_iff map_idI)
qed

lemma uuid_trim: "matches_classes uuid_pattern s \<Longrightarrow> js_trim s = s"
  by (rule js_trim_id, drule uuid_pattern_chars)
    (auto simp: list_all_iff dest: hex_not_space dash_not_space)

lemma create_uuid_id_Inr:
  "create_uuid_id v t = Inr u \<longleftrightarrow> matches_classes uuid_pattern (js_trim v) \<and> u = js_lower (js_trim v)"
  by (auto simp: create_uuid_id_def Let_def)

text \<open>The UUID guard has a normal form. A value it accepts comes back as a canonical
  lower-case UUID; running any of the id factories on that result again accepts it and changes
  nothing, and a value it rejects is exactly one whose trimmed text is not a UUID.\<close>

lemma create_uuid_id_normal_form:
  "case create_uuid_id value typeName of
     Inr u \<Rightarrow> matches_classes uuid_lower_pattern u \<and> length u = 36 \<and>
              (create_uuid_id u other = Inr u) \<and> create_screening_id u = Inr u \<and>
              create_movie_provider_id u = Inr u \<and> create_seat_id u = Inr u
   | Inl e \<Rightarrow> e = Error (typeName @ '' must be a UUID'') \<and>
              \<not> matches_classes uuid_pattern (js_trim value)"
proof (cases "create_uuid_id value typeName")
  case (Inl e)
  then show ?thesis by (auto simp: create_uuid_id_def Let_def split: if_splits)
next
  case (Inr u)
  then have m: "matches_classes uuid_lower_pattern u"
    by (auto simp: create_uuid_id_Inr intro: uuid_lower_matches)
  then have "create_uuid_id u n = Inr u" for n
    by (simp add: create_uuid_id_Inr uuid_lower_pattern_weaken uuid_trim uuid_lower_fixed)
  moreover have "length u = 36"
    using matches_classes_length [OF m] by (simp add: uuid_lower_pattern_def)
  ultimately show ?thesis using Inr m by (simp add: create_id_defs)
qed

lemma create_reservation_request_Inr:
  "create_reservation_request input = Inr r \<longleftrightarrow>
     cri_seatIds input \<noteq> [] \<and> distinct (cri_seatIds input) \<and>
     r = \<lparr>rr_id = cri_id input, rr_movieProviderId = cri_movieProviderId input,
          rr_screeningId = cri_screeningId input, rr_seatIds = cri_seatIds input,
          rr_requestedByUserId = cri_requestedByUserId input, rr_status = REQUESTED\<rparr>"
  by (auto simp: create_reservation_request_def set_size_distinct)

lemma create_reservation_Inr:
  "create_reservation input = Inr r \<longleftrightarrow> rv_seatIds input \<noteq> [] \<and> distinct (rv_seatIds input) \<and> r = input"
  by (auto simp: create_reservation_def set_size_distinct)

lemma transitions_Inr [simp]:
  "start_processing_reservation_request r = Inr r' \<longleftrightarrow>
     rr_status r = REQUESTED \<and> r' = r\<lparr>rr_status := PROCESSING\<rparr>"
  "confirm_reservation_request r = Inr r' \<longleftrightarrow>
     rr_status r = PROCESSING \<and> r' = r\<lparr>rr_status := CONFIRMED\<rparr>"
  "reject_reservation_request r = Inr r' \<longleftrightarrow>
     rr_status r = PROCESSING \<and> r' = r\<lparr>rr_status := REJECTED\<rparr>"
  "fail_reservation_request r = Inr r' \<longleftrightarrow>
     rr_status r = PROCESSING \<and> r' = r\<lparr>rr_status := FAILED\<rparr>"
  by (auto simp: transition_defs)

lemma transitions_ok:
  "rr_status r = REQUESTED \<Longrightarrow> start_processing_reservation_request r = Inr (r\<lparr>rr_status := PROCESSING\<rparr>)"
  "rr_status r = PROCESSING \<Longrightarrow> confirm_reservation_request r = Inr (r\<lparr>rr_status := CONFIRMED\<rparr>)"
  "rr_status r = PROCESSING \<Longrightarrow> reject_reservation_request r = Inr (r\<lparr>rr_status := REJECTED\<rparr>)"
  "rr_status r = PROCESSING \<Longrightarrow> fail_reservation_request r = Inr (r\<lparr>rr_status := FAILED\<rparr>)"
  by simp_all

lemma create_sequence_Inr [simp]:
  "create_reservation_request_sequence v = Inr n \<longleftrightarrow> 1 \<le> v \<and> v \<le> max_safe_integer \<and> n = v"
  by (auto simp: create_reservation_request_sequence_def)

end
