(* ===== verification/Ports.thy ===== *)
theory Ports
  imports Domain
begin

text \<open>
  The data and the ports of the application layer
  (\<open>src/src/application/movie-reservations\<close>): processing attempts, claimed work items,
  and the interfaces the use cases are written against. A port is a record of its operations
  over the state \<open>'s\<close> of the provider; the components take such records as arguments,
  the way the classes take their collaborators in the constructor.
\<close>

section \<open>Work items and attempts\<close>

record work_observability_context =
  oc_correlationId :: string
  oc_requestId :: string
  oc_traceparent :: string
  oc_tracestate :: "string option"

record claimed_reservation_request =
  cl_reservationRequest :: reservation_request
  cl_observabilityContext :: "work_observability_context option"
  cl_sequence :: int
  cl_claimedBy :: string
  cl_claimToken :: string
  cl_claimedAt :: string
  cl_claimExpiresAt :: string
  cl_leaseTimeoutCount :: int
  cl_transientFailureCount :: int

record processing_attempt_base =
  at_reservationRequestId :: id
  at_sequence :: int
  at_startedAt :: string
  at_completedAt :: string

datatype rejection_reason = Seat_Conflict

datatype failure_reason = Unexpected_Error | Lease_Timeout

record confirmed_attempt = processing_attempt_base +
  at_reservationId :: id

record rejected_attempt = processing_attempt_base +
  at_rejectionReason :: rejection_reason
  at_conflictingReservationId :: id

record failed_attempt = processing_attempt_base +
  at_failureReason :: failure_reason

datatype processing_attempt =
    Confirmed_Attempt confirmed_attempt
  | Rejected_Attempt rejected_attempt
  | Failed_Attempt failed_attempt

fun attempt_request_id :: "processing_attempt \<Rightarrow> id" where
  "attempt_request_id (Confirmed_Attempt a) = at_reservationRequestId a"
| "attempt_request_id (Rejected_Attempt a) = at_reservationRequestId a"
| "attempt_request_id (Failed_Attempt a) = at_reservationRequestId a"

section \<open>The work repository port\<close>

record claim_input =
  ci_workerId :: string
  ci_claimToken :: string
  ci_claimedAt :: string
  ci_claimExpiresAt :: string
  ci_maxLeaseTimeouts :: int
  ci_maxTransientFailures :: int

record heartbeat_input =
  hb_claimedWorkItem :: claimed_reservation_request
  hb_heartbeatAt :: string
  hb_claimExpiresAt :: string

record confirm_input =
  co_claimedWorkItem :: claimed_reservation_request
  co_reservation :: reservation
  co_attempt :: confirmed_attempt

datatype confirm_result =
    Confirm_Confirmed reservation_request
  | Confirm_Rejected reservation_request rejected_attempt

record 's work_repository_ops =
  wr_claimNext :: "claim_input \<Rightarrow> ('s, claimed_reservation_request option) io"
  wr_heartbeat :: "heartbeat_input \<Rightarrow> ('s, bool) io"
  wr_findConflict :: "id \<Rightarrow> id list \<Rightarrow> ('s, reservation option) io"
  wr_confirm :: "confirm_input \<Rightarrow> ('s, confirm_result) io"
  wr_reject :: "claimed_reservation_request \<Rightarrow> rejected_attempt \<Rightarrow> ('s, reservation_request) io"
  wr_release :: "claimed_reservation_request \<Rightarrow> failed_attempt \<Rightarrow> ('s, reservation_request) io"
  wr_fail :: "claimed_reservation_request \<Rightarrow> failed_attempt \<Rightarrow> ('s, reservation_request) io"
  wr_findAttempts :: "id \<Rightarrow> ('s, processing_attempt list) io"

section \<open>The catalogue and request repository port\<close>

record 's movie_repository_ops =
  mr_findMovieProviderById :: "id \<Rightarrow> ('s, movie_provider option) io"
  mr_findMoviesByProviderId :: "id \<Rightarrow> ('s, movie list) io"
  mr_findMovieById :: "id \<Rightarrow> id \<Rightarrow> ('s, movie option) io"
  mr_findScreeningsByProviderId :: "id \<Rightarrow> id option \<Rightarrow> ('s, screening list) io"
  mr_findScreeningForProvider :: "id \<Rightarrow> id \<Rightarrow> ('s, screening option) io"
  mr_findSeatsByScreeningId :: "id \<Rightarrow> id \<Rightarrow> ('s, seat list) io"
  mr_findSeatsByScreeningIds :: "id \<Rightarrow> id list \<Rightarrow> ('s, (id, seat list) jsmap) io"
  mr_findSeatsByIdsForScreening :: "id \<Rightarrow> id \<Rightarrow> id list \<Rightarrow> ('s, seat list) io"
  mr_findReservationRequestById :: "id \<Rightarrow> ('s, reservation_request option) io"
  mr_saveReservationRequest :: "reservation_request \<Rightarrow> work_observability_context option \<Rightarrow> ('s, unit) io"
  mr_findReservationById :: "id \<Rightarrow> ('s, reservation option) io"
  mr_findReservationByReservationRequestId :: "id \<Rightarrow> ('s, reservation option) io"

section \<open>Screening availability\<close>

record seat_availability =
  sa_seatId :: id
  sa_available :: bool

record screening_availability =
  av_screeningId :: id
  av_seats :: "seat_availability list"

section \<open>Observability, clock, ids and failure simulation\<close>

datatype processor_outcome =
    O_No_Pending_Request | O_Confirmed | O_Rejected | O_Retryable_Failure | O_Failed

record span_attributes =
  sp_reservationRequestId :: id
  sp_sequence :: int
  sp_observabilityContext :: "work_observability_context option"

record outcome_attributes =
  oa_outcome :: processor_outcome
  oa_reservationRequestId :: "id option"
  oa_sequence :: "int option"
  oa_reason :: "string option"
  oa_durationNs :: int
  oa_observabilityContext :: "work_observability_context option"

text \<open>
  The environment of the use cases: every collaborator other than the repositories. Each
  operation works on a state \<open>'e\<close> of its own and may throw. The span wrapper
  \<open>runWithReservationProcessorSpan(attributes, operation)\<close> is given by what it does around
  the operation: before it, when it throws, and in \<open>finally\<close>. The reservation ids are
  generated by the environment; \<open>hrtime\<close> is \<open>process.hrtime.bigint()\<close>.
\<close>

record 'e environment =
  en_hrtime :: "('e, int) io"
  en_nowIsoString :: "('e, string) io"
  en_randomUUID :: "('e, string) io"
  en_createClaimToken :: "('e, string) io option"
  en_generateReservationId :: "('e, id) io"
  en_generateReservationRequestId :: "('e, id) io"
  en_currentContext :: "('e, work_observability_context option) io"
  en_requestCreated :: "id \<Rightarrow> ('e, unit) io"
  en_spanStart :: "span_attributes \<Rightarrow> ('e, unit) io"
  en_spanError :: "js_error \<Rightarrow> ('e, unit) io"
  en_spanEnd :: "('e, unit) io"
  en_claimed :: "span_attributes \<Rightarrow> ('e, unit) io"
  en_outcome :: "outcome_attributes \<Rightarrow> ('e, unit) io"
  en_exception :: "js_error \<Rightarrow> ('e, unit) io"
  en_shouldFail :: "id \<Rightarrow> ('e, bool) io"

end
