(* ===== verification/Iso_Time.thy ===== *)
theory Iso_Time
  imports Js_String
begin

text \<open>
  The part of JavaScript's \<open>Date\<close> the service computes with: \<open>toISOString()\<close>
  of a time value (milliseconds since 1970, UTC) and \<open>new Date(s).getTime()\<close> on strings
  of that format. \<open>None\<close> stands for \<open>NaN\<close>. Every timestamp of the service is the
  result of \<open>toISOString()\<close>; the other formats \<open>Date.parse\<close> accepts are not
  modelled and read as \<open>NaN\<close>.

  Days are counted as in ECMA-262: \<open>day_from_year y\<close> is the day number of 1 January
  of \<open>y\<close>, and the year of a day is found by climbing from a lower estimate.
\<close>

section \<open>Decimal fields\<close>

definition digit_char :: "int \<Rightarrow> char" where
  "digit_char d = char_of (48 + nat d)"

definition digit_val :: "char \<Rightarrow> int" where
  "digit_val c = int (code_unit c) - 48"

fun digits :: "nat \<Rightarrow> int \<Rightarrow> string" where
  "digits 0 n = []"
| "digits (Suc k) n = digits k (n div 10) @ [digit_char (n mod 10)]"

definition parse_num :: "string \<Rightarrow> int option" where
  "parse_num s = (if s \<noteq> [] \<and> list_all is_digit s
     then Some (foldl (\<lambda>a c. a * 10 + digit_val c) 0 s) else None)"

lemma length_digits [simp]: "length (digits k n) = k"
  by (induction k arbitrary: n) auto

lemma digit_char_val:
  assumes "0 \<le> d" "d < 10"
  shows "digit_val (digit_char d) = d" "is_digit (digit_char d)"
  using assms by (auto simp: digit_val_def digit_char_def class_defs)

lemma digits_are_digits: "list_all is_digit (digits k n)"
  by (induction k arbitrary: n) (auto simp: digit_char_val)

lemma foldl_digits: "0 \<le> n \<Longrightarrow> n < 10 ^ k \<Longrightarrow>
    foldl (\<lambda>a c. a * 10 + digit_val c) 0 (digits k n) = n"
proof (induction k arbitrary: n)
  case (Suc k)
  then have "0 \<le> n div 10" "n div 10 < 10 ^ k" by simp_all
  with Suc.IH show ?case by (simp add: digit_char_val)
qed simp

lemma parse_digits [simp]: "0 < k \<Longrightarrow> 0 \<le> n \<Longrightarrow> n < 10 ^ k \<Longrightarrow> parse_num (digits k n) = Some n"
  by (auto simp: parse_num_def digits_are_digits foldl_digits simp flip: length_greater_0_conv)

section \<open>Calendar\<close>

definition day_from_year :: "int \<Rightarrow> int" where
  "day_from_year y = 365 * (y - 1970) + (y - 1969) div 4 - (y - 1901) div 100 + (y - 1601) div 400"

definition is_leap :: "int \<Rightarrow> bool" where
  "is_leap y \<longleftrightarrow> (y mod 4 = 0 \<and> y mod 100 \<noteq> 0) \<or> y mod 400 = 0"

lemma div_next: "0 < k \<Longrightarrow> (m + 1) div k = m div k + (if (m + 1) mod k = 0 then 1 else 0)" for m k :: int
proof -
  assume k: "0 < k"
  have m: "m = k * (m div k) + m mod k" and r: "0 \<le> m mod k" "m mod k < k"
    using k by simp_all
  show ?thesis
  proof (cases "m mod k = k - 1")
    case True
    then have eq: "m + 1 = k * (m div k + 1)" unfolding distrib_left using m by linarith
    have "(m + 1) div k = m div k + 1" "(m + 1) mod k = 0"
      unfolding eq using k by simp_all
    then show ?thesis by simp
  next
    case False
    then have eq: "m + 1 = k * (m div k) + (m mod k + 1)" and lt: "m mod k + 1 < k"
      using m r by linarith+
    have "(m + 1) div k = m div k" "(m + 1) mod k = m mod k + 1"
      using int_div_pos_eq [OF eq] int_mod_pos_eq [OF eq] r lt by linarith+
    then show ?thesis using r by simp
  qed
qed

lemma dvd_minus_iff': "(k::int) dvd n \<Longrightarrow> k dvd y - n \<longleftrightarrow> k dvd y"
  using dvd_add_left_iff [of k n "y - n"] by simp

lemma day_from_year_Suc: "day_from_year (y + 1) = day_from_year y + (if is_leap y then 366 else 365)"
proof -
  have dvd: "4 dvd y - 1968 \<longleftrightarrow> 4 dvd y" "100 dvd y - 1900 \<longleftrightarrow> 100 dvd y"
    "400 dvd y - 1600 \<longleftrightarrow> 400 dvd y"
    by (rule dvd_minus_iff', simp)+
  have d4: "(y - 1968) div 4 = (y - 1969) div 4 + (if 4 dvd y then 1 else 0)"
    using div_next [of 4 "y - 1969"] dvd(1) by (simp add: mod_eq_0_iff_dvd)
  have d100: "(y - 1900) div 100 = (y - 1901) div 100 + (if 100 dvd y then 1 else 0)"
    using div_next [of 100 "y - 1901"] dvd(2) by (simp add: mod_eq_0_iff_dvd)
  have d400: "(y - 1600) div 400 = (y - 1601) div 400 + (if 400 dvd y then 1 else 0)"
    using div_next [of 400 "y - 1601"] dvd(3) by (simp add: mod_eq_0_iff_dvd)
  have "400 dvd y \<Longrightarrow> 100 dvd y" "100 dvd y \<Longrightarrow> 4 dvd y"
    by (auto elim: dvd_trans [rotated])
  then have leap: "is_leap y \<longleftrightarrow> (4 dvd y \<and> \<not> 100 dvd y) \<or> 400 dvd y"
    and "(if 4 dvd y then 1 else 0) - (if 100 dvd y then 1 else 0) + (if 400 dvd y then 1 else 0) =
      (if (4 dvd y \<and> \<not> 100 dvd y) \<or> 400 dvd y then 1 else (0::int))"
    by (auto simp only: is_leap_def mod_eq_0_iff_dvd split: if_splits)
  moreover have "a - b + c = L \<Longrightarrow> 365 * (y + 1 - 1970) + (A + a) - (B + b) + (C + c) =
      365 * (y - 1970) + A - B + C + (365 + L)" for a b c A B C L :: int by simp
  moreover have "y + 1 - 1969 = y - 1968" "y + 1 - 1901 = y - 1900" "y + 1 - 1601 = y - 1600"
    "(if P then 366 else 365) = 365 + (if P then 1 else 0 :: int)" for P by simp_all
  ultimately show ?thesis
    unfolding day_from_year_def by (simp only: d4 d100 d400 leap)
qed

lemma day_from_year_less: "day_from_year y < day_from_year (y + 1)"
  by (simp add: day_from_year_Suc)

function climb_year :: "int \<Rightarrow> int \<Rightarrow> int" where
  "climb_year y d = (if day_from_year (y + 1) \<le> d then climb_year (y + 1) d else y)"
  by pat_completeness auto
termination
proof (relation "measure (\<lambda>(y, d). nat (d - day_from_year y + 1))", goal_cases)
  case (2 y d)
  then show ?case using day_from_year_less [of y] by simp
qed simp

declare climb_year.simps [simp del]

definition year_of_day :: "int \<Rightarrow> int" where
  "year_of_day d = climb_year (1970 + (if 0 \<le> d then d div 366 else d div 365)) d"

lemma climb_year_bounds: "day_from_year y \<le> d \<Longrightarrow>
    day_from_year (climb_year y d) \<le> d \<and> d < day_from_year (climb_year y d + 1)"
proof (induction y d rule: climb_year.induct)
  case (1 y d)
  then show ?case by (subst (1 2) climb_year.simps) auto
qed

lemma year_estimate: "day_from_year (1970 + (if 0 \<le> d then d div 366 else d div 365)) \<le> d"
proof (cases "0 \<le> d")
  case True
  have "day_from_year (1970 + k) \<le> 366 * k" if "0 \<le> k" for k
  proof -
    have "4 * ((k + 1) div 4) \<le> k + 1" "k + 69 < 100 * ((k + 69) div 100) + 100"
      "400 * ((k + 369) div 400) \<le> k + 369" "0 \<le> (k + 69) div 100" "k \<noteq> 0 \<Longrightarrow> 1 \<le> k"
      using that by linarith+
    then have "(k + 1) div 4 \<le> k" "(k + 369) div 400 \<le> (k + 69) div 100"
      using that by linarith+
    then have "(k + 1) div 4 - (k + 69) div 100 + (k + 369) div 400 \<le> k" by linarith
    then show ?thesis by (simp add: day_from_year_def algebra_simps)
  qed
  from this [of "d div 366"] True show ?thesis by (simp add: pos_imp_zdiv_nonneg_iff)
next
  case False
  have "day_from_year (1970 + k) \<le> 365 * k" if "k < 0" for k
  proof -
    have "(k + 1) div 4 - (k + 69) div 100 + (k + 369) div 400 \<le> 0"
    proof (cases "k < -6")
      case True
      then show ?thesis by linarith
    next
      case False
      with that have "k \<in> {-6, -5, -4, -3, -2, -1}" by auto
      then show ?thesis by auto
    qed
    then show ?thesis by (simp add: day_from_year_def algebra_simps)
  qed
  from this [of "d div 365"] False show ?thesis by simp linarith
qed

lemma year_of_day: "day_from_year (year_of_day d) \<le> d" "d < day_from_year (year_of_day d + 1)"
  using climb_year_bounds [OF year_estimate] by (simp_all add: year_of_day_def)

definition month_lengths :: "bool \<Rightarrow> int list" where
  "month_lengths leap = [31, if leap then 29 else 28, 31, 30, 31, 30, 31, 31, 30, 31, 30, 31]"

text \<open>\<open>split_month ls n\<close>: the index of the month day \<open>n\<close> of a year lies in, and
  the day within it, both from 0.\<close>

fun split_month :: "int list \<Rightarrow> int \<Rightarrow> nat \<times> int" where
  "split_month [] n = (0, n)"
| "split_month (l # ls) n = (if n < l then (0, n) else (case split_month ls (n - l) of (i, d) \<Rightarrow> (Suc i, d)))"

lemma split_month:
  assumes "0 \<le> n" "n < sum_list ls"
  shows "case split_month ls n of (i, d) \<Rightarrow>
    i < length ls \<and> 0 \<le> d \<and> d < ls ! i \<and> n = sum_list (take i ls) + d"
  using assms
proof (induction ls n rule: split_month.induct)
  case (2 l ls n)
  then show ?case by (cases "split_month ls (n - l)") auto
qed simp

lemma month_lengths_sum: "sum_list (month_lengths leap) = (if leap then 366 else 365)"
  and month_lengths_len [simp]: "length (month_lengths leap) = 12"
  and month_lengths_max: "i < 12 \<Longrightarrow> month_lengths leap ! i \<le> 31"
  by (auto simp: month_lengths_def nth_Cons' split: if_splits)

section \<open>Printing and reading\<close>

definition ms_per_day :: int where
  "ms_per_day = 86400000"

definition max_time :: int where
  "max_time = 8640000000000000"

definition format_year :: "int \<Rightarrow> string" where
  "format_year y = (if 0 \<le> y \<and> y \<le> 9999 then digits 4 y
     else if y < 0 then ''-'' @ digits 6 (- y) else ''+'' @ digits 6 y)"

definition format_rest :: "nat \<Rightarrow> int \<Rightarrow> int \<Rightarrow> string" where
  "format_rest mon d t = ''-'' @ digits 2 (int mon + 1) @ ''-'' @ digits 2 (d + 1) @ ''T'' @
     digits 2 (t div 3600000) @ '':'' @ digits 2 (t div 60000 mod 60) @ '':'' @
     digits 2 (t div 1000 mod 60) @ ''.'' @ digits 3 (t mod 1000) @ ''Z''"

definition to_iso_string :: "int \<Rightarrow> js_error + string" where
  "to_iso_string t = (if \<bar>t\<bar> > max_time then Inl (RangeError ''Invalid time value'')
     else (let day = t div ms_per_day; y = year_of_day day;
               (mon, d) = split_month (month_lengths (is_leap y)) (day - day_from_year y)
           in Inr (format_year y @ format_rest mon d (t mod ms_per_day))))"

definition field :: "nat \<Rightarrow> nat \<Rightarrow> string \<Rightarrow> int option" where
  "field i k s = parse_num (take k (drop i s))"

text \<open>
  \<open>parse_rest y s\<close> reads \<open>-MM-DDTHH:mm:ss.sssZ\<close>. As in V8 a day up to 31 is accepted
  in every month and carries over.
\<close>

definition parse_rest :: "int \<Rightarrow> string \<Rightarrow> int option" where
  "parse_rest y s =
    (if length s = 20 \<and> s ! 0 = CHR ''-'' \<and> s ! 3 = CHR ''-'' \<and> s ! 6 = CHR ''T'' \<and>
        s ! 9 = CHR '':'' \<and> s ! 12 = CHR '':'' \<and> s ! 15 = CHR ''.'' \<and> s ! 19 = CHR ''Z''
     then (case (field 1 2 s, field 4 2 s, field 7 2 s, field 10 2 s, field 13 2 s, field 16 3 s) of
       (Some mon, Some d, Some h, Some mi, Some sec, Some ms) \<Rightarrow>
         if 1 \<le> mon \<and> mon \<le> 12 \<and> 1 \<le> d \<and> d \<le> 31 \<and>
            (h \<le> 23 \<and> mi \<le> 59 \<and> sec \<le> 59 \<or> h = 24 \<and> mi = 0 \<and> sec = 0 \<and> ms = 0)
         then Some ((day_from_year y + sum_list (take (nat (mon - 1)) (month_lengths (is_leap y)))
                     + d - 1) * ms_per_day + h * 3600000 + mi * 60000 + sec * 1000 + ms)
         else None
       | _ \<Rightarrow> None)
     else None)"

definition in_time_range :: "int \<Rightarrow> int option" where
  "in_time_range t = (if \<bar>t\<bar> > max_time then None else Some t)"

definition date_get_time :: "string \<Rightarrow> int option" where
  "date_get_time s =
    (if length s = 24 then
       (case parse_num (take 4 s) of Some y \<Rightarrow> Option.bind (parse_rest y (drop 4 s)) in_time_range
        | None \<Rightarrow> None)
     else if length s = 27 \<and> (s ! 0 = CHR ''+'' \<or> s ! 0 = CHR ''-'') then
       (case field 1 6 s of
          Some y \<Rightarrow> if s ! 0 = CHR ''-'' \<and> y = 0 then None
                    else Option.bind (parse_rest (if s ! 0 = CHR ''-'' then - y else y) (drop 7 s)) in_time_range
        | None \<Rightarrow> None)
     else None)"

lemma length_format_rest [simp]: "length (format_rest mon d t) = 20"
  by (simp add: format_rest_def)

lemma take_app_len: "length xs = n \<Longrightarrow> take n (xs @ ys) = xs"
  and drop_app_len: "length xs = n \<Longrightarrow> drop n (xs @ ys) = ys"
  by auto

lemma sum_parts: "a + (b + (c + e)) = t \<Longrightarrow> (x + (d + 1) - 1) * m + a + b + c + e = (x + d) * m + t"
  for a b c e t x d m :: int
  by simp

lemma fields_format_rest:
  assumes "mon < 12" "0 \<le> d" "d \<le> 30" "0 \<le> t" "t < ms_per_day"
  shows "parse_rest y (format_rest mon d t) = Some ((day_from_year y +
    sum_list (take mon (month_lengths (is_leap y))) + d) * ms_per_day + t)"
proof -
  let ?s = "format_rest mon d t"
  have h: "t div 3600000 < 24" "0 \<le> t div 3600000"
    using assms by (simp_all add: ms_per_day_def pos_imp_zdiv_nonneg_iff)
  have f: "field (Suc 0) 2 ?s = Some (int mon + 1)" "field 4 2 ?s = Some (d + 1)"
    "field 7 2 ?s = Some (t div 3600000)" "field 10 2 ?s = Some (t div 60000 mod 60)"
    "field 13 2 ?s = Some (t div 1000 mod 60)" "field 16 3 ?s = Some (t mod 1000)"
    using assms h by (simp_all add: field_def format_rest_def drop_Cons' take_app_len)
  have l: "?s ! 0 = CHR ''-''" "?s ! 3 = CHR ''-''" "?s ! 6 = CHR ''T''" "?s ! 9 = CHR '':''"
    "?s ! 12 = CHR '':''" "?s ! 15 = CHR ''.''" "?s ! 19 = CHR ''Z''"
    by (simp_all add: format_rest_def nth_append nth_Cons')
  have t: "t div 3600000 * 3600000 + (t div 60000 mod 60 * 60000 + (t div 1000 mod 60 * 1000 + t mod 1000)) = t"
  proof -
    have "t div 60000 = t div 3600000 * 60 + t div 60000 mod 60"
      "t div 1000 = t div 60000 * 60 + t div 1000 mod 60"
      using div_mult_mod_eq [of "t div 60000" 60] div_mult_mod_eq [of "t div 1000" 60]
      by (simp_all add: zdiv_zmult2_eq [symmetric])
    moreover have "t = t div 1000 * 1000 + t mod 1000" by simp
    ultimately show ?thesis by linarith
  qed
  have n: "nat (int mon + 1 - 1) = mon" by simp
  have le: "a < b + 1 \<Longrightarrow> a \<le> b" for a b :: int by simp
  have "t div 3600000 \<le> 23" "t div 60000 mod 60 \<le> 59" "t div 1000 mod 60 \<le> 59"
    using le [of "t div 3600000" 23] le [of "t div 60000 mod 60" 59] le [of "t div 1000 mod 60" 59] h(1)
    by simp_all
  then have g: "1 \<le> int mon + 1 \<and> int mon + 1 \<le> 12 \<and> 1 \<le> d + 1 \<and> d + 1 \<le> 31 \<and>
      (t div 3600000 \<le> 23 \<and> t div 60000 mod 60 \<le> 59 \<and> t div 1000 mod 60 \<le> 59 \<or>
       t div 3600000 = 24 \<and> t div 60000 mod 60 = 0 \<and> t div 1000 mod 60 = 0 \<and> t mod 1000 = 0)"
    using assms(1-3) by (intro conjI disjI1) simp_all
  have v: "(c + (d + 1) - 1) * ms_per_day + t div 3600000 * 3600000 + t div 60000 mod 60 * 60000 +
      t div 1000 mod 60 * 1000 + t mod 1000 = (c + d) * ms_per_day + t" for c
    by (rule sum_parts [OF t])
  show ?thesis
    unfolding parse_rest_def length_format_rest f [unfolded One_nat_def [symmetric]] l n
    by (simp only: prod.case option.case if_P [OF g] simp_thms if_True n v)
qed

lemma day_from_year_mono: "y \<le> z \<Longrightarrow> day_from_year y \<le> day_from_year z"
proof (induction z rule: int_ge_induct)
  case (step z)
  then show ?case using day_from_year_less [of z] by linarith
qed simp

lemma year_range:
  assumes "\<bar>d\<bar> \<le> 100000000"
  shows "- 999999 \<le> year_of_day d" "year_of_day d \<le> 999999"
proof -
  let ?y = "year_of_day d"
  have y: "day_from_year ?y \<le> d" "d < day_from_year (?y + 1)" by (rule year_of_day)+
  have c: "day_from_year 1000000 > 100000000" "day_from_year (- 999999) < - 100000000"
    by (simp_all add: day_from_year_def)
  show "?y \<le> 999999"
  proof (rule ccontr)
    assume "\<not> ?thesis"
    then have "day_from_year 1000000 \<le> day_from_year ?y" by (intro day_from_year_mono) simp
    with y c assms show False by linarith
  qed
  show "- 999999 \<le> ?y"
  proof (rule ccontr)
    assume "\<not> ?thesis"
    then have "day_from_year (?y + 1) \<le> day_from_year (- 999999)" by (intro day_from_year_mono) simp
    with y c assms show False by linarith
  qed
qed

theorem iso_round_trip_time:
  assumes "\<bar>t\<bar> \<le> max_time"
  obtains s where "to_iso_string t = Inr s" "date_get_time s = Some t"
proof -
  define day where "day = t div ms_per_day"
  define y where "y = year_of_day day"
  obtain mon d where md: "split_month (month_lengths (is_leap y)) (day - day_from_year y) = (mon, d)"
    by fastforce
  define r where "r = format_rest mon d (t mod ms_per_day)"
  have iso: "to_iso_string t = Inr (format_year y @ r)"
    using assms md by (simp add: to_iso_string_def Let_def day_def y_def r_def)
  have day: "\<bar>day\<bar> \<le> 100000000"
    using abs_le_D1 [OF assms] abs_le_D2 [OF assms]
    unfolding day_def max_time_def ms_per_day_def by linarith
  have "0 \<le> day - day_from_year y" "day - day_from_year y < sum_list (month_lengths (is_leap y))"
    using year_of_day [of day] by (simp_all add: y_def month_lengths_sum day_from_year_Suc)
  from split_month [OF this] md
  have m: "mon < 12" "0 \<le> d" "d < month_lengths (is_leap y) ! mon"
    "day = day_from_year y + sum_list (take mon (month_lengths (is_leap y))) + d" by auto
  have "d \<le> 30" using m(1,3) month_lengths_max [of mon "is_leap y"] by linarith
  then have "parse_rest y r = Some (day * ms_per_day + t mod ms_per_day)"
    unfolding r_def using m by (subst fields_format_rest) (simp_all add: ms_per_day_def)
  then have pr: "parse_rest y r = Some t" by (simp add: day_def)
  have rt: "in_time_range t = Some t" using assms by (simp add: in_time_range_def)
  have yr: "- 999999 \<le> y" "y \<le> 999999" using year_range [OF day] by (simp_all add: y_def)
  have "date_get_time (format_year y @ r) = Some t"
  proof (cases "0 \<le> y \<and> y \<le> 9999")
    case True
    then show ?thesis
      using pr rt by (simp add: date_get_time_def format_year_def r_def take_app_len drop_app_len)
  next
    case False
    then show ?thesis
      using pr rt yr by (auto simp: date_get_time_def format_year_def r_def field_def take_app_len drop_app_len)
  qed
  with iso show ?thesis by (rule that)
qed

end
