(* ===== verification/Store.thy ===== *)
theory Store
  imports Ports Iso_Time
begin

text \<open>
  The shared in-memory database,
  \<open>src/src/infrastructure/repositories/in-memory/in-memory-movie-reservation.store.ts\<close>:
  its maps and its sequence counter, the operations on them, and the invariant of the store.
\<close>

section \<open>State\<close>

record work_metadata =
  md_sequence :: int
  md_observabilityContext :: "work_observability_context option"
  md_leaseTimeoutCount :: int
  md_transientFailureCount :: int
  md_claimedBy :: "string option"
  md_claimToken :: "string option"
  md_claimedAt :: "string option"
  md_claimExpiresAt :: "string option"
  md_lastHeartbeatAt :: "string option"

record store_input =
  si_movieProviders :: "movie_provider list"
  si_auditoriums :: "auditorium list"
  si_movies :: "movie list"
  si_screenings :: "screening list"
  si_seats :: "seat list"
  si_reservationRequests :: "reservation_request list"
  si_reservations :: "reservation list"
  si_processingAttempts :: "processing_attempt list option"

record store =
  db_movieProvidersById :: "(id, movie_provider) jsmap"
  db_auditoriumsById :: "(id, auditorium) jsmap"
  db_moviesById :: "(id, movie) jsmap"
  db_screeningsById :: "(id, screening) jsmap"
  db_seatsById :: "(id, seat) jsmap"
  db_reservationRequestsById :: "(id, reservation_request) jsmap"
  db_reservationsById :: "(id, reservation) jsmap"
  db_processingAttempts :: "(id, processing_attempt list) jsmap"
  db_workMetadataById :: "(id, work_metadata) jsmap"
  db_nextSequenceValue :: int

section \<open>Operations\<close>

definition empty_store :: store where
  "empty_store = \<lparr>db_movieProvidersById = [], db_auditoriumsById = [], db_moviesById = [],
     db_screeningsById = [], db_seatsById = [], db_reservationRequestsById = [],
     db_reservationsById = [], db_processingAttempts = [], db_workMetadataById = [],
     db_nextSequenceValue = 1\<rparr>"

definition set_request :: "reservation_request \<Rightarrow> store \<Rightarrow> store" where
  "set_request r s = s\<lparr>db_reservationRequestsById := jm_set (db_reservationRequestsById s) (rr_id r) r\<rparr>"

definition set_reservation :: "reservation \<Rightarrow> store \<Rightarrow> store" where
  "set_reservation v s = s\<lparr>db_reservationsById := jm_set (db_reservationsById s) (rv_id v) v\<rparr>"

definition update_work_metadata :: "id \<Rightarrow> work_metadata \<Rightarrow> store \<Rightarrow> store" where
  "update_work_metadata i m s = s\<lparr>db_workMetadataById := jm_set (db_workMetadataById s) i m\<rparr>"

definition get_work_metadata :: "store \<Rightarrow> id \<Rightarrow> js_error + work_metadata" where
  "get_work_metadata s i = (case jm_get (db_workMetadataById s) i of
     None \<Rightarrow> Inl (Error (''Reservation request '' @ i @ '' does not have work metadata''))
   | Some m \<Rightarrow> Inr m)"

definition get_request_sequence :: "store \<Rightarrow> id \<Rightarrow> js_error + int" where
  "get_request_sequence s i = bind_err (get_work_metadata s i) (\<lambda>m. Inr (md_sequence m))"

definition record_processing_attempt :: "processing_attempt \<Rightarrow> store \<Rightarrow> store" where
  "record_processing_attempt a s =
    (let attempts = (case jm_get (db_processingAttempts s) (attempt_request_id a) of None \<Rightarrow> [] | Some xs \<Rightarrow> xs)
     in s\<lparr>db_processingAttempts := jm_set (db_processingAttempts s) (attempt_request_id a) (attempts @ [a])\<rparr>)"

definition allocate_sequence :: "(store, int) io" where
  "allocate_sequence =
    bind_io (gets db_nextSequenceValue) (\<lambda>v.
    bind_io (lift (create_reservation_request_sequence v)) (\<lambda>seq.
    then_io (modify (\<lambda>s. s\<lparr>db_nextSequenceValue := db_nextSequenceValue s + 1\<rparr>)) (ret seq)))"

definition initial_metadata :: "int \<Rightarrow> work_observability_context option \<Rightarrow> work_metadata" where
  "initial_metadata seq context =
    \<lparr>md_sequence = seq, md_observabilityContext = context, md_leaseTimeoutCount = 0,
     md_transientFailureCount = 0, md_claimedBy = None, md_claimToken = None, md_claimedAt = None,
     md_claimExpiresAt = None, md_lastHeartbeatAt = None\<rparr>"

definition save_reservation_request ::
  "reservation_request \<Rightarrow> work_observability_context option \<Rightarrow> (store, unit) io" where
  "save_reservation_request r observabilityContext =
    bind_io (gets (\<lambda>s. jm_has (db_reservationRequestsById s) (rr_id r))) (\<lambda>exists.
    if exists then throw (ReservationRequestAlreadyExistsError (rr_id r))
    else then_io (modify (set_request r))
         (bind_io allocate_sequence (\<lambda>seq.
          modify (update_work_metadata (rr_id r) (initial_metadata seq observabilityContext)))))"

text \<open>The constructor fills the maps in the order of its loops.\<close>

definition new_store :: "store_input \<Rightarrow> (store, unit) io" where
  "new_store input =
    then_io (for_each (\<lambda>x. modify (\<lambda>s. s\<lparr>db_movieProvidersById := jm_set (db_movieProvidersById s) (mp_id x) x\<rparr>))
               (si_movieProviders input))
   (then_io (for_each (\<lambda>x. modify (\<lambda>s. s\<lparr>db_auditoriumsById := jm_set (db_auditoriumsById s) (au_id x) x\<rparr>))
               (si_auditoriums input))
   (then_io (for_each (\<lambda>x. modify (\<lambda>s. s\<lparr>db_moviesById := jm_set (db_moviesById s) (mv_id x) x\<rparr>))
               (si_movies input))
   (then_io (for_each (\<lambda>x. modify (\<lambda>s. s\<lparr>db_screeningsById := jm_set (db_screeningsById s) (sc_id x) x\<rparr>))
               (si_screenings input))
   (then_io (for_each (\<lambda>x. modify (\<lambda>s. s\<lparr>db_seatsById := jm_set (db_seatsById s) (st_id x) x\<rparr>))
               (si_seats input))
   (then_io (for_each (\<lambda>x. save_reservation_request x None) (si_reservationRequests input))
   (then_io (for_each (\<lambda>x. modify (set_reservation x)) (si_reservations input))
            (for_each (\<lambda>a. modify (record_processing_attempt a))
               (case si_processingAttempts input of None \<Rightarrow> [] | Some as \<Rightarrow> as))))))))"

definition create_store :: "store_input \<Rightarrow> js_error + store" where
  "create_store input = (case new_store input empty_store of (Inl e, s) \<Rightarrow> Inl e | (Inr _, s) \<Rightarrow> Inr s)"

end
