(* ===== verification/Work_Repository.thy ===== *)
theory Work_Repository
  imports Store
begin

text \<open>
  The worker-facing repository over the in-memory store,
  \<open>src/src/infrastructure/repositories/in-memory/in-memory-reservation-request-work.repository.ts\<close>.
  Each method is one atomic step of the event loop, except \<open>confirm\<close>, whose internal
  \<open>await\<close> splits it into \<open>confirm_begin\<close> and \<open>confirm_finish\<close>.
\<close>

definition read_metadata :: "id \<Rightarrow> (store, work_metadata) io" where
  "read_metadata i = bind_io (gets (\<lambda>s. get_work_metadata s i)) lift"

section \<open>Claiming\<close>

text \<open>\<open>new Date(a).getTime() <= new Date(b).getTime()\<close>; a comparison with \<open>NaN\<close> is false.\<close>

definition date_le :: "string \<Rightarrow> string \<Rightarrow> bool" where
  "date_le a b = (case (date_get_time a, date_get_time b) of (Some x, Some y) \<Rightarrow> x \<le> y | _ \<Rightarrow> False)"

definition is_expired_processing_request :: "reservation_request \<Rightarrow> work_metadata \<Rightarrow> string \<Rightarrow> bool" where
  "is_expired_processing_request r m now \<longleftrightarrow>
     rr_status r = PROCESSING \<and>
     (case md_claimExpiresAt m of None \<Rightarrow> True | Some t \<Rightarrow> date_le t now)"

definition claimable :: "claim_input \<Rightarrow> reservation_request \<Rightarrow> work_metadata \<Rightarrow> bool" where
  "claimable input r m \<longleftrightarrow>
     \<not> (rr_status r = REQUESTED \<and> md_transientFailureCount m \<ge> ci_maxTransientFailures input) \<and>
     \<not> (rr_status r \<noteq> REQUESTED \<and> \<not> is_expired_processing_request r m (ci_claimedAt input))"

definition work_item :: "claim_input \<Rightarrow> reservation_request \<Rightarrow> work_metadata \<Rightarrow> claimed_reservation_request" where
  "work_item input r m =
    \<lparr>cl_reservationRequest = r, cl_observabilityContext = md_observabilityContext m,
     cl_sequence = md_sequence m, cl_claimedBy = ci_workerId input, cl_claimToken = ci_claimToken input,
     cl_claimedAt = ci_claimedAt input, cl_claimExpiresAt = ci_claimExpiresAt input,
     cl_leaseTimeoutCount = md_leaseTimeoutCount m +
       (if is_expired_processing_request r m (ci_claimedAt input) then 1 else 0),
     cl_transientFailureCount = md_transientFailureCount m\<rparr>"

fun scan_work_items :: "store \<Rightarrow> claim_input \<Rightarrow> reservation_request list \<Rightarrow> claimed_reservation_request option
    \<Rightarrow> js_error + claimed_reservation_request option" where
  "scan_work_items s input [] best = Inr best"
| "scan_work_items s input (r # rs) best =
     bind_err (get_work_metadata s (rr_id r)) (\<lambda>m.
       if \<not> claimable input r m then scan_work_items s input rs best
       else if best = None \<or> md_sequence m < cl_sequence (the best)
       then scan_work_items s input rs (Some (work_item input r m))
       else scan_work_items s input rs best)"

definition cleared_metadata :: "work_metadata \<Rightarrow> work_metadata" where
  "cleared_metadata m = m\<lparr>md_claimedBy := None, md_claimToken := None, md_claimedAt := None,
     md_claimExpiresAt := None, md_lastHeartbeatAt := None\<rparr>"

definition fail_expired_claim :: "reservation_request \<Rightarrow> string \<Rightarrow> (store, unit) io" where
  "fail_expired_claim r failedAt =
    bind_io (lift (fail_reservation_request r)) (\<lambda>failed.
    bind_io (read_metadata (rr_id r)) (\<lambda>m.
    then_io (modify (set_request failed))
   (then_io (modify (update_work_metadata (rr_id failed) (cleared_metadata m)))
            (modify (record_processing_attempt (Failed_Attempt
              \<lparr>at_reservationRequestId = rr_id r, at_sequence = md_sequence m, at_startedAt = failedAt,
               at_completedAt = failedAt, at_failureReason = Lease_Timeout\<rparr>))))))"

definition claimed_metadata :: "claim_input \<Rightarrow> claimed_reservation_request \<Rightarrow> work_metadata" where
  "claimed_metadata input w =
    \<lparr>md_sequence = cl_sequence w, md_observabilityContext = cl_observabilityContext w,
     md_leaseTimeoutCount = cl_leaseTimeoutCount w, md_transientFailureCount = cl_transientFailureCount w,
     md_claimedBy = Some (ci_workerId input), md_claimToken = Some (ci_claimToken input),
     md_claimedAt = Some (ci_claimedAt input), md_claimExpiresAt = Some (ci_claimExpiresAt input),
     md_lastHeartbeatAt = Some (ci_claimedAt input)\<rparr>"

definition claim_next :: "claim_input \<Rightarrow> (store, claimed_reservation_request option) io" where
  "claim_next input =
    bind_io (bind_io (gets (\<lambda>s. scan_work_items s input (jm_values (db_reservationRequestsById s)) None)) lift)
      (\<lambda>next. case next of None \<Rightarrow> ret None | Some w \<Rightarrow>
        bind_io (read_metadata (rr_id (cl_reservationRequest w))) (\<lambda>selected.
        if is_expired_processing_request (cl_reservationRequest w) selected (ci_claimedAt input)
           \<and> md_leaseTimeoutCount selected \<ge> ci_maxLeaseTimeouts input
        then then_io (fail_expired_claim (cl_reservationRequest w) (ci_claimedAt input)) (ret None)
        else
          bind_io (if rr_status (cl_reservationRequest w) = PROCESSING then ret (cl_reservationRequest w)
                   else lift (start_processing_reservation_request (cl_reservationRequest w))) (\<lambda>processing.
          then_io (modify (set_request processing))
         (then_io (modify (update_work_metadata (rr_id processing) (claimed_metadata input w)))
                  (ret (Some (w\<lparr>cl_reservationRequest := processing\<rparr>)))))))"

section \<open>Heartbeats and conflicts\<close>

definition heartbeat_claimed :: "heartbeat_input \<Rightarrow> (store, bool) io" where
  "heartbeat_claimed input =
    bind_io (gets (\<lambda>s. jm_get (db_reservationRequestsById s)
                        (rr_id (cl_reservationRequest (hb_claimedWorkItem input))))) (\<lambda>current.
    case current of None \<Rightarrow> ret False | Some r \<Rightarrow>
      if rr_status r \<noteq> PROCESSING then ret False
      else bind_io (read_metadata (rr_id r)) (\<lambda>m.
        if md_claimedBy m \<noteq> Some (cl_claimedBy (hb_claimedWorkItem input)) \<or>
           md_claimToken m \<noteq> Some (cl_claimToken (hb_claimedWorkItem input))
        then ret False
        else then_io (modify (update_work_metadata (rr_id r)
               (m\<lparr>md_claimExpiresAt := Some (hb_claimExpiresAt input),
                  md_lastHeartbeatAt := Some (hb_heartbeatAt input)\<rparr>))) (ret True)))"

definition seats_conflict :: "id \<Rightarrow> id list \<Rightarrow> reservation \<Rightarrow> bool" where
  "seats_conflict screeningId seatIds v \<longleftrightarrow>
     rv_screeningId v = screeningId \<and> list_ex (\<lambda>x. x \<in> set seatIds) (rv_seatIds v)"

definition find_conflict_in :: "store \<Rightarrow> id \<Rightarrow> id list \<Rightarrow> reservation option" where
  "find_conflict_in s screeningId seatIds =
     List.find (seats_conflict screeningId seatIds) (jm_values (db_reservationsById s))"

definition find_conflict :: "id \<Rightarrow> id list \<Rightarrow> (store, reservation option) io" where
  "find_conflict screeningId seatIds = gets (\<lambda>s. find_conflict_in s screeningId seatIds)"

section \<open>Completing claimed work\<close>

definition require_claimed :: "claimed_reservation_request \<Rightarrow> (store, reservation_request) io" where
  "require_claimed c =
    (let i = rr_id (cl_reservationRequest c) in
    bind_io (gets (\<lambda>s. jm_get (db_reservationRequestsById s) i)) (\<lambda>current.
    case current of
      None \<Rightarrow> throw (Error (''Claimed reservation request '' @ i @ '' was not found''))
    | Some r \<Rightarrow>
        bind_io (bind_io (gets (\<lambda>s. get_request_sequence s i)) lift) (\<lambda>storedSequence.
        bind_io (read_metadata i) (\<lambda>m.
        if storedSequence \<noteq> cl_sequence c
        then throw (Error (''Claimed reservation request '' @ i @ '' sequence changed''))
        else if md_claimedBy m \<noteq> Some (cl_claimedBy c) \<or> md_claimToken m \<noteq> Some (cl_claimToken c)
        then throw (Error (''Claimed reservation request '' @ i @ '' claim was lost''))
        else if rr_status r \<noteq> PROCESSING
        then throw (Error (''Claimed reservation request '' @ rr_id r @ '' is '' @ status_str (rr_status r)
                           @ '', not PROCESSING''))
        else ret r))))"

definition clear_claim_metadata :: "id \<Rightarrow> (store, unit) io" where
  "clear_claim_metadata i = bind_io (read_metadata i) (\<lambda>m. modify (update_work_metadata i (cleared_metadata m)))"

definition increment_transient_failures :: "id \<Rightarrow> (store, unit) io" where
  "increment_transient_failures i = bind_io (read_metadata i) (\<lambda>m.
     modify (update_work_metadata i (m\<lparr>md_transientFailureCount := md_transientFailureCount m + 1\<rparr>)))"

definition confirm_begin :: "confirm_input \<Rightarrow> (store, reservation_request \<times> reservation option) io" where
  "confirm_begin input =
    bind_io (require_claimed (co_claimedWorkItem input)) (\<lambda>current.
    bind_io (gets (\<lambda>s. jm_has (db_reservationsById s) (rv_id (co_reservation input)))) (\<lambda>exists.
    if exists then throw (Error (''Reservation '' @ rv_id (co_reservation input) @ '' already exists''))
    else bind_io (find_conflict (rv_screeningId (co_reservation input)) (rv_seatIds (co_reservation input)))
           (\<lambda>conflict. ret (current, conflict))))"

definition rejected_attempt_of :: "confirm_input \<Rightarrow> reservation_request \<Rightarrow> reservation \<Rightarrow> rejected_attempt" where
  "rejected_attempt_of input current conflict =
    \<lparr>at_reservationRequestId = rr_id current, at_sequence = cl_sequence (co_claimedWorkItem input),
     at_startedAt = at_startedAt (co_attempt input), at_completedAt = at_completedAt (co_attempt input),
     at_rejectionReason = Seat_Conflict, at_conflictingReservationId = rv_id conflict\<rparr>"

definition confirm_finish ::
  "confirm_input \<Rightarrow> reservation_request \<times> reservation option \<Rightarrow> (store, confirm_result) io" where
  "confirm_finish input = (\<lambda>(current, conflict).
    case conflict of
      Some v \<Rightarrow>
        bind_io (lift (reject_reservation_request current)) (\<lambda>rejected.
        then_io (modify (set_request rejected))
       (then_io (clear_claim_metadata (rr_id rejected))
       (then_io (modify (record_processing_attempt (Rejected_Attempt (rejected_attempt_of input current v))))
                (ret (Confirm_Rejected rejected (rejected_attempt_of input current v))))))
    | None \<Rightarrow>
        bind_io (lift (confirm_reservation_request current)) (\<lambda>confirmed.
        then_io (modify (set_reservation (co_reservation input)))
       (then_io (modify (set_request confirmed))
       (then_io (clear_claim_metadata (rr_id confirmed))
       (then_io (modify (record_processing_attempt (Confirmed_Attempt (co_attempt input))))
                (ret (Confirm_Confirmed confirmed)))))))"

definition confirm_claimed :: "confirm_input \<Rightarrow> (store, confirm_result) io" where
  "confirm_claimed input = bind_io (confirm_begin input) (confirm_finish input)"

definition reject_claimed :: "claimed_reservation_request \<Rightarrow> rejected_attempt \<Rightarrow> (store, reservation_request) io" where
  "reject_claimed c attempt =
    bind_io (require_claimed c) (\<lambda>current.
    bind_io (lift (reject_reservation_request current)) (\<lambda>rejected.
    then_io (modify (set_request rejected))
   (then_io (clear_claim_metadata (rr_id rejected))
   (then_io (modify (record_processing_attempt (Rejected_Attempt attempt)))
            (ret rejected)))))"

definition release_claimed :: "claimed_reservation_request \<Rightarrow> failed_attempt \<Rightarrow> (store, reservation_request) io" where
  "release_claimed c attempt =
    bind_io (require_claimed c) (\<lambda>current.
    (let retryable = current\<lparr>rr_status := REQUESTED\<rparr> in
    then_io (modify (set_request retryable))
   (then_io (increment_transient_failures (rr_id retryable))
   (then_io (clear_claim_metadata (rr_id retryable))
   (then_io (modify (record_processing_attempt (Failed_Attempt attempt)))
            (ret retryable))))))"

definition fail_claimed :: "claimed_reservation_request \<Rightarrow> failed_attempt \<Rightarrow> (store, reservation_request) io" where
  "fail_claimed c attempt =
    bind_io (require_claimed c) (\<lambda>current.
    bind_io (lift (fail_reservation_request current)) (\<lambda>failed.
    then_io (modify (set_request failed))
   (then_io (increment_transient_failures (rr_id failed))
   (then_io (clear_claim_metadata (rr_id failed))
   (then_io (modify (record_processing_attempt (Failed_Attempt attempt)))
            (ret failed))))))"

definition find_attempts :: "id \<Rightarrow> (store, processing_attempt list) io" where
  "find_attempts i = gets (\<lambda>s. case jm_get (db_processingAttempts s) i of None \<Rightarrow> [] | Some as \<Rightarrow> as)"

definition in_memory_work_repository :: "store work_repository_ops" where
  "in_memory_work_repository =
    \<lparr>wr_claimNext = claim_next, wr_heartbeat = heartbeat_claimed, wr_findConflict = find_conflict,
     wr_confirm = confirm_claimed, wr_reject = reject_claimed, wr_release = release_claimed,
     wr_fail = fail_claimed, wr_findAttempts = find_attempts\<rparr>"

end
