(* ===== verification/Ledger.thy ===== *)
theory Ledger
  imports Work_Repository
begin

text \<open>
  The abstract state of the reservation workflow: the store seen as finite maps, without the
  order its \<open>Map\<close>s iterate in. The invariant of the workflow is stated on it, with the
  three changes that preserve it (a new request, a change of status, a confirmation). The
  operations of the store are then shown to be such changes.
\<close>

section \<open>The ledger\<close>

record ledger =
  lg_request :: "id \<Rightarrow> reservation_request option"
  lg_metadata :: "id \<Rightarrow> work_metadata option"
  lg_reservation :: "id \<Rightarrow> reservation option"
  lg_attempts :: "id \<Rightarrow> processing_attempt list"
  lg_next :: int

definition view :: "store \<Rightarrow> ledger" where
  "view s = \<lparr>lg_request = jm_get (db_reservationRequestsById s),
     lg_metadata = jm_get (db_workMetadataById s),
     lg_reservation = jm_get (db_reservationsById s),
     lg_attempts = (\<lambda>i. case jm_get (db_processingAttempts s) i of None \<Rightarrow> [] | Some as \<Rightarrow> as),
     lg_next = db_nextSequenceValue s\<rparr>"

definition claim_fields_present :: "work_metadata \<Rightarrow> bool" where
  "claim_fields_present m \<longleftrightarrow> md_claimedBy m \<noteq> None \<and> md_claimToken m \<noteq> None \<and> md_claimedAt m \<noteq> None \<and>
     md_claimExpiresAt m \<noteq> None \<and> md_lastHeartbeatAt m \<noteq> None"

definition claim_fields_absent :: "work_metadata \<Rightarrow> bool" where
  "claim_fields_absent m \<longleftrightarrow> cleared_metadata m = m"

text \<open>Claim metadata is there exactly while the request is being processed.\<close>

definition claim_state_ok :: "reservation_request \<Rightarrow> work_metadata \<Rightarrow> bool" where
  "claim_state_ok r m \<longleftrightarrow>
     (if rr_status r = PROCESSING then claim_fields_present m else claim_fields_absent m) \<and>
     0 \<le> md_leaseTimeoutCount m \<and> 0 \<le> md_transientFailureCount m"

definition request_ok :: "reservation_request \<Rightarrow> bool" where
  "request_ok r \<longleftrightarrow> rr_seatIds r \<noteq> [] \<and> distinct (rr_seatIds r)"

text \<open>The reservation \<open>v\<close> is what request \<open>r\<close> asked for.\<close>

definition reservation_for :: "reservation_request \<Rightarrow> reservation \<Rightarrow> bool" where
  "reservation_for r v \<longleftrightarrow> rv_reservationRequestId v = rr_id r \<and> rv_movieProviderId v = rr_movieProviderId r \<and>
     rv_screeningId v = rr_screeningId r \<and> rv_seatIds v = rr_seatIds r \<and>
     rv_reservedByUserId v = rr_requestedByUserId r"

definition seats_disjoint :: "reservation \<Rightarrow> reservation \<Rightarrow> bool" where
  "seats_disjoint v w \<longleftrightarrow> rv_screeningId v = rv_screeningId w \<longrightarrow> set (rv_seatIds v) \<inter> set (rv_seatIds w) = {}"

text \<open>No seat of a screening is in two reservations.\<close>

definition no_double_booking :: "ledger \<Rightarrow> bool" where
  "no_double_booking L \<longleftrightarrow> (\<forall>i j v w. lg_reservation L i = Some v \<longrightarrow> lg_reservation L j = Some w \<longrightarrow>
     i \<noteq> j \<longrightarrow> seats_disjoint v w)"

definition requests_ok :: "ledger \<Rightarrow> bool" where
  "requests_ok L \<longleftrightarrow>
     (\<forall>i r. lg_request L i = Some r \<longrightarrow> rr_id r = i \<and> request_ok r) \<and>
     (\<forall>i. lg_request L i = None \<longleftrightarrow> lg_metadata L i = None) \<and>
     (\<forall>i r m. lg_request L i = Some r \<longrightarrow> lg_metadata L i = Some m \<longrightarrow> claim_state_ok r m)"

definition sequences_ok :: "ledger \<Rightarrow> bool" where
  "sequences_ok L \<longleftrightarrow> 1 \<le> lg_next L \<and> lg_next L \<le> max_safe_integer + 1 \<and>
     (\<forall>i m. lg_metadata L i = Some m \<longrightarrow> 1 \<le> md_sequence m \<and> md_sequence m < lg_next L) \<and>
     (\<forall>i j m n. lg_metadata L i = Some m \<longrightarrow> lg_metadata L j = Some n \<longrightarrow> md_sequence m = md_sequence n \<longrightarrow> i = j)"

definition reservations_ok :: "ledger \<Rightarrow> bool" where
  "reservations_ok L \<longleftrightarrow>
     (\<forall>i v. lg_reservation L i = Some v \<longrightarrow> rv_id v = i \<and>
        (\<exists>r. lg_request L (rv_reservationRequestId v) = Some r \<and> rr_status r = CONFIRMED \<and> reservation_for r v)) \<and>
     (\<forall>i j v w. lg_reservation L i = Some v \<longrightarrow> lg_reservation L j = Some w \<longrightarrow>
        rv_reservationRequestId v = rv_reservationRequestId w \<longrightarrow> i = j) \<and>
     (\<forall>i r. lg_request L i = Some r \<longrightarrow> rr_status r = CONFIRMED \<longrightarrow>
        (\<exists>j v. lg_reservation L j = Some v \<and> rv_reservationRequestId v = i))"

definition attempts_ok :: "ledger \<Rightarrow> bool" where
  "attempts_ok L \<longleftrightarrow> (\<forall>i. \<forall>a \<in> set (lg_attempts L i). attempt_request_id a = i)"

definition ledger_inv :: "ledger \<Rightarrow> bool" where
  "ledger_inv L \<longleftrightarrow> requests_ok L \<and> sequences_ok L \<and> reservations_ok L \<and> no_double_booking L \<and> attempts_ok L"

definition maps_ok :: "store \<Rightarrow> bool" where
  "maps_ok s \<longleftrightarrow> jm_inv (db_reservationRequestsById s) \<and> jm_inv (db_workMetadataById s) \<and>
     jm_inv (db_reservationsById s) \<and> jm_inv (db_processingAttempts s)"

definition store_inv :: "store \<Rightarrow> bool" where
  "store_inv s \<longleftrightarrow> maps_ok s \<and> ledger_inv (view s)"

section \<open>Changes of the ledger\<close>

definition put_work :: "reservation_request \<Rightarrow> work_metadata \<Rightarrow> ledger \<Rightarrow> ledger" where
  "put_work r m L = L\<lparr>lg_request := (lg_request L)(rr_id r \<mapsto> r), lg_metadata := (lg_metadata L)(rr_id r \<mapsto> m)\<rparr>"

definition put_reservation :: "reservation \<Rightarrow> ledger \<Rightarrow> ledger" where
  "put_reservation v L = L\<lparr>lg_reservation := (lg_reservation L)(rv_id v \<mapsto> v)\<rparr>"

definition add_attempt :: "processing_attempt \<Rightarrow> ledger \<Rightarrow> ledger" where
  "add_attempt a L = L\<lparr>lg_attempts := (lg_attempts L)(attempt_request_id a :=
     lg_attempts L (attempt_request_id a) @ [a])\<rparr>"

lemmas change_defs = put_work_def put_reservation_def add_attempt_def

lemma ledger_inv_add_attempt [simp]: "ledger_inv L \<Longrightarrow> ledger_inv (add_attempt a L)"
  by (auto simp: ledger_inv_def add_attempt_def requests_ok_def sequences_ok_def reservations_ok_def
      no_double_booking_def attempts_ok_def)

lemma inv_requestD:
  assumes "ledger_inv L" "lg_request L i = Some r"
  obtains m where "rr_id r = i" "request_ok r" "lg_metadata L i = Some m" "claim_state_ok r m"
proof -
  have "lg_metadata L i \<noteq> None"
    using assms unfolding ledger_inv_def requests_ok_def by (metis option.distinct(1))
  then show ?thesis
    using assms that unfolding ledger_inv_def requests_ok_def by blast
qed

lemma inv_request_id: "ledger_inv L \<Longrightarrow> lg_request L i = Some r \<Longrightarrow> rr_id r = i"
  unfolding ledger_inv_def requests_ok_def by blast

lemma inv_reservationD:
  assumes "ledger_inv L" "lg_reservation L j = Some v"
  obtains q where "rv_id v = j" "lg_request L (rv_reservationRequestId v) = Some q"
    "rr_status q = CONFIRMED" "reservation_for q v"
  using assms unfolding ledger_inv_def reservations_ok_def by blast

lemma inv_reservation_unique:
  "ledger_inv L \<Longrightarrow> lg_reservation L i = Some v \<Longrightarrow> lg_reservation L j = Some w \<Longrightarrow>
    rv_reservationRequestId v = rv_reservationRequestId w \<Longrightarrow> i = j"
  unfolding ledger_inv_def reservations_ok_def by blast

lemma inv_confirmedD:
  assumes "ledger_inv L" "lg_request L i = Some r" "rr_status r = CONFIRMED"
  obtains j v where "lg_reservation L j = Some v" "rv_reservationRequestId v = i"
  using assms unfolding ledger_inv_def reservations_ok_def by blast

lemma inv_sequenceD:
  "ledger_inv L \<Longrightarrow> lg_metadata L i = Some m \<Longrightarrow> 1 \<le> md_sequence m \<and> md_sequence m < lg_next L"
  and inv_sequence_unique:
  "ledger_inv L \<Longrightarrow> lg_metadata L i = Some m \<Longrightarrow> lg_metadata L j = Some n \<Longrightarrow>
    md_sequence m = md_sequence n \<Longrightarrow> i = j"
  and inv_next: "ledger_inv L \<Longrightarrow> 1 \<le> lg_next L \<and> lg_next L \<le> max_safe_integer + 1"
  unfolding ledger_inv_def sequences_ok_def by blast+

lemma inv_metadataD:
  assumes "ledger_inv L" "lg_metadata L i = Some m"
  obtains r where "lg_request L i = Some r"
  using assms unfolding ledger_inv_def requests_ok_def by (cases "lg_request L i") auto

text \<open>Updating one request and its metadata: what does not concern the status.\<close>

lemma put_work_requests_sequences:
  assumes inv: "ledger_inv L" and m: "lg_metadata L (rr_id r) = Some m"
    and r: "request_ok r" "md_sequence m' = md_sequence m" "claim_state_ok r m'"
  shows "requests_ok (put_work r m' L)" "sequences_ok (put_work r m' L)"
proof -
  show "requests_ok (put_work r m' L)"
    using inv r by (auto simp: ledger_inv_def requests_ok_def put_work_def)
  have old: "lg_metadata (put_work r m' L) i = Some n \<Longrightarrow>
      \<exists>n'. lg_metadata L i = Some n' \<and> md_sequence n' = md_sequence n" for i n
    using m r by (auto simp: put_work_def split: if_splits)
  have nx: "lg_next (put_work r m' L) = lg_next L" by (simp add: put_work_def)
  have range: "1 \<le> md_sequence n \<and> md_sequence n < lg_next L"
    if "lg_metadata (put_work r m' L) i = Some n" for i n
    using inv_sequenceD [OF inv] old that by metis
  have uniq: "i = j" if "lg_metadata (put_work r m' L) i = Some n"
    "lg_metadata (put_work r m' L) j = Some k" "md_sequence n = md_sequence k" for i j n k
    using old that inv_sequence_unique [OF inv] by metis
  show "sequences_ok (put_work r m' L)"
    unfolding sequences_ok_def nx using inv_next [OF inv] range uniq by blast
qed

lemma ledger_inv_status:
  assumes inv: "ledger_inv L" and r: "lg_request L i = Some r" and m: "lg_metadata L i = Some m"
    and st: "rr_status r \<noteq> CONFIRMED" "st \<noteq> CONFIRMED"
    and m': "md_sequence m' = md_sequence m" "claim_state_ok (r\<lparr>rr_status := st\<rparr>) m'"
  shows "ledger_inv (put_work (r\<lparr>rr_status := st\<rparr>) m' L)"
proof -
  let ?L = "put_work (r\<lparr>rr_status := st\<rparr>) m' L"
  have i: "rr_id r = i" "request_ok r" using inv_requestD [OF inv r] by metis+
  have 1: "requests_ok ?L" "sequences_ok ?L"
    by (rule put_work_requests_sequences [OF inv]; use i m m' in \<open>simp add: request_ok_def\<close>)+
  have lr: "lg_reservation ?L = lg_reservation L" by (simp add: put_work_def)
  have q: "lg_request ?L j = (if j = i then Some (r\<lparr>rr_status := st\<rparr>) else lg_request L j)" for j
    using i by (simp add: put_work_def)
  have 2: "reservations_ok ?L"
    unfolding reservations_ok_def lr
  proof (intro conjI allI impI)
    fix j v assume v: "lg_reservation L j = Some v"
    from inv_reservationD [OF inv v] obtain p where p: "rv_id v = j"
      "lg_request L (rv_reservationRequestId v) = Some p" "rr_status p = CONFIRMED" "reservation_for p v" .
    with r st have "rv_reservationRequestId v \<noteq> i" by auto
    with p q show "rv_id v = j" "\<exists>p. lg_request ?L (rv_reservationRequestId v) = Some p \<and>
        rr_status p = CONFIRMED \<and> reservation_for p v" by auto
  next
    fix j k v w assume "lg_reservation L j = Some v" "lg_reservation L k = Some w"
      "rv_reservationRequestId v = rv_reservationRequestId w"
    then show "j = k" by (rule inv_reservation_unique [OF inv])
  next
    fix j p assume "lg_request ?L j = Some p" "rr_status p = CONFIRMED"
    with q st have "lg_request L j = Some p" "rr_status p = CONFIRMED" by (auto split: if_splits)
    from inv_confirmedD [OF inv this] show "\<exists>k v. lg_reservation L k = Some v \<and> rv_reservationRequestId v = j"
      by blast
  qed
  have 3: "no_double_booking ?L" "attempts_ok ?L"
    using inv by (simp_all add: ledger_inv_def no_double_booking_def attempts_ok_def put_work_def)
  show ?thesis using 1 2 3 by (simp add: ledger_inv_def)
qed

lemma ledger_inv_confirm:
  assumes inv: "ledger_inv L" and r: "lg_request L i = Some r" and m: "lg_metadata L i = Some m"
    and st: "rr_status r \<noteq> CONFIRMED" and v: "reservation_for r v" "lg_reservation L (rv_id v) = None"
    and free: "\<And>j w. lg_reservation L j = Some w \<Longrightarrow> seats_disjoint v w"
    and m': "md_sequence m' = md_sequence m" "claim_state_ok (r\<lparr>rr_status := CONFIRMED\<rparr>) m'"
  shows "ledger_inv (put_work (r\<lparr>rr_status := CONFIRMED\<rparr>) m' (put_reservation v L))"
proof -
  let ?r = "r\<lparr>rr_status := CONFIRMED\<rparr>"
  let ?L = "put_work ?r m' (put_reservation v L)"
  have i: "rr_id r = i" "request_ok r" using inv_requestD [OF inv r] by metis+
  have "requests_ok (put_work ?r m' L)" "sequences_ok (put_work ?r m' L)"
    by (rule put_work_requests_sequences [OF inv]; use i m m' in \<open>simp add: request_ok_def\<close>)+
  moreover have "requests_ok (put_reservation v K) = requests_ok K" "sequences_ok (put_reservation v K) = sequences_ok K"
    for K by (simp_all add: requests_ok_def sequences_ok_def put_reservation_def)
  moreover have "?L = put_reservation v (put_work ?r m' L)" by (simp add: change_defs)
  ultimately have 1: "requests_ok ?L" "sequences_ok ?L" by simp_all
  have lr: "lg_reservation ?L j = (if j = rv_id v then Some v else lg_reservation L j)" for j
    by (simp add: change_defs)
  have q: "lg_request ?L j = (if j = i then Some ?r else lg_request L j)" for j
    using i by (simp add: change_defs)
  have vi: "rv_reservationRequestId v = i" "reservation_for ?r v"
    using v i by (simp_all add: reservation_for_def)
  have old: "rv_reservationRequestId w \<noteq> i" if "lg_reservation L j = Some w" for j w
    using inv_reservationD [OF inv that] r st by (metis option.inject)
  have 2: "reservations_ok ?L"
    unfolding reservations_ok_def lr
  proof (intro conjI allI impI)
    fix j w assume w: "(if j = rv_id v then Some v else lg_reservation L j) = Some w"
    show "rv_id w = j" "\<exists>p. lg_request ?L (rv_reservationRequestId w) = Some p \<and>
        rr_status p = CONFIRMED \<and> reservation_for p w"
    proof (atomize (full), cases "j = rv_id v")
      case True
      with w vi q show "rv_id w = j \<and> (\<exists>p. lg_request ?L (rv_reservationRequestId w) = Some p \<and>
        rr_status p = CONFIRMED \<and> reservation_for p w)" by simp
    next
      case False
      with w have "lg_reservation L j = Some w" by simp
      from inv_reservationD [OF inv this] old [OF this] q
      show "rv_id w = j \<and> (\<exists>p. lg_request ?L (rv_reservationRequestId w) = Some p \<and>
        rr_status p = CONFIRMED \<and> reservation_for p w)" by metis
    qed
  next
    fix j k w u assume "(if j = rv_id v then Some v else lg_reservation L j) = Some w"
      "(if k = rv_id v then Some v else lg_reservation L k) = Some u"
      "rv_reservationRequestId w = rv_reservationRequestId u"
    then show "j = k" using old vi inv_reservation_unique [OF inv, of j w k u]
      by (auto split: if_splits)
  next
    fix j p assume j: "lg_request ?L j = Some p" "rr_status p = CONFIRMED"
    show "\<exists>k w. (if k = rv_id v then Some v else lg_reservation L k) = Some w \<and> rv_reservationRequestId w = j"
    proof (cases "j = i")
      case True
      then show ?thesis using vi by auto
    next
      case False
      with j q have "lg_request L j = Some p" by simp
      from inv_confirmedD [OF inv this j(2)] v(2) show ?thesis by (metis option.distinct(1))
    qed
  qed
  have "seats_disjoint w v" if "lg_reservation L j = Some w" for j w
    using free [OF that] by (auto simp: seats_disjoint_def)
  then have 3: "no_double_booking ?L"
    using inv free by (auto simp: ledger_inv_def no_double_booking_def lr split: if_splits)
  have "attempts_ok ?L" using inv by (simp add: ledger_inv_def attempts_ok_def change_defs)
  then show ?thesis using 1 2 3 by (simp add: ledger_inv_def)
qed

end
