(* ===== verification/Work_Properties.thy ===== *)
theory Work_Properties
  imports Ledger
begin

text \<open>
  What the operations of the store and of the work repository do to the ledger. Each
  operation on claimed work either changes nothing and throws (the claim is not owned) or
  performs one change of the ledger, which keeps the invariant.
\<close>

section \<open>The store under its view\<close>

lemma view_set_request [store_simps]:
  "view (set_request r s) = (view s)\<lparr>lg_request := (lg_request (view s))(rr_id r \<mapsto> r)\<rparr>"
  by (simp add: view_def set_request_def jm.get_put_fun)

lemma view_set_reservation [store_simps]:
  "view (set_reservation v s) = put_reservation v (view s)"
  by (simp add: view_def set_reservation_def put_reservation_def jm.get_put_fun)

lemma view_update_metadata [store_simps]:
  "view (update_work_metadata i m s) = (view s)\<lparr>lg_metadata := (lg_metadata (view s))(i \<mapsto> m)\<rparr>"
  by (simp add: view_def update_work_metadata_def jm.get_put_fun)

lemma view_record_attempt [store_simps]:
  "view (record_processing_attempt a s) = add_attempt a (view s)"
  by (auto simp: view_def record_processing_attempt_def add_attempt_def jm.get_put_fun Let_def)

lemma view_next [store_simps]:
  "view (s\<lparr>db_nextSequenceValue := n\<rparr>) = (view s)\<lparr>lg_next := n\<rparr>"
  by (simp add: view_def)

lemma maps_ok_changes [store_simps]:
  "maps_ok s \<Longrightarrow> maps_ok (set_request r s)"
  "maps_ok s \<Longrightarrow> maps_ok (set_reservation v s)"
  "maps_ok s \<Longrightarrow> maps_ok (update_work_metadata i m s)"
  "maps_ok s \<Longrightarrow> maps_ok (record_processing_attempt a s)"
  "maps_ok s \<Longrightarrow> maps_ok (s\<lparr>db_nextSequenceValue := n\<rparr>)"
  by (simp_all add: maps_ok_def set_request_def set_reservation_def update_work_metadata_def
      record_processing_attempt_def jm.put_inv Let_def)

lemma get_request_view: "jm_get (db_reservationRequestsById s) i = lg_request (view s) i"
  and get_reservation_view: "jm_get (db_reservationsById s) i = lg_reservation (view s) i"
  and get_metadata_view: "get_work_metadata s i = (case lg_metadata (view s) i of
      None \<Rightarrow> Inl (Error (''Reservation request '' @ i @ '' does not have work metadata'')) | Some m \<Rightarrow> Inr m)"
  by (simp_all add: view_def get_work_metadata_def)

lemma read_metadata_view:
  "read_metadata i s = (case lg_metadata (view s) i of
      None \<Rightarrow> (Inl (Error (''Reservation request '' @ i @ '' does not have work metadata'')), s)
    | Some m \<Rightarrow> (Inr m, s))"
  by (simp add: read_metadata_def get_metadata_view split: option.split)

lemma requests_values: "maps_ok s \<Longrightarrow>
    set (jm_values (db_reservationRequestsById s)) = {r. \<exists>i. lg_request (view s) i = Some r}"
  and reservations_values: "maps_ok s \<Longrightarrow>
    set (jm_values (db_reservationsById s)) = {v. \<exists>i. lg_reservation (view s) i = Some v}"
  by (simp_all add: maps_ok_def jm.vals_set view_def)

text \<open>The catalogue is written by the constructor only.\<close>

definition catalogue :: "store \<Rightarrow> (id, movie_provider) jsmap \<times> (id, auditorium) jsmap \<times> (id, movie) jsmap \<times>
    (id, screening) jsmap \<times> (id, seat) jsmap" where
  "catalogue s = (db_movieProvidersById s, db_auditoriumsById s, db_moviesById s, db_screeningsById s, db_seatsById s)"

lemma catalogue_changes [store_simps]:
  "catalogue (set_request r s) = catalogue s" "catalogue (set_reservation v s) = catalogue s"
  "catalogue (update_work_metadata i m s) = catalogue s"
  "catalogue (record_processing_attempt a s) = catalogue s"
  "catalogue (s\<lparr>db_nextSequenceValue := n\<rparr>) = catalogue s"
  by (simp_all add: catalogue_def set_request_def set_reservation_def update_work_metadata_def
      record_processing_attempt_def Let_def)

section \<open>New requests\<close>

definition insert_request ::
  "reservation_request \<Rightarrow> work_observability_context option \<Rightarrow> ledger \<Rightarrow> ledger" where
  "insert_request r context L =
     (put_work r (initial_metadata (lg_next L) context) L)\<lparr>lg_next := lg_next L + 1\<rparr>"

lemma save_request_exists:
  "lg_request (view s) (rr_id r) \<noteq> None \<Longrightarrow>
    save_reservation_request r context s = (Inl (ReservationRequestAlreadyExistsError (rr_id r)), s)"
  by (simp add: save_reservation_request_def jm_has_def get_request_view)

lemma save_request_ok:
  assumes "lg_request (view s) (rr_id r) = None" "1 \<le> lg_next (view s)" "lg_next (view s) \<le> max_safe_integer"
  obtains s' where "save_reservation_request r context s = (Inr (), s')"
    "view s' = insert_request r context (view s)" "maps_ok s \<Longrightarrow> maps_ok s'" "catalogue s' = catalogue s"
proof -
  have nx: "db_nextSequenceValue (set_request r s) = lg_next (view s)"
    by (simp add: set_request_def view_def)
  have cr: "create_reservation_request_sequence (lg_next (view s)) = Inr (lg_next (view s))"
    using assms by simp
  let ?s = "update_work_metadata (rr_id r) (initial_metadata (lg_next (view s)) context)
     (set_request r s\<lparr>db_nextSequenceValue := lg_next (view s) + 1\<rparr>)"
  have "save_reservation_request r context s = (Inr (), ?s)"
    using assms(1)
    by (simp add: save_reservation_request_def jm_has_def get_request_view allocate_sequence_def
        bind_io_def nx cr del: create_sequence_Inr)
  moreover have "view ?s = insert_request r context (view s)"
    by (simp add: store_simps insert_request_def put_work_def)
  moreover have "maps_ok s \<Longrightarrow> maps_ok ?s" "catalogue ?s = catalogue s"
    by (simp_all add: store_simps)
  ultimately show ?thesis by (rule that)
qed

lemma ledger_inv_insert:
  assumes inv: "ledger_inv L" and new: "lg_request L (rr_id r) = None"
    and r: "request_ok r" "rr_status r = REQUESTED" and n: "lg_next L \<le> max_safe_integer"
  shows "ledger_inv (insert_request r context L)"
proof -
  let ?L = "insert_request r context L"
  have q: "lg_request ?L i = (if i = rr_id r then Some r else lg_request L i)"
    "lg_metadata ?L i = (if i = rr_id r then Some (initial_metadata (lg_next L) context) else lg_metadata L i)"
    "lg_reservation ?L = lg_reservation L" "lg_attempts ?L = lg_attempts L" "lg_next ?L = lg_next L + 1" for i
    by (simp_all add: insert_request_def put_work_def)
  have cs: "claim_state_ok r (initial_metadata k context)" for k
    using r by (simp add: claim_state_ok_def claim_fields_absent_def cleared_metadata_def initial_metadata_def)
  have seq: "md_sequence (initial_metadata k context) = k" for k by (simp add: initial_metadata_def)
  have 1: "requests_ok ?L"
    using inv new r cs unfolding ledger_inv_def requests_ok_def q by auto
  have lt: "lg_metadata L i = Some m \<Longrightarrow> md_sequence m < lg_next L" for i m
    using inv_sequenceD [OF inv] by blast
  have 2: "sequences_ok ?L"
    unfolding sequences_ok_def q
  proof (intro conjI allI impI)
    show "1 \<le> lg_next L + 1" "lg_next L + 1 \<le> max_safe_integer + 1" using inv_next [OF inv] n by linarith+
  next
    fix i m assume "(if i = rr_id r then Some (initial_metadata (lg_next L) context) else lg_metadata L i) = Some m"
    then show "1 \<le> md_sequence m" "md_sequence m < lg_next L + 1"
      using inv_next [OF inv] inv_sequenceD [OF inv, of i m] seq by (auto split: if_splits)
  next
    fix i j m k
    assume "(if i = rr_id r then Some (initial_metadata (lg_next L) context) else lg_metadata L i) = Some m"
      "(if j = rr_id r then Some (initial_metadata (lg_next L) context) else lg_metadata L j) = Some k"
      "md_sequence m = md_sequence k"
    then show "i = j" using lt [of i m] lt [of j k] seq inv_sequence_unique [OF inv, of i m j k]
      by (auto split: if_splits)
  qed
  have 3: "reservations_ok ?L"
    unfolding reservations_ok_def q
  proof (intro conjI allI impI)
    fix j v assume v: "lg_reservation L j = Some v"
    from inv_reservationD [OF inv v] new show "rv_id v = j"
      "\<exists>p. (if rv_reservationRequestId v = rr_id r then Some r else lg_request L (rv_reservationRequestId v)) = Some p \<and>
        rr_status p = CONFIRMED \<and> reservation_for p v" by (metis option.distinct(1))+
  next
    fix j k v w assume "lg_reservation L j = Some v" "lg_reservation L k = Some w"
      "rv_reservationRequestId v = rv_reservationRequestId w"
    then show "j = k" by (rule inv_reservation_unique [OF inv])
  next
    fix j p assume "(if j = rr_id r then Some r else lg_request L j) = Some p" "rr_status p = CONFIRMED"
    with r have "lg_request L j = Some p" "rr_status p = CONFIRMED" by (auto split: if_splits)
    from inv_confirmedD [OF inv this] show "\<exists>k v. lg_reservation L k = Some v \<and> rv_reservationRequestId v = j"
      by blast
  qed
  have "no_double_booking ?L" "attempts_ok ?L"
    using inv by (simp_all add: ledger_inv_def no_double_booking_def attempts_ok_def q)
  with 1 2 3 show ?thesis by (simp add: ledger_inv_def)
qed

section \<open>Claimed work\<close>

text \<open>The claim \<open>c\<close> still owns its request: \<open>r\<close> and \<open>m\<close> are what the
  ledger holds for it.\<close>

definition owned :: "ledger \<Rightarrow> claimed_reservation_request \<Rightarrow> reservation_request \<Rightarrow> work_metadata \<Rightarrow> bool" where
  "owned L c r m \<longleftrightarrow> lg_request L (rr_id (cl_reservationRequest c)) = Some r \<and>
     lg_metadata L (rr_id (cl_reservationRequest c)) = Some m \<and> md_sequence m = cl_sequence c \<and>
     md_claimedBy m = Some (cl_claimedBy c) \<and> md_claimToken m = Some (cl_claimToken c) \<and>
     rr_status r = PROCESSING"

definition lost :: "ledger \<Rightarrow> claimed_reservation_request \<Rightarrow> bool" where
  "lost L c \<longleftrightarrow> (\<nexists>r m. owned L c r m)"

lemma require_claimed_owned: "owned (view s) c r m \<Longrightarrow> require_claimed c s = (Inr r, s)"
  by (simp add: require_claimed_def get_request_sequence_def get_request_view get_metadata_view
      read_metadata_view owned_def bind_io_def Let_def)

lemma require_claimed_lost: "lost (view s) c \<Longrightarrow> \<exists>e. require_claimed c s = (Inl e, s)"
  by (auto simp: require_claimed_def get_request_sequence_def get_request_view get_metadata_view
      read_metadata_view owned_def lost_def bind_io_def Let_def split: option.splits)

lemma owned_or_lost:
  obtains r m where "owned L c r m" | "lost L c"
  by (auto simp: lost_def)

lemma owned_facts:
  assumes "ledger_inv L" "owned L c r m"
  shows "rr_id r = rr_id (cl_reservationRequest c)" "rr_status r = PROCESSING" "lg_request L (rr_id r) = Some r"
    "lg_metadata L (rr_id r) = Some m" "claim_state_ok r m" "request_ok r"
  using assms inv_requestD [OF assms(1), of "rr_id r" r]
  by (auto simp: owned_def elim: inv_requestD)

lemma clear_claim_metadata_eq:
  "lg_metadata (view s) i = Some m \<Longrightarrow>
    clear_claim_metadata i s = (Inr (), update_work_metadata i (cleared_metadata m) s)"
  by (simp add: clear_claim_metadata_def read_metadata_view bind_io_def)

lemma increment_transient_failures_eq:
  "lg_metadata (view s) i = Some m \<Longrightarrow> increment_transient_failures i s =
    (Inr (), update_work_metadata i (m\<lparr>md_transientFailureCount := md_transientFailureCount m + 1\<rparr>) s)"
  by (simp add: increment_transient_failures_def read_metadata_view bind_io_def)

lemma put_work_same: "put_work r m (put_work r n L) = put_work r m L"
  by (simp add: put_work_def)

lemma cleared_metadata_simps [simp]:
  "md_sequence (cleared_metadata m) = md_sequence m"
  "md_leaseTimeoutCount (cleared_metadata m) = md_leaseTimeoutCount m"
  "md_transientFailureCount (cleared_metadata m) = md_transientFailureCount m"
  "md_observabilityContext (cleared_metadata m) = md_observabilityContext m"
  "cleared_metadata (cleared_metadata m) = cleared_metadata m"
  "claim_fields_absent (cleared_metadata m)"
  by (simp_all add: cleared_metadata_def claim_fields_absent_def)

definition bump_failures :: "work_metadata \<Rightarrow> work_metadata" where
  "bump_failures m = m\<lparr>md_transientFailureCount := md_transientFailureCount m + 1\<rparr>"

lemma bump_failures_simps [simp]:
  "md_sequence (bump_failures m) = md_sequence m"
  "md_leaseTimeoutCount (bump_failures m) = md_leaseTimeoutCount m"
  "md_transientFailureCount (bump_failures m) = md_transientFailureCount m + 1"
  by (simp_all add: bump_failures_def)

text \<open>What an operation on the store is said to do: its result, the ledger it leaves, the
  maps well formed and the catalogue untouched.\<close>

definition effect :: "(store, 'a) io \<Rightarrow> store \<Rightarrow> js_error + 'a \<Rightarrow> ledger \<Rightarrow> bool" where
  "effect m s r L \<longleftrightarrow> fst (m s) = r \<and> view (snd (m s)) = L \<and> (maps_ok s \<longrightarrow> maps_ok (snd (m s))) \<and>
     catalogue (snd (m s)) = catalogue s"

lemma effect_id: "m s = (r, s) \<Longrightarrow> effect m s r (view s)"
  by (simp add: effect_def)

lemma reject_claimed_owned:
  assumes "owned (view s) c r m" "rr_id r = rr_id (cl_reservationRequest c)"
  shows "effect (reject_claimed c a) s (Inr (r\<lparr>rr_status := REJECTED\<rparr>))
    (add_attempt (Rejected_Attempt a) (put_work (r\<lparr>rr_status := REJECTED\<rparr>) (cleared_metadata m) (view s)))"
proof -
  let ?s = "set_request (r\<lparr>rr_status := REJECTED\<rparr>) s"
  have "lg_metadata (view ?s) (rr_id r) = Some m"
    using assms by (simp add: owned_def store_simps)
  moreover have "rr_status r = PROCESSING" using assms by (simp add: owned_def)
  ultimately have "reject_claimed c a s = (Inr (r\<lparr>rr_status := REJECTED\<rparr>),
      record_processing_attempt (Rejected_Attempt a) (update_work_metadata (rr_id r) (cleared_metadata m) ?s))"
    using require_claimed_owned [OF assms(1)]
    by (simp add: reject_claimed_def bind_io_def transitions_ok clear_claim_metadata_eq)
  then show ?thesis by (simp add: effect_def store_simps put_work_def)
qed

lemma release_claimed_owned:
  assumes "owned (view s) c r m" "rr_id r = rr_id (cl_reservationRequest c)"
  shows "effect (release_claimed c a) s (Inr (r\<lparr>rr_status := REQUESTED\<rparr>))
    (add_attempt (Failed_Attempt a)
      (put_work (r\<lparr>rr_status := REQUESTED\<rparr>) (cleared_metadata (bump_failures m)) (view s)))"
proof -
  let ?s = "set_request (r\<lparr>rr_status := REQUESTED\<rparr>) s"
  let ?t = "update_work_metadata (rr_id r) (bump_failures m) ?s"
  have "lg_metadata (view ?s) (rr_id r) = Some m" "lg_metadata (view ?t) (rr_id r) = Some (bump_failures m)"
    using assms by (simp_all add: owned_def store_simps)
  then have "release_claimed c a s = (Inr (r\<lparr>rr_status := REQUESTED\<rparr>),
      record_processing_attempt (Failed_Attempt a)
        (update_work_metadata (rr_id r) (cleared_metadata (bump_failures m)) ?t))"
    using require_claimed_owned [OF assms(1)]
    by (simp add: release_claimed_def bind_io_def Let_def clear_claim_metadata_eq
        increment_transient_failures_eq bump_failures_def [symmetric])
  then show ?thesis by (simp add: effect_def store_simps put_work_def)
qed

lemma fail_claimed_owned:
  assumes "owned (view s) c r m" "rr_id r = rr_id (cl_reservationRequest c)"
  shows "effect (fail_claimed c a) s (Inr (r\<lparr>rr_status := FAILED\<rparr>))
    (add_attempt (Failed_Attempt a)
      (put_work (r\<lparr>rr_status := FAILED\<rparr>) (cleared_metadata (bump_failures m)) (view s)))"
proof -
  let ?s = "set_request (r\<lparr>rr_status := FAILED\<rparr>) s"
  let ?t = "update_work_metadata (rr_id r) (bump_failures m) ?s"
  have "lg_metadata (view ?s) (rr_id r) = Some m" "lg_metadata (view ?t) (rr_id r) = Some (bump_failures m)"
    "rr_status r = PROCESSING"
    using assms by (simp_all add: owned_def store_simps)
  then have "fail_claimed c a s = (Inr (r\<lparr>rr_status := FAILED\<rparr>),
      record_processing_attempt (Failed_Attempt a)
        (update_work_metadata (rr_id r) (cleared_metadata (bump_failures m)) ?t))"
    using require_claimed_owned [OF assms(1)]
    by (simp add: fail_claimed_def bind_io_def transitions_ok clear_claim_metadata_eq
        increment_transient_failures_eq bump_failures_def [symmetric])
  then show ?thesis by (simp add: effect_def store_simps put_work_def)
qed

lemma claimed_ops_lost:
  assumes "lost (view s) c"
  shows "\<exists>e. reject_claimed c ra s = (Inl e, s)" "\<exists>e. release_claimed c fa s = (Inl e, s)"
    "\<exists>e. fail_claimed c fa s = (Inl e, s)"
    "co_claimedWorkItem ci = c \<Longrightarrow> \<exists>e. confirm_begin ci s = (Inl e, s)"
  using require_claimed_lost [OF assms]
  by (auto simp: reject_claimed_def release_claimed_def fail_claimed_def confirm_begin_def bind_io_def)

section \<open>Confirming\<close>

lemma find_conflict_None:
  assumes "maps_ok s"
  shows "find_conflict_in s sc seats = None \<longleftrightarrow>
    (\<forall>j w. lg_reservation (view s) j = Some w \<longrightarrow> \<not> seats_conflict sc seats w)"
  unfolding find_conflict_in_def find_None_iff reservations_values [OF assms] by blast

lemma find_conflict_Some:
  assumes "maps_ok s" "find_conflict_in s sc seats = Some w"
  obtains j where "lg_reservation (view s) j = Some w" "seats_conflict sc seats w"
proof -
  have "w \<in> set (jm_values (db_reservationsById s))" "seats_conflict sc seats w"
    using assms(2) by (auto simp: find_conflict_in_def find_Some_iff)
  then show ?thesis using that unfolding reservations_values [OF assms(1)] by blast
qed

lemma seats_conflict_disjoint:
  "\<not> seats_conflict (rv_screeningId v) (rv_seatIds v) w \<longleftrightarrow> seats_disjoint v w"
  by (auto simp: seats_conflict_def seats_disjoint_def list_ex_iff)

lemma confirm_begin_owned:
  assumes "owned (view s) (co_claimedWorkItem ci) r m"
  shows "confirm_begin ci s =
    (if lg_reservation (view s) (rv_id (co_reservation ci)) \<noteq> None
     then (Inl (Error (''Reservation '' @ rv_id (co_reservation ci) @ '' already exists'')), s)
     else (Inr (r, find_conflict_in s (rv_screeningId (co_reservation ci)) (rv_seatIds (co_reservation ci))), s))"
  using require_claimed_owned [OF assms]
  by (simp add: confirm_begin_def bind_io_def jm_has_def get_reservation_view find_conflict_def)

lemma confirm_finish_conflict:
  assumes "rr_status r = PROCESSING" "lg_metadata (view s) (rr_id r) = Some m"
  shows "effect (confirm_finish ci (r, Some w)) s
    (Inr (Confirm_Rejected (r\<lparr>rr_status := REJECTED\<rparr>) (rejected_attempt_of ci r w)))
    (add_attempt (Rejected_Attempt (rejected_attempt_of ci r w))
      (put_work (r\<lparr>rr_status := REJECTED\<rparr>) (cleared_metadata m) (view s)))"
proof -
  let ?s = "set_request (r\<lparr>rr_status := REJECTED\<rparr>) s"
  have "lg_metadata (view ?s) (rr_id r) = Some m" using assms by (simp add: store_simps)
  then have "confirm_finish ci (r, Some w) s =
      (Inr (Confirm_Rejected (r\<lparr>rr_status := REJECTED\<rparr>) (rejected_attempt_of ci r w)),
       record_processing_attempt (Rejected_Attempt (rejected_attempt_of ci r w))
         (update_work_metadata (rr_id r) (cleared_metadata m) ?s))"
    using assms by (simp add: confirm_finish_def bind_io_def transitions_ok clear_claim_metadata_eq)
  then show ?thesis by (simp add: effect_def store_simps put_work_def)
qed

lemma confirm_finish_free:
  assumes "rr_status r = PROCESSING" "lg_metadata (view s) (rr_id r) = Some m"
  shows "effect (confirm_finish ci (r, None)) s (Inr (Confirm_Confirmed (r\<lparr>rr_status := CONFIRMED\<rparr>)))
    (add_attempt (Confirmed_Attempt (co_attempt ci))
      (put_work (r\<lparr>rr_status := CONFIRMED\<rparr>) (cleared_metadata m) (put_reservation (co_reservation ci) (view s))))"
proof -
  let ?s = "set_request (r\<lparr>rr_status := CONFIRMED\<rparr>) (set_reservation (co_reservation ci) s)"
  have "lg_metadata (view ?s) (rr_id r) = Some m" using assms by (simp add: store_simps put_reservation_def)
  then have "confirm_finish ci (r, None) s = (Inr (Confirm_Confirmed (r\<lparr>rr_status := CONFIRMED\<rparr>)),
       record_processing_attempt (Confirmed_Attempt (co_attempt ci))
         (update_work_metadata (rr_id r) (cleared_metadata m) ?s))"
    using assms by (simp add: confirm_finish_def bind_io_def transitions_ok clear_claim_metadata_eq)
  then show ?thesis by (simp add: effect_def store_simps put_work_def)
qed

section \<open>Claiming\<close>

definition eligible :: "ledger \<Rightarrow> claim_input \<Rightarrow> id \<Rightarrow> reservation_request \<Rightarrow> work_metadata \<Rightarrow> bool" where
  "eligible L input i r m \<longleftrightarrow> lg_request L i = Some r \<and> lg_metadata L i = Some m \<and> claimable input r m"

text \<open>First come, first served: no eligible request has a smaller sequence number.\<close>

definition oldest_eligible :: "ledger \<Rightarrow> claim_input \<Rightarrow> id \<Rightarrow> reservation_request \<Rightarrow> work_metadata \<Rightarrow> bool" where
  "oldest_eligible L input i r m \<longleftrightarrow> eligible L input i r m \<and>
     (\<forall>j q n. eligible L input j q n \<longrightarrow> md_sequence m \<le> md_sequence n)"

definition lease_exhausted :: "claim_input \<Rightarrow> reservation_request \<Rightarrow> work_metadata \<Rightarrow> bool" where
  "lease_exhausted input r m \<longleftrightarrow> is_expired_processing_request r m (ci_claimedAt input) \<and>
     md_leaseTimeoutCount m \<ge> ci_maxLeaseTimeouts input"

definition claimed_item :: "claim_input \<Rightarrow> reservation_request \<Rightarrow> work_metadata \<Rightarrow> claimed_reservation_request" where
  "claimed_item input r m = (work_item input r m)\<lparr>cl_reservationRequest := r\<lparr>rr_status := PROCESSING\<rparr>\<rparr>"

definition lease_timeout_attempt :: "reservation_request \<Rightarrow> work_metadata \<Rightarrow> string \<Rightarrow> processing_attempt" where
  "lease_timeout_attempt r m now = Failed_Attempt
     \<lparr>at_reservationRequestId = rr_id r, at_sequence = md_sequence m, at_startedAt = now,
      at_completedAt = now, at_failureReason = Lease_Timeout\<rparr>"

lemma claimable_status: "claimable input r m \<Longrightarrow> rr_status r = REQUESTED \<or>
    (rr_status r = PROCESSING \<and> is_expired_processing_request r m (ci_claimedAt input))"
  by (auto simp: claimable_def is_expired_processing_request_def)

lemma work_item_simps [simp]:
  "cl_reservationRequest (work_item input r m) = r" "cl_sequence (work_item input r m) = md_sequence m"
  by (simp_all add: work_item_def)

lemma scan_work_items_ok:
  assumes "\<forall>r \<in> set rs. \<exists>m. get_work_metadata s (rr_id r) = Inr m"
  obtains b where "scan_work_items s input rs best = Inr b"
    "b = best \<or> (\<exists>r m. r \<in> set rs \<and> get_work_metadata s (rr_id r) = Inr m \<and> claimable input r m \<and>
        b = Some (work_item input r m))"
    "best \<noteq> None \<Longrightarrow> b \<noteq> None \<and> cl_sequence (the b) \<le> cl_sequence (the best)"
    "\<And>r m. r \<in> set rs \<Longrightarrow> get_work_metadata s (rr_id r) = Inr m \<Longrightarrow> claimable input r m \<Longrightarrow>
        b \<noteq> None \<and> cl_sequence (the b) \<le> md_sequence m"
  using assms
proof (induction rs arbitrary: best thesis)
  case Nil
  then show ?case by simp
next
  case (Cons r rs)
  then obtain m where m: "get_work_metadata s (rr_id r) = Inr m" by auto
  have rs: "\<forall>r \<in> set rs. \<exists>m. get_work_metadata s (rr_id r) = Inr m" using Cons.prems(2) by simp
  define best' where "best' = (if \<not> claimable input r m then best
    else if best = None \<or> md_sequence m < cl_sequence (the best) then Some (work_item input r m) else best)"
  have step: "scan_work_items s input (r # rs) best = scan_work_items s input rs best'"
    by (simp add: m best'_def)
  obtain b where b: "scan_work_items s input rs best' = Inr b"
    "b = best' \<or> (\<exists>r m. r \<in> set rs \<and> get_work_metadata s (rr_id r) = Inr m \<and> claimable input r m \<and>
        b = Some (work_item input r m))"
    "best' \<noteq> None \<Longrightarrow> b \<noteq> None \<and> cl_sequence (the b) \<le> cl_sequence (the best')"
    "\<And>r m. r \<in> set rs \<Longrightarrow> get_work_metadata s (rr_id r) = Inr m \<Longrightarrow> claimable input r m \<Longrightarrow>
        b \<noteq> None \<and> cl_sequence (the b) \<le> md_sequence m"
    using Cons.IH [OF _ rs] by blast
  have best': "best' = best \<or> (claimable input r m \<and> best' = Some (work_item input r m))"
    "best \<noteq> None \<Longrightarrow> best' \<noteq> None \<and> cl_sequence (the best') \<le> cl_sequence (the best)"
    "claimable input r m \<Longrightarrow> best' \<noteq> None \<and> cl_sequence (the best') \<le> md_sequence m"
    by (auto simp: best'_def)
  show ?case
  proof (rule Cons.prems(1))
    show "scan_work_items s input (r # rs) best = Inr b" using b(1) step by simp
    show "b = best \<or> (\<exists>q n. q \<in> set (r # rs) \<and> get_work_metadata s (rr_id q) = Inr n \<and>
        claimable input q n \<and> b = Some (work_item input q n))"
      using b(2) best'(1) m by auto
    show "b \<noteq> None \<and> cl_sequence (the b) \<le> cl_sequence (the best)" if "best \<noteq> None"
      using b(3) best'(2) that by fastforce
    show "b \<noteq> None \<and> cl_sequence (the b) \<le> md_sequence n"
      if "q \<in> set (r # rs)" "get_work_metadata s (rr_id q) = Inr n" "claimable input q n" for q n
    proof (cases "q = r")
      case True
      then have "n = m" using that m by simp
      then show ?thesis using b(3) best'(3) that True by fastforce
    next
      case False
      then show ?thesis using b(4) that by simp
    qed
  qed
qed

lemma update_same_status: "rr_status r = st \<Longrightarrow> r\<lparr>rr_status := st\<rparr> = r"
  by (cases r) simp

lemma fail_expired_claim_effect:
  assumes "rr_status r = PROCESSING" "lg_metadata (view s) (rr_id r) = Some m"
  shows "effect (fail_expired_claim r now) s (Inr ())
    (add_attempt (lease_timeout_attempt r m now)
      (put_work (r\<lparr>rr_status := FAILED\<rparr>) (cleared_metadata m) (view s)))"
proof -
  have "fail_expired_claim r now s = (Inr (), record_processing_attempt (lease_timeout_attempt r m now)
      (update_work_metadata (rr_id r) (cleared_metadata m) (set_request (r\<lparr>rr_status := FAILED\<rparr>) s)))"
    using assms
    by (simp add: fail_expired_claim_def bind_io_def transitions_ok read_metadata_view lease_timeout_attempt_def)
  then show ?thesis by (simp add: effect_def store_simps put_work_def)
qed

lemma eligible_scan:
  assumes inv: "store_inv s"
  shows "r \<in> set (jm_values (db_reservationRequestsById s)) \<and> get_work_metadata s (rr_id r) = Inr m \<and>
      claimable input r m \<longleftrightarrow> eligible (view s) input (rr_id r) r m"
proof -
  have "maps_ok s" and li: "ledger_inv (view s)" using inv by (simp_all add: store_inv_def)
  then have "r \<in> set (jm_values (db_reservationRequestsById s)) \<longleftrightarrow> lg_request (view s) (rr_id r) = Some r"
    unfolding requests_values [OF \<open>maps_ok s\<close>] using inv_request_id [OF li] by blast
  moreover have "get_work_metadata s (rr_id r) = Inr m \<longleftrightarrow> lg_metadata (view s) (rr_id r) = Some m"
    by (simp add: get_metadata_view split: option.split)
  ultimately show ?thesis by (simp only: eligible_def simp_thms)
qed

lemma eligible_id: "ledger_inv L \<Longrightarrow> eligible L input i r m \<Longrightarrow> rr_id r = i"
  by (auto simp: eligible_def elim: inv_requestD)

lemma scan_oldest:
  assumes inv: "store_inv s"
  shows "(scan_work_items s input (jm_values (db_reservationRequestsById s)) None = Inr None \<and>
            (\<nexists>i r m. eligible (view s) input i r m)) \<or>
         (\<exists>r m. scan_work_items s input (jm_values (db_reservationRequestsById s)) None =
              Inr (Some (work_item input r m)) \<and> oldest_eligible (view s) input (rr_id r) r m)"
proof -
  have li: "ledger_inv (view s)" and mo: "maps_ok s" using inv by (simp_all add: store_inv_def)
  let ?rs = "jm_values (db_reservationRequestsById s)"
  have ex: "\<forall>r \<in> set ?rs. \<exists>m. get_work_metadata s (rr_id r) = Inr m"
  proof
    fix r assume "r \<in> set ?rs"
    then obtain i where "lg_request (view s) i = Some r" using requests_values [OF mo] by auto
    moreover from inv_requestD [OF li this] obtain m where "rr_id r = i" "lg_metadata (view s) i = Some m"
      by blast
    ultimately show "\<exists>m. get_work_metadata s (rr_id r) = Inr m"
      by (simp add: get_metadata_view)
  qed
  obtain b where b: "scan_work_items s input ?rs None = Inr b"
    "b = None \<or> (\<exists>r m. r \<in> set ?rs \<and> get_work_metadata s (rr_id r) = Inr m \<and> claimable input r m \<and>
        b = Some (work_item input r m))"
    "\<And>r m. r \<in> set ?rs \<Longrightarrow> get_work_metadata s (rr_id r) = Inr m \<Longrightarrow> claimable input r m \<Longrightarrow>
        b \<noteq> None \<and> cl_sequence (the b) \<le> md_sequence m"
    using scan_work_items_ok [OF ex, of input None] by metis
  have least: "b \<noteq> None \<and> cl_sequence (the b) \<le> md_sequence m" if "eligible (view s) input i r m" for i r m
    using b(3) [of r m] eligible_scan [OF inv, of r m input] that eligible_id [OF li that] by metis
  show ?thesis
  proof (cases b)
    case None
    then show ?thesis using b(1) least by blast
  next
    case (Some w)
    then obtain r m where r: "r \<in> set ?rs" "get_work_metadata s (rr_id r) = Inr m" "claimable input r m"
      "w = work_item input r m" using b(2) by auto
    then have "oldest_eligible (view s) input (rr_id r) r m"
      unfolding oldest_eligible_def
      using eligible_scan [OF inv, of r m input] least Some by fastforce
    then show ?thesis using b(1) Some r(4) by blast
  qed
qed

lemma claim_next_cases:
  assumes inv: "store_inv s"
  obtains (none) "claim_next input s = (Inr None, s)" "\<nexists>i r m. eligible (view s) input i r m"
  | (exhausted) r m where "oldest_eligible (view s) input (rr_id r) r m" "lease_exhausted input r m"
      "effect (claim_next input) s (Inr None) (add_attempt (lease_timeout_attempt r m (ci_claimedAt input))
         (put_work (r\<lparr>rr_status := FAILED\<rparr>) (cleared_metadata m) (view s)))"
  | (claimed) r m where "oldest_eligible (view s) input (rr_id r) r m" "\<not> lease_exhausted input r m"
      "effect (claim_next input) s (Inr (Some (claimed_item input r m)))
         (put_work (r\<lparr>rr_status := PROCESSING\<rparr>) (claimed_metadata input (work_item input r m)) (view s))"
proof (cases "scan_work_items s input (jm_values (db_reservationRequestsById s)) None = Inr None")
  case True
  moreover have "\<nexists>i r m. eligible (view s) input i r m" using True scan_oldest [OF inv, of input] by auto
  ultimately show ?thesis by (intro none) (simp_all add: claim_next_def bind_io_def)
next
  case False
  then obtain r m where sc: "scan_work_items s input (jm_values (db_reservationRequestsById s)) None =
      Inr (Some (work_item input r m))" and o: "oldest_eligible (view s) input (rr_id r) r m"
    using scan_oldest [OF inv, of input] by blast
  then have md: "lg_metadata (view s) (rr_id r) = Some m" and cl: "claimable input r m"
    by (simp_all add: oldest_eligible_def eligible_def)
  have rm: "read_metadata (rr_id r) s = (Inr m, s)" by (simp add: read_metadata_view md)
  show ?thesis
  proof (cases "lease_exhausted input r m")
    case True
    then have "rr_status r = PROCESSING" by (simp add: lease_exhausted_def is_expired_processing_request_def)
    note e = fail_expired_claim_effect [OF this md, of "ci_claimedAt input"]
    obtain s' where "fail_expired_claim r (ci_claimedAt input) s = (Inr (), s')"
      using e by (cases "fail_expired_claim r (ci_claimedAt input) s") (auto simp: effect_def)
    then have "claim_next input s = (Inr None, snd (fail_expired_claim r (ci_claimedAt input) s))"
      using True by (simp add: claim_next_def bind_io_def sc rm lease_exhausted_def)
    with e have "effect (claim_next input) s (Inr None) (add_attempt (lease_timeout_attempt r m (ci_claimedAt input))
         (put_work (r\<lparr>rr_status := FAILED\<rparr>) (cleared_metadata m) (view s)))"
      by (simp add: effect_def)
    with o True show ?thesis by (rule exhausted)
  next
    case ne: False
    have st: "rr_status r = REQUESTED \<or> rr_status r = PROCESSING" using claimable_status [OF cl] by blast
    let ?r = "r\<lparr>rr_status := PROCESSING\<rparr>"
    let ?m = "claimed_metadata input (work_item input r m)"
    have "claim_next input s = (Inr (Some (claimed_item input r m)),
        update_work_metadata (rr_id r) ?m (set_request ?r s))"
      using st ne
      by (elim disjE) (simp_all add: claim_next_def bind_io_def sc rm claimed_item_def transitions_ok
        update_same_status flip: lease_exhausted_def)
    then have "effect (claim_next input) s (Inr (Some (claimed_item input r m))) (put_work ?r ?m (view s))"
      by (simp add: effect_def store_simps put_work_def)
    with o ne show ?thesis by (rule claimed)
  qed
qed

section \<open>Heartbeats\<close>

definition renewed_metadata :: "heartbeat_input \<Rightarrow> work_metadata \<Rightarrow> work_metadata" where
  "renewed_metadata input m = m\<lparr>md_claimExpiresAt := Some (hb_claimExpiresAt input),
     md_lastHeartbeatAt := Some (hb_heartbeatAt input)\<rparr>"

text \<open>A heartbeat does not compare sequence numbers, only the worker and its token.\<close>

definition heartbeat_owned :: "ledger \<Rightarrow> claimed_reservation_request \<Rightarrow> reservation_request \<Rightarrow> work_metadata \<Rightarrow> bool" where
  "heartbeat_owned L c r m \<longleftrightarrow> lg_request L (rr_id (cl_reservationRequest c)) = Some r \<and>
     lg_metadata L (rr_id r) = Some m \<and> rr_status r = PROCESSING \<and>
     md_claimedBy m = Some (cl_claimedBy c) \<and> md_claimToken m = Some (cl_claimToken c)"

lemma heartbeat_cases:
  assumes inv: "store_inv s"
  obtains (renewed) r m where "heartbeat_owned (view s) (hb_claimedWorkItem input) r m"
      "effect (heartbeat_claimed input) s (Inr True) (put_work r (renewed_metadata input m) (view s))"
  | (refused) "\<nexists>r m. heartbeat_owned (view s) (hb_claimedWorkItem input) r m"
      "heartbeat_claimed input s = (Inr False, s)"
proof (cases "\<exists>r m. heartbeat_owned (view s) (hb_claimedWorkItem input) r m")
  case True
  then obtain r m where rm: "heartbeat_owned (view s) (hb_claimedWorkItem input) r m" by blast
  then have r: "lg_request (view s) (rr_id r) = Some r"
    using inv by (auto simp: heartbeat_owned_def store_inv_def elim: inv_requestD)
  have "heartbeat_claimed input s = (Inr True, update_work_metadata (rr_id r) (renewed_metadata input m) s)"
    using rm by (simp add: heartbeat_claimed_def heartbeat_owned_def get_request_view read_metadata_view
        bind_io_def renewed_metadata_def)
  then have "effect (heartbeat_claimed input) s (Inr True) (put_work r (renewed_metadata input m) (view s))"
    using r by (simp add: effect_def store_simps put_work_def fun_upd_idem)
  with rm show ?thesis by (rule renewed)
next
  case False
  have "heartbeat_claimed input s = (Inr False, s)"
  proof (cases "lg_request (view s) (rr_id (cl_reservationRequest (hb_claimedWorkItem input)))")
    case None
    then show ?thesis by (simp add: heartbeat_claimed_def get_request_view bind_io_def)
  next
    case (Some r)
    then obtain m where "lg_metadata (view s) (rr_id r) = Some m"
      using inv by (auto simp: store_inv_def elim: inv_requestD)
    then show ?thesis
      using Some False
      by (auto simp: heartbeat_claimed_def heartbeat_owned_def get_request_view read_metadata_view bind_io_def)
  qed
  with False show ?thesis by (rule refused)
qed

end
