(* ===== verification/Work_Contract.thy ===== *)
theory Work_Contract
  imports Work_Properties
begin

text \<open>
  How the ledger may evolve, the contract of the work repository port as a locale, and the
  proof that the in-memory repository meets it. The clients of the port (the processor)
  rely on the contract only.
\<close>

section \<open>Evolution of the ledger\<close>

definition same_request :: "reservation_request \<Rightarrow> reservation_request \<Rightarrow> bool" where
  "same_request r r' \<longleftrightarrow> r' = r\<lparr>rr_status := rr_status r'\<rparr>"

definition terminal_status :: "reservation_request_status \<Rightarrow> bool" where
  "terminal_status st \<longleftrightarrow> st \<in> {CONFIRMED, REJECTED, FAILED}"

definition metadata_evolves :: "work_metadata \<Rightarrow> work_metadata \<Rightarrow> bool" where
  "metadata_evolves m m' \<longleftrightarrow> md_sequence m' = md_sequence m \<and>
     md_observabilityContext m' = md_observabilityContext m \<and>
     md_leaseTimeoutCount m \<le> md_leaseTimeoutCount m' \<and>
     md_transientFailureCount m \<le> md_transientFailureCount m'"

text \<open>
  A request never disappears and never changes but for its status; its sequence number is
  fixed and its failure counters only grow; a terminal request does not change any more.
  Reservations are permanent and the attempts of a request are only appended to.
\<close>

definition work_evolves :: "ledger \<Rightarrow> ledger \<Rightarrow> id \<Rightarrow> bool" where
  "work_evolves L L' i \<longleftrightarrow> (\<forall>r m. lg_request L i = Some r \<longrightarrow> lg_metadata L i = Some m \<longrightarrow>
     (\<exists>r' m'. lg_request L' i = Some r' \<and> lg_metadata L' i = Some m' \<and> same_request r r' \<and>
        metadata_evolves m m' \<and> (terminal_status (rr_status r) \<longrightarrow> r' = r \<and> m' = m)))"

definition evolves :: "ledger \<Rightarrow> ledger \<Rightarrow> bool" where
  "evolves L L' \<longleftrightarrow> (\<forall>i. work_evolves L L' i) \<and>
     (\<forall>i v. lg_reservation L i = Some v \<longrightarrow> lg_reservation L' i = Some v) \<and>
     (\<forall>i. \<exists>as. lg_attempts L' i = lg_attempts L i @ as)"

lemma same_request_refl [simp]: "same_request r r"
  and same_request_update [simp]: "same_request r (r\<lparr>rr_status := st\<rparr>)"
  by (simp_all add: same_request_def)

lemma same_request_trans: "same_request r q \<Longrightarrow> same_request q p \<Longrightarrow> same_request r p"
  unfolding same_request_def by (cases r; cases q; cases p) auto

lemma same_request_sym: "same_request r q \<Longrightarrow> same_request q r"
  unfolding same_request_def by (cases r; cases q) auto

lemma same_request_fields:
  "same_request r r' \<Longrightarrow> rr_id r' = rr_id r \<and> rr_movieProviderId r' = rr_movieProviderId r \<and>
     rr_screeningId r' = rr_screeningId r \<and> rr_seatIds r' = rr_seatIds r \<and>
     rr_requestedByUserId r' = rr_requestedByUserId r"
  unfolding same_request_def by (cases r; cases r') auto

lemma metadata_evolves_refl [simp]: "metadata_evolves m m"
  and metadata_evolves_trans: "metadata_evolves m n \<Longrightarrow> metadata_evolves n k \<Longrightarrow> metadata_evolves m k"
  by (auto simp: metadata_evolves_def)

lemma metadata_evolves_changes [simp]:
  "metadata_evolves m (cleared_metadata m)"
  "metadata_evolves m (cleared_metadata (bump_failures m))"
  "metadata_evolves m (renewed_metadata h m)"
  "metadata_evolves m (claimed_metadata input (work_item input r m))"
  by (simp_all add: metadata_evolves_def renewed_metadata_def claimed_metadata_def work_item_def
      bump_failures_def cleared_metadata_def)

lemma evolves_refl [simp]: "evolves L L"
  by (auto simp: evolves_def work_evolves_def)

lemma evolves_trans:
  assumes "evolves L K" "evolves K M"
  shows "evolves L M"
  unfolding evolves_def
proof (intro conjI allI impI)
  fix i
  have LK: "work_evolves L K i" and KM: "work_evolves K M i" using assms by (simp_all add: evolves_def)
  show "work_evolves L M i"
    unfolding work_evolves_def
  proof (intro allI impI)
    fix r m assume r: "lg_request L i = Some r" "lg_metadata L i = Some m"
    with LK obtain q n where q: "lg_request K i = Some q" "lg_metadata K i = Some n" "same_request r q"
      "metadata_evolves m n" "terminal_status (rr_status r) \<longrightarrow> q = r \<and> n = m"
      unfolding work_evolves_def by blast
    with KM obtain p k where p: "lg_request M i = Some p" "lg_metadata M i = Some k" "same_request q p"
      "metadata_evolves n k" "terminal_status (rr_status q) \<longrightarrow> p = q \<and> k = n"
      unfolding work_evolves_def by blast
    show "\<exists>r' m'. lg_request M i = Some r' \<and> lg_metadata M i = Some m' \<and> same_request r r' \<and>
        metadata_evolves m m' \<and> (terminal_status (rr_status r) \<longrightarrow> r' = r \<and> m' = m)"
      using p q same_request_trans [OF q(3) p(3)] metadata_evolves_trans [OF q(4) p(4)] by blast
  qed
next
  fix i v assume "lg_reservation L i = Some v"
  then show "lg_reservation M i = Some v" using assms by (simp add: evolves_def)
next
  fix i
  obtain as bs where "lg_attempts K i = lg_attempts L i @ as" "lg_attempts M i = lg_attempts K i @ bs"
    using assms unfolding evolves_def by blast
  then show "\<exists>as. lg_attempts M i = lg_attempts L i @ as" by simp
qed

lemma evolves_add_attempt: "evolves L K \<Longrightarrow> evolves L (add_attempt a K)"
  by (rule evolves_trans) (auto simp: evolves_def work_evolves_def add_attempt_def)

lemma evolves_put_reservation: "lg_reservation L (rv_id v) = None \<Longrightarrow> evolves L (put_reservation v L)"
  by (auto simp: evolves_def work_evolves_def put_reservation_def)

lemma evolves_put_work:
  assumes "lg_request L (rr_id r) = Some r" "lg_metadata L (rr_id r) = Some m"
    "\<not> terminal_status (rr_status r)" "metadata_evolves m m'"
  shows "evolves L (put_work (r\<lparr>rr_status := st\<rparr>) m' L)"
  using assms by (auto simp: evolves_def work_evolves_def put_work_def)

lemma evolves_insert:
  assumes "lg_request L (rr_id r) = None"
  shows "evolves L (insert_request r context L)"
  using assms by (auto simp: evolves_def work_evolves_def insert_request_def put_work_def)

text \<open>A change made by the work repository: it adds no request.\<close>

definition advances :: "ledger \<Rightarrow> ledger \<Rightarrow> bool" where
  "advances L L' \<longleftrightarrow> evolves L L' \<and> (\<forall>i. lg_request L i = None \<longrightarrow> lg_request L' i = None)"

lemma advances_evolves: "advances L L' \<Longrightarrow> evolves L L'"
  by (simp add: advances_def)

lemma advances_refl [simp]: "advances L L"
  by (simp add: advances_def)

lemma advances_trans: "advances L K \<Longrightarrow> advances K M \<Longrightarrow> advances L M"
  unfolding advances_def using evolves_trans by blast

lemma advances_add_attempt: "advances L K \<Longrightarrow> advances L (add_attempt a K)"
  by (simp add: advances_def evolves_add_attempt) (simp add: add_attempt_def)

lemma advances_put_work:
  assumes "lg_request L (rr_id r) = Some r" "lg_metadata L (rr_id r) = Some m"
    "\<not> terminal_status (rr_status r)" "metadata_evolves m m'"
  shows "advances L (put_work (r\<lparr>rr_status := st\<rparr>) m' L)"
  using evolves_put_work [OF assms] assms(1) by (simp add: advances_def put_work_def)

text \<open>The claim \<open>c\<close> was made of a request of the ledger.\<close>

definition claim_of :: "ledger \<Rightarrow> claimed_reservation_request \<Rightarrow> bool" where
  "claim_of L c \<longleftrightarrow> (\<exists>r m. lg_request L (rr_id (cl_reservationRequest c)) = Some r \<and>
     lg_metadata L (rr_id (cl_reservationRequest c)) = Some m \<and> md_sequence m = cl_sequence c \<and>
     same_request (cl_reservationRequest c) r)"

lemma claim_of_evolves:
  assumes "claim_of L c" "evolves L L'"
  shows "claim_of L' c"
proof -
  obtain r m where r: "lg_request L (rr_id (cl_reservationRequest c)) = Some r"
    "lg_metadata L (rr_id (cl_reservationRequest c)) = Some m" "md_sequence m = cl_sequence c"
    "same_request (cl_reservationRequest c) r" using assms(1) unfolding claim_of_def by blast
  then obtain q n where "lg_request L' (rr_id (cl_reservationRequest c)) = Some q"
    "lg_metadata L' (rr_id (cl_reservationRequest c)) = Some n" "same_request r q" "metadata_evolves m n"
    using assms(2) unfolding evolves_def work_evolves_def by blast
  then show ?thesis
    using r same_request_trans [OF r(4)] by (auto simp: claim_of_def metadata_evolves_def)
qed

lemma owned_claim_of: "owned L c r m \<Longrightarrow> same_request (cl_reservationRequest c) r \<Longrightarrow> claim_of L c"
  by (auto simp: owned_def claim_of_def)

lemma claim_of_owned: "claim_of L c \<Longrightarrow> owned L c r m \<Longrightarrow> same_request (cl_reservationRequest c) r"
  by (auto simp: owned_def claim_of_def)

lemma owned_request_eq:
  assumes "claim_of L c" "owned L c r m" "rr_status (cl_reservationRequest c) = PROCESSING"
  shows "r = cl_reservationRequest c"
  using claim_of_owned [OF assms(1,2)] assms(2,3) unfolding same_request_def owned_def
  by (metis update_same_status)

section \<open>The contract\<close>

text \<open>
  \<open>did c r m q a L L'\<close>: the claim owned \<open>r\<close>, which became \<open>q\<close>, with its
  claim cleared and the attempt \<open>a\<close> recorded.
\<close>

definition did :: "claimed_reservation_request \<Rightarrow> reservation_request \<Rightarrow> work_metadata \<Rightarrow> work_metadata \<Rightarrow>
    reservation_request_status \<Rightarrow> processing_attempt \<Rightarrow> ledger \<Rightarrow> ledger \<Rightarrow> bool" where
  "did c r m m' st a L L' \<longleftrightarrow> owned L c r m \<and>
     L' = add_attempt a (put_work (r\<lparr>rr_status := st\<rparr>) (cleared_metadata m') L)"

definition confirm_outcome :: "confirm_input \<Rightarrow> ledger \<Rightarrow> js_error + confirm_result \<Rightarrow> ledger \<Rightarrow> bool" where
  "confirm_outcome ci L res L' \<longleftrightarrow> (let v = co_reservation ci; c = co_claimedWorkItem ci in
     case res of
       Inl e \<Rightarrow> L' = L
     | Inr (Confirm_Confirmed q) \<Rightarrow> \<exists>r m. owned L c r m \<and> lg_reservation L (rv_id v) = None \<and>
         (\<forall>j w. lg_reservation L j = Some w \<longrightarrow> seats_disjoint v w) \<and> q = r\<lparr>rr_status := CONFIRMED\<rparr> \<and>
         L' = add_attempt (Confirmed_Attempt (co_attempt ci)) (put_work q (cleared_metadata m) (put_reservation v L))
     | Inr (Confirm_Rejected q a) \<Rightarrow> \<exists>r m j w. did c r m m REJECTED (Rejected_Attempt a) L L' \<and>
         lg_reservation L j = Some w \<and> \<not> seats_disjoint v w \<and> q = r\<lparr>rr_status := REJECTED\<rparr> \<and>
         a = rejected_attempt_of ci r w)"

text \<open>
  Two sorts of values come from outside the repository: the times of an attempt and the id of a
  new reservation. A repository may only promise to record values of a certain form
  (\<open>time_ok\<close>, \<open>id_ok\<close>); the environment has to supply such values.
\<close>

definition attempt_for ::
  "(string \<Rightarrow> bool) \<Rightarrow> claimed_reservation_request \<Rightarrow> 'x processing_attempt_base_scheme \<Rightarrow> bool" where
  "attempt_for time_ok c a \<longleftrightarrow> at_reservationRequestId a = rr_id (cl_reservationRequest c) \<and>
     at_sequence a = cl_sequence c \<and> time_ok (at_startedAt a) \<and> time_ok (at_completedAt a)"

definition environment_fits :: "(string \<Rightarrow> bool) \<Rightarrow> (string \<Rightarrow> bool) \<Rightarrow> 'e environment \<Rightarrow> bool" where
  "environment_fits time_ok id_ok E \<longleftrightarrow>
     (\<forall>e t. fst (en_nowIsoString E e) = Inr t \<longrightarrow> time_ok t) \<and>
     (\<forall>e i. fst (en_generateReservationId E e) = Inr i \<longrightarrow> id_ok i)"

lemma environment_fits_any [simp]: "environment_fits (\<lambda>_. True) (\<lambda>_. True) E"
  by (simp add: environment_fits_def)

definition confirm_ok :: "(string \<Rightarrow> bool) \<Rightarrow> (string \<Rightarrow> bool) \<Rightarrow> ledger \<Rightarrow> confirm_input \<Rightarrow> bool" where
  "confirm_ok time_ok id_ok L ci \<longleftrightarrow> claim_of L (co_claimedWorkItem ci) \<and>
     reservation_for (cl_reservationRequest (co_claimedWorkItem ci)) (co_reservation ci) \<and>
     id_ok (rv_id (co_reservation ci)) \<and> time_ok (rv_confirmedAt (co_reservation ci)) \<and>
     attempt_for time_ok (co_claimedWorkItem ci) (co_attempt ci) \<and>
     at_reservationId (co_attempt ci) = rv_id (co_reservation ci)"

locale work_repository =
  fixes W :: "'s work_repository_ops" and sound :: "'s \<Rightarrow> bool" and ledger :: "'s \<Rightarrow> ledger"
    and time_ok id_ok :: "string \<Rightarrow> bool"
  assumes inv_ledger: "sound s \<Longrightarrow> ledger_inv (ledger s)"
    and claim_law: "sound s \<Longrightarrow> wr_claimNext W input s = (res, s') \<Longrightarrow>
      sound s' \<and> advances (ledger s) (ledger s') \<and>
      (\<forall>c. res = Inr (Some c) \<longrightarrow> cl_claimToken c = ci_claimToken input \<and> cl_claimedBy c = ci_workerId input \<and>
         (\<exists>m. owned (ledger s') c (cl_reservationRequest c) m \<and>
              md_transientFailureCount m = cl_transientFailureCount c))"
    and heartbeat_law: "sound s \<Longrightarrow> wr_heartbeat W hb s = (bres, s') \<Longrightarrow> sound s' \<and> advances (ledger s) (ledger s')"
    and find_law: "sound s \<Longrightarrow> lg_request (ledger s) i = Some r \<Longrightarrow>
      wr_findConflict W (rr_screeningId r) (rr_seatIds r) s = (vres, s') \<Longrightarrow> sound s' \<and> ledger s' = ledger s \<and>
      (vres = Inr None \<longrightarrow> (\<forall>j w. lg_reservation (ledger s) j = Some w \<longrightarrow>
         \<not> seats_conflict (rr_screeningId r) (rr_seatIds r) w)) \<and>
      (\<forall>w. vres = Inr (Some w) \<longrightarrow> (\<exists>j. lg_reservation (ledger s) j = Some w) \<and>
         seats_conflict (rr_screeningId r) (rr_seatIds r) w)"
    and reject_law: "sound s \<Longrightarrow> claim_of (ledger s) c \<Longrightarrow> attempt_for time_ok c ra \<Longrightarrow>
      lg_reservation (ledger s) (at_conflictingReservationId ra) \<noteq> None \<Longrightarrow>
      wr_reject W c ra s = (qres, s') \<Longrightarrow> sound s' \<and>
      (case qres of Inl e \<Rightarrow> ledger s' = ledger s
       | Inr q \<Rightarrow> \<exists>r m. did c r m m REJECTED (Rejected_Attempt ra) (ledger s) (ledger s') \<and> q = r\<lparr>rr_status := REJECTED\<rparr>)"
    and release_law: "sound s \<Longrightarrow> claim_of (ledger s) c \<Longrightarrow> attempt_for time_ok c fa \<Longrightarrow>
      wr_release W c fa s = (qres, s') \<Longrightarrow> sound s' \<and>
      (case qres of Inl e \<Rightarrow> ledger s' = ledger s
       | Inr q \<Rightarrow> \<exists>r m. did c r m (bump_failures m) REQUESTED (Failed_Attempt fa) (ledger s) (ledger s') \<and>
           q = r\<lparr>rr_status := REQUESTED\<rparr>)"
    and fail_law: "sound s \<Longrightarrow> claim_of (ledger s) c \<Longrightarrow> attempt_for time_ok c fa \<Longrightarrow>
      wr_fail W c fa s = (qres, s') \<Longrightarrow> sound s' \<and>
      (case qres of Inl e \<Rightarrow> ledger s' = ledger s
       | Inr q \<Rightarrow> \<exists>r m. did c r m (bump_failures m) FAILED (Failed_Attempt fa) (ledger s) (ledger s') \<and>
           q = r\<lparr>rr_status := FAILED\<rparr>)"
    and confirm_law: "sound s \<Longrightarrow> confirm_ok time_ok id_ok (ledger s) ci \<Longrightarrow>
      wr_confirm W ci s = (cres, s') \<Longrightarrow> sound s' \<and> confirm_outcome ci (ledger s) cres (ledger s')"

lemma owned_not_terminal: "owned L c r m \<Longrightarrow> \<not> terminal_status (rr_status r)"
  by (simp add: owned_def terminal_status_def)

lemma did_evolves:
  assumes "ledger_inv L" "did c r m m' st a L L'" "metadata_evolves m (cleared_metadata m')"
  shows "evolves L L'"
  using assms owned_facts(3,4) [OF assms(1), of c r m] owned_not_terminal [of L c r m]
  by (auto simp: did_def intro!: evolves_add_attempt evolves_put_work)

lemma did_result_evolves:
  assumes "ledger_inv L" "case qres of Inl e \<Rightarrow> L' = L
    | Inr q \<Rightarrow> \<exists>r m. did c r m (g m) st a L L' \<and> q = r\<lparr>rr_status := st\<rparr>"
    "\<And>m. metadata_evolves m (cleared_metadata (g m))"
  shows "evolves L L'"
  using assms by (auto split: sum.splits intro!: did_evolves)

context work_repository
begin

lemma reject_evolves: "sound s \<Longrightarrow> claim_of (ledger s) c \<Longrightarrow> attempt_for time_ok c ra \<Longrightarrow>
    lg_reservation (ledger s) (at_conflictingReservationId ra) \<noteq> None \<Longrightarrow>
    wr_reject W c ra s = (qres, s') \<Longrightarrow> evolves (ledger s) (ledger s')"
  by (rule did_result_evolves [where g = "\<lambda>m. m", OF inv_ledger conjunct2 [OF reject_law]]) simp_all

lemma release_evolves: "sound s \<Longrightarrow> claim_of (ledger s) c \<Longrightarrow> attempt_for time_ok c fa \<Longrightarrow>
    wr_release W c fa s = (qres, s') \<Longrightarrow> evolves (ledger s) (ledger s')"
  by (rule did_result_evolves [where g = bump_failures, OF inv_ledger conjunct2 [OF release_law]]) simp_all

lemma fail_evolves: "sound s \<Longrightarrow> claim_of (ledger s) c \<Longrightarrow> attempt_for time_ok c fa \<Longrightarrow>
    wr_fail W c fa s = (qres, s') \<Longrightarrow> evolves (ledger s) (ledger s')"
  by (rule did_result_evolves [where g = bump_failures, OF inv_ledger conjunct2 [OF fail_law]]) simp_all

lemma confirm_evolves:
  assumes "sound s" "confirm_ok time_ok id_ok (ledger s) ci" "wr_confirm W ci s = (cres, s')"
  shows "evolves (ledger s) (ledger s')"
proof -
  have o: "confirm_outcome ci (ledger s) cres (ledger s')" using confirm_law [OF assms] by blast
  show ?thesis
  proof (cases cres)
    case (Inl e)
    then show ?thesis using o by (simp add: confirm_outcome_def Let_def)
  next
    case (Inr cr)
    show ?thesis
    proof (cases cr)
      case (Confirm_Confirmed q)
      then obtain r m where r: "owned (ledger s) (co_claimedWorkItem ci) r m"
        "lg_reservation (ledger s) (rv_id (co_reservation ci)) = None"
        "ledger s' = add_attempt (Confirmed_Attempt (co_attempt ci)) (put_work (r\<lparr>rr_status := CONFIRMED\<rparr>)
          (cleared_metadata m) (put_reservation (co_reservation ci) (ledger s)))"
        using o Inr by (auto simp: confirm_outcome_def Let_def)
      note f = owned_facts [OF inv_ledger [OF assms(1)] r(1)]
      have "evolves (put_reservation (co_reservation ci) (ledger s)) (put_work (r\<lparr>rr_status := CONFIRMED\<rparr>)
          (cleared_metadata m) (put_reservation (co_reservation ci) (ledger s)))"
        by (rule evolves_put_work [where m = m])
          (use f in \<open>simp_all add: put_reservation_def terminal_status_def\<close>)
      with r(2,3) show ?thesis
        by (metis evolves_add_attempt evolves_put_reservation evolves_trans)
    next
      case (Confirm_Rejected q a)
      then obtain r m where "did (co_claimedWorkItem ci) r m m REJECTED (Rejected_Attempt a) (ledger s) (ledger s')"
        using o Inr by (auto simp: confirm_outcome_def Let_def)
      then show ?thesis by (rule did_evolves [OF inv_ledger [OF assms(1)]]) simp
    qed
  qed
qed

end

text \<open>
  A repository that does not fail by itself: an operation on owned work succeeds, and one
  that throws leaves the ledger alone. The in-memory repository is one; a database behind a
  network is not.
\<close>

locale reliable_work_repository = work_repository W sound ledger time_ok id_ok
  for W :: "'s work_repository_ops" and sound :: "'s \<Rightarrow> bool" and ledger :: "'s \<Rightarrow> ledger"
    and time_ok id_ok :: "string \<Rightarrow> bool" +
  assumes claim_total: "sound s \<Longrightarrow> fst (wr_claimNext W input s) \<noteq> Inl e"
    and find_total: "sound s \<Longrightarrow> fst (wr_findConflict W sc seats s) \<noteq> Inl e"
    and reject_total: "sound s \<Longrightarrow> owned (ledger s) c r m \<Longrightarrow> fst (wr_reject W c ra s) \<noteq> Inl e"
    and release_total: "sound s \<Longrightarrow> owned (ledger s) c r m \<Longrightarrow> fst (wr_release W c fa s) \<noteq> Inl e"
    and fail_total: "sound s \<Longrightarrow> owned (ledger s) c r m \<Longrightarrow> fst (wr_fail W c fa s) \<noteq> Inl e"
    and confirm_total: "sound s \<Longrightarrow> owned (ledger s) (co_claimedWorkItem ci) r m \<Longrightarrow>
      lg_reservation (ledger s) (rv_id (co_reservation ci)) = None \<Longrightarrow> fst (wr_confirm W ci s) \<noteq> Inl e"

section \<open>The in-memory repository meets the contract\<close>

lemma effect_cases: "effect m s r L \<Longrightarrow> m s = (r', s') \<Longrightarrow>
    r' = r \<and> view s' = L \<and> (maps_ok s \<longrightarrow> maps_ok s') \<and> catalogue s' = catalogue s"
  by (simp add: effect_def)

lemma effect_inv: "store_inv s \<Longrightarrow> effect m s r L \<Longrightarrow> ledger_inv L \<Longrightarrow> store_inv (snd (m s))"
  by (simp add: store_inv_def effect_def)

lemma claim_state_ok_changes:
  "claim_state_ok r m \<Longrightarrow> st \<noteq> PROCESSING \<Longrightarrow> claim_state_ok (r\<lparr>rr_status := st\<rparr>) (cleared_metadata m)"
  "claim_state_ok r m \<Longrightarrow> st \<noteq> PROCESSING \<Longrightarrow> claim_state_ok (r\<lparr>rr_status := st\<rparr>) (cleared_metadata (bump_failures m))"
  "claim_state_ok r m \<Longrightarrow> rr_status r = PROCESSING \<Longrightarrow> claim_state_ok r (renewed_metadata h m)"
  "claim_state_ok r m \<Longrightarrow> claim_state_ok (r\<lparr>rr_status := PROCESSING\<rparr>) (claimed_metadata input (work_item input r m))"
  by (simp_all add: claim_state_ok_def claim_fields_present_def renewed_metadata_def claimed_metadata_def
      work_item_def)

lemma did_inv:
  assumes inv: "ledger_inv L" and d: "did c r m m' st a L L'" and m': "m' = m \<or> m' = bump_failures m"
    and st: "st \<noteq> CONFIRMED" "st \<noteq> PROCESSING"
  shows "ledger_inv L'"
proof -
  have o: "owned L c r m" using d by (simp add: did_def)
  note f = owned_facts [OF inv o]
  have "ledger_inv (put_work (r\<lparr>rr_status := st\<rparr>) (cleared_metadata m') L)"
    by (rule ledger_inv_status [OF inv f(3,4)])
      (use f st m' claim_state_ok_changes(1,2) [OF f(5) st(2)] in auto)
  then show ?thesis using d by (simp add: did_def)
qed

lemma owned_effect_did:
  assumes inv: "store_inv s" and o: "owned (view s) c r m"
  shows "effect (reject_claimed c ra) s (Inr (r\<lparr>rr_status := REJECTED\<rparr>))
      (add_attempt (Rejected_Attempt ra) (put_work (r\<lparr>rr_status := REJECTED\<rparr>) (cleared_metadata m) (view s)))"
    "effect (release_claimed c fa) s (Inr (r\<lparr>rr_status := REQUESTED\<rparr>))
      (add_attempt (Failed_Attempt fa) (put_work (r\<lparr>rr_status := REQUESTED\<rparr>) (cleared_metadata (bump_failures m)) (view s)))"
    "effect (fail_claimed c fa) s (Inr (r\<lparr>rr_status := FAILED\<rparr>))
      (add_attempt (Failed_Attempt fa) (put_work (r\<lparr>rr_status := FAILED\<rparr>) (cleared_metadata (bump_failures m)) (view s)))"
proof -
  have "rr_id r = rr_id (cl_reservationRequest c)"
    using inv o owned_facts(1) [of "view s" c r m] by (simp add: store_inv_def)
  then show "effect (reject_claimed c ra) s (Inr (r\<lparr>rr_status := REJECTED\<rparr>))
      (add_attempt (Rejected_Attempt ra) (put_work (r\<lparr>rr_status := REJECTED\<rparr>) (cleared_metadata m) (view s)))"
    "effect (release_claimed c fa) s (Inr (r\<lparr>rr_status := REQUESTED\<rparr>))
      (add_attempt (Failed_Attempt fa) (put_work (r\<lparr>rr_status := REQUESTED\<rparr>) (cleared_metadata (bump_failures m)) (view s)))"
    "effect (fail_claimed c fa) s (Inr (r\<lparr>rr_status := FAILED\<rparr>))
      (add_attempt (Failed_Attempt fa) (put_work (r\<lparr>rr_status := FAILED\<rparr>) (cleared_metadata (bump_failures m)) (view s)))"
    using o by (blast intro: reject_claimed_owned release_claimed_owned fail_claimed_owned)+
qed

text \<open>One argument for the three operations that end a claim without a reservation.\<close>

lemma claimed_op_law:
  assumes inv: "store_inv s" and run: "f s = (res, s')"
    and owned_case: "\<And>r m. owned (view s) c r m \<Longrightarrow> effect f s (Inr (r\<lparr>rr_status := st\<rparr>))
      (add_attempt a (put_work (r\<lparr>rr_status := st\<rparr>) (cleared_metadata (g m)) (view s)))"
    and lost_case: "lost (view s) c \<Longrightarrow> \<exists>e. f s = (Inl e, s)"
    and st: "st \<noteq> CONFIRMED" "st \<noteq> PROCESSING" and g: "\<And>m. g m = m \<or> g m = bump_failures m"
  shows "store_inv s' \<and> (case res of Inl e \<Rightarrow> view s' = view s
    | Inr q \<Rightarrow> \<exists>r m. did c r m (g m) st a (view s) (view s') \<and> q = r\<lparr>rr_status := st\<rparr>)"
proof (cases rule: owned_or_lost [of "view s" c])
  case (1 r m)
  note e = owned_case [OF 1]
  from effect_cases [OF e run] have r: "res = Inr (r\<lparr>rr_status := st\<rparr>)"
    and d: "did c r m (g m) st a (view s) (view s')" using 1 by (simp_all add: did_def)
  have "ledger_inv (view s)" using inv by (simp add: store_inv_def)
  from did_inv [OF this d g st] effect_cases [OF e run] inv have "store_inv s'" by (simp add: store_inv_def)
  with r d show ?thesis by auto
next
  case 2
  then show ?thesis using lost_case run inv by auto
qed

lemma claimed_metadata_sequence: "md_sequence (claimed_metadata input w) = cl_sequence w"
  by (simp add: claimed_metadata_def)

lemma claim_next_law:
  assumes inv: "store_inv s" and run: "claim_next input s = (res, s')"
  shows "store_inv s' \<and> advances (view s) (view s') \<and> (\<exists>b. res = Inr b) \<and> catalogue s' = catalogue s \<and>
    (\<forall>c. res = Inr (Some c) \<longrightarrow> cl_claimToken c = ci_claimToken input \<and> cl_claimedBy c = ci_workerId input \<and>
       (\<exists>m. owned (view s') c (cl_reservationRequest c) m \<and> md_transientFailureCount m = cl_transientFailureCount c))"
proof -
  have li: "ledger_inv (view s)" using inv by (simp add: store_inv_def)
  show ?thesis
  proof (cases rule: claim_next_cases [OF inv, of input, case_names none exhausted claimed])
    case none
    then show ?thesis using run inv by simp
  next
    case (exhausted r m)
    then have r: "lg_request (view s) (rr_id r) = Some r" "lg_metadata (view s) (rr_id r) = Some m"
      "rr_status r = PROCESSING"
      by (simp_all add: oldest_eligible_def eligible_def lease_exhausted_def is_expired_processing_request_def)
    from inv_requestD [OF li r(1)] r(2) have "claim_state_ok r m" by auto
    then have "ledger_inv (put_work (r\<lparr>rr_status := FAILED\<rparr>) (cleared_metadata m) (view s))"
      by (intro ledger_inv_status [OF li r(1,2)]) (simp_all add: r claim_state_ok_changes)
    moreover have "advances (view s) (put_work (r\<lparr>rr_status := FAILED\<rparr>) (cleared_metadata m) (view s))"
      by (rule advances_put_work [where m = m]) (use r in \<open>simp_all add: terminal_status_def\<close>)
    ultimately show ?thesis
      using effect_cases [OF exhausted(3) run] inv by (simp add: store_inv_def advances_add_attempt)
  next
    case (claimed r m)
    then have r: "lg_request (view s) (rr_id r) = Some r" "lg_metadata (view s) (rr_id r) = Some m"
      "rr_status r = REQUESTED \<or> rr_status r = PROCESSING"
      using claimable_status [of input r m] by (auto simp: oldest_eligible_def eligible_def)
    let ?m = "claimed_metadata input (work_item input r m)"
    let ?L = "put_work (r\<lparr>rr_status := PROCESSING\<rparr>) ?m (view s)"
    from inv_requestD [OF li r(1)] r(2) have "claim_state_ok r m" by auto
    then have "ledger_inv ?L"
      by (intro ledger_inv_status [OF li r(1,2)])
        (use r(3) in \<open>auto simp: claim_state_ok_changes claimed_metadata_sequence\<close>)
    moreover have "advances (view s) ?L"
      by (rule advances_put_work [where m = m]) (use r in \<open>auto simp: terminal_status_def\<close>)
    moreover have "owned ?L (claimed_item input r m) (r\<lparr>rr_status := PROCESSING\<rparr>) ?m"
      "md_transientFailureCount ?m = cl_transientFailureCount (claimed_item input r m)"
      "cl_claimToken (claimed_item input r m) = ci_claimToken input"
      "cl_claimedBy (claimed_item input r m) = ci_workerId input"
      "cl_reservationRequest (claimed_item input r m) = r\<lparr>rr_status := PROCESSING\<rparr>"
      by (simp_all add: owned_def put_work_def claimed_item_def claimed_metadata_def work_item_def)
    ultimately show ?thesis
      using effect_cases [OF claimed(3) run] inv by (auto simp: store_inv_def)
  qed
qed

lemma heartbeat_claimed_law:
  assumes inv: "store_inv s" and run: "heartbeat_claimed hb s = (res, s')"
  shows "store_inv s' \<and> advances (view s) (view s') \<and> catalogue s' = catalogue s"
proof -
  have li: "ledger_inv (view s)" using inv by (simp add: store_inv_def)
  show ?thesis
  proof (cases rule: heartbeat_cases [OF inv, of hb, case_names renewed refused])
    case (renewed r m)
    then have r: "lg_request (view s) (rr_id r) = Some r" "lg_metadata (view s) (rr_id r) = Some m"
      "rr_status r = PROCESSING"
      using inv_request_id [OF li] by (auto simp: heartbeat_owned_def)
    from inv_requestD [OF li r(1)] r(2) have c: "claim_state_ok r m" by auto
    have e: "r\<lparr>rr_status := PROCESSING\<rparr> = r" using r(3) by (rule update_same_status)
    have "ledger_inv (put_work (r\<lparr>rr_status := PROCESSING\<rparr>) (renewed_metadata hb m) (view s))"
      by (rule ledger_inv_status [OF li r(1,2)])
        (use r(3) claim_state_ok_changes(3) [OF c r(3)] in \<open>simp_all add: e renewed_metadata_def\<close>)
    moreover have "advances (view s) (put_work (r\<lparr>rr_status := PROCESSING\<rparr>) (renewed_metadata hb m) (view s))"
      by (rule advances_put_work [where m = m]) (use r in \<open>simp_all add: terminal_status_def\<close>)
    ultimately show ?thesis using effect_cases [OF renewed(2) run] inv by (simp add: store_inv_def e)
  next
    case refused
    then show ?thesis using run inv by simp
  qed
qed

lemma find_conflict_law:
  assumes inv: "store_inv s" and run: "find_conflict sc seats s = (res, s')"
  shows "store_inv s' \<and> view s' = view s \<and>
    (res = Inr None \<longrightarrow> (\<forall>j w. lg_reservation (view s) j = Some w \<longrightarrow> \<not> seats_conflict sc seats w)) \<and>
    (\<forall>w. res = Inr (Some w) \<longrightarrow> (\<exists>j. lg_reservation (view s) j = Some w) \<and> seats_conflict sc seats w)"
proof -
  have mo: "maps_ok s" using inv by (simp add: store_inv_def)
  have "res = Inr (find_conflict_in s sc seats)" "s' = s" using run by (auto simp: find_conflict_def)
  then show ?thesis
    using inv find_conflict_None [OF mo, of sc seats] find_conflict_Some [OF mo, of sc seats]
    by (metis Inr_inject)
qed

lemma confirm_claimed_law:
  assumes inv: "store_inv s" and c: "claim_of (view s) (co_claimedWorkItem ci)"
    and v: "reservation_for (cl_reservationRequest (co_claimedWorkItem ci)) (co_reservation ci)"
    and run: "confirm_claimed ci s = (res, s')"
  shows "store_inv s' \<and> confirm_outcome ci (view s) res (view s')"
proof (cases rule: owned_or_lost [of "view s" "co_claimedWorkItem ci"])
  case (1 r m)
  let ?v = "co_reservation ci"
  have li: "ledger_inv (view s)" and mo: "maps_ok s" using inv by (simp_all add: store_inv_def)
  note f = owned_facts [OF li 1]
  have vr: "reservation_for r ?v"
    using v same_request_fields [OF claim_of_owned [OF c 1]] by (simp add: reservation_for_def)
  note b = confirm_begin_owned [OF 1]
  show ?thesis
  proof (cases "lg_reservation (view s) (rv_id ?v) = None")
    case False
    then show ?thesis
      using run inv b by (auto simp: confirm_claimed_def bind_io_def confirm_outcome_def Let_def)
  next
    case fresh: True
    show ?thesis
    proof (cases "find_conflict_in s (rv_screeningId ?v) (rv_seatIds ?v)")
      case None
      then have free: "\<forall>j w. lg_reservation (view s) j = Some w \<longrightarrow> seats_disjoint ?v w"
        using find_conflict_None [OF mo, of "rv_screeningId ?v" "rv_seatIds ?v"] seats_conflict_disjoint by blast
      have run': "confirm_finish ci (r, None) s = (res, s')"
        using run fresh None by (simp add: confirm_claimed_def bind_io_def b)
      note e = effect_cases [OF confirm_finish_free [OF f(2,4), of ci] run']
      have "ledger_inv (put_work (r\<lparr>rr_status := CONFIRMED\<rparr>) (cleared_metadata m) (put_reservation ?v (view s)))"
        by (rule ledger_inv_confirm [OF li f(3,4)])
          (use f fresh free vr claim_state_ok_changes(1) [OF f(5)] in auto)
      then have "store_inv s'" using e inv by (simp add: store_inv_def)
      then show ?thesis using 1 e fresh free by (auto simp: confirm_outcome_def Let_def)
    next
      case (Some w)
      from find_conflict_Some [OF mo Some] obtain j where j: "lg_reservation (view s) j = Some w"
        "\<not> seats_disjoint ?v w" using seats_conflict_disjoint by blast
      have run': "confirm_finish ci (r, Some w) s = (res, s')"
        using run fresh Some by (simp add: confirm_claimed_def bind_io_def b)
      note e = effect_cases [OF confirm_finish_conflict [OF f(2,4), of ci w] run']
      then have d: "did (co_claimedWorkItem ci) r m m REJECTED (Rejected_Attempt (rejected_attempt_of ci r w))
          (view s) (view s')" using 1 by (simp add: did_def)
      have "store_inv s'" using did_inv [OF li d] e inv by (simp add: store_inv_def)
      then show ?thesis using e d j by (auto simp: confirm_outcome_def Let_def)
    qed
  qed
next
  case 2
  then obtain e where "confirm_begin ci s = (Inl e, s)" using claimed_ops_lost(4) [OF 2 refl] by blast
  then show ?thesis using run inv by (auto simp: confirm_claimed_def bind_io_def confirm_outcome_def Let_def)
qed

lemmas in_memory_ops = in_memory_work_repository_def

lemma reject_claimed_law:
  assumes inv: "store_inv s" and run: "reject_claimed c ra s = (res, s')"
  shows "store_inv s' \<and> (case res of Inl e \<Rightarrow> view s' = view s
    | Inr q \<Rightarrow> \<exists>r m. did c r m m REJECTED (Rejected_Attempt ra) (view s) (view s') \<and> q = r\<lparr>rr_status := REJECTED\<rparr>)"
  by (rule claimed_op_law [where g = "\<lambda>m. m", OF inv run owned_effect_did(1) [OF inv] claimed_ops_lost(1)])
    simp_all

lemma release_claimed_law:
  assumes inv: "store_inv s" and run: "release_claimed c fa s = (res, s')"
  shows "store_inv s' \<and> (case res of Inl e \<Rightarrow> view s' = view s
    | Inr q \<Rightarrow> \<exists>r m. did c r m (bump_failures m) REQUESTED (Failed_Attempt fa) (view s) (view s') \<and>
        q = r\<lparr>rr_status := REQUESTED\<rparr>)"
  by (rule claimed_op_law [where g = bump_failures, OF inv run owned_effect_did(2) [OF inv] claimed_ops_lost(2)])
    simp_all

lemma fail_claimed_law:
  assumes inv: "store_inv s" and run: "fail_claimed c fa s = (res, s')"
  shows "store_inv s' \<and> (case res of Inl e \<Rightarrow> view s' = view s
    | Inr q \<Rightarrow> \<exists>r m. did c r m (bump_failures m) FAILED (Failed_Attempt fa) (view s) (view s') \<and>
        q = r\<lparr>rr_status := FAILED\<rparr>)"
  by (rule claimed_op_law [where g = bump_failures, OF inv run owned_effect_did(3) [OF inv] claimed_ops_lost(3)])
    simp_all

interpretation in_memory: work_repository in_memory_work_repository store_inv view "\<lambda>_. True" "\<lambda>_. True"
proof (unfold_locales, goal_cases)
  case 1
  then show ?case by (simp add: store_inv_def)
next
  case 2
  then show ?case using claim_next_law by (simp add: in_memory_ops)
next
  case 3
  then show ?case using heartbeat_claimed_law by (simp add: in_memory_ops)
next
  case 4
  then show ?case using find_conflict_law by (simp add: in_memory_ops)
next
  case 5
  then show ?case using reject_claimed_law by (simp add: in_memory_ops)
next
  case 6
  then show ?case using release_claimed_law by (simp add: in_memory_ops)
next
  case 7
  then show ?case using fail_claimed_law by (simp add: in_memory_ops)
next
  case 8
  then show ?case using confirm_claimed_law unfolding confirm_ok_def in_memory_ops work_repository_ops.simps by blast
qed

interpretation in_memory_total: reliable_work_repository in_memory_work_repository store_inv view "\<lambda>_. True" "\<lambda>_. True"
proof (unfold_locales, goal_cases)
  case (1 s input e)
  obtain res s' where run: "claim_next input s = (res, s')" by (cases "claim_next input s")
  then show ?case using claim_next_law [OF 1 run] by (auto simp: in_memory_ops)
next
  case 2
  then show ?case by (simp add: in_memory_ops find_conflict_def)
next
  case 3
  then show ?case using owned_effect_did(1) by (simp add: in_memory_ops effect_def)
next
  case 4
  then show ?case using owned_effect_did(2) by (simp add: in_memory_ops effect_def)
next
  case 5
  then show ?case using owned_effect_did(3) by (simp add: in_memory_ops effect_def)
next
  case (6 s ci r m e)
  then have f: "rr_status r = PROCESSING" "lg_metadata (view s) (rr_id r) = Some m"
    using owned_facts [of "view s" _ r m] by (auto simp: store_inv_def)
  note b = confirm_begin_owned [OF 6(2)]
  show ?case
    using 6(3) confirm_finish_free [OF f, of ci] confirm_finish_conflict [OF f, of ci]
    by (cases "find_conflict_in s (rv_screeningId (co_reservation ci)) (rv_seatIds (co_reservation ci))")
      (simp_all add: in_memory_ops confirm_claimed_def bind_io_def b effect_def)
qed

end
