(* ===== verification/Processor.thy ===== *)
theory Processor
  imports Work_Contract
begin

text \<open>
  The application processor,
  \<open>src/src/application/movie-reservations/in-process-reservation-request-processor.ts\<close>:
  claim one request, look for a conflict, reject or confirm it, and on any other failure
  release or fail it. It is written against the work repository port and the environment,
  either of which may throw at any call.
\<close>

section \<open>Options, input and results\<close>

record processor_options =
  po_workerId :: string
  po_claimLeaseMs :: int
  po_maxLeaseTimeouts :: int
  po_maxTransientFailures :: int

record 'e processing_input =
  pi_claimToken :: "string option"
  pi_onClaimed :: "(claimed_reservation_request \<Rightarrow> ('e, unit) io) option"

datatype processing_result =
    No_Pending_Request
  | Confirmed_Result confirmed_attempt reservation_request reservation
  | Rejected_Result rejected_attempt reservation_request
  | Retryable_Failure_Result failed_attempt reservation_request int
  | Failed_Result failed_attempt reservation_request

definition default_processor_options :: processor_options where
  "default_processor_options = \<lparr>po_workerId = ''manual-in-process-reservation-processor'',
     po_claimLeaseMs = 30000, po_maxLeaseTimeouts = 3, po_maxTransientFailures = 3\<rparr>"

section \<open>Helpers\<close>

text \<open>\<open>new Date(new Date(isoString).getTime() + milliseconds).toISOString()\<close>\<close>

definition add_milliseconds :: "string \<Rightarrow> int \<Rightarrow> js_error + string" where
  "add_milliseconds isoString milliseconds = (case date_get_time isoString of
     None \<Rightarrow> Inl (RangeError ''Invalid time value'') | Some t \<Rightarrow> to_iso_string (t + milliseconds))"

text \<open>Durations are kept in nanoseconds; the code divides them by a million for display.\<close>

definition calculate_duration :: "'e environment \<Rightarrow> int \<Rightarrow> ('e, int) io" where
  "calculate_duration E startedAt = bind_io (en_hrtime E) (\<lambda>now. ret (now - startedAt))"

definition span_attributes_of :: "claimed_reservation_request \<Rightarrow> span_attributes" where
  "span_attributes_of c = \<lparr>sp_reservationRequestId = rr_id (cl_reservationRequest c),
     sp_sequence = cl_sequence c, sp_observabilityContext = cl_observabilityContext c\<rparr>"

definition record_claimed_work_item :: "'e environment \<Rightarrow> claimed_reservation_request \<Rightarrow> ('e, unit) io" where
  "record_claimed_work_item E c = en_claimed E (span_attributes_of c)"

fun result_request :: "processing_result \<Rightarrow> reservation_request option" where
  "result_request No_Pending_Request = None"
| "result_request (Confirmed_Result a r v) = Some r"
| "result_request (Rejected_Result a r) = Some r"
| "result_request (Retryable_Failure_Result a r n) = Some r"
| "result_request (Failed_Result a r) = Some r"

fun result_outcome :: "processing_result \<Rightarrow> processor_outcome" where
  "result_outcome No_Pending_Request = O_No_Pending_Request"
| "result_outcome (Confirmed_Result a r v) = O_Confirmed"
| "result_outcome (Rejected_Result a r) = O_Rejected"
| "result_outcome (Retryable_Failure_Result a r n) = O_Retryable_Failure"
| "result_outcome (Failed_Result a r) = O_Failed"

fun result_reason :: "processing_result \<Rightarrow> string option" where
  "result_reason (Rejected_Result a r) = Some ''seat-conflict''"
| "result_reason (Retryable_Failure_Result a r n) = Some ''unexpected-error''"
| "result_reason (Failed_Result a r) = Some ''unexpected-error''"
| "result_reason _ = None"

definition record_processor_outcome ::
  "'e environment \<Rightarrow> processing_result \<Rightarrow> claimed_reservation_request \<Rightarrow> int \<Rightarrow> ('e, unit) io" where
  "record_processor_outcome E result c durationStartedAt =
    bind_io (calculate_duration E durationStartedAt) (\<lambda>duration.
    en_outcome E \<lparr>oa_outcome = result_outcome result,
      oa_reservationRequestId = map_option rr_id (result_request result), oa_sequence = Some (cl_sequence c),
      oa_reason = result_reason result, oa_durationNs = duration,
      oa_observabilityContext = cl_observabilityContext c\<rparr>)"

text \<open>\<open>runWithReservationProcessorSpan\<close>\<close>

definition run_with_span :: "'e environment \<Rightarrow> span_attributes \<Rightarrow> ('s \<times> 'e, 'a) io \<Rightarrow> ('s \<times> 'e, 'a) io" where
  "run_with_span E attributes operation =
    then_io (on_env (en_spanStart E attributes))
      (finally_io (catch_io operation (\<lambda>error. then_io (on_env (en_spanError E error)) (throw error)))
        (on_env (en_spanEnd E)))"

section \<open>One claimed work item\<close>

definition reject_for_seat_conflict :: "'s work_repository_ops \<Rightarrow> 'e environment \<Rightarrow> claimed_reservation_request \<Rightarrow>
    string \<Rightarrow> id \<Rightarrow> ('s \<times> 'e, processing_result) io" where
  "reject_for_seat_conflict W E c startedAt conflictingReservationId =
    bind_io (on_env (en_nowIsoString E)) (\<lambda>completedAt.
    (let attempt = \<lparr>at_reservationRequestId = rr_id (cl_reservationRequest c), at_sequence = cl_sequence c,
           at_startedAt = startedAt, at_completedAt = completedAt, at_rejectionReason = Seat_Conflict,
           at_conflictingReservationId = conflictingReservationId\<rparr> in
    bind_io (on_db (wr_reject W c attempt)) (\<lambda>r. ret (Rejected_Result attempt r))))"

definition confirm_claimed_work_item :: "'s work_repository_ops \<Rightarrow> 'e environment \<Rightarrow> claimed_reservation_request \<Rightarrow>
    string \<Rightarrow> ('s \<times> 'e, processing_result) io" where
  "confirm_claimed_work_item W E c startedAt =
    (let r = cl_reservationRequest c in
    bind_io (on_env (en_generateReservationId E)) (\<lambda>reservationId.
    bind_io (on_env (en_nowIsoString E)) (\<lambda>confirmedAt.
    bind_io (lift (create_reservation \<lparr>rv_id = reservationId, rv_movieProviderId = rr_movieProviderId r,
        rv_reservationRequestId = rr_id r, rv_screeningId = rr_screeningId r, rv_seatIds = rr_seatIds r,
        rv_reservedByUserId = rr_requestedByUserId r, rv_confirmedAt = confirmedAt\<rparr>)) (\<lambda>reservation.
    bind_io (on_env (en_nowIsoString E)) (\<lambda>completedAt.
    (let attempt = \<lparr>at_reservationRequestId = rr_id r, at_sequence = cl_sequence c, at_startedAt = startedAt,
           at_completedAt = completedAt, at_reservationId = rv_id reservation\<rparr> in
    bind_io (on_db (wr_confirm W \<lparr>co_claimedWorkItem = c, co_reservation = reservation, co_attempt = attempt\<rparr>))
      (\<lambda>confirmResult. case confirmResult of
         Confirm_Rejected request rejectedAttempt \<Rightarrow> ret (Rejected_Result rejectedAttempt request)
       | Confirm_Confirmed request \<Rightarrow> ret (Confirmed_Result attempt request reservation))))))))"

definition throw_if_failure_policy_blocks :: "'e environment \<Rightarrow> claimed_reservation_request \<Rightarrow> ('e, unit) io" where
  "throw_if_failure_policy_blocks E c =
    bind_io (en_shouldFail E (rr_id (cl_reservationRequest c))) (\<lambda>fails.
    if fails then throw SeatReservationCommitError else ret ())"

definition handle_unexpected_failure :: "'s work_repository_ops \<Rightarrow> 'e environment \<Rightarrow> processor_options \<Rightarrow>
    claimed_reservation_request \<Rightarrow> string \<Rightarrow> ('s \<times> 'e, processing_result) io" where
  "handle_unexpected_failure W E options c startedAt =
    bind_io (on_env (en_nowIsoString E)) (\<lambda>completedAt.
    (let attempt = \<lparr>at_reservationRequestId = rr_id (cl_reservationRequest c), at_sequence = cl_sequence c,
           at_startedAt = startedAt, at_completedAt = completedAt, at_failureReason = Unexpected_Error\<rparr>;
         nextTransientFailureCount = cl_transientFailureCount c + 1 in
    if nextTransientFailureCount < po_maxTransientFailures options
    then bind_io (on_db (wr_release W c attempt)) (\<lambda>r.
           ret (Retryable_Failure_Result attempt r (po_maxTransientFailures options - nextTransientFailureCount)))
    else bind_io (on_db (wr_fail W c attempt)) (\<lambda>r. ret (Failed_Result attempt r))))"

text \<open>The \<open>try\<close> block; its world carries the local flag \<open>terminalStatePersisted\<close>.\<close>

definition persist_terminal :: "'e environment \<Rightarrow> claimed_reservation_request \<Rightarrow> int \<Rightarrow>
    ('s \<times> 'e, processing_result) io \<Rightarrow> (('s \<times> 'e) \<times> bool, processing_result) io" where
  "persist_terminal E c durationStartedAt commit =
    bind_io (on_db commit) (\<lambda>result.
    then_io (modify (\<lambda>(w, _). (w, True)))
   (then_io (on_db (on_env (record_processor_outcome E result c durationStartedAt)))
            (ret result)))"

definition try_work_item :: "'s work_repository_ops \<Rightarrow> 'e environment \<Rightarrow> claimed_reservation_request \<Rightarrow> string \<Rightarrow> int \<Rightarrow>
    (('s \<times> 'e) \<times> bool, processing_result) io" where
  "try_work_item W E c startedAt durationStartedAt =
    bind_io (on_db (on_db (wr_findConflict W (rr_screeningId (cl_reservationRequest c))
                                             (rr_seatIds (cl_reservationRequest c))))) (\<lambda>conflict.
    case conflict of
      Some v \<Rightarrow> persist_terminal E c durationStartedAt (reject_for_seat_conflict W E c startedAt (rv_id v))
    | None \<Rightarrow> then_io (on_db (on_env (throw_if_failure_policy_blocks E c)))
        (persist_terminal E c durationStartedAt (confirm_claimed_work_item W E c startedAt)))"

definition catch_work_item :: "'s work_repository_ops \<Rightarrow> 'e environment \<Rightarrow> processor_options \<Rightarrow>
    claimed_reservation_request \<Rightarrow> string \<Rightarrow> int \<Rightarrow> js_error \<Rightarrow> (('s \<times> 'e) \<times> bool, processing_result) io" where
  "catch_work_item W E options c startedAt durationStartedAt error =
    bind_io (gets snd) (\<lambda>terminalStatePersisted.
    if terminalStatePersisted
    then then_io (on_db (on_env (en_exception E error))) (throw error)
    else bind_io (on_db (handle_unexpected_failure W E options c startedAt)) (\<lambda>result.
         then_io (on_db (on_env (en_exception E error)))
        (then_io (on_db (on_env (record_processor_outcome E result c durationStartedAt)))
                 (ret result))))"

definition process_claimed_work_item :: "'s work_repository_ops \<Rightarrow> 'e environment \<Rightarrow> processor_options \<Rightarrow>
    'e processing_input \<Rightarrow> claimed_reservation_request \<Rightarrow> string \<Rightarrow> int \<Rightarrow> ('s \<times> 'e, processing_result) io" where
  "process_claimed_work_item W E options input c startedAt durationStartedAt =
    then_io (on_env (record_claimed_work_item E c))
   (then_io (case pi_onClaimed input of None \<Rightarrow> ret () | Some f \<Rightarrow> on_env (f c))
   (with_local False (catch_io (try_work_item W E c startedAt durationStartedAt)
                               (catch_work_item W E options c startedAt durationStartedAt))))"

section \<open>One run\<close>

definition claim_token :: "'e environment \<Rightarrow> 'e processing_input \<Rightarrow> ('e, string) io" where
  "claim_token E input = (case pi_claimToken input of Some t \<Rightarrow> ret t
     | None \<Rightarrow> (case en_createClaimToken E of Some create \<Rightarrow> create | None \<Rightarrow> en_randomUUID E))"

definition process_next_pending_request :: "'s work_repository_ops \<Rightarrow> 'e environment \<Rightarrow> processor_options \<Rightarrow>
    'e processing_input \<Rightarrow> ('s \<times> 'e, processing_result) io" where
  "process_next_pending_request W E options input =
    bind_io (on_env (en_hrtime E)) (\<lambda>durationStartedAt.
    bind_io (on_env (en_nowIsoString E)) (\<lambda>startedAt.
    bind_io (on_env (claim_token E input)) (\<lambda>token.
    bind_io (lift (add_milliseconds startedAt (po_claimLeaseMs options))) (\<lambda>expiresAt.
    bind_io (on_db (wr_claimNext W \<lparr>ci_workerId = po_workerId options, ci_claimToken = token,
        ci_claimedAt = startedAt, ci_claimExpiresAt = expiresAt,
        ci_maxLeaseTimeouts = po_maxLeaseTimeouts options,
        ci_maxTransientFailures = po_maxTransientFailures options\<rparr>)) (\<lambda>claimed.
    case claimed of
      None \<Rightarrow> bind_io (on_env (calculate_duration E durationStartedAt)) (\<lambda>duration.
        then_io (on_env (en_outcome E \<lparr>oa_outcome = O_No_Pending_Request, oa_reservationRequestId = None,
           oa_sequence = None, oa_reason = None, oa_durationNs = duration, oa_observabilityContext = None\<rparr>))
          (ret No_Pending_Request))
    | Some c \<Rightarrow> run_with_span E (span_attributes_of c)
        (process_claimed_work_item W E options input c startedAt durationStartedAt))))))"

section \<open>What one run does to the ledger\<close>

text \<open>
  \<open>settled L c m options R L'\<close>: the work item \<open>c\<close>, owned in \<open>L\<close> with
  metadata \<open>m\<close>, was brought to the outcome \<open>R\<close> reports, and nothing else changed.
\<close>

fun settled :: "ledger \<Rightarrow> claimed_reservation_request \<Rightarrow> work_metadata \<Rightarrow> processor_options \<Rightarrow>
    processing_result \<Rightarrow> ledger \<Rightarrow> bool" where
  "settled L c m options No_Pending_Request L' = False"
| "settled L c m options (Confirmed_Result a q v) L' =
    (q = (cl_reservationRequest c)\<lparr>rr_status := CONFIRMED\<rparr> \<and> reservation_for (cl_reservationRequest c) v \<and>
     at_reservationId a = rv_id v \<and> at_reservationRequestId a = rr_id q \<and> at_sequence a = cl_sequence c \<and>
     lg_reservation L (rv_id v) = None \<and> (\<forall>j w. lg_reservation L j = Some w \<longrightarrow> seats_disjoint v w) \<and>
     L' = add_attempt (Confirmed_Attempt a) (put_work q (cleared_metadata m) (put_reservation v L)))"
| "settled L c m options (Rejected_Result a q) L' =
    (q = (cl_reservationRequest c)\<lparr>rr_status := REJECTED\<rparr> \<and>
     at_reservationRequestId a = rr_id q \<and> at_sequence a = cl_sequence c \<and>
     (\<exists>j w. lg_reservation L j = Some w \<and> at_conflictingReservationId a = rv_id w \<and>
        seats_conflict (rr_screeningId q) (rr_seatIds q) w) \<and>
     L' = add_attempt (Rejected_Attempt a) (put_work q (cleared_metadata m) L))"
| "settled L c m options (Retryable_Failure_Result a q n) L' =
    (q = (cl_reservationRequest c)\<lparr>rr_status := REQUESTED\<rparr> \<and>
     at_reservationRequestId a = rr_id q \<and> at_failureReason a = Unexpected_Error \<and> 0 < n \<and>
     n = po_maxTransientFailures options - (md_transientFailureCount m + 1) \<and>
     L' = add_attempt (Failed_Attempt a) (put_work q (cleared_metadata (bump_failures m)) L))"
| "settled L c m options (Failed_Result a q) L' =
    (q = (cl_reservationRequest c)\<lparr>rr_status := FAILED\<rparr> \<and>
     at_reservationRequestId a = rr_id q \<and> at_failureReason a = Unexpected_Error \<and>
     po_maxTransientFailures options \<le> md_transientFailureCount m + 1 \<and>
     L' = add_attempt (Failed_Attempt a) (put_work q (cleared_metadata (bump_failures m)) L))"

fun terminal_result :: "processing_result \<Rightarrow> bool" where
  "terminal_result (Confirmed_Result a q v) = True"
| "terminal_result (Rejected_Result a q) = True"
| "terminal_result _ = False"

text \<open>An operation on an owned work item either settles it or leaves the ledger alone.\<close>

definition settles :: "('s \<Rightarrow> bool) \<Rightarrow> ('s \<Rightarrow> ledger) \<Rightarrow> ledger \<Rightarrow> claimed_reservation_request \<Rightarrow> work_metadata \<Rightarrow>
    processor_options \<Rightarrow> js_error + processing_result \<Rightarrow> 's \<Rightarrow> bool" where
  "settles ok ldg L c m options res s' \<longleftrightarrow> ok s' \<and>
     (case res of Inl e \<Rightarrow> ldg s' = L | Inr R \<Rightarrow> settled L c m options R (ldg s'))"

text \<open>One run of the processor: the claim, then at most one settlement.\<close>

definition run_outcome :: "ledger \<Rightarrow> processor_options \<Rightarrow> js_error + processing_result \<Rightarrow> ledger \<Rightarrow> bool" where
  "run_outcome L options res L' \<longleftrightarrow>
     (case res of
        Inr No_Pending_Request \<Rightarrow> advances L L'
      | Inr R \<Rightarrow> \<exists>K c m. ledger_inv K \<and> advances L K \<and> owned K c (cl_reservationRequest c) m \<and> settled K c m options R L'
      | Inl x \<Rightarrow> advances L L' \<or>
          (\<exists>K c m R. ledger_inv K \<and> advances L K \<and> owned K c (cl_reservationRequest c) m \<and> settled K c m options R L'))"

lemma owned_unique: "owned L c r m \<Longrightarrow> owned L c q n \<Longrightarrow> r = q \<and> m = n"
  by (simp add: owned_def)

context work_repository
begin

lemma did_owned: "did c r m m' st a L L' \<Longrightarrow> owned L c q n \<Longrightarrow> r = q \<and> m = n"
  by (auto simp: did_def owned_def)

lemma attempt_fits:
  assumes "environment_fits time_ok id_ok E" "time_ok startedAt" "fst (en_nowIsoString E e) = Inr completedAt"
  shows "attempt_for time_ok c \<lparr>at_reservationRequestId = rr_id (cl_reservationRequest c),
    at_sequence = cl_sequence c, at_startedAt = startedAt, at_completedAt = completedAt, \<dots> = x\<rparr>"
  using assms by (simp add: attempt_for_def environment_fits_def)

lemma reject_settles:
  assumes ok: "sound s" and fits: "environment_fits time_ok id_ok E" "time_ok startedAt"
    and o: "owned (ledger s) c (cl_reservationRequest c) m"
    and v: "lg_reservation (ledger s) j = Some v"
      "seats_conflict (rr_screeningId (cl_reservationRequest c)) (rr_seatIds (cl_reservationRequest c)) v"
    and run: "reject_for_seat_conflict W E c startedAt (rv_id v) (s, e) = (res, (s', e'))"
  shows "settles sound ledger (ledger s) c m options res s' \<and> (\<forall>R. res = Inr R \<longrightarrow> terminal_result R)"
proof (cases "fst (en_nowIsoString E e)")
  case (Inl x)
  then show ?thesis
    using run ok by (auto simp: reject_for_seat_conflict_def bind_io_def on_env_app settles_def)
next
  case (Inr completedAt)
  define attempt where "attempt = \<lparr>at_reservationRequestId = rr_id (cl_reservationRequest c),
    at_sequence = cl_sequence c, at_startedAt = startedAt, at_completedAt = completedAt,
    at_rejectionReason = Seat_Conflict, at_conflictingReservationId = rv_id v\<rparr>"
  obtain q t where q: "wr_reject W c attempt s = (q, t)" by fastforce
  have res: "t = s'" "res = (case q of Inl x \<Rightarrow> Inl x | Inr r \<Rightarrow> Inr (Rejected_Result attempt r))"
    using run q Inr
    by (auto simp: reject_for_seat_conflict_def bind_io_def on_env_app on_db_app Let_def
        attempt_def [symmetric] split: sum.splits)
  have "lg_reservation (ledger s) (rv_id v) \<noteq> None"
    using inv_reservationD [OF inv_ledger [OF ok] v(1)] v(1) by (metis option.distinct(1))
  then have law: "sound t \<and> (case q of Inl e \<Rightarrow> ledger t = ledger s
    | Inr p \<Rightarrow> \<exists>r m. did c r m m REJECTED (Rejected_Attempt attempt) (ledger s) (ledger t) \<and>
        p = r\<lparr>rr_status := REJECTED\<rparr>)"
    using Inr by (intro reject_law [OF ok owned_claim_of [OF o same_request_refl] _ _ q])
      (simp_all add: attempt_def attempt_fits [OF fits])
  show ?thesis
  proof (cases q)
    case (Inl x)
    then show ?thesis using law res by (simp add: settles_def)
  next
    case (Inr p)
    with law obtain r n where d: "did c r n n REJECTED (Rejected_Attempt attempt) (ledger s) (ledger t)"
      "p = r\<lparr>rr_status := REJECTED\<rparr>" by auto
    with did_owned [OF d(1) o] show ?thesis
      using law res v Inr by (auto simp: settles_def did_def attempt_def)
  qed
qed

lemma handle_failure_settles:
  assumes ok: "sound s" and fits: "environment_fits time_ok id_ok E" "time_ok startedAt"
    and o: "owned (ledger s) c (cl_reservationRequest c) m"
    and tc: "md_transientFailureCount m = cl_transientFailureCount c"
    and run: "handle_unexpected_failure W E options c startedAt (s, e) = (res, (s', e'))"
  shows "settles sound ledger (ledger s) c m options res s'"
proof (cases "fst (en_nowIsoString E e)")
  case (Inl x)
  then show ?thesis
    using run ok by (auto simp: handle_unexpected_failure_def bind_io_def on_env_app settles_def)
next
  case (Inr completedAt)
  define attempt where "attempt = \<lparr>at_reservationRequestId = rr_id (cl_reservationRequest c),
    at_sequence = cl_sequence c, at_startedAt = startedAt, at_completedAt = completedAt,
    at_failureReason = Unexpected_Error\<rparr>"
  have af: "attempt_for time_ok c attempt" by (simp add: attempt_def attempt_fits [OF fits Inr])
  note unf = handle_unexpected_failure_def bind_io_def on_env_app on_db_app Let_def attempt_def [symmetric]
  show ?thesis
  proof (cases "cl_transientFailureCount c + 1 < po_maxTransientFailures options")
    case True
    obtain q t where q: "wr_release W c attempt s = (q, t)" by fastforce
    have res: "t = s'" "res = (case q of Inl x \<Rightarrow> Inl x | Inr r \<Rightarrow> Inr (Retryable_Failure_Result attempt r
        (po_maxTransientFailures options - (cl_transientFailureCount c + 1))))"
      using run q Inr True by (auto simp: unf split: sum.splits)
    note law = release_law [OF ok owned_claim_of [OF o same_request_refl] af q]
    show ?thesis
    proof (cases q)
      case (Inl x)
      then show ?thesis using law res by (simp add: settles_def)
    next
      case (Inr p)
      with law obtain r n where d: "did c r n (bump_failures n) REQUESTED (Failed_Attempt attempt) (ledger s) (ledger t)"
        "p = r\<lparr>rr_status := REQUESTED\<rparr>" by auto
      with did_owned [OF d(1) o] show ?thesis
        using law res Inr True tc by (auto simp: settles_def did_def attempt_def)
    qed
  next
    case False
    obtain q t where q: "wr_fail W c attempt s = (q, t)" by fastforce
    have res: "t = s'" "res = (case q of Inl x \<Rightarrow> Inl x | Inr r \<Rightarrow> Inr (Failed_Result attempt r))"
      using run q Inr False by (auto simp: unf split: sum.splits)
    note law = fail_law [OF ok owned_claim_of [OF o same_request_refl] af q]
    show ?thesis
    proof (cases q)
      case (Inl x)
      then show ?thesis using law res by (simp add: settles_def)
    next
      case (Inr p)
      with law obtain r n where d: "did c r n (bump_failures n) FAILED (Failed_Attempt attempt) (ledger s) (ledger t)"
        "p = r\<lparr>rr_status := FAILED\<rparr>" by auto
      with did_owned [OF d(1) o] show ?thesis
        using law res Inr False tc by (auto simp: settles_def did_def attempt_def)
    qed
  qed
qed

lemma confirm_settles:
  assumes ok: "sound s" and fits: "environment_fits time_ok id_ok E" "time_ok startedAt"
    and o: "owned (ledger s) c (cl_reservationRequest c) m"
    and run: "confirm_claimed_work_item W E c startedAt (s, e) = (res, (s', e'))"
  shows "settles sound ledger (ledger s) c m options res s' \<and> (\<forall>R. res = Inr R \<longrightarrow> terminal_result R)"
proof (cases "s' = s \<and> (\<exists>x. res = Inl x)")
  case True
  then show ?thesis using ok by (auto simp: settles_def)
next
  case False
  let ?r = "cl_reservationRequest c"
  obtain v attempt q where v: "reservation_for ?r v" and q: "wr_confirm W
      \<lparr>co_claimedWorkItem = c, co_reservation = v, co_attempt = attempt\<rparr> s = (q, s')"
    and attempt: "at_reservationId attempt = rv_id v" "at_reservationRequestId attempt = rr_id ?r"
      "at_sequence attempt = cl_sequence c" "attempt_for time_ok c attempt" "id_ok (rv_id v)" "time_ok (rv_confirmedAt v)"
    and res: "res = (case q of Inl x \<Rightarrow> Inl x | Inr (Confirm_Rejected p a) \<Rightarrow> Inr (Rejected_Result a p)
      | Inr (Confirm_Confirmed p) \<Rightarrow> Inr (Confirmed_Result attempt p v))"
  proof -
    obtain i e1 where i: "en_generateReservationId E e = (i, e1)" by fastforce
    obtain t e2 where t: "en_nowIsoString E e1 = (t, e2)" by fastforce
    obtain u e3 where u: "en_nowIsoString E e2 = (u, e3)" by fastforce
    note unf = confirm_claimed_work_item_def bind_io_def on_env_app on_db_app Let_def
    obtain id where i': "i = Inr id" using run False i by (cases i) (auto simp: unf)
    obtain now where t': "t = Inr now" using run False i i' t by (cases t) (auto simp: unf)
    define v where "v = \<lparr>rv_id = id, rv_movieProviderId = rr_movieProviderId ?r,
        rv_reservationRequestId = rr_id ?r, rv_screeningId = rr_screeningId ?r, rv_seatIds = rr_seatIds ?r,
        rv_reservedByUserId = rr_requestedByUserId ?r, rv_confirmedAt = now\<rparr>"
    have "create_reservation v \<noteq> Inl y" for y
      using run False by (auto simp: unf i i' t t' v_def [symmetric])
    then have v': "create_reservation v = Inr v"
      by (cases "create_reservation v") (auto simp: create_reservation_Inr)
    obtain now2 where u': "u = Inr now2"
      using run False u by (cases u) (auto simp: unf i i' t t' v' v_def [symmetric])
    define attempt where "attempt = \<lparr>at_reservationRequestId = rr_id ?r, at_sequence = cl_sequence c,
        at_startedAt = startedAt, at_completedAt = now2, at_reservationId = rv_id v\<rparr>"
    obtain q s1 where q: "wr_confirm W
      \<lparr>co_claimedWorkItem = c, co_reservation = v, co_attempt = attempt\<rparr> s = (q, s1)" by fastforce
    have "s1 = s'" "res = (case q of Inl x \<Rightarrow> Inl x | Inr (Confirm_Rejected p a) \<Rightarrow> Inr (Rejected_Result a p)
      | Inr (Confirm_Confirmed p) \<Rightarrow> Inr (Confirmed_Result attempt p v))"
      using run
      by (auto simp: unf i i' t t' u u' v' q v_def [symmetric] attempt_def [symmetric]
          split: sum.splits confirm_result.splits)
    moreover have "reservation_for ?r v" by (simp add: v_def reservation_for_def)
    moreover have "at_reservationId attempt = rv_id v" "at_reservationRequestId attempt = rr_id ?r"
      "at_sequence attempt = cl_sequence c" by (simp_all add: attempt_def)
    moreover have "fst (en_generateReservationId E e) = Inr id" "fst (en_nowIsoString E e1) = Inr now"
      "fst (en_nowIsoString E e2) = Inr now2" by (simp_all add: i i' t t' u u')
    then have "attempt_for time_ok c attempt" "id_ok (rv_id v)" "time_ok (rv_confirmedAt v)"
      using fits by (auto simp: environment_fits_def attempt_for_def attempt_def v_def)
    ultimately show ?thesis using that q by blast
  qed
  have "claim_of (ledger s) c" using o by (rule owned_claim_of) simp
  then have law: "sound s'" "confirm_outcome \<lparr>co_claimedWorkItem = c, co_reservation = v, co_attempt = attempt\<rparr>
      (ledger s) q (ledger s')"
    using confirm_law [OF ok _ q] v attempt by (simp_all add: confirm_ok_def)
  show ?thesis
  proof (cases q)
    case (Inl x)
    then show ?thesis using law res by (simp add: settles_def confirm_outcome_def Let_def)
  next
    case (Inr cr)
    show ?thesis
    proof (cases cr)
      case (Confirm_Confirmed p)
      then obtain r n where r: "owned (ledger s) c r n" "lg_reservation (ledger s) (rv_id v) = None"
        "\<forall>j w. lg_reservation (ledger s) j = Some w \<longrightarrow> seats_disjoint v w" "p = r\<lparr>rr_status := CONFIRMED\<rparr>"
        "ledger s' = add_attempt (Confirmed_Attempt attempt) (put_work p (cleared_metadata n) (put_reservation v (ledger s)))"
        using law Inr by (auto simp: confirm_outcome_def Let_def)
      have rn: "r = ?r" "n = m" using owned_unique [OF r(1) o] by simp_all
      have R: "res = Inr (Confirmed_Result attempt p v)" using res Inr Confirm_Confirmed by simp
      show ?thesis
        unfolding R settles_def using law(1) r(2-5) v attempt by (simp add: rn)
    next
      case (Confirm_Rejected p a)
      then obtain r n j w where r: "did c r n n REJECTED (Rejected_Attempt a) (ledger s) (ledger s')"
        "lg_reservation (ledger s) j = Some w" "\<not> seats_disjoint v w" "p = r\<lparr>rr_status := REJECTED\<rparr>"
        "a = rejected_attempt_of \<lparr>co_claimedWorkItem = c, co_reservation = v, co_attempt = attempt\<rparr> r w"
        using law Inr by (auto simp: confirm_outcome_def Let_def)
      moreover have "seats_conflict (rr_screeningId ?r) (rr_seatIds ?r) w"
        using r(3) v seats_conflict_disjoint [of v w] by (simp add: reservation_for_def)
      ultimately show ?thesis
        using law res Inr Confirm_Rejected did_owned [OF r(1) o]
        by (auto simp: settles_def did_def rejected_attempt_of_def)
    qed
  qed
qed

text \<open>What the \<open>try\<close> block leaves behind, with its flag \<open>b\<close>: either nothing
  happened, the flag is down and an error is on its way, or a terminal result is in the ledger
  and the flag is up.\<close>

definition tried :: "ledger \<Rightarrow> claimed_reservation_request \<Rightarrow> work_metadata \<Rightarrow> processor_options \<Rightarrow>
    js_error + processing_result \<Rightarrow> 's \<Rightarrow> bool \<Rightarrow> bool" where
  "tried L c m options res s' b \<longleftrightarrow> sound s' \<and>
     (\<not> b \<and> ledger s' = L \<and> (\<exists>x. res = Inl x) \<or>
      b \<and> (\<exists>R. terminal_result R \<and> settled L c m options R (ledger s') \<and> (res = Inr R \<or> (\<exists>x. res = Inl x))))"

lemma persist_terminal_tried:
  assumes commit: "\<And>e r s' e'. commit (s, e) = (r, (s', e')) \<Longrightarrow>
      settles sound ledger L c m options r s' \<and> (\<forall>R. r = Inr R \<longrightarrow> terminal_result R)"
  shows "runs (persist_terminal E c d commit) ((s, e), False)
    (\<lambda>res w. tried L c m options res (fst (fst w)) (snd w))"
proof -
  obtain r s' e' where c: "commit (s, e) = (r, (s', e'))" by (metis prod.exhaust)
  note st = commit [OF c]
  show ?thesis
  proof (cases r)
    case (Inl x)
    then show ?thesis
      using st by (simp add: persist_terminal_def runs_def bind_io_def on_db_app c tried_def settles_def)
  next
    case (Inr R)
    obtain r2 e2 where o: "record_processor_outcome E R c d e' = (r2, e2)" by fastforce
    show ?thesis
      using st Inr
      by (cases r2) (auto simp: persist_terminal_def runs_def bind_io_def on_db_app on_env_app c o
          tried_def settles_def)
  qed
qed

lemma try_work_item_tried:
  assumes ok: "sound s" and fits: "environment_fits time_ok id_ok E" "time_ok startedAt"
    and o: "owned (ledger s) c (cl_reservationRequest c) m"
  shows "runs (try_work_item W E c startedAt d) ((s, e), False)
    (\<lambda>res w. tried (ledger s) c m options res (fst (fst w)) (snd w))"
proof -
  let ?r = "cl_reservationRequest c"
  obtain f s1 where f: "wr_findConflict W (rr_screeningId ?r) (rr_seatIds ?r) s = (f, s1)" by fastforce
  have "lg_request (ledger s) (rr_id ?r) = Some ?r" using o by (simp add: owned_def)
  note law = find_law [OF ok this f]
  have o1: "owned (ledger s1) c ?r m" using law o by simp
  have ok1: "sound s1" using law by blast
  show ?thesis
  proof (cases f)
    case (Inl x)
    then show ?thesis
      using law by (simp add: try_work_item_def runs_def bind_io_def on_db_app f tried_def)
  next
    case (Inr conflict)
    show ?thesis
    proof (cases conflict)
      case (Some v)
      then obtain j where j: "lg_reservation (ledger s1) j = Some v"
        "seats_conflict (rr_screeningId ?r) (rr_seatIds ?r) v" using law Inr by auto
      have "runs (persist_terminal E c d (reject_for_seat_conflict W E c startedAt (rv_id v))) ((s1, e), False)
          (\<lambda>res w. tried (ledger s1) c m options res (fst (fst w)) (snd w))"
        by (rule persist_terminal_tried) (rule reject_settles [OF ok1 fits o1 j])
      then show ?thesis
        using law Inr Some by (simp add: try_work_item_def runs_def bind_io_def on_db_app f)
    next
      case None
      obtain p e1 where p: "throw_if_failure_policy_blocks E c e = (p, e1)" by fastforce
      show ?thesis
      proof (cases p)
        case (Inl x)
        then show ?thesis
          using law Inr None p ok1
          by (simp add: try_work_item_def runs_def bind_io_def on_db_app on_env_app f tried_def)
      next
        case (Inr u)
        have "runs (persist_terminal E c d (confirm_claimed_work_item W E c startedAt)) ((s1, e1), False)
            (\<lambda>res w. tried (ledger s1) c m options res (fst (fst w)) (snd w))"
          by (rule persist_terminal_tried) (rule confirm_settles [OF ok1 fits o1])
        then show ?thesis
          using law \<open>f = Inr conflict\<close> Inr None p
          by (simp add: try_work_item_def runs_def bind_io_def on_db_app on_env_app f)
      qed
    qed
  qed
qed

text \<open>A returned result is the one in the ledger; after a throw the item is untouched or was
  settled once.\<close>

definition item_done :: "ledger \<Rightarrow> claimed_reservation_request \<Rightarrow> work_metadata \<Rightarrow> processor_options \<Rightarrow>
    js_error + processing_result \<Rightarrow> 's \<Rightarrow> bool" where
  "item_done L c m options res s' \<longleftrightarrow> sound s' \<and>
     (case res of Inr R \<Rightarrow> settled L c m options R (ledger s')
      | Inl x \<Rightarrow> ledger s' = L \<or> (\<exists>R. settled L c m options R (ledger s')))"

lemma catch_work_item_done:
  assumes t: "tried (ledger s0) c m options (Inl x) s b"
    and fits: "environment_fits time_ok id_ok E" "time_ok startedAt"
    and o: "owned (ledger s0) c (cl_reservationRequest c) m"
    and tc: "md_transientFailureCount m = cl_transientFailureCount c"
  shows "runs (catch_work_item W E options c startedAt d x) ((s, e), b)
    (\<lambda>res w. item_done (ledger s0) c m options res (fst (fst w)))"
proof (cases b)
  case True
  then show ?thesis
    using t by (cases "fst (en_exception E x e)")
      (auto simp: catch_work_item_def runs_def bind_io_def on_db_app on_env_app tried_def item_done_def)
next
  case False
  then have s: "sound s" "ledger s = ledger s0" using t by (simp_all add: tried_def)
  obtain r s1 e1 where h: "handle_unexpected_failure W E options c startedAt (s, e) = (r, (s1, e1))"
    by (metis prod.exhaust)
  note st = handle_failure_settles [OF s(1) fits _ tc h, unfolded s(2), OF o]
  show ?thesis
  proof (cases r)
    case (Inl y)
    then show ?thesis
      using st False by (simp add: catch_work_item_def runs_def bind_io_def on_db_app h item_done_def settles_def)
  next
    case (Inr R)
    obtain r2 e2 where x2: "en_exception E x e1 = (r2, e2)" by fastforce
    obtain r3 e3 where x3: "record_processor_outcome E R c d e2 = (r3, e3)" by fastforce
    show ?thesis
      using st False Inr
      by (cases r2; cases r3) (auto simp: catch_work_item_def runs_def bind_io_def on_db_app on_env_app h x2 x3
          item_done_def settles_def)
  qed
qed

lemma process_claimed_done:
  fixes E :: "'e environment"
  assumes ok: "sound s" and fits: "environment_fits time_ok id_ok E" "time_ok startedAt"
    and o: "owned (ledger s) c (cl_reservationRequest c) m"
    and tc: "md_transientFailureCount m = cl_transientFailureCount c"
  shows "runs (process_claimed_work_item W E options input c startedAt d) (s, e)
    (\<lambda>res w. item_done (ledger s) c m options res (fst w))"
proof -
  have main: "runs (with_local False (catch_io (try_work_item W E c startedAt d)
      (catch_work_item W E options c startedAt d))) (s, e') (\<lambda>res w. item_done (ledger s) c m options res (fst w))" for e'
  proof (intro runs_local runs_catch, rule runs_mono [OF try_work_item_tried [OF ok fits o]])
    fix res :: "js_error + processing_result" and w :: "('s \<times> 'e) \<times> bool"
    assume t: "tried (ledger s) c m options res (fst (fst w)) (snd w)"
    show "case res of Inl x \<Rightarrow> runs (catch_work_item W E options c startedAt d x) w
          (\<lambda>res w'. item_done (ledger s) c m options res (fst (fst w')))
      | Inr R \<Rightarrow> item_done (ledger s) c m options (Inr R) (fst (fst w))"
    proof (cases res)
      case (Inl x)
      have "runs (catch_work_item W E options c startedAt d x) ((fst (fst w), snd (fst w)), snd w)
          (\<lambda>res w'. item_done (ledger s) c m options res (fst (fst w')))"
        by (rule catch_work_item_done [OF t [unfolded Inl] fits o tc])
      then show ?thesis using Inl by simp
    next
      case (Inr R)
      then show ?thesis using t by (auto simp: tried_def item_done_def)
    qed
  qed
  have base: "item_done (ledger s) c m options (Inl x) s" for x using ok by (simp add: item_done_def)
  show ?thesis
    unfolding process_claimed_work_item_def
  proof (intro runs_then runs_on_env)
    fix r :: "js_error + unit" and e'
    have "runs (then_io (case pi_onClaimed input of None \<Rightarrow> ret () | Some f \<Rightarrow> on_env (f c))
        (with_local False (catch_io (try_work_item W E c startedAt d)
          (catch_work_item W E options c startedAt d)))) (s, e') (\<lambda>res w. item_done (ledger s) c m options res (fst w))"
      by (rule runs_then) (cases "pi_onClaimed input"; auto simp: base main split: sum.split
          intro!: runs_pure runs_on_env)
    then show "case r of Inl x \<Rightarrow> item_done (ledger s) c m options (Inl x) (fst (fst (s, e), e'))
      | Inr _ \<Rightarrow> runs (then_io (case pi_onClaimed input of None \<Rightarrow> ret () | Some f \<Rightarrow> on_env (f c))
        (with_local False (catch_io (try_work_item W E c startedAt d)
          (catch_work_item W E options c startedAt d)))) (fst (s, e), e')
          (\<lambda>res w. item_done (ledger s) c m options res (fst w))"
      using base by (simp split: sum.split)
  qed
qed

lemma item_done_error: "item_done L c m options res s \<Longrightarrow> item_done L c m options (Inl x) s"
  by (auto simp: item_done_def split: sum.splits)

lemma run_with_span_done:
  assumes ok: "sound s" "ledger s = L"
    and "\<And>e. runs operation (s, e) (\<lambda>res w. item_done L c m options res (fst w))"
  shows "runs (run_with_span E attributes operation) (s, e) (\<lambda>res w. item_done L c m options res (fst w))"
  unfolding run_with_span_def
proof (intro runs_then runs_on_env)
  fix r :: "js_error + unit" and e'
  have "runs (finally_io (catch_io operation (\<lambda>error. then_io (on_env (en_spanError E error)) (throw error)))
        (on_env (en_spanEnd E))) (s, e') (\<lambda>res w. item_done L c m options res (fst w))"
    by (intro runs_finally runs_catch, rule runs_mono [OF assms(3) [of e']])
      (auto split: sum.split intro!: runs_env_bind runs_on_env runs_pure intro: item_done_error)
  then show "case r of Inl x \<Rightarrow> item_done L c m options (Inl x) (fst (fst (s, e), e'))
    | Inr _ \<Rightarrow> runs (finally_io (catch_io operation (\<lambda>error. then_io (on_env (en_spanError E error)) (throw error)))
        (on_env (en_spanEnd E))) (fst (s, e), e') (\<lambda>res w. item_done L c m options res (fst w))"
    using ok by (simp add: item_done_def split: sum.split)
qed

lemma process_next_outcome:
  fixes E :: "'e environment"
  assumes ok: "sound s" and fits: "environment_fits time_ok id_ok E"
    and run: "process_next_pending_request W E options input (s, e) = (res, (s', e'))"
  shows "sound s' \<and> run_outcome (ledger s) options res (ledger s')"
proof -
  let ?Q = "\<lambda>res w. sound (fst w) \<and> run_outcome (ledger s) options res (ledger (fst w))"
  have err: "?Q (Inl x) (s, e2)" for x e2 using ok by (simp add: run_outcome_def)
  have claim: "runs (case claimed of
      None \<Rightarrow> bind_io (on_env (calculate_duration E d)) (\<lambda>duration.
        then_io (on_env (en_outcome E \<lparr>oa_outcome = O_No_Pending_Request, oa_reservationRequestId = None,
           oa_sequence = None, oa_reason = None, oa_durationNs = duration, oa_observabilityContext = None\<rparr>))
          (ret No_Pending_Request))
    | Some c \<Rightarrow> run_with_span E (span_attributes_of c)
        (process_claimed_work_item W E options input c startedAt d)) (s1, e2) ?Q"
    if t: "time_ok startedAt" and c: "wr_claimNext W ci s = (Inr claimed, s1)" for ci claimed s1 e2 d startedAt
  proof -
    note law = claim_law [OF ok c]
    show ?thesis
    proof (cases claimed)
      case None
      then show ?thesis
        using law by (auto simp: run_outcome_def split: sum.split intro!: runs_bind runs_then runs_on_env runs_pure)
    next
      case (Some c)
      then obtain m where o: "owned (ledger s1) c (cl_reservationRequest c) m"
        and tc: "md_transientFailureCount m = cl_transientFailureCount c" using law by blast
      have ok1: "sound s1" and ev: "advances (ledger s) (ledger s1)" using law by blast+
      note li = inv_ledger [OF ok1]
      have "runs (run_with_span E (span_attributes_of c) (process_claimed_work_item W E options input c startedAt d))
          (s1, e2) (\<lambda>res w. item_done (ledger s1) c m options res (fst w))"
        by (rule run_with_span_done [OF ok1 refl]) (rule process_claimed_done [OF ok1 fits t o tc])
      then have "runs (run_with_span E (span_attributes_of c) (process_claimed_work_item W E options input c startedAt d))
          (s1, e2) ?Q"
      proof (rule runs_mono)
        fix res :: "js_error + processing_result" and w :: "'s \<times> 'e"
        assume d: "item_done (ledger s1) c m options res (fst w)"
        show "?Q res w"
        proof (cases res)
          case (Inl x)
          then show ?thesis using d ev o li unfolding item_done_def run_outcome_def by auto
        next
          case (Inr R)
          then have "sound (fst w)" "settled (ledger s1) c m options R (ledger (fst w))"
            using d by (simp_all add: item_done_def)
          moreover from this have "R \<noteq> No_Pending_Request" by auto
          ultimately show ?thesis
            using Inr ev o li unfolding run_outcome_def by (cases R) (simp_all, blast+)
        qed
      qed
      then show ?thesis using Some by simp
    qed
  qed
  have now: "time_ok t" if "fst (en_nowIsoString E e2) = Inr t" for t e2
    using fits that by (simp add: environment_fits_def)
  have "runs (process_next_pending_request W E options input) (s, e) ?Q"
    unfolding process_next_pending_request_def
  proof (rule runs_env_bind, unfold fst_conv, goal_cases)
    case (2 d e1)
    show ?case
    proof (rule runs_env_bind_value, unfold fst_conv snd_conv, goal_cases)
      case (2 startedAt e2)
      note step = claim [OF now [OF 2]]
      show ?case
        by (intro runs_env_bind runs_lift_bind runs_db_bind; (simp only: fst_conv snd_conv)?; (rule err | erule step)?)
          (auto simp: run_outcome_def ok dest!: claim_law [OF ok])
    qed (use ok in \<open>simp_all add: run_outcome_def\<close>)
  qed (use ok in \<open>simp_all add: run_outcome_def\<close>)
  from runsD [OF this run] show ?thesis by simp
qed

end

section \<open>What a returned result means\<close>

text \<open>\<open>outcome_recorded R L\<close>: the ledger agrees with the result \<open>R\<close>.\<close>

fun outcome_recorded :: "processor_options \<Rightarrow> processing_result \<Rightarrow> ledger \<Rightarrow> bool" where
  "outcome_recorded options No_Pending_Request L = True"
| "outcome_recorded options (Confirmed_Result a q v) L =
    (lg_request L (rr_id q) = Some q \<and> rr_status q = CONFIRMED \<and> lg_reservation L (rv_id v) = Some v \<and>
     reservation_for q v \<and> at_reservationId a = rv_id v \<and>
     (\<exists>as. lg_attempts L (rr_id q) = as @ [Confirmed_Attempt a]))"
| "outcome_recorded options (Rejected_Result a q) L =
    (lg_request L (rr_id q) = Some q \<and> rr_status q = REJECTED \<and>
     (\<exists>w. lg_reservation L (at_conflictingReservationId a) = Some w \<and>
        seats_conflict (rr_screeningId q) (rr_seatIds q) w) \<and>
     (\<exists>as. lg_attempts L (rr_id q) = as @ [Rejected_Attempt a]))"
| "outcome_recorded options (Retryable_Failure_Result a q n) L =
    (lg_request L (rr_id q) = Some q \<and> rr_status q = REQUESTED \<and> 0 < n \<and>
     (\<exists>m. lg_metadata L (rr_id q) = Some m \<and> md_transientFailureCount m = po_maxTransientFailures options - n) \<and>
     (\<exists>as. lg_attempts L (rr_id q) = as @ [Failed_Attempt a]))"
| "outcome_recorded options (Failed_Result a q) L =
    (lg_request L (rr_id q) = Some q \<and> rr_status q = FAILED \<and>
     (\<exists>m. lg_metadata L (rr_id q) = Some m \<and> po_maxTransientFailures options \<le> md_transientFailureCount m) \<and>
     (\<exists>as. lg_attempts L (rr_id q) = as @ [Failed_Attempt a]))"

lemma ledger_change_simps [simp]:
  "lg_request (add_attempt a L) = lg_request L" "lg_metadata (add_attempt a L) = lg_metadata L"
  "lg_reservation (add_attempt a L) = lg_reservation L"
  "lg_attempts (add_attempt a L) (attempt_request_id a) = lg_attempts L (attempt_request_id a) @ [a]"
  "lg_request (put_work r m L) = (lg_request L)(rr_id r \<mapsto> r)"
  "lg_metadata (put_work r m L) = (lg_metadata L)(rr_id r \<mapsto> m)"
  "lg_reservation (put_work r m L) = lg_reservation L" "lg_attempts (put_work r m L) = lg_attempts L"
  "lg_request (put_reservation v L) = lg_request L" "lg_metadata (put_reservation v L) = lg_metadata L"
  "lg_reservation (put_reservation v L) = (lg_reservation L)(rv_id v \<mapsto> v)"
  "lg_attempts (put_reservation v L) = lg_attempts L"
  by (simp_all add: change_defs)

lemma last_attempt: "attempt_request_id a = i \<Longrightarrow> \<exists>as. lg_attempts (add_attempt a L) i = as @ [a]"
  by auto

lemma settled_recorded:
  assumes inv: "ledger_inv L" and st: "settled L c m options R L'"
  shows "outcome_recorded options R L'"
proof (cases R)
  case (Confirmed_Result a q v)
  then show ?thesis using st last_attempt [of "Confirmed_Attempt a" "rr_id q"]
    by (auto simp: reservation_for_def)
next
  case (Rejected_Result a q)
  then obtain j w where w: "lg_reservation L j = Some w" "at_conflictingReservationId a = rv_id w"
    "seats_conflict (rr_screeningId q) (rr_seatIds q) w" using st by auto
  then have "lg_reservation L (rv_id w) = Some w" using inv_reservationD [OF inv w(1)] by metis
  then show ?thesis
    using st Rejected_Result w last_attempt [of "Rejected_Attempt a" "rr_id q"] by auto
next
  case (Retryable_Failure_Result a q n)
  then show ?thesis using st last_attempt [of "Failed_Attempt a" "rr_id q"] by auto
next
  case (Failed_Result a q)
  then show ?thesis using st last_attempt [of "Failed_Attempt a" "rr_id q"] by auto
qed simp

lemma settled_evolves:
  assumes inv: "ledger_inv L" and o: "owned L c (cl_reservationRequest c) m" and st: "settled L c m options R L'"
  shows "evolves L L'"
proof -
  note f = owned_facts [OF inv o]
  have nt: "\<not> terminal_status (rr_status (cl_reservationRequest c))" using f(2) by (simp add: terminal_status_def)
  have ev: "metadata_evolves m n \<Longrightarrow>
      evolves L (add_attempt a (put_work ((cl_reservationRequest c)\<lparr>rr_status := s\<rparr>) n L))" for a n s
    by (rule evolves_add_attempt, rule evolves_put_work [OF f(3,4) nt])
  show ?thesis
  proof (cases R)
    case (Confirmed_Result a q v)
    then have v: "lg_reservation L (rv_id v) = None"
      "L' = add_attempt (Confirmed_Attempt a) (put_work ((cl_reservationRequest c)\<lparr>rr_status := CONFIRMED\<rparr>)
        (cleared_metadata m) (put_reservation v L))" using st by auto
    have "evolves (put_reservation v L) L'"
      unfolding v(2) by (rule evolves_add_attempt, rule evolves_put_work [where m = m]) (simp_all add: f(3,4) nt)
    then show ?thesis using evolves_put_reservation [OF v(1)] evolves_trans by blast
  next
    case No_Pending_Request
    then show ?thesis using st by simp
  next
    case (Rejected_Result a q)
    then have "L' = add_attempt (Rejected_Attempt a) (put_work ((cl_reservationRequest c)\<lparr>rr_status := REJECTED\<rparr>) (cleared_metadata m) L)"
      using st by auto
    then show ?thesis using ev [OF metadata_evolves_changes(1)] by (simp only:)
  next
    case (Retryable_Failure_Result a q n)
    then have "L' = add_attempt (Failed_Attempt a) (put_work ((cl_reservationRequest c)\<lparr>rr_status := REQUESTED\<rparr>) (cleared_metadata (bump_failures m)) L)"
      using st by auto
    then show ?thesis using ev [OF metadata_evolves_changes(2)] by (simp only:)
  next
    case (Failed_Result a q)
    then have "L' = add_attempt (Failed_Attempt a) (put_work ((cl_reservationRequest c)\<lparr>rr_status := FAILED\<rparr>) (cleared_metadata (bump_failures m)) L)"
      using st by auto
    then show ?thesis using ev [OF metadata_evolves_changes(2)] by (simp only:)
  qed
qed

lemma run_outcome_recorded: "run_outcome L options (Inr R) L' \<Longrightarrow> outcome_recorded options R L'"
  by (cases R) (auto simp: run_outcome_def simp del: settled.simps outcome_recorded.simps(2-5)
      dest: settled_recorded)

lemma run_outcome_evolves: "run_outcome L options res L' \<Longrightarrow> evolves L L'"
  unfolding run_outcome_def
  by (auto simp del: settled.simps split: sum.splits processing_result.splits dest!: advances_evolves
      intro: evolves_trans [OF _ settled_evolves])

end
