(* ===== verification/Movie_Repository.thy ===== *)
theory Movie_Repository
  imports Work_Properties
begin

text \<open>
  The product-facing repository and the availability reader over the in-memory store,
  \<open>in-memory-movie-reservation.repository.ts\<close> and
  \<open>in-memory-screening-availability.reader.ts\<close> under
  \<open>src/src/infrastructure/repositories/in-memory\<close>. Every read is scoped to a movie provider.
\<close>

section \<open>Reads\<close>

definition find_movie_provider_by_id :: "id \<Rightarrow> (store, movie_provider option) io" where
  "find_movie_provider_by_id i = gets (\<lambda>s. jm_get (db_movieProvidersById s) i)"

definition find_movies_by_provider_id :: "id \<Rightarrow> (store, movie list) io" where
  "find_movies_by_provider_id provider =
     gets (\<lambda>s. filter (\<lambda>x. mv_movieProviderId x = provider) (jm_values (db_moviesById s)))"

definition find_movie_by_id :: "id \<Rightarrow> id \<Rightarrow> (store, movie option) io" where
  "find_movie_by_id provider movieId = gets (\<lambda>s. case jm_get (db_moviesById s) movieId of
     None \<Rightarrow> None | Some x \<Rightarrow> if mv_movieProviderId x \<noteq> provider then None else Some x)"

definition find_screenings_by_provider_id :: "id \<Rightarrow> id option \<Rightarrow> (store, screening list) io" where
  "find_screenings_by_provider_id provider movieId =
     gets (\<lambda>s. filter (\<lambda>x. sc_movieProviderId x = provider \<and> (movieId = None \<or> Some (sc_movieId x) = movieId))
       (jm_values (db_screeningsById s)))"

definition screening_for_provider :: "store \<Rightarrow> id \<Rightarrow> id \<Rightarrow> screening option" where
  "screening_for_provider s provider screeningId = (case jm_get (db_screeningsById s) screeningId of
     None \<Rightarrow> None | Some x \<Rightarrow> if sc_movieProviderId x \<noteq> provider then None else Some x)"

definition find_screening_for_provider :: "id \<Rightarrow> id \<Rightarrow> (store, screening option) io" where
  "find_screening_for_provider provider screeningId = gets (\<lambda>s. screening_for_provider s provider screeningId)"

definition seats_by_screening_id :: "store \<Rightarrow> id \<Rightarrow> id \<Rightarrow> seat list" where
  "seats_by_screening_id s provider screeningId = (case jm_get (db_screeningsById s) screeningId of
     None \<Rightarrow> []
   | Some x \<Rightarrow> if sc_movieProviderId x \<noteq> provider then []
       else filter (\<lambda>y. st_movieProviderId y = provider \<and> st_auditoriumId y = sc_auditoriumId x)
              (jm_values (db_seatsById s)))"

definition find_seats_by_screening_id :: "id \<Rightarrow> id \<Rightarrow> (store, seat list) io" where
  "find_seats_by_screening_id provider screeningId = gets (\<lambda>s. seats_by_screening_id s provider screeningId)"

definition find_seats_by_screening_ids :: "id \<Rightarrow> id list \<Rightarrow> (store, (id, seat list) jsmap) io" where
  "find_seats_by_screening_ids provider screeningIds =
     gets (\<lambda>s. jm_new (List.map (\<lambda>i. (i, seats_by_screening_id s provider i)) screeningIds))"

definition find_seats_by_ids_for_screening :: "id \<Rightarrow> id \<Rightarrow> id list \<Rightarrow> (store, seat list) io" where
  "find_seats_by_ids_for_screening provider screeningId seatIds =
     gets (\<lambda>s. case jm_get (db_screeningsById s) screeningId of
       None \<Rightarrow> []
     | Some x \<Rightarrow> if sc_movieProviderId x \<noteq> provider then []
         else filter (\<lambda>y. st_id y \<in> set seatIds \<and> st_movieProviderId y = provider \<and>
                          st_auditoriumId y = sc_auditoriumId x)
                (jm_values (db_seatsById s)))"

definition find_reservation_request_by_id :: "id \<Rightarrow> (store, reservation_request option) io" where
  "find_reservation_request_by_id i = gets (\<lambda>s. jm_get (db_reservationRequestsById s) i)"

definition find_reservation_by_id :: "id \<Rightarrow> (store, reservation option) io" where
  "find_reservation_by_id i = gets (\<lambda>s. jm_get (db_reservationsById s) i)"

definition find_reservation_by_request_id :: "id \<Rightarrow> (store, reservation option) io" where
  "find_reservation_by_request_id i =
     gets (\<lambda>s. List.find (\<lambda>v. rv_reservationRequestId v = i) (jm_values (db_reservationsById s)))"

definition in_memory_movie_repository :: "store movie_repository_ops" where
  "in_memory_movie_repository =
    \<lparr>mr_findMovieProviderById = find_movie_provider_by_id,
     mr_findMoviesByProviderId = find_movies_by_provider_id,
     mr_findMovieById = find_movie_by_id,
     mr_findScreeningsByProviderId = find_screenings_by_provider_id,
     mr_findScreeningForProvider = find_screening_for_provider,
     mr_findSeatsByScreeningId = find_seats_by_screening_id,
     mr_findSeatsByScreeningIds = find_seats_by_screening_ids,
     mr_findSeatsByIdsForScreening = find_seats_by_ids_for_screening,
     mr_findReservationRequestById = find_reservation_request_by_id,
     mr_saveReservationRequest = save_reservation_request,
     mr_findReservationById = find_reservation_by_id,
     mr_findReservationByReservationRequestId = find_reservation_by_request_id\<rparr>"

section \<open>Availability\<close>

definition occupied_seats :: "store \<Rightarrow> id \<Rightarrow> id \<Rightarrow> id list" where
  "occupied_seats s provider screeningId =
     concat (List.map rv_seatIds (filter (\<lambda>v. rv_movieProviderId v = provider \<and> rv_screeningId v = screeningId)
       (jm_values (db_reservationsById s))))"

definition read_availability :: "id \<Rightarrow> id \<Rightarrow> (store, screening_availability option) io" where
  "read_availability provider screeningId = gets (\<lambda>s. case jm_get (db_screeningsById s) screeningId of
     None \<Rightarrow> None
   | Some x \<Rightarrow> if sc_movieProviderId x \<noteq> provider then None
       else Some \<lparr>av_screeningId = screeningId, av_seats =
         List.map (\<lambda>y. \<lparr>sa_seatId = st_id y, sa_available = st_id y \<notin> set (occupied_seats s provider screeningId)\<rparr>)
           (filter (\<lambda>y. st_movieProviderId y = provider \<and> st_auditoriumId y = sc_auditoriumId x)
              (jm_values (db_seatsById s)))\<rparr>)"

section \<open>Facts\<close>

lemma screening_for_provider_Some:
  "screening_for_provider s provider i = Some x \<longleftrightarrow>
     jm_get (db_screeningsById s) i = Some x \<and> sc_movieProviderId x = provider"
  by (auto simp: screening_for_provider_def split: option.splits if_splits)

lemma seats_by_screening_alt:
  "seats_by_screening_id s provider i = (case screening_for_provider s provider i of None \<Rightarrow> []
    | Some x \<Rightarrow> filter (\<lambda>y. st_movieProviderId y = provider \<and> st_auditoriumId y = sc_auditoriumId x)
        (jm_values (db_seatsById s)))"
  by (simp add: seats_by_screening_id_def screening_for_provider_def split: option.split)

lemma read_availability_alt:
  "read_availability provider i s = (Inr (map_option (\<lambda>x. \<lparr>av_screeningId = i, av_seats =
      List.map (\<lambda>y. \<lparr>sa_seatId = st_id y, sa_available = st_id y \<notin> set (occupied_seats s provider i)\<rparr>)
        (seats_by_screening_id s provider i)\<rparr>) (screening_for_provider s provider i)), s)"
  by (simp add: read_availability_def seats_by_screening_id_def screening_for_provider_def split: option.split)

lemma occupied_seats_iff:
  assumes "maps_ok s"
  shows "x \<in> set (occupied_seats s provider i) \<longleftrightarrow>
    (\<exists>j v. lg_reservation (view s) j = Some v \<and> rv_movieProviderId v = provider \<and> rv_screeningId v = i \<and>
       x \<in> set (rv_seatIds v))"
  using reservations_values [OF assms] by (auto simp: occupied_seats_def)


lemma movie_reads_pure:
  "snd (find_movie_provider_by_id p s) = s" "snd (find_movies_by_provider_id p s) = s"
  "snd (find_movie_by_id p i s) = s" "snd (find_screenings_by_provider_id p mi s) = s"
  "snd (find_screening_for_provider p i s) = s" "snd (find_seats_by_screening_id p i s) = s"
  "snd (find_seats_by_screening_ids p is s) = s" "snd (find_seats_by_ids_for_screening p i is s) = s"
  "snd (find_reservation_request_by_id i s) = s" "snd (find_reservation_by_id i s) = s"
  "snd (find_reservation_by_request_id i s) = s" "snd (read_availability p i s) = s"
  by (simp_all add: find_movie_provider_by_id_def find_movies_by_provider_id_def find_movie_by_id_def
      find_screenings_by_provider_id_def find_screening_for_provider_def find_seats_by_screening_id_def
      find_seats_by_screening_ids_def find_seats_by_ids_for_screening_def
      find_reservation_request_by_id_def find_reservation_by_id_def find_reservation_by_request_id_def
      read_availability_def)

end
