(* ===== verification/Service.thy ===== *)
theory Service
  imports Movie_Repository Work_Contract
begin

text \<open>
  The authorization rules (\<open>src/src/application/authorization/authorization.service.ts\<close>)
  and the reservation use cases
  (\<open>src/src/application/movie-reservations/movie-reservations.service.ts\<close>), written against
  the repository port and the environment.
\<close>

section \<open>Actors and authorization\<close>

record actor_context =
  ac_userId :: id
  ac_movieProviderId :: id
  ac_roles :: "user_role list"
  ac_scopes :: "string list"

definition create_actor_context :: "authenticated_user \<Rightarrow> actor_context" where
  "create_actor_context u = \<lparr>ac_userId = us_userId u, ac_movieProviderId = us_movieProviderId u,
     ac_roles = us_roles u, ac_scopes = us_scopes u\<rparr>"

definition can_read_reservation_request :: "actor_context \<Rightarrow> reservation_request \<Rightarrow> bool" where
  "can_read_reservation_request actor r =
    (if ac_movieProviderId actor \<noteq> rr_movieProviderId r then False
     else if TENANT_ADMIN \<in> set (ac_roles actor) then True
     else if ''reservations:read:tenant'' \<in> set (ac_scopes actor) then True
     else ac_userId actor = rr_requestedByUserId r)"

definition can_read_reservation :: "actor_context \<Rightarrow> reservation \<Rightarrow> bool" where
  "can_read_reservation actor v =
    (if ac_movieProviderId actor \<noteq> rv_movieProviderId v then False
     else if TENANT_ADMIN \<in> set (ac_roles actor) then True
     else if ''reservations:read:tenant'' \<in> set (ac_scopes actor) then True
     else ac_userId actor = rv_reservedByUserId v)"

section \<open>Use cases\<close>

record request_reservation_input =
  ri_screeningId :: id
  ri_seatIds :: "id list"

definition list_movies :: "'s movie_repository_ops \<Rightarrow> actor_context \<Rightarrow> ('s \<times> 'e, movie list) io" where
  "list_movies R actor = on_db (mr_findMoviesByProviderId R (ac_movieProviderId actor))"

definition get_movie :: "'s movie_repository_ops \<Rightarrow> actor_context \<Rightarrow> id \<Rightarrow> ('s \<times> 'e, movie option) io" where
  "get_movie R actor movieId = on_db (mr_findMovieById R (ac_movieProviderId actor) movieId)"

definition list_screenings :: "'s movie_repository_ops \<Rightarrow> actor_context \<Rightarrow> id option \<Rightarrow> ('s \<times> 'e, screening list) io" where
  "list_screenings R actor movieId = on_db (mr_findScreeningsByProviderId R (ac_movieProviderId actor) movieId)"

definition list_seats_for_screening :: "'s movie_repository_ops \<Rightarrow> actor_context \<Rightarrow> id \<Rightarrow> ('s \<times> 'e, seat list) io" where
  "list_seats_for_screening R actor screeningId =
     on_db (mr_findSeatsByScreeningId R (ac_movieProviderId actor) screeningId)"

definition list_seats_for_screenings ::
  "'s movie_repository_ops \<Rightarrow> actor_context \<Rightarrow> id list \<Rightarrow> ('s \<times> 'e, (id, seat list) jsmap) io" where
  "list_seats_for_screenings R actor screeningIds =
     on_db (mr_findSeatsByScreeningIds R (ac_movieProviderId actor) screeningIds)"

fun first_missing :: "id list \<Rightarrow> id list \<Rightarrow> id option" where
  "first_missing available [] = None"
| "first_missing available (x # xs) = (if x \<notin> set available then Some x else first_missing available xs)"

definition assert_seats_belong_to_screening ::
  "'s movie_repository_ops \<Rightarrow> actor_context \<Rightarrow> request_reservation_input \<Rightarrow> ('s \<times> 'e, unit) io" where
  "assert_seats_belong_to_screening R actor input =
    bind_io (on_db (mr_findSeatsByIdsForScreening R (ac_movieProviderId actor) (ri_screeningId input) (ri_seatIds input)))
      (\<lambda>seats. case first_missing (List.map st_id seats) (ri_seatIds input) of
         Some seatId \<Rightarrow> throw (Error (''Seat '' @ seatId @ '' is not available for screening '' @ ri_screeningId input))
       | None \<Rightarrow> ret ())"

definition request_reservation :: "'s movie_repository_ops \<Rightarrow> 'e environment \<Rightarrow> actor_context \<Rightarrow>
    request_reservation_input \<Rightarrow> ('s \<times> 'e, reservation_request) io" where
  "request_reservation R E actor input =
    bind_io (on_db (mr_findScreeningForProvider R (ac_movieProviderId actor) (ri_screeningId input))) (\<lambda>found.
    if found = None then throw (Error (''Screening '' @ ri_screeningId input @ '' was not found''))
    else
    bind_io (assert_seats_belong_to_screening R actor input) (\<lambda>_.
    bind_io (on_env (en_generateReservationRequestId E)) (\<lambda>i.
    bind_io (lift (create_reservation_request \<lparr>cri_id = i, cri_movieProviderId = ac_movieProviderId actor,
        cri_screeningId = ri_screeningId input, cri_seatIds = ri_seatIds input,
        cri_requestedByUserId = ac_userId actor\<rparr>)) (\<lambda>r.
    bind_io (on_env (en_currentContext E)) (\<lambda>context.
    bind_io (on_db (mr_saveReservationRequest R r context)) (\<lambda>_.
    then_io (on_env (en_requestCreated E (rr_id r))) (ret r)))))))"

definition get_reservation_request :: "'s movie_repository_ops \<Rightarrow> actor_context \<Rightarrow> id \<Rightarrow>
    ('s \<times> 'e, reservation_request option) io" where
  "get_reservation_request R actor i =
    bind_io (on_db (mr_findReservationRequestById R i)) (\<lambda>found. case found of
      None \<Rightarrow> ret None
    | Some r \<Rightarrow> if \<not> can_read_reservation_request actor r then ret None else ret (Some r))"

definition get_reservation :: "'s movie_repository_ops \<Rightarrow> actor_context \<Rightarrow> id \<Rightarrow> ('s \<times> 'e, reservation option) io" where
  "get_reservation R actor i =
    bind_io (on_db (mr_findReservationById R i)) (\<lambda>found. case found of
      None \<Rightarrow> ret None
    | Some v \<Rightarrow> if \<not> can_read_reservation actor v then ret None else ret (Some v))"

definition get_reservation_by_request_id :: "'s movie_repository_ops \<Rightarrow> actor_context \<Rightarrow> id \<Rightarrow>
    ('s \<times> 'e, reservation option) io" where
  "get_reservation_by_request_id R actor i =
    bind_io (on_db (mr_findReservationByReservationRequestId R i)) (\<lambda>found. case found of
      None \<Rightarrow> ret None
    | Some v \<Rightarrow> if \<not> can_read_reservation actor v then ret None else ret (Some v))"

definition screening_availability_read ::
  "(id \<Rightarrow> id \<Rightarrow> ('s, screening_availability option) io) \<Rightarrow> actor_context \<Rightarrow> id \<Rightarrow>
    ('s \<times> 'e, screening_availability option) io" where
  "screening_availability_read reader actor screeningId = on_db (reader (ac_movieProviderId actor) screeningId)"

section \<open>The contract of the repository\<close>

text \<open>
  \<open>screenings\<close> and \<open>seats\<close> are the catalogue a state holds. Reads do not write and
  are scoped to the provider they are asked for; a save adds one request or, if the id is
  taken, nothing. The counter of sequence numbers is not exhausted.
\<close>

locale movie_repository =
  fixes R :: "'s movie_repository_ops" and sound :: "'s \<Rightarrow> bool" and ledger :: "'s \<Rightarrow> ledger"
    and screenings :: "'s \<Rightarrow> id \<Rightarrow> screening option" and seats :: "'s \<Rightarrow> seat set"
  assumes inv_ledger: "sound s \<Longrightarrow> ledger_inv (ledger s)"
    and movies_law: "mr_findMoviesByProviderId R p s = (Inr ms, s') \<Longrightarrow> s' = s \<and> (\<forall>x \<in> set ms. mv_movieProviderId x = p)"
    and screening_law: "mr_findScreeningForProvider R p i s = (scres, s') \<Longrightarrow> s' = s \<and>
      (\<forall>x. scres = Inr (Some x) \<longrightarrow> screenings s i = Some x \<and> sc_movieProviderId x = p)"
    and seats_law: "mr_findSeatsByIdsForScreening R p i ids s = (sres, s') \<Longrightarrow> s' = s \<and>
      (\<forall>ys. sres = Inr ys \<longrightarrow> (\<forall>y \<in> set ys. y \<in> seats s \<and> st_movieProviderId y = p \<and>
         (\<exists>x. screenings s i = Some x \<and> sc_movieProviderId x = p \<and> st_auditoriumId y = sc_auditoriumId x)))"
    and save_law: "sound s \<Longrightarrow> lg_next (ledger s) \<le> max_safe_integer \<Longrightarrow> request_ok r \<Longrightarrow> rr_status r = REQUESTED \<Longrightarrow>
      mr_saveReservationRequest R r context s = (ures, s') \<Longrightarrow> sound s' \<and>
      (case ures of Inl e \<Rightarrow> ledger s' = ledger s
       | Inr _ \<Rightarrow> lg_request (ledger s) (rr_id r) = None \<and> ledger s' = insert_request r context (ledger s))"
    and request_law: "mr_findReservationRequestById R i s = (rres, s') \<Longrightarrow> s' = s \<and>
      (\<forall>r. rres = Inr (Some r) \<longrightarrow> lg_request (ledger s) i = Some r)"
    and reservation_law: "mr_findReservationById R i s = (vres, s') \<Longrightarrow> s' = s \<and>
      (\<forall>v. vres = Inr (Some v) \<longrightarrow> lg_reservation (ledger s) i = Some v)"
begin

lemma first_missing_None: "first_missing xs ys = None \<longleftrightarrow> set ys \<subseteq> set xs"
  by (induction ys) auto

lemma assert_seats_runs:
  "runs (assert_seats_belong_to_screening R actor input) (s, e)
    (\<lambda>res w. w = (s, e) \<and> (res = Inr () \<longrightarrow> (\<forall>i \<in> set (ri_seatIds input). \<exists>y \<in> seats s. st_id y = i \<and>
       st_movieProviderId y = ac_movieProviderId actor \<and>
       (\<exists>x. screenings s (ri_screeningId input) = Some x \<and> st_auditoriumId y = sc_auditoriumId x))))"
  unfolding assert_seats_belong_to_screening_def
proof (rule runs_db_bind, goal_cases)
  case (1 x t)
  then show ?case using seats_law [OF 1 [unfolded fst_conv]] by simp
next
  case (2 ys t)
  then have law: "t = s" "\<forall>y \<in> set ys. y \<in> seats s \<and> st_movieProviderId y = ac_movieProviderId actor \<and>
      (\<exists>x. screenings s (ri_screeningId input) = Some x \<and> st_auditoriumId y = sc_auditoriumId x)"
    using seats_law [OF 2 [unfolded fst_conv]] by auto
  show ?case
  proof (cases "first_missing (List.map st_id ys) (ri_seatIds input)")
    case None
    then have "set (ri_seatIds input) \<subseteq> st_id ` set ys" by (simp add: first_missing_None)
    then show ?thesis using None law by (auto simp: runs_def image_iff subset_iff) fast
  qed (simp add: runs_def law)
qed

text \<open>What the use case promises when it accepts a request.\<close>

definition accepted :: "actor_context \<Rightarrow> request_reservation_input \<Rightarrow> 's \<Rightarrow> reservation_request \<Rightarrow> bool" where
  "accepted actor input s r \<longleftrightarrow>
     rr_movieProviderId r = ac_movieProviderId actor \<and> rr_requestedByUserId r = ac_userId actor \<and>
     rr_screeningId r = ri_screeningId input \<and> rr_seatIds r = ri_seatIds input \<and> rr_status r = REQUESTED \<and>
     request_ok r \<and> lg_request (ledger s) (rr_id r) = None \<and>
     (\<exists>x. screenings s (rr_screeningId r) = Some x \<and> sc_movieProviderId x = ac_movieProviderId actor \<and>
        (\<forall>i \<in> set (rr_seatIds r). \<exists>y \<in> seats s. st_id y = i \<and> st_movieProviderId y = ac_movieProviderId actor \<and>
           st_auditoriumId y = sc_auditoriumId x))"

lemma request_reservation_runs:
  fixes E :: "'e environment"
  assumes ok: "sound s" and n: "lg_next (ledger s) \<le> max_safe_integer"
  shows "runs (request_reservation R E actor input) (s, e) (\<lambda>res w. sound (fst w) \<and>
    (case res of
       Inr r \<Rightarrow> accepted actor input s r \<and> (\<exists>context. ledger (fst w) = insert_request r context (ledger s))
     | Inl x \<Rightarrow> ledger (fst w) = ledger s \<or>
         (\<exists>r context. accepted actor input s r \<and> ledger (fst w) = insert_request r context (ledger s))))"
    (is "runs _ _ ?Q")
  unfolding request_reservation_def
proof (rule runs_db_bind, goal_cases)
  case (1 x t)
  then show ?case using screening_law [OF 1 [unfolded fst_conv]] ok by simp
next
  case (2 found t)
  then have t: "t = s" "\<forall>x. found = Some x \<longrightarrow> screenings s (ri_screeningId input) = Some x \<and>
      sc_movieProviderId x = ac_movieProviderId actor"
    using screening_law [OF 2 [unfolded fst_conv]] by auto
  show ?case
  proof (cases found)
    case None
    then show ?thesis using ok t by (simp add: runs_def)
  next
    case (Some sc)
    define input' where "input' i = \<lparr>cri_id = i, cri_movieProviderId = ac_movieProviderId actor,
        cri_screeningId = ri_screeningId input, cri_seatIds = ri_seatIds input,
        cri_requestedByUserId = ac_userId actor\<rparr>" for i
    have tail: "runs (bind_io (on_env (en_generateReservationRequestId E)) (\<lambda>i.
        bind_io (lift (create_reservation_request (input' i))) (\<lambda>r.
        bind_io (on_env (en_currentContext E)) (\<lambda>context.
        bind_io (on_db (mr_saveReservationRequest R r context)) (\<lambda>_.
        then_io (on_env (en_requestCreated E (rr_id r))) (ret r)))))) (s, e) ?Q"
      if seats: "\<forall>i \<in> set (ri_seatIds input). \<exists>y \<in> seats s. st_id y = i \<and>
        st_movieProviderId y = ac_movieProviderId actor \<and>
        (\<exists>x. screenings s (ri_screeningId input) = Some x \<and> st_auditoriumId y = sc_auditoriumId x)"
    proof -
      have acc: "accepted actor input s r" if "create_reservation_request (input' i) = Inr r"
        "lg_request (ledger s) (rr_id r) = None" for i r
        using that seats t(2) Some
        by (auto simp: input'_def create_reservation_request_Inr accepted_def request_ok_def)
      have save: "sound u \<and> (case q of Inl x \<Rightarrow> ledger u = ledger s
          | Inr _ \<Rightarrow> accepted actor input s r \<and> ledger u = insert_request r ctx (ledger s))"
        if "create_reservation_request (input' i) = Inr r" "mr_saveReservationRequest R r ctx s = (q, u)"
        for i r ctx q u
      proof -
        have "request_ok r" "rr_status r = REQUESTED"
          using that(1) by (auto simp: input'_def create_reservation_request_Inr request_ok_def)
        from save_law [OF ok n this that(2)] show ?thesis using acc [OF that(1)] by (auto split: sum.splits)
      qed
      show ?thesis
        using ok save by (auto intro!: runs_env_bind runs_lift_bind runs_db_bind runs_pure) fastforce+
    qed
    have "runs (bind_io (assert_seats_belong_to_screening R actor input) (\<lambda>_.
        bind_io (on_env (en_generateReservationRequestId E)) (\<lambda>i.
        bind_io (lift (create_reservation_request (input' i))) (\<lambda>r.
        bind_io (on_env (en_currentContext E)) (\<lambda>context.
        bind_io (on_db (mr_saveReservationRequest R r context)) (\<lambda>_.
        then_io (on_env (en_requestCreated E (rr_id r))) (ret r))))))) (s, e) ?Q"
      by (rule runs_seq [OF assert_seats_runs [of actor input s e]]) (use ok tail in auto)
    then show ?thesis using Some t by (simp add: input'_def)
  qed
qed

end

section \<open>The in-memory repository meets the contract\<close>

lemma save_request_law:
  assumes inv: "store_inv s" and n: "lg_next (view s) \<le> max_safe_integer"
    and r: "request_ok r" "rr_status r = REQUESTED"
    and run: "save_reservation_request r ctx s = (res, s')"
  shows "store_inv s' \<and> catalogue s' = catalogue s \<and>
    (case res of Inl e \<Rightarrow> view s' = view s
     | Inr _ \<Rightarrow> lg_request (view s) (rr_id r) = None \<and> view s' = insert_request r ctx (view s))"
proof (cases "lg_request (view s) (rr_id r)")
  case (Some q)
  then show ?thesis using save_request_exists [of s r ctx] run inv by auto
next
  case None
  have li: "ledger_inv (view s)" using inv by (simp add: store_inv_def)
  from inv_next [OF li] have "1 \<le> lg_next (view s)" by blast
  from save_request_ok [OF None this n, of ctx] obtain t where t: "save_reservation_request r ctx s = (Inr (), t)"
    "view t = insert_request r ctx (view s)" "maps_ok s \<Longrightarrow> maps_ok t" "catalogue t = catalogue s" by blast
  then show ?thesis
    using run inv None ledger_inv_insert [OF li None r n] by (auto simp: store_inv_def)
qed

definition screenings_of :: "store \<Rightarrow> id \<Rightarrow> screening option" where
  "screenings_of s = jm_get (db_screeningsById s)"

definition seats_of :: "store \<Rightarrow> seat set" where
  "seats_of s = set (jm_values (db_seatsById s))"

interpretation in_memory_movies: movie_repository in_memory_movie_repository store_inv view screenings_of seats_of
proof (unfold_locales, goal_cases)
  case 1
  then show ?case by (simp add: store_inv_def)
next
  case 2
  then show ?case by (auto simp: in_memory_movie_repository_def find_movies_by_provider_id_def)
next
  case 3
  then show ?case
    by (auto simp: in_memory_movie_repository_def find_screening_for_provider_def screening_for_provider_Some
        screenings_of_def)
next
  case 4
  then show ?case
    by (auto simp: in_memory_movie_repository_def find_seats_by_ids_for_screening_def screenings_of_def
        seats_of_def split: option.splits if_splits)
next
  case (5 s r ctx res s')
  then show ?case
    using save_request_law [of s r ctx res s'] by (auto simp: in_memory_movie_repository_def split: sum.splits)
next
  case 6
  then show ?case
    by (auto simp: in_memory_movie_repository_def find_reservation_request_by_id_def get_request_view)
next
  case 7
  then show ?case
    by (auto simp: in_memory_movie_repository_def find_reservation_by_id_def get_reservation_view)
qed

section \<open>Authorization and tenant isolation\<close>

text \<open>The authorization rule. An actor reads a request exactly when it belongs to the
  actor's provider and the actor is a tenant admin, holds the tenant-wide read scope, or made the
  request; the same rule with the owner of the reservation decides over reservations.\<close>

lemma authorization_rule:
  "(can_read_reservation_request actor r \<longleftrightarrow> rr_movieProviderId r = ac_movieProviderId actor \<and>
      (TENANT_ADMIN \<in> set (ac_roles actor) \<or> ''reservations:read:tenant'' \<in> set (ac_scopes actor) \<or>
       rr_requestedByUserId r = ac_userId actor)) \<and>
   (can_read_reservation actor v \<longleftrightarrow> rv_movieProviderId v = ac_movieProviderId actor \<and>
      (TENANT_ADMIN \<in> set (ac_roles actor) \<or> ''reservations:read:tenant'' \<in> set (ac_scopes actor) \<or>
       rv_reservedByUserId v = ac_userId actor))"
  by (auto simp: can_read_reservation_request_def can_read_reservation_def)


end
