(* ===== verification/System.thy ===== *)
theory System
  imports Processor Service
begin

text \<open>
  The running system: API calls and \<open>k\<close> workers interleaved over one in-memory store, one
  atomic step of the event loop at a time. \<open>confirmClaimedReservationRequest\<close> awaits once,
  so it is two steps, and a worker between them does nothing else. The service starts one
  worker (\<open>k = 1\<close>); with two the store no longer prevents double booking.
\<close>

record system =
  sy_store :: store
  sy_claims :: "claimed_reservation_request list"
  sy_confirming :: "(confirm_input \<times> (reservation_request \<times> reservation option)) list"

section \<open>Steps\<close>

text \<open>The store after an operation, and the claim a worker got.\<close>

definition on_store :: "(store, 'a) io \<Rightarrow> system \<Rightarrow> system" where
  "on_store m y = y\<lparr>sy_store := snd (m (sy_store y))\<rparr>"

fun new_claims :: "js_error + claimed_reservation_request option \<Rightarrow> claimed_reservation_request list" where
  "new_claims (Inr (Some c)) = [c]"
| "new_claims _ = []"

fun new_confirming :: "confirm_input \<Rightarrow> js_error + (reservation_request \<times> reservation option) \<Rightarrow>
    (confirm_input \<times> (reservation_request \<times> reservation option)) list" where
  "new_confirming ci (Inr p) = [(ci, p)]"
| "new_confirming ci (Inl e) = []"

inductive system_step :: "nat \<Rightarrow> system \<Rightarrow> system \<Rightarrow> bool" for k where
  save: "request_ok r \<Longrightarrow> rr_status r = REQUESTED \<Longrightarrow> lg_next (view (sy_store y)) \<le> max_safe_integer \<Longrightarrow>
    system_step k y (on_store (save_reservation_request r ctx) y)"
| heartbeat: "hb_claimedWorkItem hb \<in> set (sy_claims y) \<Longrightarrow>
    system_step k y (on_store (heartbeat_claimed hb) y)"
| claim: "length (sy_confirming y) < k \<Longrightarrow>
    system_step k y (on_store (claim_next input)
      (y\<lparr>sy_claims := new_claims (fst (claim_next input (sy_store y))) @ sy_claims y\<rparr>))"
| reject: "length (sy_confirming y) < k \<Longrightarrow> c \<in> set (sy_claims y) \<Longrightarrow>
    system_step k y (on_store (reject_claimed c ra) y)"
| release: "length (sy_confirming y) < k \<Longrightarrow> c \<in> set (sy_claims y) \<Longrightarrow>
    system_step k y (on_store (release_claimed c fa) y)"
| fail: "length (sy_confirming y) < k \<Longrightarrow> c \<in> set (sy_claims y) \<Longrightarrow>
    system_step k y (on_store (fail_claimed c fa) y)"
| confirm_begin: "length (sy_confirming y) < k \<Longrightarrow> co_claimedWorkItem ci \<in> set (sy_claims y) \<Longrightarrow>
    reservation_for (cl_reservationRequest (co_claimedWorkItem ci)) (co_reservation ci) \<Longrightarrow>
    system_step k y (y\<lparr>sy_confirming := new_confirming ci (fst (confirm_begin ci (sy_store y))) @ sy_confirming y\<rparr>)"
| confirm_finish: "(ci, p) \<in> set (sy_confirming y) \<Longrightarrow>
    system_step k y (on_store (confirm_finish ci p) (y\<lparr>sy_confirming := remove1 (ci, p) (sy_confirming y)\<rparr>))"

inductive reachable :: "nat \<Rightarrow> store \<Rightarrow> system \<Rightarrow> bool" for k s0 where
  start: "reachable k s0 \<lparr>sy_store = s0, sy_claims = [], sy_confirming = []\<rparr>"
| step: "reachable k s0 y \<Longrightarrow> system_step k y z \<Longrightarrow> reachable k s0 z"

section \<open>The invariant of the system with one worker\<close>

text \<open>What \<open>confirm_begin\<close> found is still true when \<open>confirm_finish\<close> runs.\<close>

definition pending_ok :: "ledger \<Rightarrow> confirm_input \<times> (reservation_request \<times> reservation option) \<Rightarrow> bool" where
  "pending_ok L = (\<lambda>(ci, (r, conflict)). \<exists>m. owned L (co_claimedWorkItem ci) r m \<and>
     reservation_for r (co_reservation ci) \<and> lg_reservation L (rv_id (co_reservation ci)) = None \<and>
     (case conflict of
        None \<Rightarrow> \<forall>j w. lg_reservation L j = Some w \<longrightarrow> seats_disjoint (co_reservation ci) w
      | Some w \<Rightarrow> \<exists>j. lg_reservation L j = Some w))"

definition system_inv :: "system \<Rightarrow> bool" where
  "system_inv y \<longleftrightarrow> store_inv (sy_store y) \<and> (\<forall>c \<in> set (sy_claims y). claim_of (view (sy_store y)) c) \<and>
     length (sy_confirming y) \<le> 1 \<and> (\<forall>x \<in> set (sy_confirming y). pending_ok (view (sy_store y)) x)"

lemma on_store_simps [simp]:
  "sy_store (on_store m y) = snd (m (sy_store y))" "sy_claims (on_store m y) = sy_claims y"
  "sy_confirming (on_store m y) = sy_confirming y"
  by (simp_all add: on_store_def)

lemma system_inv_evolve:
  assumes inv: "system_inv y" and ok: "store_inv s'" and ev: "evolves (view (sy_store y)) (view s')"
    and z: "sy_store z = s'" "sy_confirming z = []"
    and c: "\<forall>c \<in> set (sy_claims z). c \<in> set (sy_claims y) \<or> claim_of (view s') c"
  shows "system_inv z"
  using assms claim_of_evolves [OF _ ev] by (fastforce simp: system_inv_def)

lemma pending_ok_stable:
  assumes p: "pending_ok L (ci, (r, conflict))" and res: "lg_reservation L' = lg_reservation L"
    and r: "lg_request L' (rr_id (cl_reservationRequest (co_claimedWorkItem ci))) = Some r"
    and m: "\<And>m. owned L (co_claimedWorkItem ci) r m \<Longrightarrow> \<exists>m'. lg_metadata L' (rr_id (cl_reservationRequest (co_claimedWorkItem ci))) = Some m' \<and>
       md_sequence m' = md_sequence m \<and> md_claimedBy m' = md_claimedBy m \<and> md_claimToken m' = md_claimToken m"
  shows "pending_ok L' (ci, (r, conflict))"
proof -
  obtain m where o: "owned L (co_claimedWorkItem ci) r m" using p by (auto simp: pending_ok_def)
  with m obtain m' where "lg_metadata L' (rr_id (cl_reservationRequest (co_claimedWorkItem ci))) = Some m'"
    "md_sequence m' = md_sequence m" "md_claimedBy m' = md_claimedBy m" "md_claimToken m' = md_claimToken m" by blast
  with o r have "owned L' (co_claimedWorkItem ci) r m'" by (simp add: owned_def)
  then show ?thesis using p res by (auto simp: pending_ok_def split: option.splits)
qed

lemma pending_ok_save:
  assumes "pending_ok L x" "lg_request L (rr_id q) = None"
  shows "pending_ok (insert_request q ctx L) x"
proof -
  obtain ci r conflict where x: "x = (ci, (r, conflict))" by (metis prod.exhaust)
  have "lg_request L (rr_id (cl_reservationRequest (co_claimedWorkItem ci))) = Some r"
    using assms(1) by (auto simp: x pending_ok_def owned_def)
  moreover from this assms(2) have "rr_id (cl_reservationRequest (co_claimedWorkItem ci)) \<noteq> rr_id q" by auto
  ultimately show ?thesis
    using assms(1) unfolding x
    by (rule_tac pending_ok_stable) (auto simp: insert_request_def put_work_def owned_def)
qed

lemma pending_ok_heartbeat:
  assumes p: "pending_ok L x" and h: "lg_request L (rr_id q) = Some q" "lg_metadata L (rr_id q) = Some m"
  shows "pending_ok (put_work q (renewed_metadata hb m) L) x"
proof -
  obtain ci r conflict where x: "x = (ci, (r, conflict))" by (metis prod.exhaust)
  have "lg_request L (rr_id (cl_reservationRequest (co_claimedWorkItem ci))) = Some r"
    using p by (auto simp: x pending_ok_def owned_def)
  then show ?thesis
    using p h unfolding x
    by (rule_tac pending_ok_stable) (auto simp: put_work_def owned_def renewed_metadata_def)
qed

lemma confirm_finish_step:
  assumes inv: "store_inv s" and p: "pending_ok (view s) (ci, (r, conflict))"
  shows "store_inv (snd (confirm_finish ci (r, conflict) s)) \<and>
    evolves (view s) (view (snd (confirm_finish ci (r, conflict) s)))"
proof -
  let ?v = "co_reservation ci"
  have li: "ledger_inv (view s)" using inv by (simp add: store_inv_def)
  obtain m where o: "owned (view s) (co_claimedWorkItem ci) r m" using p by (auto simp: pending_ok_def)
  note f = owned_facts [OF li o]
  have nt: "\<not> terminal_status (rr_status r)" using f(2) by (simp add: terminal_status_def)
  show ?thesis
  proof (cases conflict)
    case None
    let ?L = "put_work (r\<lparr>rr_status := CONFIRMED\<rparr>) (cleared_metadata m) (put_reservation ?v (view s))"
    have pv: "reservation_for r ?v" "lg_reservation (view s) (rv_id ?v) = None"
      "\<And>j w. lg_reservation (view s) j = Some w \<Longrightarrow> seats_disjoint ?v w"
      using p None by (auto simp: pending_ok_def)
    note e = confirm_finish_free [OF f(2,4), of ci]
    have "ledger_inv ?L"
      by (rule ledger_inv_confirm [OF li f(3,4) _ pv])
        (use f(2) claim_state_ok_changes(1) [OF f(5)] in simp_all)
    moreover have "evolves (put_reservation ?v (view s)) ?L"
      by (rule evolves_put_work [where m = m]) (simp_all add: f(3,4) nt)
    ultimately show ?thesis
      using e None inv evolves_trans [OF evolves_put_reservation [OF pv(2)]]
      by (simp add: effect_def store_inv_def evolves_add_attempt)
  next
    case (Some w)
    let ?L = "put_work (r\<lparr>rr_status := REJECTED\<rparr>) (cleared_metadata m) (view s)"
    note e = confirm_finish_conflict [OF f(2,4), of ci w]
    have "ledger_inv ?L"
      by (rule ledger_inv_status [OF li f(3,4)]) (use f(2) claim_state_ok_changes(1) [OF f(5)] in simp_all)
    moreover have "evolves (view s) ?L"
      by (rule evolves_put_work [where m = m]) (simp_all add: f(3,4) nt)
    ultimately show ?thesis using e Some inv by (simp add: effect_def store_inv_def evolves_add_attempt)
  qed
qed

lemma confirm_begin_pending:
  assumes inv: "store_inv s" and c: "claim_of (view s) (co_claimedWorkItem ci)"
    and v: "reservation_for (cl_reservationRequest (co_claimedWorkItem ci)) (co_reservation ci)"
    and x: "x \<in> set (new_confirming ci (fst (confirm_begin ci s)))"
  shows "pending_ok (view s) x"
proof (cases rule: owned_or_lost [of "view s" "co_claimedWorkItem ci"])
  case (1 r m)
  have mo: "maps_ok s" using inv by (simp add: store_inv_def)
  let ?v = "co_reservation ci"
  let ?c = "find_conflict_in s (rv_screeningId ?v) (rv_seatIds ?v)"
  have b: "lg_reservation (view s) (rv_id ?v) = None" "x = (ci, (r, ?c))"
    using x confirm_begin_owned [OF 1] by (auto split: if_splits)
  have "reservation_for r ?v"
    using v same_request_fields [OF claim_of_owned [OF c 1]] by (simp add: reservation_for_def)
  moreover have "case ?c of None \<Rightarrow> \<forall>j w. lg_reservation (view s) j = Some w \<longrightarrow> seats_disjoint ?v w
      | Some w \<Rightarrow> \<exists>j. lg_reservation (view s) j = Some w"
    using find_conflict_None [OF mo, of "rv_screeningId ?v" "rv_seatIds ?v"] seats_conflict_disjoint [of ?v]
      find_conflict_Some [OF mo, of "rv_screeningId ?v" "rv_seatIds ?v"]
    by (auto split: option.split)
  ultimately show ?thesis using 1 b unfolding pending_ok_def by (simp only: prod.case) blast
next
  case 2
  then obtain e where "confirm_begin ci s = (Inl e, s)" using claimed_ops_lost(4) [OF 2 refl] by blast
  then show ?thesis using x by simp
qed

lemma claimed_op_step:
  assumes inv: "store_inv s"
  shows "store_inv (snd (reject_claimed c ra s)) \<and> evolves (view s) (view (snd (reject_claimed c ra s)))"
    "store_inv (snd (release_claimed c fa s)) \<and> evolves (view s) (view (snd (release_claimed c fa s)))"
    "store_inv (snd (fail_claimed c fa s)) \<and> evolves (view s) (view (snd (fail_claimed c fa s)))"
proof -
  have li: "ledger_inv (view s)" using inv by (simp add: store_inv_def)
  obtain r t where 1: "reject_claimed c ra s = (r, t)" by fastforce
  note law = reject_claimed_law [OF inv 1]
  show "store_inv (snd (reject_claimed c ra s)) \<and> evolves (view s) (view (snd (reject_claimed c ra s)))"
    using law did_result_evolves [where g = "\<lambda>m. m", OF li conjunct2 [OF law]] by (simp add: 1)
  obtain r t where 1: "release_claimed c fa s = (r, t)" by fastforce
  note law = release_claimed_law [OF inv 1]
  show "store_inv (snd (release_claimed c fa s)) \<and> evolves (view s) (view (snd (release_claimed c fa s)))"
    using law did_result_evolves [where g = bump_failures, OF li conjunct2 [OF law]] by (simp add: 1)
  obtain r t where 1: "fail_claimed c fa s = (r, t)" by fastforce
  note law = fail_claimed_law [OF inv 1]
  show "store_inv (snd (fail_claimed c fa s)) \<and> evolves (view s) (view (snd (fail_claimed c fa s)))"
    using law did_result_evolves [where g = bump_failures, OF li conjunct2 [OF law]] by (simp add: 1)
qed

lemma heartbeat_step:
  assumes inv: "store_inv s"
  shows "store_inv (snd (heartbeat_claimed hb s)) \<and> evolves (view s) (view (snd (heartbeat_claimed hb s))) \<and>
    (pending_ok (view s) x \<longrightarrow> pending_ok (view (snd (heartbeat_claimed hb s))) x)"
proof -
  obtain r t where run: "heartbeat_claimed hb s = (r, t)" by fastforce
  have "pending_ok (view t) x" if "pending_ok (view s) x"
  proof (cases rule: heartbeat_cases [OF inv, of hb, case_names renewed refused])
    case (renewed q m)
    have "lg_request (view s) (rr_id q) = Some q" "lg_metadata (view s) (rr_id q) = Some m"
      using renewed(1) inv inv_request_id [of "view s"] by (auto simp: heartbeat_owned_def store_inv_def)
    from pending_ok_heartbeat [OF that this] show ?thesis using effect_cases [OF renewed(2) run] by simp
  next
    case refused
    then show ?thesis using run that by simp
  qed
  then show ?thesis using heartbeat_claimed_law [OF inv run] run by (simp add: advances_evolves)
qed

lemma save_step:
  assumes inv: "store_inv s" and r: "request_ok r" "rr_status r = REQUESTED"
    and n: "lg_next (view s) \<le> max_safe_integer"
  shows "store_inv (snd (save_reservation_request r ctx s)) \<and>
    evolves (view s) (view (snd (save_reservation_request r ctx s))) \<and>
    (pending_ok (view s) x \<longrightarrow> pending_ok (view (snd (save_reservation_request r ctx s))) x)"
proof -
  obtain u t where run: "save_reservation_request r ctx s = (u, t)" by fastforce
  note law = save_request_law [OF inv n r run]
  show ?thesis
  proof (cases u)
    case (Inl e)
    then show ?thesis using law run by simp
  next
    case (Inr v)
    then show ?thesis using law run evolves_insert pending_ok_save by auto
  qed
qed

theorem system_step_inv:
  assumes inv: "system_inv y" and step: "system_step 1 y z"
  shows "system_inv z \<and> evolves (view (sy_store y)) (view (sy_store z))"
  using step
proof cases
  case (save r ctx)
  have "store_inv (sy_store y)" using inv by (simp add: system_inv_def)
  note st = save_step [OF this save(2-4), of ctx]
  then show ?thesis using inv save(1) claim_of_evolves by (auto simp: system_inv_def)
next
  case (heartbeat hb)
  have "store_inv (sy_store y)" using inv by (simp add: system_inv_def)
  note st = heartbeat_step [OF this, of hb]
  then show ?thesis using inv heartbeat(1) claim_of_evolves by (auto simp: system_inv_def)
next
  case (claim input)
  have s: "store_inv (sy_store y)" using inv by (simp add: system_inv_def)
  obtain res t where run: "claim_next input (sy_store y) = (res, t)" by fastforce
  note law = claim_next_law [OF s run]
  then have ev: "evolves (view (sy_store y)) (view t)" by (blast intro: advances_evolves)
  have "claim_of (view t) c" if "c \<in> set (new_claims res)" for c
    using that law by (cases res rule: new_claims.cases) (auto intro: owned_claim_of)
  then have "system_inv z"
    by (intro system_inv_evolve [OF inv, of t]) (use law ev claim run in auto)
  then show ?thesis using ev run claim(1) by simp
next
  case (reject c ra)
  have "store_inv (sy_store y)" using inv by (simp add: system_inv_def)
  note st = claimed_op_step(1) [OF this, of c ra]
  have "system_inv z" by (rule system_inv_evolve [OF inv]) (use st reject in auto)
  then show ?thesis using st reject(1) by simp
next
  case (release c fa)
  have "store_inv (sy_store y)" using inv by (simp add: system_inv_def)
  note st = claimed_op_step(2) [OF this, of c fa]
  have "system_inv z" by (rule system_inv_evolve [OF inv]) (use st release in auto)
  then show ?thesis using st release(1) by simp
next
  case (fail c fa)
  have "store_inv (sy_store y)" using inv by (simp add: system_inv_def)
  note st = claimed_op_step(3) [OF this, of c fa]
  have "system_inv z" by (rule system_inv_evolve [OF inv]) (use st fail in auto)
  then show ?thesis using st fail(1) by simp
next
  case (confirm_begin ci)
  have "store_inv (sy_store y)" "claim_of (view (sy_store y)) (co_claimedWorkItem ci)"
    using inv confirm_begin by (auto simp: system_inv_def)
  note p = confirm_begin_pending [OF this confirm_begin(4)]
  have "length (new_confirming ci r) \<le> 1" for r by (cases r) auto
  with p show ?thesis using inv confirm_begin by (auto simp: system_inv_def)
next
  case (confirm_finish ci p)
  have s: "store_inv (sy_store y)" and q: "pending_ok (view (sy_store y)) (ci, p)"
    using inv confirm_finish by (auto simp: system_inv_def)
  obtain r conflict where pr: "p = (r, conflict)" by fastforce
  note st = confirm_finish_step [OF s q [unfolded pr]]
  have "sy_confirming y = [(ci, p)]"
    using inv confirm_finish(2) by (cases "sy_confirming y") (auto simp: system_inv_def)
  then have "sy_confirming z = []" using confirm_finish(1) by simp
  then have "system_inv z"
    by (intro system_inv_evolve [OF inv]) (use st confirm_finish pr in auto)
  then show ?thesis using st confirm_finish(1) pr by simp
qed

lemma reachable_inv:
  assumes "store_inv s0" "reachable 1 s0 y"
  shows "system_inv y \<and> evolves (view s0) (view (sy_store y))"
  using assms(2)
proof induction
  case start
  then show ?case using assms(1) by (simp add: system_inv_def)
next
  case (step y z)
  then show ?case using system_step_inv [of y z] evolves_trans by blast
qed

lemma reachable_steps:
  assumes "reachable k s0 y" "(system_step k)\<^sup>*\<^sup>* y z"
  shows "reachable k s0 z"
  using assms(2,1) by (induction rule: rtranclp_induct) (auto intro: reachable.step)

lemma empty_store_inv: "store_inv empty_store"
  by (simp add: store_inv_def maps_ok_def empty_store_def view_def ledger_inv_def requests_ok_def sequences_ok_def
      reservations_ok_def no_double_booking_def attempts_ok_def max_safe_integer_def)

section \<open>A concrete trace\<close>

definition trace_request :: "id \<Rightarrow> reservation_request" where
  "trace_request i = \<lparr>rr_id = i, rr_movieProviderId = ''p'', rr_screeningId = ''s'', rr_seatIds = [''a1'', ''a2''],
     rr_requestedByUserId = ''u'', rr_status = REQUESTED\<rparr>"

definition trace_claim :: "string \<Rightarrow> claim_input" where
  "trace_claim token = \<lparr>ci_workerId = ''w'', ci_claimToken = token, ci_claimedAt = ''2026-06-01T10:00:00.000Z'',
     ci_claimExpiresAt = ''2026-06-01T10:00:30.000Z'', ci_maxLeaseTimeouts = 3, ci_maxTransientFailures = 3\<rparr>"

definition trace_confirm :: "claimed_reservation_request \<Rightarrow> id \<Rightarrow> confirm_input" where
  "trace_confirm c i = \<lparr>co_claimedWorkItem = c,
     co_reservation = \<lparr>rv_id = i, rv_movieProviderId = ''p'', rv_reservationRequestId = rr_id (cl_reservationRequest c),
       rv_screeningId = ''s'', rv_seatIds = [''a1'', ''a2''], rv_reservedByUserId = ''u'',
       rv_confirmedAt = ''2026-06-01T10:00:01.000Z''\<rparr>,
     co_attempt = \<lparr>at_reservationRequestId = rr_id (cl_reservationRequest c), at_sequence = cl_sequence c,
       at_startedAt = ''2026-06-01T10:00:00.000Z'', at_completedAt = ''2026-06-01T10:00:01.000Z'', at_reservationId = i\<rparr>\<rparr>"

definition do_save :: "id \<Rightarrow> system \<Rightarrow> system" where
  "do_save i y = on_store (save_reservation_request (trace_request i) None) y"

definition do_claim :: "string \<Rightarrow> system \<Rightarrow> system" where
  "do_claim token y = on_store (claim_next (trace_claim token))
     (y\<lparr>sy_claims := new_claims (fst (claim_next (trace_claim token) (sy_store y))) @ sy_claims y\<rparr>)"

definition do_begin :: "confirm_input \<Rightarrow> system \<Rightarrow> system" where
  "do_begin ci y = y\<lparr>sy_confirming := new_confirming ci (fst (confirm_begin ci (sy_store y))) @ sy_confirming y\<rparr>"

definition do_finish :: "system \<Rightarrow> system" where
  "do_finish y = (case sy_confirming y of [] \<Rightarrow> y
     | x # xs \<Rightarrow> on_store (confirm_finish (fst x) (snd x)) (y\<lparr>sy_confirming := xs\<rparr>))"

definition initial_system :: system where
  "initial_system = \<lparr>sy_store = empty_store, sy_claims = [], sy_confirming = []\<rparr>"

definition one_worker_trace :: system where
  "one_worker_trace = (let y = do_claim ''t1'' (do_save ''r1'' initial_system)
     in do_finish (do_begin (trace_confirm (hd (sy_claims y)) ''v1'') y))"

definition two_claims :: system where
  "two_claims = do_claim ''t2'' (do_claim ''t1'' (do_save ''r2'' (do_save ''r1'' initial_system)))"

definition two_worker_trace :: system where
  "two_worker_trace = do_finish (do_finish
     (do_begin (trace_confirm (hd (sy_claims two_claims)) ''v2'')
       (do_begin (trace_confirm (hd (tl (sy_claims two_claims))) ''v1'') two_claims)))"

lemma one_worker_trace_result:
  "jm_values (db_reservationsById (sy_store one_worker_trace)) = [co_reservation (trace_confirm (hd (sy_claims one_worker_trace)) ''v1'')]"
  by code_simp

lemma two_worker_trace_result:
  "List.map (\<lambda>v. (rv_id v, rv_screeningId v, rv_seatIds v)) (jm_values (db_reservationsById (sy_store two_worker_trace))) =
     [(''v2'', ''s'', [''a1'', ''a2'']), (''v1'', ''s'', [''a1'', ''a2''])]"
  by code_simp

lemma reachable_save: "reachable k s0 y \<Longrightarrow> db_nextSequenceValue (sy_store y) \<le> max_safe_integer \<Longrightarrow>
    reachable k s0 (do_save i y)"
  unfolding do_save_def
  by (erule reachable.step, rule system_step.save) (simp_all add: trace_request_def request_ok_def view_def)

lemma reachable_claim: "reachable k s0 y \<Longrightarrow> length (sy_confirming y) < k \<Longrightarrow> reachable k s0 (do_claim token y)"
  unfolding do_claim_def by (erule reachable.step, rule system_step.claim) simp

lemma reachable_begin: "reachable k s0 y \<Longrightarrow> length (sy_confirming y) < k \<Longrightarrow>
    co_claimedWorkItem ci \<in> set (sy_claims y) \<Longrightarrow>
    reservation_for (cl_reservationRequest (co_claimedWorkItem ci)) (co_reservation ci) \<Longrightarrow>
    reachable k s0 (do_begin ci y)"
  unfolding do_begin_def by (erule reachable.step, rule system_step.confirm_begin)

lemma reachable_finish: "reachable k s0 y \<Longrightarrow> reachable k s0 (do_finish y)"
proof (cases "sy_confirming y")
  case (Cons x xs)
  assume "reachable k s0 y"
  moreover have "system_step k y (on_store (confirm_finish (fst x) (snd x))
      (y\<lparr>sy_confirming := remove1 (fst x, snd x) (sy_confirming y)\<rparr>))"
    by (rule system_step.confirm_finish) (simp add: Cons)
  ultimately show ?thesis using Cons by (auto simp: do_finish_def intro: reachable.step)
qed (simp add: do_finish_def)

lemma reachable_initial: "reachable k empty_store initial_system"
  unfolding initial_system_def by (rule reachable.start)

lemma one_worker_trace_reachable: "reachable 1 empty_store one_worker_trace"
  unfolding one_worker_trace_def Let_def
  by (intro reachable_finish reachable_begin reachable_claim reachable_save reachable_initial; code_simp)

lemma two_claims_reachable: "reachable 2 empty_store two_claims"
  unfolding two_claims_def
  by (intro reachable_claim reachable_save reachable_initial; code_simp)

lemma two_worker_trace_reachable: "reachable 2 empty_store two_worker_trace"
  unfolding two_worker_trace_def
  by (intro reachable_finish reachable_begin two_claims_reachable; code_simp)

section \<open>Properties\<close>

text \<open>C1: with the one worker the service runs, no interleaving of API calls, heartbeats and
  worker steps double-books a seat: in every reachable state two different reservations of a
  screening share no seat, and the confirmed requests and the reservations correspond one to one,
  each reservation being exactly what its request asked for.\<close>

theorem one_worker_never_double_books:
  assumes "store_inv s0" "reachable 1 s0 y"
  shows "no_double_booking (view (sy_store y)) \<and> reservations_ok (view (sy_store y))"
  using reachable_inv [OF assms] by (simp add: system_inv_def store_inv_def ledger_inv_def)

theorem one_worker_never_double_books_witness:
  "no_double_booking (view (sy_store one_worker_trace)) \<and>
   List.map rv_id (jm_values (db_reservationsById (sy_store one_worker_trace))) = [''v1'']"
  using one_worker_never_double_books [OF empty_store_inv one_worker_trace_reachable]
  by (simp add: one_worker_trace_result) (simp add: trace_confirm_def)

text \<open>C11: history is permanent. Between any two moments of a one-worker run a request is never
  lost and keeps its tenant, screening, seats, owner and sequence number, a terminal request
  (CONFIRMED, REJECTED, FAILED) does not change at all, reservations persist unchanged and the
  attempts of a request are only appended to.\<close>

theorem history_is_permanent:
  assumes "store_inv s0" "reachable 1 s0 y" "(system_step 1)\<^sup>*\<^sup>* y z"
  shows "evolves (view (sy_store y)) (view (sy_store z))"
  using assms(3)
proof induction
  case (step z z')
  from reachable_steps [OF assms(2) step(1)] have "reachable 1 s0 z" .
  from reachable_inv [OF assms(1) this] system_step_inv step show ?case
    using evolves_trans by blast
qed simp

theorem history_is_permanent_witness:
  "evolves (view (sy_store one_worker_trace)) (view (sy_store (do_save ''r2'' one_worker_trace)))"
proof (rule history_is_permanent [OF empty_store_inv one_worker_trace_reachable], rule r_into_rtranclp)
  have n: "db_nextSequenceValue (sy_store one_worker_trace) \<le> max_safe_integer" by code_simp
  show "system_step 1 one_worker_trace (do_save ''r2'' one_worker_trace)"
    unfolding do_save_def
    by (rule system_step.save) (use n in \<open>simp_all add: trace_request_def request_ok_def view_def\<close>)
qed


end
