(* ===== verification/Draining.thy ===== *)
theory Draining
  imports Processor
begin

text \<open>
  How much work a queue can hold: every result a run of the processor returns uses up one of a
  finite number of attempts, so the passes of a worker come to an end of the queue.
\<close>

section \<open>The work that is left\<close>

definition attempts_left :: "processor_options \<Rightarrow> reservation_request \<Rightarrow> work_metadata \<Rightarrow> nat" where
  "attempts_left options r m = (if terminal_status (rr_status r) then 0
     else nat (po_maxTransientFailures options - md_transientFailureCount m) + 1)"

definition work_of :: "processor_options \<Rightarrow> ledger \<Rightarrow> id \<Rightarrow> nat" where
  "work_of options L i = (case (lg_request L i, lg_metadata L i) of
     (Some r, Some m) \<Rightarrow> attempts_left options r m | _ \<Rightarrow> 0)"

definition work_left :: "processor_options \<Rightarrow> ledger \<Rightarrow> nat" where
  "work_left options L = (\<Sum>i \<in> dom (lg_request L). work_of options L i)"

lemma ledger_finite:
  assumes "ledger_inv L"
  shows "finite (dom (lg_request L))"
proof -
  let ?q = "\<lambda>i. md_sequence (the (lg_metadata L i))"
  have d: "dom (lg_request L) = dom (lg_metadata L)"
    using assms by (auto simp: ledger_inv_def requests_ok_def dom_def)
  have "inj_on ?q (dom (lg_metadata L))"
    by (rule inj_onI) (use inv_sequence_unique [OF assms] in fastforce)
  moreover have "?q ` dom (lg_metadata L) \<subseteq> {1..<lg_next L}"
    using inv_sequenceD [OF assms] by fastforce
  ultimately have "finite (dom (lg_metadata L))"
    using finite_atLeastLessThan_int finite_imageD finite_subset by metis
  then show ?thesis by (simp add: d)
qed

lemma attempts_left_evolves:
  assumes "same_request r r'" "metadata_evolves m m'" "terminal_status (rr_status r) \<longrightarrow> r' = r \<and> m' = m"
  shows "attempts_left options r' m' \<le> attempts_left options r m"
  using assms(2,3) by (auto simp: attempts_left_def metadata_evolves_def)

lemma work_of_evolves:
  assumes inv: "ledger_inv L" and ev: "evolves L L'" and i: "i \<in> dom (lg_request L)"
  shows "work_of options L' i \<le> work_of options L i"
proof -
  obtain r where r: "lg_request L i = Some r" using i by blast
  obtain m where m: "lg_metadata L i = Some m" by (rule inv_requestD [OF inv r])
  obtain r' m' where "lg_request L' i = Some r'" "lg_metadata L' i = Some m'" "same_request r r'"
    "metadata_evolves m m'" "terminal_status (rr_status r) \<longrightarrow> r' = r \<and> m' = m"
    using ev r m unfolding evolves_def work_evolves_def by blast
  then show ?thesis using attempts_left_evolves r m by (simp add: work_of_def)
qed

lemma advances_dom: "ledger_inv L \<Longrightarrow> advances L L' \<Longrightarrow> dom (lg_request L') = dom (lg_request L)"
proof (rule set_eqI)
  fix i assume inv: "ledger_inv L" and a: "advances L L'"
  show "i \<in> dom (lg_request L') \<longleftrightarrow> i \<in> dom (lg_request L)"
  proof (cases "lg_request L i")
    case None
    then show ?thesis using a by (auto simp: advances_def)
  next
    case (Some r)
    then obtain m where "lg_metadata L i = Some m" using inv_requestD [OF inv] by metis
    then show ?thesis using a Some unfolding advances_def evolves_def work_evolves_def by blast
  qed
qed

lemma work_left_advances:
  assumes "ledger_inv L" "advances L L'"
  shows "work_left options L' \<le> work_left options L"
  unfolding work_left_def advances_dom [OF assms]
  by (rule sum_mono) (rule work_of_evolves [OF assms(1) advances_evolves [OF assms(2)]])

lemma work_left_bound:
  assumes "ledger_inv L"
  shows "work_left options L \<le> card (dom (lg_request L)) * (nat (po_maxTransientFailures options) + 1)"
proof -
  have "work_of options L i \<le> nat (po_maxTransientFailures options) + 1" if i: "i \<in> dom (lg_request L)" for i
  proof -
    obtain r where r: "lg_request L i = Some r" using i by blast
    obtain m where m: "lg_metadata L i = Some m" "claim_state_ok r m" by (rule inv_requestD [OF assms r])
    then have "attempts_left options r m \<le> nat (po_maxTransientFailures options) + 1"
      by (simp add: attempts_left_def claim_state_ok_def nat_mono)
    then show ?thesis using r m by (simp add: work_of_def)
  qed
  from sum_bounded_above [of "dom (lg_request L)" "work_of options L", OF this]
  show ?thesis unfolding work_left_def by simp
qed

text \<open>Settling a work item uses up at least one attempt.\<close>

lemma settled_put:
  assumes "ledger_inv L" "owned L c (cl_reservationRequest c) m" "settled L c m options R L'"
  obtains r' m' where "lg_request L' = (lg_request L)(rr_id (cl_reservationRequest c) \<mapsto> r')"
    "lg_metadata L' = (lg_metadata L)(rr_id (cl_reservationRequest c) \<mapsto> m')"
    "attempts_left options r' m' < attempts_left options (cl_reservationRequest c) m"
proof -
  let ?r = "cl_reservationRequest c"
  have nt: "\<not> terminal_status (rr_status ?r)" using assms(2) by (rule owned_not_terminal)
  show ?thesis
  proof (cases R)
    case (Confirmed_Result a q v)
    then show ?thesis using assms(3) nt that [of q "cleared_metadata m"]
      by (auto simp: attempts_left_def terminal_status_def)
  next
    case (Rejected_Result a q)
    then show ?thesis using assms(3) nt that [of q "cleared_metadata m"]
      by (auto simp: attempts_left_def terminal_status_def)
  next
    case (Retryable_Failure_Result a q n)
    then show ?thesis using assms(3) nt that [of q "cleared_metadata (bump_failures m)"]
      by (auto simp: attempts_left_def terminal_status_def cleared_metadata_def bump_failures_def)
  next
    case (Failed_Result a q)
    then show ?thesis using assms(3) nt that [of q "cleared_metadata (bump_failures m)"]
      by (auto simp: attempts_left_def terminal_status_def)
  qed (use assms(3) in simp)
qed

lemma work_left_settled:
  assumes inv: "ledger_inv L" and o: "owned L c (cl_reservationRequest c) m" and st: "settled L c m options R L'"
  shows "work_left options L' < work_left options L"
proof -
  let ?i = "rr_id (cl_reservationRequest c)"
  obtain r' m' where L': "lg_request L' = (lg_request L)(?i \<mapsto> r')" "lg_metadata L' = (lg_metadata L)(?i \<mapsto> m')"
    and less: "attempts_left options r' m' < attempts_left options (cl_reservationRequest c) m"
    by (rule settled_put [OF assms])
  have i: "lg_request L ?i = Some (cl_reservationRequest c)" "lg_metadata L ?i = Some m" using o by (simp_all add: owned_def)
  then have d: "dom (lg_request L') = dom (lg_request L)" using L' by auto
  show ?thesis
    unfolding work_left_def d
  proof (rule sum_strict_mono_ex1 [OF ledger_finite [OF inv]])
    show "\<forall>j \<in> dom (lg_request L). work_of options L' j \<le> work_of options L j"
      using L' i less by (auto simp: work_of_def)
    show "\<exists>j \<in> dom (lg_request L). work_of options L' j < work_of options L j"
      using L' i less by (intro bexI [of _ ?i]) (auto simp: work_of_def)
  qed
qed

lemma run_outcome_work:
  assumes inv: "ledger_inv L" and run: "run_outcome L options res L'"
  shows "work_left options L' \<le> work_left options L"
    "res = Inr R \<Longrightarrow> R \<noteq> No_Pending_Request \<Longrightarrow> work_left options L' < work_left options L"
proof -
  have settle: "work_left options L' < work_left options L"
    if "advances L K" "ledger_inv K" "owned K c (cl_reservationRequest c) m" "settled K c m options R L'" for K c m R
    using work_left_advances [OF inv that(1), of options] work_left_settled [OF that(2-4)] by linarith
  show "res = Inr R \<Longrightarrow> R \<noteq> No_Pending_Request \<Longrightarrow> work_left options L' < work_left options L"
    using run settle unfolding run_outcome_def by (cases R) (simp_all del: settled.simps, blast+)
  show "work_left options L' \<le> work_left options L"
  proof (cases "res = Inr No_Pending_Request")
    case True
    then show ?thesis using run work_left_advances [OF inv] by (simp add: run_outcome_def)
  next
    case False
    then show ?thesis
      using run settle work_left_advances [OF inv] unfolding run_outcome_def
      by (auto simp del: settled.simps split: sum.splits processing_result.splits intro: less_imp_le)
  qed
qed

section \<open>A calm environment\<close>

text \<open>
  The clock, the source of claim tokens, the telemetry and the caller's callback return, and the
  clock gives times a lease can be added to. The failure policy and the generator of reservation ids may
  still throw.
\<close>

definition gives_value :: "('w, 'a) io \<Rightarrow> bool" where
  "gives_value m \<longleftrightarrow> (\<forall>w. \<exists>x. fst (m w) = Inr x)"

definition calm_environment :: "processor_options \<Rightarrow> 'e processing_input \<Rightarrow> 'e environment \<Rightarrow> bool" where
  "calm_environment options input E \<longleftrightarrow>
     gives_value (en_hrtime E) \<and> gives_value (en_nowIsoString E) \<and> gives_value (claim_token E input) \<and>
     (\<forall>e t. fst (en_nowIsoString E e) = Inr t \<longrightarrow> (\<exists>u. add_milliseconds t (po_claimLeaseMs options) = Inr u)) \<and>
     (\<forall>a. gives_value (en_spanStart E a)) \<and> gives_value (en_spanEnd E) \<and>
     (\<forall>a. gives_value (en_claimed E a)) \<and> (\<forall>a. gives_value (en_outcome E a)) \<and>
     (\<forall>x. gives_value (en_exception E x)) \<and>
     (\<forall>f c. pi_onClaimed input = Some f \<longrightarrow> gives_value (f c))"

lemma gives_valueD: "gives_value m \<Longrightarrow> \<exists>x. fst (m w) = Inr x"
  by (simp add: gives_value_def)

lemma gives_value_bind:
  "gives_value m \<Longrightarrow> (\<And>x. gives_value (f x)) \<Longrightarrow> gives_value (bind_io m f)"
  unfolding gives_value_def bind_io_def by (auto split: prod.split sum.split) (metis fst_conv sum.distinct(1))

lemma runs_env_calm:
  assumes "gives_value m" "\<And>x e. fst (m (snd w)) = Inr x \<Longrightarrow> runs (f x) (fst w, e) Q"
  shows "runs (bind_io (on_env m) f) w Q"
  using gives_valueD [OF assms(1), of "snd w"] assms(2) by (cases w) (auto simp: runs_def bind_io_def on_env_app)

lemma runs_inner_env_calm:
  assumes "gives_value m" "\<And>x e. runs (f x) ((fst (fst w), e), snd w) Q"
  shows "runs (bind_io (on_db (on_env m)) f) w Q"
  using gives_valueD [OF assms(1), of "snd (fst w)"] assms(2)
  by (cases w; cases "fst w") (auto simp: runs_def bind_io_def on_env_app on_db_app)

lemma runs_both: "runs m w P \<Longrightarrow> runs m w Q \<Longrightarrow> runs m w (\<lambda>r v. P r v \<and> Q r v)"
  by (simp add: runs_def)

lemma calm_outcome: "calm_environment options input E \<Longrightarrow> gives_value (record_processor_outcome E R c d)"
  unfolding record_processor_outcome_def calculate_duration_def calm_environment_def
  by (intro gives_value_bind) (auto simp: gives_value_def)

text \<open>An error leaves the \<open>try\<close> block only while the item is not settled.\<close>

lemma persist_terminal_calm:
  assumes "calm_environment options input E"
  shows "runs (persist_terminal E c d commit) ((s, e), b) (\<lambda>res w. isl res \<longrightarrow> snd w = b)"
  unfolding persist_terminal_def then_bind
  by (rule runs_bind, rule runs_on_db, rule runsI)
    (auto split: sum.split intro!: runs_bind [of "modify _"] runs_modify runs_inner_env_calm [OF calm_outcome [OF assms]] runs_pure)

lemma try_work_item_calm:
  assumes "calm_environment options input E"
  shows "runs (try_work_item W E c startedAt d) ((s, e), False) (\<lambda>res w. isl res \<longrightarrow> \<not> snd w)"
proof -
  have p: "runs (persist_terminal E c d commit) ((s', e'), False) (\<lambda>res w. isl res \<longrightarrow> \<not> snd w)" for commit s' e'
    using persist_terminal_calm [OF assms, of c d commit s' e' False] by simp
  show ?thesis
    unfolding try_work_item_def then_bind
  proof (rule runs_bind, rule runs_on_db, rule runs_on_db, rule runsI, unfold fst_conv snd_conv)
    fix r s'
    show "case r of Inl x \<Rightarrow> isl (Inl x :: js_error + processing_result) \<longrightarrow> \<not> False
      | Inr conflict \<Rightarrow> runs (case conflict of None \<Rightarrow> bind_io (on_db (on_env (throw_if_failure_policy_blocks E c)))
            (\<lambda>_. persist_terminal E c d (confirm_claimed_work_item W E c startedAt))
          | Some v \<Rightarrow> persist_terminal E c d (reject_for_seat_conflict W E c startedAt (rv_id v))) ((s', e), False)
          (\<lambda>res w. isl res \<longrightarrow> \<not> snd w)"
      by (auto split: sum.split option.split intro!: p runs_bind [of "on_db _"] runs_on_db runs_on_env)
  qed
qed

section \<open>A run that returns\<close>

text \<open>What a run takes from its options when it claims.\<close>

definition claim_options :: "processor_options \<Rightarrow> claim_input \<Rightarrow> bool" where
  "claim_options options ci \<longleftrightarrow> ci_workerId ci = po_workerId options \<and>
     ci_maxLeaseTimeouts ci = po_maxLeaseTimeouts options \<and> ci_maxTransientFailures ci = po_maxTransientFailures options"

context reliable_work_repository
begin

lemma handle_failure_returns:
  assumes calm: "calm_environment options input E" and ok: "sound s" and o: "owned (ledger s) c r m"
  shows "runs (handle_unexpected_failure W E options c startedAt) (s, e) (\<lambda>res w. \<not> isl res)"
proof -
  have now: "gives_value (en_nowIsoString E)" using calm by (simp add: calm_environment_def)
  have rel: "wr_release W c fa s \<noteq> (Inl x, s')" for fa x s' using release_total [OF ok o, of fa x] by (metis fst_conv)
  have fl: "wr_fail W c fa s \<noteq> (Inl x, s')" for fa x s' using fail_total [OF ok o, of fa x] by (metis fst_conv)
  show ?thesis
    unfolding handle_unexpected_failure_def Let_def
    by (rule runs_env_calm [OF now])
      (auto simp: rel fl intro!: runs_db_bind runs_pure)
qed

lemma process_claimed_returns:
  fixes E :: "'e environment"
  assumes calm: "calm_environment options input E" and ok: "sound s"
    and fits: "environment_fits time_ok id_ok E" "time_ok startedAt"
    and o: "owned (ledger s) c (cl_reservationRequest c) m"
  shows "runs (process_claimed_work_item W E options input c startedAt d) (s, e) (\<lambda>res w. \<not> isl res)"
proof -
  have main: "runs (with_local False (catch_io (try_work_item W E c startedAt d)
      (catch_work_item W E options c startedAt d))) (s, e') (\<lambda>res w. \<not> isl res)" for e'
  proof (intro runs_local runs_catch, rule runs_mono [OF runs_both [OF try_work_item_tried [OF ok fits o, where d = d and options = options and e = e'] try_work_item_calm [OF calm]]])
    fix res :: "js_error + processing_result" and w :: "('s \<times> 'e) \<times> bool"
    assume t: "tried (ledger s) c m options res (fst (fst w)) (snd w) \<and> (isl res \<longrightarrow> \<not> snd w)"
    show "case res of Inl x \<Rightarrow> runs (catch_work_item W E options c startedAt d x) w (\<lambda>r w'. \<not> isl r)
      | Inr R \<Rightarrow> \<not> isl (Inr R :: js_error + processing_result)"
    proof (cases res)
      case (Inl x)
      then have b: "\<not> snd w" and s: "sound (fst (fst w))" "ledger (fst (fst w)) = ledger s"
        using t by (auto simp: tried_def)
      have o': "owned (ledger (fst (fst w))) c (cl_reservationRequest c) m" using o s by simp
      have ex: "gives_value (en_exception E x)" using calm by (simp add: calm_environment_def)
      have "runs (catch_work_item W E options c startedAt d x) w (\<lambda>r w'. \<not> isl r)"
        unfolding catch_work_item_def then_bind
      proof (rule runs_gets_bind, simp only: b if_False, rule runs_bind, rule runs_on_db)
        have "runs (handle_unexpected_failure W E options c startedAt) (fst (fst w), snd (fst w)) (\<lambda>res w. \<not> isl res)"
          by (rule handle_failure_returns [OF calm s(1) o'])
        then show "runs (handle_unexpected_failure W E options c startedAt) (fst w) (\<lambda>r s. case r of
            Inl e \<Rightarrow> \<not> isl (Inl e :: js_error + processing_result)
          | Inr R \<Rightarrow> runs (bind_io (on_db (on_env (en_exception E x))) (\<lambda>_.
              bind_io (on_db (on_env (record_processor_outcome E R c d))) (\<lambda>_. ret R))) (s, snd w) (\<lambda>r w'. \<not> isl r))"
          unfolding prod.collapse
          by (rule runs_mono) (auto split: sum.split intro!: runs_inner_env_calm [OF ex]
              runs_inner_env_calm [OF calm_outcome [OF calm]] runs_pure)
      qed
      then show ?thesis using Inl by simp
    qed simp
  qed
  have "gives_value (record_claimed_work_item E c)"
    "\<And>f. pi_onClaimed input = Some f \<Longrightarrow> gives_value (f c)"
    using calm by (simp_all add: calm_environment_def record_claimed_work_item_def)
  then show ?thesis
    unfolding process_claimed_work_item_def then_bind
    by (cases "pi_onClaimed input") (auto intro!: runs_env_calm main runs_bind [of "ret ()"] runs_pure)
qed

lemma process_next_runs:
  fixes E :: "'e environment"
  assumes calm: "calm_environment options input E" and ok: "sound s" and fits: "environment_fits time_ok id_ok E"
    and none: "\<And>ci s1. claim_options options ci \<Longrightarrow> wr_claimNext W ci s = (Inr None, s1) \<Longrightarrow> P No_Pending_Request s1"
    and item: "\<And>ci c s1 e1 d startedAt. claim_options options ci \<Longrightarrow> wr_claimNext W ci s = (Inr (Some c), s1) \<Longrightarrow>
      time_ok startedAt \<Longrightarrow> runs (process_claimed_work_item W E options input c startedAt d) (s1, e1)
        (\<lambda>res w. \<exists>R. res = Inr R \<and> P R (fst w))"
  shows "runs (process_next_pending_request W E options input) (s, e) (\<lambda>res w. \<exists>R. res = Inr R \<and> P R (fst w))"
    (is "runs _ _ ?Q")
proof -
  have total: "wr_claimNext W ci s \<noteq> (Inl x, s1)" for ci x s1 using claim_total [OF ok, of ci x] by (metis fst_conv)
  have calm': "gives_value (en_hrtime E)" "gives_value (en_nowIsoString E)" "gives_value (claim_token E input)"
    "\<And>a. gives_value (en_spanStart E a)" "gives_value (en_spanEnd E)" "\<And>a. gives_value (en_outcome E a)"
    "\<And>e t. fst (en_nowIsoString E e) = Inr t \<Longrightarrow> \<exists>u. add_milliseconds t (po_claimLeaseMs options) = Inr u"
    using calm by (simp_all add: calm_environment_def)
  have dur: "gives_value (calculate_duration E d)" for d
    unfolding calculate_duration_def by (rule gives_value_bind [OF calm'(1)]) (simp add: gives_value_def)
  have claimed: "runs (case claimed of
      None \<Rightarrow> bind_io (on_env (calculate_duration E d)) (\<lambda>duration.
        bind_io (on_env (en_outcome E (oa duration))) (\<lambda>_. ret No_Pending_Request))
    | Some c \<Rightarrow> run_with_span E (span_attributes_of c) (process_claimed_work_item W E options input c startedAt d))
      (s1, e1) ?Q"
    if t: "time_ok startedAt" and ci: "claim_options options ci" "wr_claimNext W ci s = (Inr claimed, s1)"
    for ci claimed s1 e1 d startedAt oa
  proof (cases claimed)
    case None
    then show ?thesis using none [OF ci(1)] ci(2)
      by (auto intro!: runs_env_calm [OF dur] runs_env_calm [OF calm'(6)] runs_pure)
  next
    case (Some c)
    have proc: "runs (process_claimed_work_item W E options input c startedAt d) (s1, e2) ?Q" for e2
      using item [OF ci(1) _ t] ci(2) Some by simp
    have tried: "runs (catch_io (process_claimed_work_item W E options input c startedAt d)
        (\<lambda>error. bind_io (on_env (en_spanError E error)) (\<lambda>_. throw error))) (s1, e2) ?Q" for e2
      by (rule runs_catch, rule runs_mono [OF proc]) auto
    have ends: "runs (on_env (en_spanEnd E)) w (\<lambda>r w'. \<not> isl r \<and> fst w' = fst w)" for w :: "'s \<times> 'e"
      using gives_valueD [OF calm'(5), of "snd w"] by (cases w) (auto simp: runs_def on_env_app)
    have body: "runs (finally_io (catch_io (process_claimed_work_item W E options input c startedAt d)
        (\<lambda>error. bind_io (on_env (en_spanError E error)) (\<lambda>_. throw error))) (on_env (en_spanEnd E))) (s1, e2) ?Q" for e2
      by (rule runs_finally, rule runs_mono [OF tried], rule runs_mono [OF ends]) (auto split: sum.split)
    show ?thesis
      unfolding Some run_with_span_def then_bind option.case by (rule runs_env_calm [OF calm'(4)]) (simp add: body)
  qed
  show ?thesis
    unfolding process_next_pending_request_def then_bind
  proof (rule runs_env_calm [OF calm'(1)], rule runs_env_calm [OF calm'(2)], rule runs_env_calm [OF calm'(3)],
      rule runs_lift_bind, unfold fst_conv snd_conv)
    fix e2 startedAt x assume "fst (en_nowIsoString E e2) = Inr startedAt"
      "add_milliseconds startedAt (po_claimLeaseMs options) = Inl x"
    then show "\<exists>R. (Inl x :: js_error + processing_result) = Inr R \<and> P R s" using calm'(7) by fastforce
  next
    fix e2 startedAt and d and token expiresAt and e3 assume "fst (en_nowIsoString E e2) = Inr startedAt"
    then have "time_ok startedAt" using fits by (auto simp: environment_fits_def)
    then show "runs (bind_io (on_db (wr_claimNext W \<lparr>ci_workerId = po_workerId options, ci_claimToken = token,
        ci_claimedAt = startedAt, ci_claimExpiresAt = expiresAt, ci_maxLeaseTimeouts = po_maxLeaseTimeouts options,
        ci_maxTransientFailures = po_maxTransientFailures options\<rparr>)) (\<lambda>claimed. case claimed of
          None \<Rightarrow> bind_io (on_env (calculate_duration E d)) (\<lambda>duration.
            bind_io (on_env (en_outcome E \<lparr>oa_outcome = O_No_Pending_Request, oa_reservationRequestId = None,
               oa_sequence = None, oa_reason = None, oa_durationNs = duration, oa_observabilityContext = None\<rparr>))
              (\<lambda>_. ret No_Pending_Request))
        | Some c \<Rightarrow> run_with_span E (span_attributes_of c) (process_claimed_work_item W E options input c startedAt d)))
        (s, e3) ?Q"
      by (intro runs_db_bind, unfold fst_conv snd_conv)
        (simp add: total, erule claimed [rotated 2], simp_all add: claim_options_def)
  qed
qed

lemma process_next_returns:
  fixes E :: "'e environment"
  assumes calm: "calm_environment options input E" and ok: "sound s" and fits: "environment_fits time_ok id_ok E"
    and run: "process_next_pending_request W E options input (s, e) = (res, (s', e'))"
  shows "\<exists>R. res = Inr R"
proof -
  have "runs (process_claimed_work_item W E options input c startedAt d) (s1, e1) (\<lambda>res w. \<exists>R. res = Inr R \<and> True)"
    if c: "wr_claimNext W ci s = (Inr (Some c), s1)" and t: "time_ok startedAt" for ci c s1 e1 d startedAt
  proof -
    obtain m where "owned (ledger s1) c (cl_reservationRequest c) m" "sound s1" using claim_law [OF ok c] by blast
    from process_claimed_returns [OF calm this(2) fits t this(1)] show ?thesis by (rule runs_mono) (metis isl_def obj_sumE)
  qed
  from runsD [OF process_next_runs [OF calm ok fits TrueI this] run] show ?thesis by simp
qed

end

section \<open>The passes of a worker\<close>

text \<open>\<open>n\<close> runs of the processor one after the other, each with its outcome.\<close>

fun passes :: "'s work_repository_ops \<Rightarrow> 'e environment \<Rightarrow> processor_options \<Rightarrow> 'e processing_input \<Rightarrow> nat \<Rightarrow>
    's \<times> 'e \<Rightarrow> (js_error + processing_result) list \<times> ('s \<times> 'e)" where
  "passes W E options input 0 w = ([], w)"
| "passes W E options input (Suc n) w =
    (case process_next_pending_request W E options input w of
       (res, w1) \<Rightarrow> (case passes W E options input n w1 of (rs, w2) \<Rightarrow> (res # rs, w2)))"

fun worked :: "js_error + processing_result \<Rightarrow> bool" where
  "worked (Inl x) = False"
| "worked (Inr R) = (R \<noteq> No_Pending_Request)"

lemma passes_length: "passes W E options input n w = (rs, w') \<Longrightarrow> length rs = n"
  by (induction n arbitrary: w rs) (auto split: prod.splits)

context work_repository
begin

lemma passes_work:
  assumes "sound s" "environment_fits time_ok id_ok E" "passes W E options input n (s, e) = (rs, (s', e'))"
  shows "sound s' \<and> length (filter worked rs) + work_left options (ledger s') \<le> work_left options (ledger s)"
  using assms
proof (induction n arbitrary: s e rs)
  case (Suc n)
  obtain res s1 e1 where r: "process_next_pending_request W E options input (s, e) = (res, (s1, e1))" by (metis prod.exhaust)
  obtain qs where q: "passes W E options input n (s1, e1) = (qs, (s', e'))" "rs = res # qs"
    using Suc.prems(3) r by (auto split: prod.splits)
  from process_next_outcome [OF Suc.prems(1,2) r] have ok: "sound s1" and out: "run_outcome (ledger s) options res (ledger s1)" by blast+
  note less = run_outcome_work [OF inv_ledger [OF Suc.prems(1)] out]
  have "(if worked res then 1 else 0) + work_left options (ledger s1) \<le> work_left options (ledger s)"
    using less by (cases res) auto
  then show ?case using Suc.IH [OF ok Suc.prems(2) q(1)] q(2) by auto
qed simp

end

context reliable_work_repository
begin

lemma passes_return:
  assumes "sound s" "environment_fits time_ok id_ok E" "calm_environment options input E"
    "passes W E options input n (s, e) = (rs, w)"
  shows "\<forall>res \<in> set rs. \<exists>R. res = Inr R"
  using assms
proof (induction n arbitrary: s e rs)
  case (Suc n)
  obtain res s1 e1 where r: "process_next_pending_request W E options input (s, e) = (res, (s1, e1))" by (metis prod.exhaust)
  obtain qs where q: "passes W E options input n (s1, e1) = (qs, w)" "rs = res # qs"
    using Suc.prems(4) r by (auto split: prod.splits)
  have "sound s1" using process_next_outcome [OF Suc.prems(1,2) r] by blast
  from Suc.IH [OF this Suc.prems(2,3) q(1)] process_next_returns [OF Suc.prems(3,1,2) r]
  show ?case unfolding q(2) by (simp only: list.set ball_simps simp_thms)
qed simp

lemma passes_drain:
  assumes "sound s" "environment_fits time_ok id_ok E" "calm_environment options input E"
    "passes W E options input n (s, e) = (rs, (s', e'))" "work_left options (ledger s) < n"
  shows "Inr No_Pending_Request \<in> set rs"
proof (rule ccontr)
  assume none: "Inr No_Pending_Request \<notin> set rs"
  have "worked res" if m: "res \<in> set rs" for res
  proof -
    obtain R where R: "res = Inr R" using bspec [OF passes_return [OF assms(1-4)] m] by (rule exE)
    then have "R \<noteq> No_Pending_Request" using none m by metis
    then show ?thesis by (simp add: R)
  qed
  then have "filter worked rs = rs" by (simp add: filter_id_conv)
  then show False using passes_work [OF assms(1,2,4)] passes_length [OF assms(4)] assms(5) by simp
qed

end

end
