(* ===== verification/Workflow.thy ===== *)
theory Workflow
  imports System Draining
begin

text \<open>
  The properties of the reservation workflow over the in-memory store: the claim order, claims
  that were lost, leases, and what one run of the processor may do whatever its environment does.
\<close>

section \<open>Claims\<close>

text \<open>C10: claiming is first come, first served. On a well-formed store a claim never throws. It
  returns null with the store untouched exactly when no request is eligible; otherwise it works on
  the eligible request with the smallest sequence number: if that one's lease ran out more often
  than allowed it becomes FAILED with a lease-timeout attempt and null is returned, else it becomes
  PROCESSING under the new claim and is returned. Nothing else in the store changes.\<close>

theorem claim_is_first_come_first_served:
  assumes "store_inv s"
  shows "case claim_next input s of
      (Inl e, s') \<Rightarrow> False
    | (Inr None, s') \<Rightarrow> (s' = s \<and> (\<nexists>i r m. eligible (view s) input i r m)) \<or>
        (\<exists>r m. oldest_eligible (view s) input (rr_id r) r m \<and> lease_exhausted input r m \<and>
           view s' = add_attempt (lease_timeout_attempt r m (ci_claimedAt input))
             (put_work (r\<lparr>rr_status := FAILED\<rparr>) (cleared_metadata m) (view s)))
    | (Inr (Some c), s') \<Rightarrow>
        (\<exists>r m. oldest_eligible (view s) input (rr_id r) r m \<and> \<not> lease_exhausted input r m \<and>
           c = claimed_item input r m \<and>
           view s' = put_work (r\<lparr>rr_status := PROCESSING\<rparr>) (claimed_metadata input (work_item input r m)) (view s))"
proof -
  obtain res s' where run: "claim_next input s = (res, s')" by fastforce
  show ?thesis
  proof (cases rule: claim_next_cases [OF assms, of input, case_names none exhausted claimed])
    case none
    then show ?thesis by simp
  next
    case (exhausted r m)
    then show ?thesis using effect_cases [OF exhausted(3) run] run by auto
  next
    case (claimed r m)
    then show ?thesis using effect_cases [OF claimed(3) run] run by auto
  qed
qed

definition traced_store :: store where
  "traced_store = sy_store (do_save ''r2'' (do_save ''r1'' initial_system))"

lemma reachable_two_saves: "reachable 1 empty_store (do_save ''r2'' (do_save ''r1'' initial_system))"
  by (intro reachable_save reachable_initial; code_simp)

lemma traced_store_inv: "store_inv traced_store"
  using reachable_inv [OF empty_store_inv reachable_two_saves]
  by (simp add: system_inv_def traced_store_def)

theorem claim_is_first_come_first_served_witness:
  "\<exists>r m. oldest_eligible (view traced_store) (trace_claim ''t'') (rr_id r) r m \<and> rr_id r = ''r1''"
proof -
  have "map_option (\<lambda>c. (rr_id (cl_reservationRequest c))) (case fst (claim_next (trace_claim ''t'') traced_store) of
      Inr x \<Rightarrow> x | Inl e \<Rightarrow> None) = Some ''r1''" by code_simp
  then obtain c s' where c: "claim_next (trace_claim ''t'') traced_store = (Inr (Some c), s')"
    "rr_id (cl_reservationRequest c) = ''r1''"
    by (cases "claim_next (trace_claim ''t'') traced_store") (auto split: sum.splits)
  show ?thesis
    using claim_is_first_come_first_served [OF traced_store_inv, of "trace_claim ''t''"] c
    by (auto simp: claimed_item_def)
qed

text \<open>C14: a claim that was lost (reclaimed after its lease, or already completed) can do no harm:
  confirming, rejecting, releasing and failing with it throw and leave the store exactly as it
  was.\<close>

theorem lost_claim_changes_nothing:
  assumes "lost (view s) c"
  shows "(\<exists>e. reject_claimed c ra s = (Inl e, s)) \<and> (\<exists>e. release_claimed c fa s = (Inl e, s)) \<and>
    (\<exists>e. fail_claimed c fa s = (Inl e, s)) \<and>
    (\<exists>e. confirm_claimed \<lparr>co_claimedWorkItem = c, co_reservation = v, co_attempt = ca\<rparr> s = (Inl e, s))"
proof -
  let ?ci = "\<lparr>co_claimedWorkItem = c, co_reservation = v, co_attempt = ca\<rparr>"
  have "\<exists>e. confirm_begin ?ci s = (Inl e, s)" by (rule claimed_ops_lost(4) [OF assms]) simp
  then have "\<exists>e. confirm_claimed ?ci s = (Inl e, s)" by (auto simp: confirm_claimed_def bind_io_def)
  then show ?thesis using claimed_ops_lost(1-3) [OF assms] by blast
qed

definition stale_claim :: claimed_reservation_request where
  "stale_claim = claimed_item (trace_claim ''old'') (trace_request ''r1'') (initial_metadata 1 None)"

theorem lost_claim_changes_nothing_witness:
  "\<exists>e. reject_claimed stale_claim \<lparr>at_reservationRequestId = ''r1'', at_sequence = 1, at_startedAt = ''t'',
     at_completedAt = ''t'', at_rejectionReason = Seat_Conflict, at_conflictingReservationId = ''v''\<rparr> traced_store
     = (Inl e, traced_store)"
proof -
  have "rr_id (cl_reservationRequest stale_claim) = ''r1''"
    by (simp add: stale_claim_def claimed_item_def trace_request_def)
  moreover have "map_option md_claimToken (lg_metadata (view traced_store) ''r1'') = Some None" by code_simp
  ultimately have "lost (view traced_store) stale_claim" by (auto simp: lost_def owned_def)
  from lost_claim_changes_nothing [OF this] show ?thesis by blast
qed

text \<open>C15: a lease of \<open>L\<close> milliseconds taken at time \<open>t\<close> counts as expired at time
  \<open>u\<close> exactly when \<open>t + L \<le> u\<close>: the timestamps survive being printed and read
  back.\<close>

theorem lease_expiry_is_exact:
  assumes "to_iso_string t = Inr claimedAt" "add_milliseconds claimedAt L = Inr expiresAt"
    "to_iso_string u = Inr now"
  shows "is_expired_processing_request r (m\<lparr>md_claimExpiresAt := Some expiresAt\<rparr>) now \<longleftrightarrow>
    rr_status r = PROCESSING \<and> t + L \<le> u"
proof -
  have rt: "date_get_time x = Some k" if "to_iso_string k = Inr x" for k x
  proof (cases "\<bar>k\<bar> \<le> max_time")
    case True
    from iso_round_trip_time [OF this] show ?thesis using that by (metis Inr_inject)
  next
    case False
    then show ?thesis using that by (simp add: to_iso_string_def)
  qed
  have "date_get_time expiresAt = Some (t + L)"
    using assms(2) rt [OF assms(1)] by (auto simp: add_milliseconds_def intro: rt)
  then show ?thesis
    using rt [OF assms(3)] by (simp add: is_expired_processing_request_def date_le_def)
qed

theorem lease_expiry_is_exact_witness:
  "is_expired_processing_request ((trace_request ''r1'')\<lparr>rr_status := PROCESSING\<rparr>)
     ((initial_metadata 1 None)\<lparr>md_claimExpiresAt := Some ''1970-01-01T00:00:30.000Z''\<rparr>) ''1970-01-01T00:00:30.000Z''"
proof -
  have 1: "to_iso_string 0 = Inr ''1970-01-01T00:00:00.000Z''"
    "add_milliseconds ''1970-01-01T00:00:00.000Z'' 30000 = Inr ''1970-01-01T00:00:30.000Z''"
    "to_iso_string 30000 = Inr ''1970-01-01T00:00:30.000Z''" by code_simp+
  show ?thesis by (subst lease_expiry_is_exact [OF 1]) simp
qed

section \<open>The processor\<close>

text \<open>C2: whatever the environment does (any clock, id generator, failure policy, logger, metric or
  tracer may return anything or throw at any call), a run of the processor over the in-memory
  repository keeps the store well formed and only moves it forward, and a result it returns is
  what the store holds: the request in the reported status, the reservation and the attempt
  recorded, a conflicting reservation for a rejection, and the failure count matching the attempts
  that remain.\<close>

theorem processor_result_is_recorded:
  assumes "store_inv s"
    "process_next_pending_request in_memory_work_repository E options input (s, e) = (res, (s', e'))"
  shows "store_inv s' \<and> evolves (view s) (view s') \<and> no_double_booking (view s') \<and>
    (case res of Inl x \<Rightarrow> True | Inr R \<Rightarrow> outcome_recorded options R (view s'))"
proof -
  from in_memory.process_next_outcome [OF assms(1) environment_fits_any assms(2)]
  have "store_inv s'" "run_outcome (view s) options res (view s')" by auto
  then show ?thesis
    using run_outcome_evolves [of "view s" options res "view s'"] run_outcome_recorded [of "view s" options _ "view s'"]
    by (auto simp: store_inv_def ledger_inv_def split: sum.split)
qed


text \<open>An environment for the examples: a clock that stands still and counters for ids.\<close>

definition example_environment :: "(string \<times> nat) environment" where
  "example_environment = \<lparr>en_hrtime = ret 0, en_nowIsoString = ret ''2026-06-01T10:00:00.000Z'',
     en_randomUUID = ret ''uuid'', en_createClaimToken = None, en_generateReservationId = ret ''v1'',
     en_generateReservationRequestId = ret ''r9'', en_currentContext = ret None,
     en_requestCreated = (\<lambda>_. ret ()), en_spanStart = (\<lambda>_. ret ()), en_spanError = (\<lambda>_. ret ()),
     en_spanEnd = ret (), en_claimed = (\<lambda>_. ret ()), en_outcome = (\<lambda>_. ret ()), en_exception = (\<lambda>_. ret ()),
     en_shouldFail = (\<lambda>_. ret False)\<rparr>"

definition example_input :: "(string \<times> nat) processing_input" where
  "example_input = \<lparr>pi_claimToken = None, pi_onClaimed = None\<rparr>"

definition failing_observability :: "(string \<times> nat) environment" where
  "failing_observability = example_environment\<lparr>en_outcome := (\<lambda>_. throw (Foreign ''metrics down''))\<rparr>"

lemma example_run:
  "case process_next_pending_request in_memory_work_repository example_environment default_processor_options
     example_input (traced_store, ('''', 0)) of
     (Inr (Confirmed_Result a q v), w) \<Rightarrow> rr_id q = ''r1'' \<and> rv_id v = ''v1'' \<and> rr_status q = CONFIRMED
   | _ \<Rightarrow> False"
  by code_simp

lemma failing_run:
  "case process_next_pending_request in_memory_work_repository failing_observability default_processor_options
     example_input (traced_store, ('''', 0)) of
     (Inl x, (s, e)) \<Rightarrow> x = Foreign ''metrics down'' \<and>
        map_option rr_status (jm_get (db_reservationRequestsById s) ''r1'') = Some CONFIRMED
   | _ \<Rightarrow> False"
  by code_simp

theorem processor_result_is_recorded_witness:
  "\<exists>a q v s'. fst (process_next_pending_request in_memory_work_repository example_environment
       default_processor_options example_input (traced_store, ('''', 0))) = Inr (Confirmed_Result a q v) \<and>
     outcome_recorded default_processor_options (Confirmed_Result a q v) (view s') \<and> rr_id q = ''r1''"
proof -
  obtain res s' e' where run: "process_next_pending_request in_memory_work_repository example_environment
      default_processor_options example_input (traced_store, ('''', 0)) = (res, (s', e'))"
    by (metis prod.exhaust)
  from processor_result_is_recorded [OF traced_store_inv run] example_run
  show ?thesis unfolding run by (auto split: sum.splits processing_result.splits)
qed


section \<open>The queue is drained\<close>

text \<open>C9: a worker comes to the end of its queue. When the clock and the telemetry return (the failure
  policy and the generator of reservation ids may still throw), every pass over the in-memory
  repository returns a result; and of more passes than there are requests times the attempts each may have, one
  reports that nothing is pending, so the loop cannot work on the same requests for ever.\<close>

theorem worker_drains_queue:
  assumes "store_inv s" "calm_environment options input E"
    "passes in_memory_work_repository E options input n (s, e) = (rs, (s', e'))"
    "card (dom (lg_request (view s))) * (nat (po_maxTransientFailures options) + 1) < n"
  shows "(\<forall>res \<in> set rs. \<exists>R. res = Inr R) \<and> Inr No_Pending_Request \<in> set rs \<and>
    length (filter worked rs) \<le> work_left options (view s)"
proof -
  have "ledger_inv (view s)" using assms(1) by (simp add: store_inv_def)
  then have n: "work_left options (view s) < n" using work_left_bound [of "view s" options] assms(4) by linarith
  note fits = assms(1) environment_fits_any
  show ?thesis
    by (intro conjI in_memory_total.passes_return [OF fits assms(2,3)] in_memory_total.passes_drain [OF fits assms(2,3) n])
      (use in_memory.passes_work [OF fits assms(3)] in linarith)
qed

lemma example_environment_calm: "calm_environment default_processor_options example_input example_environment"
proof -
  have "add_milliseconds ''2026-06-01T10:00:00.000Z'' 30000 = Inr ''2026-06-01T10:00:30.000Z''" by code_simp
  then show ?thesis
    by (simp add: calm_environment_def example_environment_def example_input_def claim_token_def gives_value_def
        default_processor_options_def)
qed

theorem worker_drains_queue_witness:
  "Inr No_Pending_Request \<in> set (fst (passes in_memory_work_repository example_environment default_processor_options
     example_input 9 (traced_store, ('''', 0))))"
proof -
  obtain rs s' e' where run: "passes in_memory_work_repository example_environment default_processor_options
      example_input 9 (traced_store, ('''', 0)) = (rs, (s', e'))" by (metis prod.exhaust)
  have "List.map fst (db_reservationRequestsById traced_store) = [''r1'', ''r2'']" by code_simp
  then have "fst ` set (db_reservationRequestsById traced_store) = {''r1'', ''r2''}"
    by (metis list.set(1) list.set(2) set_map)
  then have "dom (lg_request (view traced_store)) = {''r1'', ''r2''}"
    by (simp add: view_def jm_get_def [abs_def] dom_map_of_conv_image_fst)
  then have "card (dom (lg_request (view traced_store))) * (nat (po_maxTransientFailures default_processor_options) + 1) < 9"
    by (simp add: default_processor_options_def)
  from worker_drains_queue [OF traced_store_inv example_environment_calm run this] show ?thesis unfolding run by simp
qed

section \<open>Availability in a store with a reservation\<close>

definition booked_store :: store where
  "booked_store = (sy_store one_worker_trace)\<lparr>
     db_screeningsById := [(''s'', \<lparr>sc_id = ''s'', sc_movieProviderId = ''p'', sc_movieId = ''m'',
       sc_auditoriumId = ''au'', sc_startsAt = ''2026-06-02T18:00:00.000Z'', sc_endsAt = ''2026-06-02T20:00:00.000Z''\<rparr>)],
     db_seatsById := [(''a1'', \<lparr>st_id = ''a1'', st_movieProviderId = ''p'', st_auditoriumId = ''au'', st_row = ''A'', st_number = 1\<rparr>),
       (''a3'', \<lparr>st_id = ''a3'', st_movieProviderId = ''p'', st_auditoriumId = ''au'', st_row = ''A'', st_number = 3\<rparr>)]\<rparr>"

lemma booked_store_inv: "store_inv booked_store"
proof -
  have "store_inv (sy_store one_worker_trace)"
    using reachable_inv [OF empty_store_inv one_worker_trace_reachable] by (simp add: system_inv_def)
  moreover have "view booked_store = view (sy_store one_worker_trace)"
    "maps_ok booked_store = maps_ok (sy_store one_worker_trace)"
    by (simp_all add: booked_store_def view_def maps_ok_def)
  ultimately show ?thesis by (simp add: store_inv_def)
qed


end
