(* ===== verification/Telemetry.thy ===== *)
theory Telemetry
  imports Ports
begin

text \<open>
  Request-scoped observability: the request context kept in \<open>AsyncLocalStorage\<close>
  (\<open>infrastructure/observability/request-context.ts\<close>), its construction from untrusted
  headers (\<open>request-context-factory.ts\<close>) and W3C trace propagation
  (\<open>trace-propagation.ts\<close>). The OpenTelemetry API, \<open>crypto.randomUUID\<close>, the clock and
  the pino logger are parameters, gathered in the record \<open>telemetry\<close>.
\<close>

section \<open>Log values and the telemetry APIs\<close>

text \<open>
  The values of a log field or a span attribute. \<open>L_Millis n\<close> is the number
  \<open>Number(n) / 1_000_000\<close> for the nanoseconds \<open>n\<close>. Objects are insertion-ordered
  maps.
\<close>

datatype log_value =
    L_String string
  | L_Number int
  | L_Millis int
  | L_Bool bool
  | L_Null
  | L_Strings "string list"

type_synonym attributes = "(string, log_value) jsmap"

record span_context =
  sx_traceId :: string
  sx_spanId :: string

datatype log_level = Debug | Info | Warn | Log_Error

datatype span_status = Status_Ok | Status_Error

text \<open>
  \<open>tl_inject\<close> gives the carrier's \<open>traceparent\<close> and \<open>tracestate\<close>;
  \<open>tl_foreignError\<close> the constructor name and message of a thrown value that is not of a
  class of this repository (none when it is not an \<open>Error\<close>).
\<close>

record 'e telemetry =
  tl_randomUUID :: "('e, string) io"
  tl_hrtime :: "('e, int) io"
  tl_activeSpan :: "('e, span_context option) io"
  tl_isSpanContextValid :: "span_context \<Rightarrow> bool"
  tl_inject :: "('e, string option \<times> string option) io"
  tl_setSpanAttributes :: "attributes \<Rightarrow> ('e, unit) io"
  tl_foreignError :: "string \<Rightarrow> (string \<times> string) option"
  tl_errorStack :: "js_error \<Rightarrow> string option"
  tl_pino :: "log_level \<Rightarrow> attributes \<Rightarrow> string \<Rightarrow> ('e, unit) io"
  tl_counterAdd :: "string \<Rightarrow> int \<Rightarrow> attributes \<Rightarrow> ('e, unit) io"
  tl_histogramRecord :: "string \<Rightarrow> int \<Rightarrow> attributes \<Rightarrow> ('e, unit) io"

text \<open>\<open>error instanceof Error ? error.constructor.name : undefined\<close> and \<open>error.message\<close>\<close>

fun error_constructor_name :: "'e telemetry \<Rightarrow> js_error \<Rightarrow> string option" where
  "error_constructor_name T (Error m) = Some ''Error''"
| "error_constructor_name T (RangeError m) = Some ''RangeError''"
| "error_constructor_name T (TypeError m) = Some ''TypeError''"
| "error_constructor_name T (AuthenticationError m) = Some ''AuthenticationError''"
| "error_constructor_name T (ReservationRequestAlreadyExistsError i) = Some ''ReservationRequestAlreadyExistsError''"
| "error_constructor_name T SeatReservationCommitError = Some ''SeatReservationCommitError''"
| "error_constructor_name T AuditEmissionUnavailableError = Some ''AuditEmissionUnavailableError''"
| "error_constructor_name T (AuditContractError issues) = Some ''AuditContractError''"
| "error_constructor_name T (AuditPublisherConfigurationError f) = Some ''AuditPublisherConfigurationError''"
| "error_constructor_name T (Foreign x) = map_option fst (tl_foreignError T x)"

fun error_message :: "'e telemetry \<Rightarrow> js_error \<Rightarrow> string" where
  "error_message T (Error m) = m"
| "error_message T (RangeError m) = m"
| "error_message T (TypeError m) = m"
| "error_message T (AuthenticationError m) = m"
| "error_message T (ReservationRequestAlreadyExistsError i) = ''Reservation request '' @ i @ '' already exists''"
| "error_message T SeatReservationCommitError = ''Seat reservation commit failed while finalizing the reservation.''"
| "error_message T AuditEmissionUnavailableError = ''Audit emission unavailable''"
| "error_message T (AuditContractError issues) = ''Audit event violates the platform-audit/1 contract''"
| "error_message T (AuditPublisherConfigurationError f) = ''Invalid EventBridge audit publisher configuration: '' @ f"
| "error_message T (Foreign x) = (case tl_foreignError T x of Some (n, m) \<Rightarrow> m | None \<Rightarrow> x)"

section \<open>Headers\<close>

datatype header_value = Header_One string | Header_Many "string list"

fun read_first_header_value :: "header_value option \<Rightarrow> string option" where
  "read_first_header_value None = None"
| "read_first_header_value (Some (Header_One s)) = Some s"
| "read_first_header_value (Some (Header_Many [])) = None"
| "read_first_header_value (Some (Header_Many (s # ss))) = Some s"

section \<open>Trace propagation\<close>

definition traceparent_pattern :: "(char \<Rightarrow> bool) list" where
  "traceparent_pattern = replicate 2 is_hex @ [is_dash] @ replicate 32 is_hex @ [is_dash] @
     replicate 16 is_hex @ [is_dash] @ replicate 2 is_hex"

fun normalize_traceparent :: "string option \<Rightarrow> string option" where
  "normalize_traceparent None = None"
| "normalize_traceparent (Some value) =
    (if matches_classes traceparent_pattern value then Some (js_lower value) else None)"

definition read_trace_id_from_traceparent :: "string option \<Rightarrow> string option" where
  "read_trace_id_from_traceparent traceparent =
    (case normalize_traceparent traceparent of
       None \<Rightarrow> None
     | Some normalized \<Rightarrow>
         (case js_split CHR ''-'' normalized of p # traceId # ps \<Rightarrow> Some traceId | _ \<Rightarrow> None))"

fun normalize_optional_propagation_header :: "string option \<Rightarrow> nat \<Rightarrow> string option" where
  "normalize_optional_propagation_header None maxLength = None"
| "normalize_optional_propagation_header (Some value) maxLength =
    (let sanitizedValue = js_trim (replace_crlf value) in
     if length sanitizedValue = 0 \<or> length sanitizedValue > maxLength then None else Some sanitizedValue)"

record active_propagation_headers =
  ph_traceparent :: "string option"
  ph_tracestate :: "string option"

definition get_active_propagation_headers :: "'e telemetry \<Rightarrow> ('e, active_propagation_headers) io" where
  "get_active_propagation_headers T =
    bind_io (tl_inject T) (\<lambda>(traceparent, tracestate).
    ret \<lparr>ph_traceparent = normalize_traceparent traceparent,
         ph_tracestate = normalize_optional_propagation_header tracestate 512\<rparr>)"

definition read_active_span_identifiers :: "'e telemetry \<Rightarrow> ('e, span_context option) io" where
  "read_active_span_identifiers T =
    bind_io (tl_activeSpan T) (\<lambda>active. case active of
      None \<Rightarrow> ret None
    | Some c \<Rightarrow> if \<not> tl_isSpanContextValid T c then ret None else ret (Some c))"

definition read_trace_id_from_active_span :: "'e telemetry \<Rightarrow> ('e, string option) io" where
  "read_trace_id_from_active_span T =
    bind_io (read_active_span_identifiers T) (\<lambda>ids. ret (map_option sx_traceId ids))"

section \<open>The request context\<close>

record request_context =
  rc_correlationId :: string
  rc_requestId :: string
  rc_traceparent :: "string option"
  rc_tracestate :: "string option"
  rc_awsXAmznTraceId :: "string option"
  rc_awsCloudfrontRequestId :: "string option"
  rc_method :: "string option"
  rc_path :: "string option"
  rc_userId :: "string option"
  rc_movieProviderId :: "string option"
  rc_movieProviderCode :: "string option"
  rc_graphqlOperationName :: "string option"
  rc_graphqlOperationType :: "string option"
  rc_businessOperation :: "string option"

record graphql_operation_context_input =
  go_operationName :: string
  go_operationType :: string
  go_businessOperation :: string

text \<open>
  The world of a request: the value of the \<open>AsyncLocalStorage\<close> in the running async chain
  and the environment. \<open>run\<close> restores the outer value; \<open>enterWith\<close> replaces the
  current one.
\<close>

type_synonym 'e request_world = "request_context option \<times> 'e"

definition run_with_request_context ::
  "request_context \<Rightarrow> ('e request_world, 'a) io \<Rightarrow> ('e request_world, 'a) io" where
  "run_with_request_context c callback = (\<lambda>(outer, e).
     case callback (Some c, e) of (r, (_, e')) \<Rightarrow> (r, (outer, e')))"

definition get_current_request_context :: "('e request_world, request_context option) io" where
  "get_current_request_context = on_db (gets (\<lambda>c. c))"

definition enter_with :: "request_context \<Rightarrow> ('e request_world, unit) io" where
  "enter_with c = on_db (modify (\<lambda>_. Some c))"

definition enrich_with_authenticated_user :: "authenticated_user \<Rightarrow> ('e request_world, unit) io" where
  "enrich_with_authenticated_user user =
    bind_io get_current_request_context (\<lambda>current. case current of
      None \<Rightarrow> ret ()
    | Some c \<Rightarrow> enter_with (c\<lparr>rc_userId := Some (us_userId user),
        rc_movieProviderId := Some (us_movieProviderId user),
        rc_movieProviderCode := (case us_movieProviderCode user of
           None \<Rightarrow> rc_movieProviderCode c | Some code \<Rightarrow> Some code)\<rparr>))"

definition enrich_with_graphql_operation :: "graphql_operation_context_input \<Rightarrow> ('e request_world, unit) io" where
  "enrich_with_graphql_operation input =
    bind_io get_current_request_context (\<lambda>current. case current of
      None \<Rightarrow> ret ()
    | Some c \<Rightarrow> enter_with (c\<lparr>rc_graphqlOperationName := Some (go_operationName input),
        rc_graphqlOperationType := Some (go_operationType input),
        rc_businessOperation := Some (go_businessOperation input)\<rparr>))"

text \<open>\<open>a ?? b\<close>\<close>

fun or_else :: "'a option \<Rightarrow> 'a option \<Rightarrow> 'a option" where
  "or_else (Some x) y = Some x"
| "or_else None y = y"

definition get_current_work_observability_context ::
  "'e telemetry \<Rightarrow> ('e request_world, work_observability_context option) io" where
  "get_current_work_observability_context T =
    bind_io get_current_request_context (\<lambda>current. case current of
      None \<Rightarrow> ret None
    | Some c \<Rightarrow>
        bind_io (on_env (get_active_propagation_headers T)) (\<lambda>active.
        case or_else (ph_traceparent active) (rc_traceparent c) of
          None \<Rightarrow> ret None
        | Some activeTraceparent \<Rightarrow>
            ret (Some \<lparr>oc_correlationId = rc_correlationId c, oc_requestId = rc_requestId c,
              oc_traceparent = activeTraceparent,
              oc_tracestate = or_else (ph_tracestate active) (rc_tracestate c)\<rparr>)))"

section \<open>Building the context from a request\<close>

record incoming_request_context_input =
  ic_method :: "string option"
  ic_path :: "string option"
  ic_correlationIdHeader :: "header_value option"
  ic_requestIdHeader :: "header_value option"
  ic_traceparentHeader :: "header_value option"
  ic_tracestateHeader :: "header_value option"
  ic_awsXAmznTraceIdHeader :: "header_value option"
  ic_awsCloudfrontRequestIdHeader :: "header_value option"

definition is_request_id_char :: "char \<Rightarrow> bool" where
  "is_request_id_char c \<longleftrightarrow> is_upper_az c \<or> is_lower_az c \<or> is_digit c \<or> c \<in> set ''._:/@-''"

definition request_id_pattern :: "string \<Rightarrow> bool" where
  "request_id_pattern = matches_bounded is_request_id_char 1 128"

definition normalize_context_id :: "'e telemetry \<Rightarrow> string option \<Rightarrow> ('e, string) io" where
  "normalize_context_id T value =
    (case value of
       Some v \<Rightarrow> if request_id_pattern v then ret v else tl_randomUUID T
     | None \<Rightarrow> tl_randomUUID T)"

fun normalize_optional_header_value :: "string option \<Rightarrow> nat \<Rightarrow> string option" where
  "normalize_optional_header_value None maxLength = None"
| "normalize_optional_header_value (Some value) maxLength =
    (let sanitizedValue = js_trim (replace_crlf value) in
     if length sanitizedValue = 0 \<or> length sanitizedValue > maxLength then None else Some sanitizedValue)"

text \<open>
  \<open>readOptionalField\<close> spreads a field only when it is defined: with optional fields as
  options, the context holds the value as it is.
\<close>

definition read_optional_context_fields :: "incoming_request_context_input \<Rightarrow> request_context \<Rightarrow> request_context" where
  "read_optional_context_fields input c = c\<lparr>
     rc_traceparent := normalize_traceparent (read_first_header_value (ic_traceparentHeader input)),
     rc_tracestate := normalize_optional_header_value (read_first_header_value (ic_tracestateHeader input)) 512,
     rc_awsXAmznTraceId :=
       normalize_optional_header_value (read_first_header_value (ic_awsXAmznTraceIdHeader input)) 512,
     rc_awsCloudfrontRequestId :=
       normalize_optional_header_value (read_first_header_value (ic_awsCloudfrontRequestIdHeader input)) 512\<rparr>"

definition create_request_context ::
  "'e telemetry \<Rightarrow> incoming_request_context_input \<Rightarrow> ('e, request_context) io" where
  "create_request_context T input =
    bind_io (normalize_context_id T (read_first_header_value (ic_correlationIdHeader input))) (\<lambda>correlationId.
    bind_io (normalize_context_id T (read_first_header_value (ic_requestIdHeader input))) (\<lambda>requestId.
    ret (read_optional_context_fields input
      \<lparr>rc_correlationId = correlationId, rc_requestId = requestId,
       rc_traceparent = None, rc_tracestate = None, rc_awsXAmznTraceId = None,
       rc_awsCloudfrontRequestId = None, rc_method = ic_method input, rc_path = ic_path input,
       rc_userId = None, rc_movieProviderId = None, rc_movieProviderCode = None,
       rc_graphqlOperationName = None, rc_graphqlOperationType = None, rc_businessOperation = None\<rparr>)))"

section \<open>Facts\<close>

definition single_line :: "string \<Rightarrow> bool" where
  "single_line s \<longleftrightarrow> list_all (\<lambda>c. code_unit c \<noteq> 10 \<and> code_unit c \<noteq> 13) s"

definition lower_traceparent_pattern :: "(char \<Rightarrow> bool) list" where
  "lower_traceparent_pattern = replicate 2 is_hex_lower @ [is_dash] @ replicate 32 is_hex_lower @ [is_dash] @
     replicate 16 is_hex_lower @ [is_dash] @ replicate 2 is_hex_lower"

definition valid_header :: "string \<Rightarrow> bool" where
  "valid_header s \<longleftrightarrow> single_line s \<and> s \<noteq> [] \<and> length s \<le> 512 \<and> js_trim s = s"

text \<open>
  What every request context satisfies: its ids are safe ids, its \<open>traceparent\<close> is a
  lower-case W3C value, and every retained header is trimmed, non-empty, bounded and on one line.
\<close>

definition request_context_inv :: "request_context \<Rightarrow> bool" where
  "request_context_inv c \<longleftrightarrow>
     request_id_pattern (rc_correlationId c) \<and> request_id_pattern (rc_requestId c) \<and>
     pred_option (matches_classes lower_traceparent_pattern) (rc_traceparent c) \<and>
     pred_option valid_header (rc_tracestate c) \<and>
     pred_option valid_header (rc_awsXAmznTraceId c) \<and>
     pred_option valid_header (rc_awsCloudfrontRequestId c)"

lemma traceparent_lower:
  assumes "matches_classes traceparent_pattern s"
  shows "matches_classes lower_traceparent_pattern (js_lower s)"
  unfolding js_lower_def
proof (rule matches_classes_map [OF assms])
  show "list_all2 (\<lambda>p q. \<forall>c. p c \<longrightarrow> q (lower_char c)) traceparent_pattern lower_traceparent_pattern"
    unfolding traceparent_pattern_def lower_traceparent_pattern_def
    by (intro list_all2_appendI list_all2_rep list_all2_one allI impI)
      (simp_all only: lower_char_hex dash_fixed)
qed

lemma normalize_traceparent_valid:
  "pred_option (matches_classes lower_traceparent_pattern) (normalize_traceparent v)"
  by (cases v) (auto simp: traceparent_lower)

lemma matches_classes_append:
  "matches_classes (ps @ qs) s \<longleftrightarrow>
    (\<exists>u v. s = u @ v \<and> matches_classes ps u \<and> matches_classes qs v)"
  unfolding matches_classes_def list_all2_append1 by (metis list_all2_lengthD)

lemma matches_classes_Cons:
  "matches_classes (p # ps) s \<longleftrightarrow> (\<exists>c v. s = c # v \<and> p c \<and> matches_classes ps v)"
  by (auto simp: matches_classes_def list_all2_Cons1)

lemma matches_replicate:
  "matches_classes (replicate n p) s \<longleftrightarrow> length s = n \<and> list_all p s"
  by (auto simp: matches_classes_def list_all2_conv_all_nth list_all_length)

lemma traceparent_parts:
  assumes "matches_classes lower_traceparent_pattern s"
  obtains version traceId parentId flags where
    "s = version @ CHR ''-'' # traceId @ CHR ''-'' # parentId @ CHR ''-'' # flags"
    "length version = 2" "length traceId = 32" "length parentId = 16" "length flags = 2"
    "list_all is_hex_lower version" "list_all is_hex_lower traceId"
    "list_all is_hex_lower parentId" "list_all is_hex_lower flags"
  using assms unfolding lower_traceparent_pattern_def
  by (auto simp: matches_classes_append matches_replicate matches_classes_Cons is_dash_def)

lemma hex_lower_no_dash: "list_all is_hex_lower s \<Longrightarrow> CHR ''-'' \<notin> set s"
  by (auto simp: list_all_iff class_defs)

lemma normalize_optional_header_valid:
  "pred_option valid_header (normalize_optional_header_value v 512)"
proof (cases v)
  case (Some s)
  have "single_line (replace_crlf s)"
    by (auto simp: single_line_def replace_crlf_def list_all_iff code_unit_def)
  then have "single_line (js_trim (replace_crlf s))"
    unfolding single_line_def js_trim_def
    by (auto simp: list_all_iff dest!: set_dropWhileD)
  with Some show ?thesis
    by (auto simp: valid_header_def Let_def)
qed simp

lemma propagation_header_valid:
  "pred_option valid_header (normalize_optional_propagation_header v 512)"
  using normalize_optional_header_valid [of v] by (cases v) auto

lemma request_id_chars:
  "is_hex_lower c \<Longrightarrow> is_request_id_char c"
  "is_dash c \<Longrightarrow> is_request_id_char c"
  "in_range 49 56 c \<Longrightarrow> is_request_id_char c"
  "is_request_id_char CHR ''8''" "is_request_id_char CHR ''9''"
  "is_request_id_char CHR ''a''" "is_request_id_char CHR ''b''"
proof -
  show hex: "is_hex_lower c \<Longrightarrow> is_request_id_char c"
    by (auto simp: is_request_id_char_def is_hex_lower_def is_lower_az_def in_range_def)
  show "is_dash c \<Longrightarrow> is_request_id_char c"
    by (simp add: is_request_id_char_def is_dash_def)
  show "in_range 49 56 c \<Longrightarrow> is_request_id_char c"
    by (simp add: is_request_id_char_def is_digit_def in_range_def)
qed code_simp+

lemma uuid_is_request_id:
  assumes "matches_classes uuid_lower_pattern u"
  shows "request_id_pattern u"
proof -
  have "list_all is_request_id_char u"
    using assms by (rule matches_classes_all)
      (auto simp: uuid_lower_pattern_def request_id_chars)
  moreover have "length u = 36"
    using matches_classes_length [OF assms] by (simp add: uuid_lower_pattern_def)
  ultimately show ?thesis by (simp add: request_id_pattern_def matches_bounded_def)
qed

text \<open>What \<open>crypto.randomUUID\<close> documents: it returns a lower-case version 4 UUID.\<close>

definition generates_uuids :: "'e telemetry \<Rightarrow> bool" where
  "generates_uuids T \<longleftrightarrow>
     (\<forall>e. case tl_randomUUID T e of (Inr u, _) \<Rightarrow> matches_classes uuid_lower_pattern u | _ \<Rightarrow> False)"

lemma generates_uuidsE:
  assumes "generates_uuids T"
  obtains u e' where "tl_randomUUID T e = (Inr u, e')" "matches_classes uuid_lower_pattern u"
  using assms unfolding generates_uuids_def
  by (cases "tl_randomUUID T e") (auto split: sum.splits dest: spec [of _ e])

definition supplied_id :: "header_value option \<Rightarrow> string option" where
  "supplied_id h = (case read_first_header_value h of
     Some v \<Rightarrow> if request_id_pattern v then Some v else None | None \<Rightarrow> None)"

lemma normalize_context_id_runs:
  assumes "generates_uuids T"
  obtains i e' where "normalize_context_id T (read_first_header_value h) e = (Inr i, e')" "request_id_pattern i"
    "supplied_id h = None \<or> supplied_id h = Some i"
proof -
  obtain u e' where u: "tl_randomUUID T e = (Inr u, e')" "matches_classes uuid_lower_pattern u"
    using assms by (rule generates_uuidsE)
  show ?thesis
    by (cases "supplied_id h"; rule that [of "case supplied_id h of Some v \<Rightarrow> v | None \<Rightarrow> u"
          "case supplied_id h of Some v \<Rightarrow> e | None \<Rightarrow> e'"])
      (use u uuid_is_request_id [of u] in \<open>auto simp: normalize_context_id_def supplied_id_def
          split: option.splits if_splits\<close>)
qed

lemma enrich_keeps_inv:
  fixes u :: authenticated_user and g :: graphql_operation_context_input
  shows
  "keeps (\<lambda>w. pred_option request_context_inv (fst w)) (enrich_with_authenticated_user u)"
  "keeps (\<lambda>w. pred_option request_context_inv (fst w)) (enrich_with_graphql_operation g)"
  by (auto simp: keeps_def enrich_with_authenticated_user_def enrich_with_graphql_operation_def
      get_current_request_context_def enter_with_def on_db_app bind_io_def request_context_inv_def
      split: option.splits)

section \<open>Properties\<close>

lemma request_context_is_safe_core:
  assumes "generates_uuids T"
  shows "case create_request_context T input e of
      (Inr c, e') \<Rightarrow> request_context_inv c \<and>
        (case supplied_id (ic_correlationIdHeader input) of Some v \<Rightarrow> rc_correlationId c = v | None \<Rightarrow> True) \<and>
        (case supplied_id (ic_requestIdHeader input) of Some v \<Rightarrow> rc_requestId c = v | None \<Rightarrow> True) \<and>
        rc_method c = ic_method input \<and> rc_path c = ic_path input \<and> rc_userId c = None
    | (Inl x, e') \<Rightarrow> False"
proof -
  obtain i e1 where i: "normalize_context_id T (read_first_header_value (ic_correlationIdHeader input)) e = (Inr i, e1)"
      "request_id_pattern i" "supplied_id (ic_correlationIdHeader input) = None \<or> supplied_id (ic_correlationIdHeader input) = Some i"
    using assms by (rule normalize_context_id_runs)
  obtain j e2 where j: "normalize_context_id T (read_first_header_value (ic_requestIdHeader input)) e1 = (Inr j, e2)"
      "request_id_pattern j" "supplied_id (ic_requestIdHeader input) = None \<or> supplied_id (ic_requestIdHeader input) = Some j"
    using assms by (rule normalize_context_id_runs)
  show ?thesis
    using i(2,3) j(2,3)
    by (auto simp: create_request_context_def bind_io_def i(1) j(1)
        read_optional_context_fields_def request_context_inv_def normalize_traceparent_valid
        normalize_optional_header_valid split: option.split)
qed

text \<open>The HTTP boundary never lets unsafe header text into the request context. Whatever
  the request carries, building the context succeeds; both ids are safe ids (so they can be echoed in response headers),
  a supplied id that is safe is kept, the trace parent is a lower-case W3C value or absent, and
  the other headers are kept trimmed, bounded and on one line. The id generator is
  \<open>crypto.randomUUID\<close>.\<close>

lemma request_context_is_safe:
  assumes "generates_uuids T"
  shows "case create_request_context T input e of
      (Inr c, e') \<Rightarrow> request_context_inv c \<and>
        (case supplied_id (ic_correlationIdHeader input) of Some v \<Rightarrow> rc_correlationId c = v | None \<Rightarrow> True) \<and>
        (case supplied_id (ic_requestIdHeader input) of Some v \<Rightarrow> rc_requestId c = v | None \<Rightarrow> True) \<and>
        rc_method c = ic_method input \<and> rc_path c = ic_path input \<and> rc_userId c = None
    | (Inl x, e') \<Rightarrow> False"
  using assms by (rule request_context_is_safe_core)

definition sample_telemetry :: "nat telemetry" where
  "sample_telemetry = \<lparr>tl_randomUUID = (\<lambda>n. (Inr ''9b2f1c34-7d1e-4f6a-8b3c-0123456789ab'', Suc n)),
     tl_hrtime = ret 0, tl_activeSpan = ret None, tl_isSpanContextValid = (\<lambda>_. True),
     tl_inject = ret (None, None), tl_setSpanAttributes = (\<lambda>_. ret ()),
     tl_foreignError = (\<lambda>_. None), tl_errorStack = (\<lambda>_. None), tl_pino = (\<lambda>_ _ _. ret ()),
     tl_counterAdd = (\<lambda>_ _ _. ret ()), tl_histogramRecord = (\<lambda>_ _ _. ret ())\<rparr>"

definition sample_incoming :: incoming_request_context_input where
  "sample_incoming = \<lparr>ic_method = Some ''POST'', ic_path = Some ''/graphql'',
     ic_correlationIdHeader = Some (Header_One ''order-77''), ic_requestIdHeader = Some (Header_One ''bad id''),
     ic_traceparentHeader = Some (Header_Many [''00-4BF92F3577B34DA6A3CE929D0E0E4736-00F067AA0BA902B7-01'']),
     ic_tracestateHeader = Some (Header_One '' ''), ic_awsXAmznTraceIdHeader = None,
     ic_awsCloudfrontRequestIdHeader = None\<rparr>"

lemma sample_generates: "generates_uuids sample_telemetry"
  unfolding generates_uuids_def sample_telemetry_def by simp code_simp

lemma request_context_is_safe_example:
  "case create_request_context sample_telemetry sample_incoming 0 of
     (Inr c, e') \<Rightarrow> request_context_inv c \<and> rc_correlationId c = ''order-77'' \<and>
       rc_method c = Some ''POST''
   | (Inl x, e') \<Rightarrow> False"
proof -
  have "supplied_id (ic_correlationIdHeader sample_incoming) = Some ''order-77''" by code_simp
  moreover have "ic_method sample_incoming = Some ''POST''" by (simp add: sample_incoming_def)
  ultimately show ?thesis
    using request_context_is_safe [OF sample_generates, of sample_incoming 0]
    by (auto split: prod.splits sum.splits)
qed

text \<open>The trace id read from a \<open>traceparent\<close> header, when there is one, is the 32
  lower-case hexadecimal digits after the version, and there is one exactly when the header
  is well formed.\<close>

lemma trace_id_of_traceparent:
  "case read_trace_id_from_traceparent (Some s) of
     Some t \<Rightarrow> matches_classes traceparent_pattern s \<and> t = take 32 (drop 3 (js_lower s)) \<and>
       length t = 32 \<and> list_all is_hex_lower t
   | None \<Rightarrow> \<not> matches_classes traceparent_pattern s"
proof (cases "matches_classes traceparent_pattern s")
  case True
  then obtain v t p f where parts: "js_lower s = v @ CHR ''-'' # t @ CHR ''-'' # p @ CHR ''-'' # f"
    "length v = 2" "length t = 32" "list_all is_hex_lower v" "list_all is_hex_lower t"
    by (metis traceparent_lower traceparent_parts)
  then show ?thesis using True
    by (simp add: read_trace_id_from_traceparent_def js_split_app hex_lower_no_dash)
qed (simp add: read_trace_id_from_traceparent_def)

lemma handoff_context_core:
  assumes "request_context_inv c"
  shows "case get_current_work_observability_context T (Some c, e) of
      (Inr (Some oc), (c', e')) \<Rightarrow> c' = Some c \<and> oc_correlationId oc = rc_correlationId c \<and>
        oc_requestId oc = rc_requestId c \<and>
        matches_classes lower_traceparent_pattern (oc_traceparent oc) \<and>
        pred_option valid_header (oc_tracestate oc)
    | (Inr None, (c', e')) \<Rightarrow> c' = Some c \<and> rc_traceparent c = None
    | (Inl x, (c', e')) \<Rightarrow> c' = Some c \<and> fst (tl_inject T e) = Inl x"
    and "pred_option request_context_inv (fst (snd (enrich_with_authenticated_user u (Some c, e))))"
    and "pred_option request_context_inv (fst (snd (enrich_with_graphql_operation g (Some c, e))))"
proof -
  obtain r e' where inj: "tl_inject T e = (r, e')" by fastforce
  show "case get_current_work_observability_context T (Some c, e) of
      (Inr (Some oc), (c', e')) \<Rightarrow> c' = Some c \<and> oc_correlationId oc = rc_correlationId c \<and>
        oc_requestId oc = rc_requestId c \<and>
        matches_classes lower_traceparent_pattern (oc_traceparent oc) \<and>
        pred_option valid_header (oc_tracestate oc)
    | (Inr None, (c', e')) \<Rightarrow> c' = Some c \<and> rc_traceparent c = None
    | (Inl x, (c', e')) \<Rightarrow> c' = Some c \<and> fst (tl_inject T e) = Inl x"
  proof (cases r)
    case (Inr carrier)
    obtain tp ts where "carrier = (tp, ts)" by fastforce
    then show ?thesis
      using assms inj Inr normalize_traceparent_valid [of tp] propagation_header_valid [of ts]
      by (cases "normalize_traceparent tp"; cases "rc_traceparent c";
          cases "normalize_optional_propagation_header ts 512")
        (auto simp: get_current_work_observability_context_def get_current_request_context_def
          on_db_app on_env_app bind_io_def get_active_propagation_headers_def request_context_inv_def)
  qed (use inj in \<open>simp add: get_current_work_observability_context_def
      get_current_request_context_def on_db_app on_env_app bind_io_def get_active_propagation_headers_def\<close>)
qed (use assms enrich_keeps_inv(1) [of u] enrich_keeps_inv(2) [of g] in \<open>auto dest: keepsD [of _ _ "(Some c, e)"]\<close>)

text \<open>The context handed to the worker with a reservation request. A request context
  satisfies its invariant after any enrichment; from it the service hands over a work context
  exactly when a trace parent is available, from the active span or else from the request, and
  what it hands over carries the request's own ids, a well-formed lower-case trace parent, and a
  bounded single-line trace state. It throws only if the propagation API does.\<close>

lemma handoff_context_is_valid:
  assumes "request_context_inv c"
  shows "(case get_current_work_observability_context T (Some c, e) of
      (Inr (Some oc), (c', e')) \<Rightarrow> c' = Some c \<and> oc_correlationId oc = rc_correlationId c \<and>
        oc_requestId oc = rc_requestId c \<and>
        matches_classes lower_traceparent_pattern (oc_traceparent oc) \<and>
        pred_option valid_header (oc_tracestate oc)
    | (Inr None, (c', e')) \<Rightarrow> c' = Some c \<and> rc_traceparent c = None
    | (Inl x, (c', e')) \<Rightarrow> c' = Some c \<and> fst (tl_inject T e) = Inl x) \<and>
    pred_option request_context_inv (fst (snd (enrich_with_authenticated_user u (Some c, e)))) \<and>
    pred_option request_context_inv (fst (snd (enrich_with_graphql_operation g (Some c, e))))"
  by (intro conjI handoff_context_core [OF assms])

definition sample_context :: request_context where
  "sample_context = \<lparr>rc_correlationId = ''order-77'', rc_requestId = ''r1'',
     rc_traceparent = Some ''00-4bf92f3577b34da6a3ce929d0e0e4736-00f067aa0ba902b7-01'', rc_tracestate = None,
     rc_awsXAmznTraceId = None, rc_awsCloudfrontRequestId = None, rc_method = None, rc_path = None,
     rc_userId = None, rc_movieProviderId = None, rc_movieProviderCode = None,
     rc_graphqlOperationName = None, rc_graphqlOperationType = None, rc_businessOperation = None\<rparr>"

lemma sample_context_inv: "request_context_inv sample_context"
  unfolding request_context_inv_def sample_context_def option.pred_inject
  by (simp only: request_context.select_convs option.pred_inject simp_thms) code_simp

lemma handoff_context_example:
  "case get_current_work_observability_context sample_telemetry (Some sample_context, 0) of
     (Inr (Some oc), (c', e')) \<Rightarrow> c' = Some sample_context \<and> oc_correlationId oc = ''order-77'' \<and>
       matches_classes lower_traceparent_pattern (oc_traceparent oc)
   | _ \<Rightarrow> False"
  using handoff_context_is_valid [OF sample_context_inv, of sample_telemetry 0]
  by (auto simp: get_current_work_observability_context_def get_current_request_context_def on_db_app
      on_env_app bind_io_def get_active_propagation_headers_def sample_telemetry_def sample_context_def)

end
