(* ===== verification/Logging.thy ===== *)
theory Logging
  imports Telemetry
begin

text \<open>
  The structured logger (\<open>infrastructure/observability/application-logger.ts\<close>) and the
  metrics of the service (\<open>infrastructure/observability/metrics\<close>).
\<close>

section \<open>Objects\<close>

text \<open>A field of \<open>LogFields\<close> may be \<open>undefined\<close>. \<open>obj_spread a b\<close> is \<open>{...a, ...b}\<close>.\<close>

type_synonym log_fields = "(string, log_value option) jsmap"

definition obj_spread :: "('k, 'v) jsmap \<Rightarrow> ('k \<times> 'v) list \<Rightarrow> ('k, 'v) jsmap" where
  "obj_spread a b = fold (\<lambda>(k, v) m. jm_set m k v) b a"

lemma obj_spread_get:
  "distinct (List.map fst b) \<Longrightarrow>
    jm_get (obj_spread a b) k = (case map_of b k of Some v \<Rightarrow> Some v | None \<Rightarrow> jm_get a k)"
proof (induction b arbitrary: a)
  case (Cons x b)
  then show ?case
    by (cases x) (auto simp: obj_spread_def jm.get_put split: option.splits dest: map_of_SomeD intro: rev_image_eqI)
qed (simp add: obj_spread_def)

lemma obj_spread_inv: "jm_inv a \<Longrightarrow> jm_inv (obj_spread a b)"
  by (induction b arbitrary: a) (auto simp: obj_spread_def jm.put_inv)

section \<open>The logger\<close>

definition forbidden_field_names :: "string list" where
  "forbidden_field_names = [''authorization'', ''cookie'', ''cookies'', ''headers'', ''raw_headers'',
     ''request_body'', ''body'', ''variables'', ''graphql_query'', ''database_url'', ''DATABASE_URL'',
     ''token'', ''access_token'', ''refresh_token'']"

fun sanitize_entries :: "(string \<times> log_value option) list \<Rightarrow> attributes \<Rightarrow> attributes" where
  "sanitize_entries [] acc = acc"
| "sanitize_entries ((key, value) # xs) acc =
    (case value of
       None \<Rightarrow> sanitize_entries xs acc
     | Some v \<Rightarrow> if key \<in> set forbidden_field_names then sanitize_entries xs acc
                 else sanitize_entries xs (jm_set acc key v))"

fun sanitize_log_fields :: "log_fields option \<Rightarrow> attributes" where
  "sanitize_log_fields None = []"
| "sanitize_log_fields (Some flds) = sanitize_entries flds []"

fun omit_message_entries :: "(string \<times> log_value) list \<Rightarrow> attributes \<Rightarrow> attributes" where
  "omit_message_entries [] acc = acc"
| "omit_message_entries ((key, value) # xs) acc =
    omit_message_entries xs (if key \<noteq> ''message'' then jm_set acc key value else acc)"

definition omit_message_field :: "attributes \<Rightarrow> attributes" where
  "omit_message_field flds = omit_message_entries flds []"

fun read_string_log_field :: "log_value option \<Rightarrow> string option" where
  "read_string_log_field (Some (L_String s)) = Some s"
| "read_string_log_field _ = None"

definition read_message :: "attributes \<Rightarrow> string \<Rightarrow> string" where
  "read_message flds event =
    (case jm_get flds ''message'' of Some (L_String s) \<Rightarrow> s | _ \<Rightarrow> event)"

definition as_fields :: "attributes \<Rightarrow> log_fields" where
  "as_fields a = List.map (\<lambda>(k, v). (k, Some v)) a"

text \<open>\<open>requestContext?.f ?? readStringLogField(flds.k)\<close>\<close>

definition ambient_or_field :: "string option \<Rightarrow> attributes \<Rightarrow> string \<Rightarrow> log_value option" where
  "ambient_or_field ambient flds key =
    map_option L_String (or_else ambient (read_string_log_field (jm_get flds key)))"

definition create_application_log_payload ::
  "'e telemetry \<Rightarrow> string \<Rightarrow> log_fields option \<Rightarrow> ('e request_world, attributes \<times> string) io" where
  "create_application_log_payload T event flds =
    (let sanitizedFields = sanitize_log_fields flds in
    bind_io get_current_request_context (\<lambda>requestContext.
    bind_io (on_env (read_active_span_identifiers T)) (\<lambda>activeSpan.
    (let ambient = (\<lambda>f. Option.bind requestContext f);
         traceId = or_else (map_option sx_traceId activeSpan)
           (read_trace_id_from_traceparent (ambient rc_traceparent));
         message = read_message sanitizedFields event;
         logFields = sanitize_log_fields (Some (obj_spread (as_fields (omit_message_field sanitizedFields))
           [(''event'', Some (L_String event)),
            (''correlation_id'', ambient_or_field (map_option rc_correlationId requestContext) sanitizedFields ''correlation_id''),
            (''user_id'', ambient_or_field (ambient rc_userId) sanitizedFields ''user_id''),
            (''movie_provider_code'', ambient_or_field (ambient rc_movieProviderCode) sanitizedFields ''movie_provider_code''),
            (''trace_id'', ambient_or_field traceId sanitizedFields ''trace_id''),
            (''span_id'', ambient_or_field (map_option sx_spanId activeSpan) sanitizedFields ''span_id''),
            (''graphql_operation_name'',
               ambient_or_field (ambient rc_graphqlOperationName) sanitizedFields ''graphql_operation_name''),
            (''graphql_operation_type'',
               ambient_or_field (ambient rc_graphqlOperationType) sanitizedFields ''graphql_operation_type''),
            (''business_operation'',
               ambient_or_field (ambient rc_businessOperation) sanitizedFields ''business_operation'')]))
     in ret (logFields, message)))))"

definition write_log :: "'e telemetry \<Rightarrow> log_level \<Rightarrow> string \<Rightarrow> log_fields option \<Rightarrow> ('e request_world, unit) io" where
  "write_log T level event flds =
    bind_io (create_application_log_payload T event flds) (\<lambda>(logFields, message).
    on_env (tl_pino T level logFields message))"

definition add_error_fields :: "'e telemetry \<Rightarrow> log_fields option \<Rightarrow> js_error option \<Rightarrow> log_fields" where
  "add_error_fields T flds error =
    (let given = (case flds of Some f \<Rightarrow> f | None \<Rightarrow> []) in
     case Option.bind error (error_constructor_name T) of
       None \<Rightarrow> given
     | Some name \<Rightarrow> obj_spread given
         [(''error_type'', Some (L_String name)),
          (''error_message'', Some (L_String (error_message T (the error)))),
          (''error_stack'', map_option L_String (tl_errorStack T (the error)))])"

text \<open>The logger port, over a world of its own.\<close>

record 'w application_logger =
  lo_debug :: "string \<Rightarrow> log_fields option \<Rightarrow> ('w, unit) io"
  lo_info :: "string \<Rightarrow> log_fields option \<Rightarrow> ('w, unit) io"
  lo_warn :: "string \<Rightarrow> log_fields option \<Rightarrow> ('w, unit) io"
  lo_error :: "string \<Rightarrow> log_fields option \<Rightarrow> js_error option \<Rightarrow> ('w, unit) io"

definition application_logger_of :: "'e telemetry \<Rightarrow> 'e request_world application_logger" where
  "application_logger_of T = \<lparr>
     lo_debug = write_log T Debug,
     lo_info = write_log T Info,
     lo_warn = write_log T Warn,
     lo_error = (\<lambda>event flds error. write_log T Log_Error event (Some (add_error_fields T flds error)))\<rparr>"

text \<open>The NestJS adapter. A message is a string or a value that \<open>JSON.stringify\<close> prints.\<close>

fun stringify_message :: "('x \<Rightarrow> string) \<Rightarrow> string + 'x \<Rightarrow> string" where
  "stringify_message stringify (Inl s) = s"
| "stringify_message stringify (Inr x) = stringify x"

definition nest_log :: "'w application_logger \<Rightarrow> ('x \<Rightarrow> string) \<Rightarrow> string + 'x \<Rightarrow> string option \<Rightarrow> ('w, unit) io" where
  "nest_log L stringify message code = lo_info L ''nest.log'' (Some
     [(''message'', Some (L_String (stringify_message stringify message))),
      (''code_location'', map_option L_String code)])"

definition nest_error ::
  "'w application_logger \<Rightarrow> ('x \<Rightarrow> string) \<Rightarrow> string + 'x \<Rightarrow> string option \<Rightarrow> string option \<Rightarrow> ('w, unit) io" where
  "nest_error L stringify message trace code = lo_error L ''nest.error'' (Some
     [(''message'', Some (L_String (stringify_message stringify message))),
      (''code_location'', map_option L_String code), (''error_stack'', map_option L_String trace)]) None"

definition nest_warn :: "'w application_logger \<Rightarrow> ('x \<Rightarrow> string) \<Rightarrow> string + 'x \<Rightarrow> string option \<Rightarrow> ('w, unit) io" where
  "nest_warn L stringify message code = lo_warn L ''nest.warn'' (Some
     [(''message'', Some (L_String (stringify_message stringify message))),
      (''code_location'', map_option L_String code)])"

definition nest_debug :: "'w application_logger \<Rightarrow> ('x \<Rightarrow> string) \<Rightarrow> string + 'x \<Rightarrow> string option \<Rightarrow> ('w, unit) io" where
  "nest_debug L stringify message code = lo_debug L ''nest.debug'' (Some
     [(''message'', Some (L_String (stringify_message stringify message))),
      (''code_location'', map_option L_String code)])"

section \<open>Metrics\<close>

datatype http_request_outcome = H_Success | H_Client_Error | H_Server_Error

fun http_outcome_str :: "http_request_outcome \<Rightarrow> string" where
  "http_outcome_str H_Success = ''success''"
| "http_outcome_str H_Client_Error = ''client_error''"
| "http_outcome_str H_Server_Error = ''server_error''"

definition classify_http_request_outcome :: "int \<Rightarrow> http_request_outcome" where
  "classify_http_request_outcome statusCode =
    (if statusCode \<ge> 500 then H_Server_Error else if statusCode \<ge> 400 then H_Client_Error else H_Success)"

definition record_http_request_metrics ::
  "'e telemetry \<Rightarrow> string \<Rightarrow> string \<Rightarrow> int \<Rightarrow> int \<Rightarrow> ('e, unit) io" where
  "record_http_request_metrics T method route statusCode durationNs =
    (let attrs = [(''http_method'', L_String method), (''http_route'', L_String route),
           (''http_status_code'', L_Number statusCode),
           (''status_family'', L_String (int_str (statusCode div 100) @ ''xx'')),
           (''outcome'', L_String (http_outcome_str (classify_http_request_outcome statusCode)))] in
     then_io (tl_counterAdd T ''http_request_total'' 1 attrs)
       (tl_histogramRecord T ''http_request_duration_ms'' durationNs attrs))"

datatype diagnostic_exception_type =
    D_Authentication_Error
  | D_Reservation_Request_Already_Exists_Error
  | D_Seat_Reservation_Commit_Error
  | D_Error
  | D_Unexpected_Error

fun exception_type_str :: "diagnostic_exception_type \<Rightarrow> string" where
  "exception_type_str D_Authentication_Error = ''AuthenticationError''"
| "exception_type_str D_Reservation_Request_Already_Exists_Error = ''ReservationRequestAlreadyExistsError''"
| "exception_type_str D_Seat_Reservation_Commit_Error = ''SeatReservationCommitError''"
| "exception_type_str D_Error = ''Error''"
| "exception_type_str D_Unexpected_Error = ''unexpected_error''"

definition classify_diagnostic_exception :: "'e telemetry \<Rightarrow> js_error \<Rightarrow> diagnostic_exception_type" where
  "classify_diagnostic_exception T error =
    (case error_constructor_name T error of
       None \<Rightarrow> D_Unexpected_Error
     | Some name \<Rightarrow>
         if name = ''AuthenticationError'' then D_Authentication_Error
         else if name = ''ReservationRequestAlreadyExistsError'' then D_Reservation_Request_Already_Exists_Error
         else if name = ''SeatReservationCommitError'' then D_Seat_Reservation_Commit_Error
         else if name = ''Error'' then D_Error
         else D_Unexpected_Error)"

fun processor_outcome_str :: "processor_outcome \<Rightarrow> string" where
  "processor_outcome_str O_No_Pending_Request = ''no-pending-request''"
| "processor_outcome_str O_Confirmed = ''confirmed''"
| "processor_outcome_str O_Rejected = ''rejected''"
| "processor_outcome_str O_Retryable_Failure = ''retryable-failure''"
| "processor_outcome_str O_Failed = ''failed''"

definition reservation_processor_outcomes :: "processor_outcome list" where
  "reservation_processor_outcomes = [O_No_Pending_Request, O_Confirmed, O_Rejected, O_Retryable_Failure, O_Failed]"

definition initialize_reservation_processor_metric_series :: "'e telemetry \<Rightarrow> ('e, unit) io" where
  "initialize_reservation_processor_metric_series T =
    for_each (\<lambda>outcome. tl_counterAdd T ''reservation_processor_outcome_total'' 0
      [(''outcome'', L_String (processor_outcome_str outcome))]) reservation_processor_outcomes"

definition increment_reservation_requests_created :: "'e telemetry \<Rightarrow> ('e, unit) io" where
  "increment_reservation_requests_created T =
    tl_counterAdd T ''reservation_request_created_total'' 1 [(''business_operation'', L_String ''requestReservation'')]"

definition increment_reservation_processor_claims :: "'e telemetry \<Rightarrow> ('e, unit) io" where
  "increment_reservation_processor_claims T = tl_counterAdd T ''reservation_processor_claim_total'' 1 []"

definition record_reservation_processor_outcome_metrics ::
  "'e telemetry \<Rightarrow> processor_outcome \<Rightarrow> int \<Rightarrow> ('e, unit) io" where
  "record_reservation_processor_outcome_metrics T outcome durationNs =
    (let attrs = [(''outcome'', L_String (processor_outcome_str outcome))] in
     then_io (tl_counterAdd T ''reservation_processor_outcome_total'' 1 attrs)
       (tl_histogramRecord T ''reservation_processor_duration_ms'' durationNs attrs))"

definition increment_reservation_processor_exception_count ::
  "'e telemetry \<Rightarrow> diagnostic_exception_type \<Rightarrow> ('e, unit) io" where
  "increment_reservation_processor_exception_count T x =
    tl_counterAdd T ''reservation_processor_exceptions_total'' 1
      [(''exception_type'', L_String (exception_type_str x))]"

datatype graphql_operation_outcome = G_Success | G_Graphql_Error | G_Auth_Error | G_Unexpected_Error

fun graphql_outcome_str :: "graphql_operation_outcome \<Rightarrow> string" where
  "graphql_outcome_str G_Success = ''success''"
| "graphql_outcome_str G_Graphql_Error = ''graphql_error''"
| "graphql_outcome_str G_Auth_Error = ''auth_error''"
| "graphql_outcome_str G_Unexpected_Error = ''unexpected_error''"

definition graphql_business_operations :: "(string \<times> string) list" where
  "graphql_business_operations = [(''me'', ''query''), (''movies'', ''query''), (''screenings'', ''query''),
     (''requestReservation'', ''mutation''), (''reservationRequestStatus'', ''query''),
     (''reservationResult'', ''query''), (''unknown'', ''unknown'')]"

definition graphql_operation_outcomes :: "graphql_operation_outcome list" where
  "graphql_operation_outcomes = [G_Success, G_Graphql_Error, G_Auth_Error, G_Unexpected_Error]"

definition graphql_series :: "string \<Rightarrow> string \<Rightarrow> graphql_operation_outcome \<Rightarrow> attributes" where
  "graphql_series businessOperation operationType outcome =
    [(''business_operation'', L_String businessOperation), (''graphql_operation_type'', L_String operationType),
     (''outcome'', L_String (graphql_outcome_str outcome))]"

definition initialize_graphql_operation_metric_series :: "'e telemetry \<Rightarrow> ('e, unit) io" where
  "initialize_graphql_operation_metric_series T =
    for_each (\<lambda>(businessOperation, operationType).
      for_each (\<lambda>outcome. tl_counterAdd T ''graphql_operation_total'' 0
        (graphql_series businessOperation operationType outcome)) graphql_operation_outcomes)
      graphql_business_operations"

definition record_graphql_operation_metrics ::
  "'e telemetry \<Rightarrow> string \<Rightarrow> string \<Rightarrow> graphql_operation_outcome \<Rightarrow> int \<Rightarrow> ('e, unit) io" where
  "record_graphql_operation_metrics T businessOperation operationType outcome durationNs =
    (let attrs = graphql_series businessOperation operationType outcome in
     then_io (tl_counterAdd T ''graphql_operation_total'' 1 attrs)
       (tl_histogramRecord T ''graphql_operation_duration_ms'' durationNs attrs))"

definition increment_graphql_exception_count ::
  "'e telemetry \<Rightarrow> string \<Rightarrow> diagnostic_exception_type \<Rightarrow> ('e, unit) io" where
  "increment_graphql_exception_count T businessOperation x =
    tl_counterAdd T ''graphql_operation_exceptions_total'' 1
      [(''business_operation'', L_String businessOperation), (''exception_type'', L_String (exception_type_str x))]"

text \<open>The module-level flag \<open>metricSeriesInitialized\<close> is the first part of the world.\<close>

definition initialize_observability_metric_series :: "'e telemetry \<Rightarrow> (bool \<times> 'e, unit) io" where
  "initialize_observability_metric_series T =
    bind_io (on_db (gets (\<lambda>b. b))) (\<lambda>metricSeriesInitialized.
    if metricSeriesInitialized then ret ()
    else then_io (on_db (modify (\<lambda>_. True)))
      (then_io (on_env (initialize_graphql_operation_metric_series T))
        (on_env (initialize_reservation_processor_metric_series T))))"

datatype audit_publish_failure_reason =
    F_Timeout | F_Aborted | F_Rejected | F_Throttled | F_Configuration | F_Unavailable

fun failure_reason_str :: "audit_publish_failure_reason \<Rightarrow> string" where
  "failure_reason_str F_Timeout = ''timeout''"
| "failure_reason_str F_Aborted = ''aborted''"
| "failure_reason_str F_Rejected = ''rejected''"
| "failure_reason_str F_Throttled = ''throttled''"
| "failure_reason_str F_Configuration = ''configuration''"
| "failure_reason_str F_Unavailable = ''unavailable''"

definition audit_failure_reasons :: "audit_publish_failure_reason list" where
  "audit_failure_reasons = [F_Timeout, F_Aborted, F_Rejected, F_Throttled, F_Configuration, F_Unavailable]"

datatype audit_publisher_name = P_Stdout | P_Eventbridge

fun publisher_name_str :: "audit_publisher_name \<Rightarrow> string" where
  "publisher_name_str P_Stdout = ''stdout''"
| "publisher_name_str P_Eventbridge = ''eventbridge''"

datatype audit_publisher_role = P_Primary | P_Comparison

fun publisher_role_str :: "audit_publisher_role \<Rightarrow> string" where
  "publisher_role_str P_Primary = ''primary''"
| "publisher_role_str P_Comparison = ''comparison''"

definition initialize_audit_publish_metric_series ::
  "'e telemetry \<Rightarrow> audit_publisher_name \<Rightarrow> audit_publisher_role \<Rightarrow> ('e, unit) io" where
  "initialize_audit_publish_metric_series T publisher role =
    (let base = [(''audit_publisher'', L_String (publisher_name_str publisher)),
           (''audit_publisher_role'', L_String (publisher_role_str role))] in
     then_io (tl_counterAdd T ''audit_publish_total'' 0
         (base @ [(''result'', L_String ''accepted''), (''failure_reason'', L_String ''none'')]))
       (for_each (\<lambda>reason. tl_counterAdd T ''audit_publish_total'' 0
         (base @ [(''result'', L_String ''failed''), (''failure_reason'', L_String (failure_reason_str reason))]))
         audit_failure_reasons))"

text \<open>The outcome of a sample is \<open>None\<close> when accepted, and the failure reason otherwise.\<close>

definition record_audit_publish_metrics :: "'e telemetry \<Rightarrow> audit_publisher_name \<Rightarrow> audit_publisher_role \<Rightarrow>
    audit_publish_failure_reason option \<Rightarrow> int \<Rightarrow> ('e, unit) io" where
  "record_audit_publish_metrics T publisher role failure durationNs =
    (let base = [(''audit_publisher'', L_String (publisher_name_str publisher)),
           (''audit_publisher_role'', L_String (publisher_role_str role)),
           (''result'', L_String (if failure = None then ''accepted'' else ''failed''))] in
     then_io (tl_counterAdd T ''audit_publish_total'' 1 (base @ [(''failure_reason'',
         L_String (case failure of None \<Rightarrow> ''none'' | Some reason \<Rightarrow> failure_reason_str reason))]))
       (tl_histogramRecord T ''audit_publish_duration_ms'' durationNs base))"

section \<open>What a log line carries\<close>

text \<open>The ambient value of an enriched key, from the request context \<open>c\<close> and the active span \<open>a\<close>.\<close>

definition ambient_value :: "request_context option \<Rightarrow> span_context option \<Rightarrow> string \<Rightarrow> string option" where
  "ambient_value c a key =
    (if key = ''correlation_id'' then map_option rc_correlationId c
     else if key = ''user_id'' then Option.bind c rc_userId
     else if key = ''movie_provider_code'' then Option.bind c rc_movieProviderCode
     else if key = ''trace_id'' then
       or_else (map_option sx_traceId a) (read_trace_id_from_traceparent (Option.bind c rc_traceparent))
     else if key = ''span_id'' then map_option sx_spanId a
     else if key = ''graphql_operation_name'' then Option.bind c rc_graphqlOperationName
     else if key = ''graphql_operation_type'' then Option.bind c rc_graphqlOperationType
     else if key = ''business_operation'' then Option.bind c rc_businessOperation
     else None)"

definition enriched_keys :: "string list" where
  "enriched_keys = [''correlation_id'', ''user_id'', ''movie_provider_code'', ''trace_id'', ''span_id'',
     ''graphql_operation_name'', ''graphql_operation_type'', ''business_operation'']"

definition caller_value :: "log_fields \<Rightarrow> string \<Rightarrow> log_value option" where
  "caller_value fs key = (case jm_get fs key of Some (Some v) \<Rightarrow> Some v | _ \<Rightarrow> None)"

definition payload_field ::
  "request_context option \<Rightarrow> span_context option \<Rightarrow> string \<Rightarrow> log_fields \<Rightarrow> string \<Rightarrow> log_value option" where
  "payload_field c a event fs key =
    (if key \<in> set forbidden_field_names \<or> key = ''message'' then None
     else if key = ''event'' then Some (L_String event)
     else if key \<in> set enriched_keys then
       map_option L_String (or_else (ambient_value c a key) (read_string_log_field (caller_value fs key)))
     else caller_value fs key)"

lemma sanitize_entries_get:
  "distinct (List.map fst xs) \<Longrightarrow>
    jm_get (sanitize_entries xs acc) k =
      (if k \<in> set forbidden_field_names then jm_get acc k
       else case map_of xs k of Some (Some v) \<Rightarrow> Some v | _ \<Rightarrow> jm_get acc k)"
proof (induction xs acc rule: sanitize_entries.induct)
  case (2 key v xs acc)
  have "k = key \<Longrightarrow> map_of xs k = None" using 2(4) by (auto simp: map_of_eq_None_iff)
  with 2 show ?case by (auto simp: jm.get_put split: option.splits)
qed simp

lemma sanitize_entries_inv: "jm_inv acc \<Longrightarrow> jm_inv (sanitize_entries xs acc)"
  by (induction xs acc rule: sanitize_entries.induct) (auto simp: jm.put_inv split: option.splits)

lemma omit_message_entries_get:
  "distinct (List.map fst xs) \<Longrightarrow>
    jm_get (omit_message_entries xs acc) k =
      (if k = ''message'' then jm_get acc k else case map_of xs k of Some v \<Rightarrow> Some v | None \<Rightarrow> jm_get acc k)"
proof (induction xs acc rule: omit_message_entries.induct)
  case (2 key v xs acc)
  have "k = key \<Longrightarrow> map_of xs k = None" using 2(2) by (auto simp: map_of_eq_None_iff)
  with 2 show ?case by (auto simp: jm.get_put split: option.splits)
qed simp

lemma omit_message_inv: "jm_inv acc \<Longrightarrow> jm_inv (omit_message_entries xs acc)"
  by (induction xs acc rule: omit_message_entries.induct) (auto simp: jm.put_inv)

lemma sanitize_get:
  "jm_inv fs \<Longrightarrow> jm_get (sanitize_log_fields (Some fs)) k =
    (if k \<in> set forbidden_field_names then None else caller_value fs k)"
  using sanitize_entries_get [of fs "[]" k]
  by (auto simp: jm_inv_def caller_value_def jm_get_def [of fs] split: option.split)

lemma sanitize_inv: "jm_inv (sanitize_log_fields fs)"
  by (cases fs) (simp_all add: sanitize_entries_inv)

lemma omit_get: "jm_inv a \<Longrightarrow> jm_get (omit_message_field a) k = (if k = ''message'' then None else jm_get a k)"
  using omit_message_entries_get [of a "[]" k]
  by (auto simp: omit_message_field_def jm_inv_def jm_get_def [of a] split: option.split)

lemma as_fields_get: "jm_get (as_fields a) k = map_option Some (jm_get a k)"
  by (simp add: as_fields_def jm_get_def map_of_map)

lemma as_fields_inv: "jm_inv (as_fields a) \<longleftrightarrow> jm_inv a"
  by (simp add: as_fields_def jm_inv_def comp_def case_prod_beta)

lemma allowed_keys:
  "''event'' \<notin> set forbidden_field_names" "''message'' \<notin> set forbidden_field_names"
  "key \<in> set enriched_keys \<Longrightarrow> key \<notin> set forbidden_field_names"
  "key \<in> set enriched_keys \<Longrightarrow> key \<noteq> ''message''"
  "key \<in> set enriched_keys \<Longrightarrow> key \<noteq> ''event''"
  by (auto simp: forbidden_field_names_def enriched_keys_def)

lemma map_of_keys: "map_of (List.map (\<lambda>key. (key, f key)) ks) key = (if key \<in> set ks then Some (f key) else None)"
  by (induction ks) auto

lemma enriched_map_of:
  "map_of ((''event'', Some (L_String event)) # List.map (\<lambda>key. (key, f key)) enriched_keys) key =
    (if key = ''event'' then Some (Some (L_String event)) else if key \<in> set enriched_keys then Some (f key) else None)"
  by (simp add: map_of_keys)

lemma payload_entries:
  fixes c :: "request_context option" and a :: "span_context option"
  shows
  "[(''event'', Some (L_String event)),
    (''correlation_id'', ambient_or_field (map_option rc_correlationId c) f ''correlation_id''),
    (''user_id'', ambient_or_field (Option.bind c rc_userId) f ''user_id''),
    (''movie_provider_code'', ambient_or_field (Option.bind c rc_movieProviderCode) f ''movie_provider_code''),
    (''trace_id'', ambient_or_field (or_else (map_option sx_traceId a)
       (read_trace_id_from_traceparent (Option.bind c rc_traceparent))) f ''trace_id''),
    (''span_id'', ambient_or_field (map_option sx_spanId a) f ''span_id''),
    (''graphql_operation_name'', ambient_or_field (Option.bind c rc_graphqlOperationName) f ''graphql_operation_name''),
    (''graphql_operation_type'', ambient_or_field (Option.bind c rc_graphqlOperationType) f ''graphql_operation_type''),
    (''business_operation'', ambient_or_field (Option.bind c rc_businessOperation) f ''business_operation'')] =
   (''event'', Some (L_String event)) #
     List.map (\<lambda>key. (key, ambient_or_field (ambient_value c a key) f key)) enriched_keys"
  by (simp add: enriched_keys_def ambient_value_def)

lemma payload_get:
  assumes "jm_inv fs"
  shows "jm_get (sanitize_log_fields (Some (obj_spread
      (as_fields (omit_message_field (sanitize_log_fields (Some fs))))
      ((''event'', Some (L_String event)) # List.map (\<lambda>key. (key,
        ambient_or_field (ambient_value c a key) (sanitize_log_fields (Some fs)) key)) enriched_keys)))) k =
    payload_field c a event fs k"
proof -
  define m where "m = sanitize_log_fields (Some fs)"
  define xs where "xs = (''event'', Some (L_String event)) # List.map (\<lambda>key. (key,
    ambient_or_field (ambient_value c a key) m key)) enriched_keys"
  have dist: "distinct (List.map fst xs)"
    by (simp add: xs_def enriched_keys_def)
  have m: "jm_inv m" unfolding m_def by (rule sanitize_inv)
  then have "jm_inv (omit_message_field m)" by (simp add: omit_message_field_def omit_message_inv)
  then have sound: "jm_inv (obj_spread (as_fields (omit_message_field m)) xs)"
    by (simp add: obj_spread_inv as_fields_inv)
  have get_m: "jm_get m key = (if key \<in> set forbidden_field_names then None else caller_value fs key)" for key
    unfolding m_def by (rule sanitize_get [OF assms])
  have spread: "jm_get (obj_spread (as_fields (omit_message_field m)) xs) k =
      (case map_of xs k of Some v \<Rightarrow> Some v
       | None \<Rightarrow> map_option Some (if k = ''message'' then None else jm_get m k))"
    by (simp only: obj_spread_get [OF dist] as_fields_get omit_get [OF m])
  have "jm_get (sanitize_log_fields (Some (obj_spread (as_fields (omit_message_field m)) xs))) k =
      (if k \<in> set forbidden_field_names then None
       else caller_value (obj_spread (as_fields (omit_message_field m)) xs) k)"
    by (rule sanitize_get [OF sound])
  also have "\<dots> = payload_field c a event fs k"
  proof (cases "k \<in> set forbidden_field_names")
    case False
    have xs: "map_of xs k = (if k = ''event'' then Some (Some (L_String event))
        else if k \<in> set enriched_keys then Some (ambient_or_field (ambient_value c a k) m k) else None)"
      unfolding xs_def by (rule enriched_map_of)
    have get_k: "jm_get m k = caller_value fs k" using False get_m by simp
    consider "k = ''event''" | "k \<in> set enriched_keys" "k \<noteq> ''event''" "k \<noteq> ''message''"
      | "k = ''message''" "k \<noteq> ''event''" "k \<notin> set enriched_keys"
      | "k \<noteq> ''event''" "k \<notin> set enriched_keys" "k \<noteq> ''message''"
      using allowed_keys(4,5) by fastforce
    then show ?thesis
    proof cases
      case 1
      then have entry: "map_of xs k = Some (Some (L_String event))" using xs by simp
      have "jm_get (obj_spread (as_fields (omit_message_field m)) xs) k = Some (Some (L_String event))"
        unfolding spread entry by simp
      then show ?thesis using 1 False
        by (simp add: caller_value_def [of "obj_spread _ _"] payload_field_def)
    next
      case 2
      with False show ?thesis
        by (simp add: caller_value_def [of "obj_spread _ _"] spread payload_field_def xs
            ambient_or_field_def get_k split: option.split)
    next
      case 3
      then have entry: "map_of xs k = None" using xs by simp
      have "jm_get (obj_spread (as_fields (omit_message_field m)) xs) k = None"
        unfolding spread entry using 3 by simp
      then show ?thesis using 3 False
        by (simp add: caller_value_def [of "obj_spread _ _"] payload_field_def)
    next
      case 4
      with False show ?thesis
        by (simp add: caller_value_def [of "obj_spread _ _"] spread payload_field_def xs get_k split: option.split)
    qed
  qed (simp only: payload_field_def if_True simp_thms)
  finally show ?thesis by (simp add: m_def xs_def)
qed

lemma log_payload_core:
  assumes "jm_inv fs"
  shows "case create_application_log_payload T event (Some fs) (c, e) of
      (Inr (payload, message), (c', e')) \<Rightarrow> c' = c \<and>
        message = (case caller_value fs ''message'' of Some (L_String s) \<Rightarrow> s | _ \<Rightarrow> event) \<and>
        (\<exists>a. fst (read_active_span_identifiers T e) = Inr a \<and>
          jm_get payload = payload_field c a event fs)
    | (Inl x, (c', e')) \<Rightarrow> c' = c \<and> fst (tl_activeSpan T e) = Inl x"
proof (cases "read_active_span_identifiers T e")
  case (Pair r e')
  show ?thesis
  proof (cases r)
    case (Inl x)
    then have "fst (tl_activeSpan T e) = Inl x"
      using Pair by (auto simp: read_active_span_identifiers_def elim!: bind_io_cases split: option.splits if_splits)
    with Pair Inl show ?thesis
      by (simp add: create_application_log_payload_def Let_def get_current_request_context_def on_db_app on_env_app bind_io_def)
  next
    case (Inr a)
    have msg: "read_message (sanitize_log_fields (Some fs)) event =
        (case caller_value fs ''message'' of Some (L_String s) \<Rightarrow> s | _ \<Rightarrow> event)"
      by (simp only: read_message_def sanitize_get [OF assms] allowed_keys(2) if_False)
    have run: "create_application_log_payload T event (Some fs) (c, e) =
        (Inr (sanitize_log_fields (Some (obj_spread
          (as_fields (omit_message_field (sanitize_log_fields (Some fs))))
          ((''event'', Some (L_String event)) # List.map (\<lambda>key. (key,
            ambient_or_field (ambient_value c a key) (sanitize_log_fields (Some fs)) key)) enriched_keys))),
          read_message (sanitize_log_fields (Some fs)) event), (c, e'))"
      unfolding create_application_log_payload_def Let_def payload_entries [symmetric]
      using Pair Inr
      by (simp add: get_current_request_context_def on_db_app on_env_app bind_io_def del: sanitize_log_fields.simps)
    show ?thesis
      unfolding run msg using payload_get [OF assms] Pair Inr by auto
  qed
qed

text \<open>C22: what a log line carries, field by field. A sensitive key never appears, nor does
  \<open>message\<close>; \<open>event\<close> is the event; the correlation, user, provider, trace and
  GraphQL keys come from the ambient request context or active span and only fall back to what
  the caller passed, as a string; every other field is the caller's, without the undefined ones.
  Logging does not change the request context.\<close>

theorem log_payload_fields:
  assumes "jm_inv fs"
  shows "case create_application_log_payload T event (Some fs) (c, e) of
      (Inr (payload, message), (c', e')) \<Rightarrow> c' = c \<and>
        message = (case caller_value fs ''message'' of Some (L_String s) \<Rightarrow> s | _ \<Rightarrow> event) \<and>
        (\<exists>a. fst (read_active_span_identifiers T e) = Inr a \<and>
          jm_get payload = payload_field c a event fs)
    | (Inl x, (c', e')) \<Rightarrow> c' = c \<and> fst (tl_activeSpan T e) = Inl x"
  using assms by (rule log_payload_core)

definition sample_fields :: log_fields where
  "sample_fields = [(''authorization'', Some (L_String ''Bearer abc'')), (''message'', Some (L_String ''hello'')),
     (''correlation_id'', Some (L_String ''spoofed'')), (''outcome'', Some (L_Bool True)), (''reason'', None)]"

lemma sample_fields_inv: "jm_inv sample_fields"
  by (simp add: jm_inv_def sample_fields_def)

theorem log_payload_fields_witness:
  "case create_application_log_payload sample_telemetry ''demo'' (Some sample_fields) (Some sample_context, 0) of
     (Inr (payload, message), _) \<Rightarrow> message = ''hello'' \<and> jm_get payload ''authorization'' = None \<and>
       jm_get payload ''correlation_id'' = Some (L_String ''order-77'') \<and>
       jm_get payload ''outcome'' = Some (L_Bool True)
   | (Inl x, _) \<Rightarrow> False"
proof -
  have "fst (tl_activeSpan sample_telemetry 0) = Inr None"
    by (simp add: sample_telemetry_def)
  moreover have "caller_value sample_fields ''message'' = Some (L_String ''hello'')"
    by (simp add: caller_value_def sample_fields_def jm_get_def)
  moreover have "payload_field (Some sample_context) a ''demo'' sample_fields ''authorization'' = None"
    "payload_field (Some sample_context) a ''demo'' sample_fields ''correlation_id'' = Some (L_String ''order-77'')"
    "payload_field (Some sample_context) a ''demo'' sample_fields ''outcome'' = Some (L_Bool True)"
    for a :: "span_context option"
    by (simp_all add: payload_field_def caller_value_def sample_fields_def jm_get_def enriched_keys_def
        forbidden_field_names_def ambient_value_def sample_context_def)
  ultimately show ?thesis
    using log_payload_fields [OF sample_fields_inv, where T = sample_telemetry and event = "''demo''"
        and c = "Some sample_context" and e = 0]
    by (auto split: prod.splits sum.splits)
qed

end
