(* ===== verification/Http_Boundary.thy ===== *)
theory Http_Boundary
  imports Logging
begin

text \<open>
  The inbound HTTP boundary: the request-context middleware
  (\<open>presentation/http/middleware/request-context.middleware.ts\<close>) and the health service.
  The response object of the framework is a record of operations.
\<close>

record http_request =
  rq_method :: "string option"
  rq_baseUrl :: "string option"
  rq_originalUrl :: "string option"
  rq_routePath :: "string option"
  rq_url :: "string option"
  rq_headers :: "string \<Rightarrow> header_value option"

text \<open>\<open>rs_onFinish\<close> registers the listener of the \<open>finish\<close> event.\<close>

record 'w http_response =
  rs_setHeader :: "string \<Rightarrow> string \<Rightarrow> ('w, unit) io"
  rs_onFinish :: "('w, unit) io \<Rightarrow> ('w, unit) io"
  rs_statusCode :: "('w, int) io"

definition known_http_routes :: "string list" where
  "known_http_routes = [''/demo/auth/login'', ''/graphql'', ''/health'', ''/ready'']"

text \<open>\<open>rq_routePath\<close> is \<open>req.route?.path\<close> when it is a string.\<close>

definition routed_path :: "http_request \<Rightarrow> string option" where
  "routed_path req = map_option (\<lambda>routePath.
     (let p = (case rq_baseUrl req of Some b \<Rightarrow> b | None \<Rightarrow> []) @ routePath in
      if p = [] then ''/'' else p)) (rq_routePath req)"

definition request_path :: "http_request \<Rightarrow> string option" where
  "request_path req = map_option (\<lambda>u. hd (js_split CHR ''?'' u)) (or_else (rq_originalUrl req) (rq_url req))"

definition read_route :: "http_request \<Rightarrow> string" where
  "read_route req =
    (case routed_path req of
       Some routedPath \<Rightarrow> if routedPath \<in> set known_http_routes then routedPath
         else (case request_path req of
           Some p \<Rightarrow> if p \<in> set known_http_routes then p else ''unmatched'' | None \<Rightarrow> ''unmatched'')
     | None \<Rightarrow> (case request_path req of
           Some p \<Rightarrow> if p \<in> set known_http_routes then p else ''unmatched'' | None \<Rightarrow> ''unmatched''))"

definition should_record_http_request :: "string \<Rightarrow> bool" where
  "should_record_http_request route \<longleftrightarrow> route \<noteq> ''/health'' \<and> route \<noteq> ''/ready''"

definition record_finished_http_request ::
  "'e telemetry \<Rightarrow> 'e request_world application_logger \<Rightarrow> 'e request_world http_response \<Rightarrow> http_request \<Rightarrow>
    request_context \<Rightarrow> int \<Rightarrow> ('e request_world, unit) io" where
  "record_finished_http_request T L R req c startedAt =
    bind_io (on_env (tl_hrtime T)) (\<lambda>now.
    (let duration = now - startedAt; route = read_route req;
         method = (case rq_method req of Some m \<Rightarrow> m | None \<Rightarrow> ''UNKNOWN'') in
     if \<not> should_record_http_request route then ret ()
     else
     bind_io (rs_statusCode R) (\<lambda>statusCode.
     bind_io (on_env (record_http_request_metrics T method route statusCode duration)) (\<lambda>_.
     bind_io (rs_statusCode R) (\<lambda>loggedStatus.
     lo_info L ''http.request.finish'' (Some (
       [(''http_status_code'', Some (L_Number loggedStatus)), (''duration_ms'', Some (L_Millis duration)),
        (''request_id'', Some (L_String (rc_requestId c)))] @
       (case rc_awsXAmznTraceId c of None \<Rightarrow> [] | Some t \<Rightarrow> [(''aws_x_amzn_trace_id'', Some (L_String t))]) @
       [(''http_method'', Some (L_String method)), (''http_route'', Some (L_String route))])))))))"

definition request_context_use ::
  "'e telemetry \<Rightarrow> 'e request_world application_logger \<Rightarrow> 'e request_world http_response \<Rightarrow> http_request \<Rightarrow>
    ('e request_world, unit) io \<Rightarrow> ('e request_world, unit) io" where
  "request_context_use T L R req nxt =
    bind_io (on_env (tl_hrtime T)) (\<lambda>startedAt.
    bind_io (on_env (create_request_context T \<lparr>ic_method = rq_method req,
        ic_path = or_else (rq_originalUrl req) (rq_url req),
        ic_correlationIdHeader = rq_headers req ''x-correlation-id'',
        ic_requestIdHeader = rq_headers req ''x-request-id'',
        ic_traceparentHeader = rq_headers req ''traceparent'',
        ic_tracestateHeader = rq_headers req ''tracestate'',
        ic_awsXAmznTraceIdHeader = rq_headers req ''x-amzn-trace-id'',
        ic_awsCloudfrontRequestIdHeader = rq_headers req ''x-amz-cf-id''\<rparr>)) (\<lambda>c.
    then_io (rs_setHeader R ''X-Correlation-Id'' (rc_correlationId c))
    (then_io (rs_setHeader R ''X-Request-Id'' (rc_requestId c))
    (run_with_request_context c
      (then_io (rs_onFinish R (record_finished_http_request T L R req c startedAt)) nxt)))))"

section \<open>Health\<close>

record readiness_check_result =
  ck_name :: string
  ck_status :: string

record readiness_response =
  rd_status :: string
  rd_checks :: "readiness_check_result list"

definition get_liveness :: string where
  "get_liveness = ''ok''"

text \<open>\<open>Promise.all\<close>: every check runs; the first rejection, in the order given, is the outcome.\<close>

fun promise_all :: "('w, 'a) io list \<Rightarrow> ('w, 'a list) io" where
  "promise_all [] = ret []"
| "promise_all (m # ms) = (\<lambda>w. case m w of (r, w1) \<Rightarrow> (case promise_all ms w1 of (rs, w2) \<Rightarrow>
     (case r of Inl x \<Rightarrow> Inl x | Inr v \<Rightarrow> map_sum (\<lambda>x. x) ((#) v) rs, w2)))"

definition get_readiness :: "('w, readiness_check_result) io list \<Rightarrow> ('w, readiness_response) io" where
  "get_readiness readinessChecks =
    bind_io (promise_all readinessChecks) (\<lambda>checks. ret \<lparr>rd_status = ''ready'', rd_checks = checks\<rparr>)"

section \<open>Properties\<close>

text \<open>HTTP metrics and request logs have bounded labels and leave out platform polling. The
  route label is one of the four known routes or \<open>unmatched\<close>, whatever the request says;
  a query string never changes it; and for health and readiness traffic finishing a request
  records nothing: it only reads the clock.\<close>

lemma http_route_labels_are_bounded:
  "read_route req \<in> {''/demo/auth/login'', ''/graphql'', ''/health'', ''/ready'', ''unmatched''} \<and>
   read_route (req\<lparr>rq_routePath := None, rq_originalUrl := Some (p @ CHR ''?'' # q)\<rparr>) =
     read_route (req\<lparr>rq_routePath := None, rq_originalUrl := Some p\<rparr>) \<and>
   record_finished_http_request T L R req c t =
     (if read_route req = ''/health'' \<or> read_route req = ''/ready''
      then bind_io (on_env (tl_hrtime T)) (\<lambda>_. ret ())
      else record_finished_http_request T L R req c t)"
proof (intro conjI)
  show bounded: "read_route req \<in> {''/demo/auth/login'', ''/graphql'', ''/health'', ''/ready'', ''unmatched''}"
    unfolding read_route_def known_http_routes_def by (auto split: option.split)
  have "hd (js_split CHR ''?'' (p @ CHR ''?'' # q)) = hd (js_split CHR ''?'' p)"
  proof (induction p)
    case (Cons a p)
    then show ?case
      using js_split_nonempty [of "CHR ''?''" p] js_split_nonempty [of "CHR ''?''" "p @ CHR ''?'' # q"]
      by (auto split: list.split)
  qed simp
  then show "read_route (req\<lparr>rq_routePath := None, rq_originalUrl := Some (p @ CHR ''?'' # q)\<rparr>) =
     read_route (req\<lparr>rq_routePath := None, rq_originalUrl := Some p\<rparr>)"
    by (simp add: read_route_def routed_path_def request_path_def)
  show "record_finished_http_request T L R req c t =
     (if read_route req = ''/health'' \<or> read_route req = ''/ready''
      then bind_io (on_env (tl_hrtime T)) (\<lambda>_. ret ())
      else record_finished_http_request T L R req c t)"
    by (auto simp: record_finished_http_request_def should_record_http_request_def Let_def)
qed

text \<open>
  A response and a continuation that refuse unsafe values: setting a header to a value that is
  not a safe id, or going on without a sound request context, throws.
\<close>

definition guard_headers :: "'w http_response \<Rightarrow> 'w http_response" where
  "guard_headers R = R\<lparr>rs_setHeader := \<lambda>name v.
     if request_id_pattern v then rs_setHeader R name v else throw (Error ''unsafe header'')\<rparr>"

definition guard_context :: "('e request_world, unit) io \<Rightarrow> ('e request_world, unit) io" where
  "guard_context m = (\<lambda>(c, e). case c of
     Some rc \<Rightarrow> if request_context_inv rc then m (c, e) else (Inl (Error ''unsafe context''), (c, e))
   | None \<Rightarrow> (Inl (Error ''no context''), (c, e)))"

lemma guard_headers_ops:
  "rs_statusCode (guard_headers R) = rs_statusCode R" "rs_onFinish (guard_headers R) = rs_onFinish R"
  by (simp_all add: guard_headers_def)

lemma record_finished_guard:
  "record_finished_http_request T L (guard_headers R) = record_finished_http_request T L R"
  by (intro ext) (simp only: record_finished_http_request_def guard_headers_ops)

text \<open>C21: no unsafe text gets past the HTTP boundary. The middleware behaves exactly as it would with
  a response that refuses any header value that is not a safe id and a continuation that refuses
  to run without a sound request context: neither refusal ever fires, whatever headers the
  request has. Registering the finish listener leaves the async context alone.\<close>

theorem http_boundary_is_safe:
  assumes "generates_uuids T"
    and listener: "\<And>l w. fst (snd (rs_onFinish R l w)) = fst w"
  shows "request_context_use T L R req nxt = request_context_use T L (guard_headers R) req (guard_context nxt)"
proof
  fix w :: "'a request_world"
  obtain outer e where w: "w = (outer, e)" by fastforce
  let ?input = "\<lparr>ic_method = rq_method req, ic_path = or_else (rq_originalUrl req) (rq_url req),
      ic_correlationIdHeader = rq_headers req ''x-correlation-id'',
      ic_requestIdHeader = rq_headers req ''x-request-id'',
      ic_traceparentHeader = rq_headers req ''traceparent'',
      ic_tracestateHeader = rq_headers req ''tracestate'',
      ic_awsXAmznTraceIdHeader = rq_headers req ''x-amzn-trace-id'',
      ic_awsCloudfrontRequestIdHeader = rq_headers req ''x-amz-cf-id''\<rparr>"
  let ?rest = "\<lambda>R nxt t c. then_io (rs_setHeader R ''X-Correlation-Id'' (rc_correlationId c))
    (then_io (rs_setHeader R ''X-Request-Id'' (rc_requestId c))
    (run_with_request_context c (then_io (rs_onFinish R (record_finished_http_request T L R req c t)) nxt)))"
  have run: "run_with_request_context c (then_io (rs_onFinish R l) (guard_context nxt)) =
      run_with_request_context c (then_io (rs_onFinish R l) nxt)" if c: "request_context_inv c" for c l
  proof
    fix v :: "'a request_world"
    obtain r c' e' where "rs_onFinish R l (Some c, snd v) = (r, (c', e'))" by (metis prod.collapse)
    moreover have "c' = Some c" using listener [of l "(Some c, snd v)"] calculation by simp
    ultimately show "run_with_request_context c (then_io (rs_onFinish R l) (guard_context nxt)) v =
        run_with_request_context c (then_io (rs_onFinish R l) nxt) v"
      using c by (cases v) (simp add: run_with_request_context_def bind_io_def guard_context_def split: sum.split)
  qed
  have rest: "?rest (guard_headers R) (guard_context nxt) t c = ?rest R nxt t c"
    if "request_context_inv c" for c t
  proof -
    have "rs_setHeader (guard_headers R) n (rc_correlationId c) = rs_setHeader R n (rc_correlationId c)"
      "rs_setHeader (guard_headers R) n (rc_requestId c) = rs_setHeader R n (rc_requestId c)" for n
      using that by (simp_all add: guard_headers_def request_context_inv_def)
    then show ?thesis
      by (simp only: record_finished_guard guard_headers_ops run [OF that])
  qed
  obtain r e1 where t: "tl_hrtime T e = (r, e1)" by fastforce
  show "request_context_use T L R req nxt w = request_context_use T L (guard_headers R) req (guard_context nxt) w"
  proof (cases r)
    case (Inr startedAt)
    obtain c e2 where "create_request_context T ?input e1 = (Inr c, e2)" "request_context_inv c"
      using request_context_is_safe_core [OF assms(1), of ?input e1] by (auto split: prod.splits sum.splits)
    then show ?thesis
      using t Inr rest [of c startedAt]
      by (simp add: w request_context_use_def bind_io_def [where m = "on_env _"] on_env_app del: then_bind)
  qed (use t in \<open>simp add: w request_context_use_def bind_io_def on_env_app\<close>)
qed

definition sample_response :: "nat request_world http_response" where
  "sample_response = \<lparr>rs_setHeader = (\<lambda>_ _. ret ()), rs_onFinish = (\<lambda>_. ret ()), rs_statusCode = ret 200\<rparr>"

definition sample_request :: http_request where
  "sample_request = \<lparr>rq_method = Some ''GET'', rq_baseUrl = None, rq_originalUrl = Some ''/graphql?x=1'',
     rq_routePath = None, rq_url = None,
     rq_headers = (\<lambda>n. if n = ''x-request-id'' then Some (Header_One ''a b'') else None)\<rparr>"

theorem http_boundary_is_safe_witness:
  "request_context_use sample_telemetry (application_logger_of sample_telemetry) sample_response sample_request
      (throw (Error ''handler'')) =
   request_context_use sample_telemetry (application_logger_of sample_telemetry) (guard_headers sample_response)
      sample_request (guard_context (throw (Error ''handler'')))"
  by (rule http_boundary_is_safe [OF sample_generates]) (simp add: sample_response_def)

end
