(* ===== verification/Seeding.thy ===== *)
theory Seeding
  imports System
begin

text \<open>
  What the constructor of the in-memory store gives: from a consistent seed it builds a store
  that satisfies the invariant, holding exactly the seed. This is the state the service starts
  from.
\<close>

section \<open>Loops of the constructor\<close>

lemma for_each_modify: "for_each (\<lambda>x. modify (f x)) xs s = (Inr (), fold f xs s)"
  by (induction xs arbitrary: s) simp_all

lemma jm_set_new: "k \<notin> fst ` set m \<Longrightarrow> jm_set m k v = m @ [(k, v)]"
  unfolding jm_set_def by (induction m) auto

lemma fold_set_new:
  "distinct (List.map fst m @ List.map f xs) \<Longrightarrow>
    fold (\<lambda>x m. jm_set m (f x) x) xs m = m @ List.map (\<lambda>x. (f x, x)) xs"
  by (induction xs arbitrary: m) (auto simp: jm_set_new)

lemma fold_field:
  assumes "\<And>x s. f x s = upd (g x) s" "\<And>a b s. upd a (upd b s) = upd (\<lambda>m. a (b m)) s" "\<And>s. upd (\<lambda>m. m) s = s"
  shows "fold f xs s = upd (fold g xs) s"
proof (induction xs arbitrary: s)
  case Nil
  then show ?case using assms(3) [of s] by (simp add: id_def)
next
  case (Cons x xs)
  then show ?case by (simp add: assms(1,2) comp_def)
qed

section \<open>Saving the seeded requests\<close>

definition seeded_metadata :: "reservation_request list \<Rightarrow> (id, work_metadata) jsmap" where
  "seeded_metadata rs = List.map (\<lambda>(r, k). (rr_id r, initial_metadata (int k) None)) (zip rs [1..<Suc (length rs)])"

definition seeded :: "reservation_request list \<Rightarrow> store \<Rightarrow> store" where
  "seeded rs s = s\<lparr>db_reservationRequestsById := List.map (\<lambda>r. (rr_id r, r)) rs,
     db_workMetadataById := seeded_metadata rs, db_nextSequenceValue := int (length rs) + 1\<rparr>"

lemma seeded_metadata_snoc:
  "seeded_metadata (rs @ [r]) = seeded_metadata rs @ [(rr_id r, initial_metadata (int (length rs) + 1) None)]"
proof -
  have split: "[1..<Suc (length (rs @ [r]))] = [1..<Suc (length rs)] @ [Suc (length rs)]"
    by simp
  show ?thesis
    unfolding seeded_metadata_def split by (simp add: add.commute del: upt_Suc)
qed

lemma seeded_metadata_keys: "List.map fst (seeded_metadata rs) = List.map rr_id rs"
  by (induction rs rule: rev_induct) (simp_all add: seeded_metadata_snoc, simp add: seeded_metadata_def)

lemma save_seeded:
  assumes "rr_id r \<notin> rr_id ` set rs" "int (length rs) < max_safe_integer"
  shows "save_reservation_request r None (seeded rs s) = (Inr (), seeded (rs @ [r]) s)"
proof -
  have fresh: "rr_id r \<notin> fst ` set (seeded_metadata rs)"
    using assms(1) seeded_metadata_keys [of rs] by (metis list.set_map)
  have "jm_get (List.map (\<lambda>r. (rr_id r, r)) rs) (rr_id r) = None"
    using assms(1) by (auto simp: jm_get_def map_of_eq_None_iff)
  then have "\<not> jm_has (List.map (\<lambda>r. (rr_id r, r)) rs) (rr_id r)" by (simp add: jm_has_def)
  moreover have seq: "create_reservation_request_sequence (int (length rs) + 1) = Inr (int (length rs) + 1)"
    using assms(2) by simp
  ultimately show ?thesis
    using assms(1) fresh
    by (simp add: seq save_reservation_request_def allocate_sequence_def bind_io_def seeded_def set_request_def
        update_work_metadata_def jm_set_new image_image seeded_metadata_snoc)
qed

lemma save_all_seeded:
  assumes "distinct (List.map rr_id (done @ rs))" "int (length (done @ rs)) \<le> max_safe_integer"
  shows "for_each (\<lambda>x. save_reservation_request x None) rs (seeded done s) = (Inr (), seeded (done @ rs) s)"
  using assms
proof (induction rs arbitrary: "done")
  case (Cons r rs)
  have "save_reservation_request r None (seeded done s) = (Inr (), seeded (done @ [r]) s)"
    using Cons.prems by (intro save_seeded) auto
  moreover have "for_each (\<lambda>x. save_reservation_request x None) rs (seeded (done @ [r]) s) =
      (Inr (), seeded ((done @ [r]) @ rs) s)"
    using Cons.prems by (intro Cons.IH) auto
  ultimately show ?case by (simp add: bind_io_def)
qed simp

lemma seeded_empty: "s\<lparr>db_nextSequenceValue := 1, db_reservationRequestsById := [], db_workMetadataById := []\<rparr> = seeded [] s"
  by (simp add: seeded_def seeded_metadata_def)

section \<open>The constructed store\<close>

text \<open>A consistent seed.\<close>

definition seed_ok :: "store_input \<Rightarrow> bool" where
  "seed_ok input \<longleftrightarrow>
     (let rs = si_reservationRequests input; vs = si_reservations input in
      distinct (List.map rr_id rs) \<and> int (length rs) \<le> max_safe_integer \<and>
      list_all (\<lambda>r. request_ok r \<and> rr_status r \<noteq> PROCESSING) rs \<and>
      distinct (List.map rv_id vs) \<and> distinct (List.map rv_reservationRequestId vs) \<and>
      list_all (\<lambda>v. list_ex (\<lambda>r. rr_status r = CONFIRMED \<and> reservation_for r v) rs) vs \<and>
      list_all (\<lambda>r. rr_status r \<noteq> CONFIRMED \<or> rr_id r \<in> set (List.map rv_reservationRequestId vs)) rs \<and>
      list_all (\<lambda>v. list_all (\<lambda>w. rv_id v = rv_id w \<or> seats_disjoint v w) vs) vs)"

definition catalogue_of :: "store_input \<Rightarrow> store" where
  "catalogue_of input = empty_store\<lparr>
     db_movieProvidersById := fold (\<lambda>x m. jm_set m (mp_id x) x) (si_movieProviders input) [],
     db_auditoriumsById := fold (\<lambda>x m. jm_set m (au_id x) x) (si_auditoriums input) [],
     db_moviesById := fold (\<lambda>x m. jm_set m (mv_id x) x) (si_movies input) [],
     db_screeningsById := fold (\<lambda>x m. jm_set m (sc_id x) x) (si_screenings input) [],
     db_seatsById := fold (\<lambda>x m. jm_set m (st_id x) x) (si_seats input) []\<rparr>"

definition constructed :: "store_input \<Rightarrow> store" where
  "constructed input = (seeded (si_reservationRequests input) (catalogue_of input))\<lparr>
     db_reservationsById := List.map (\<lambda>v. (rv_id v, v)) (si_reservations input)\<rparr>"

lemma catalogue_folds:
  "fold (\<lambda>x s. s\<lparr>db_movieProvidersById := jm_set (db_movieProvidersById s) (mp_id x) x\<rparr>) a s =
     s\<lparr>db_movieProvidersById := fold (\<lambda>x m. jm_set m (mp_id x) x) a (db_movieProvidersById s)\<rparr>"
  "fold (\<lambda>x s. s\<lparr>db_auditoriumsById := jm_set (db_auditoriumsById s) (au_id x) x\<rparr>) b s =
     s\<lparr>db_auditoriumsById := fold (\<lambda>x m. jm_set m (au_id x) x) b (db_auditoriumsById s)\<rparr>"
  "fold (\<lambda>x s. s\<lparr>db_moviesById := jm_set (db_moviesById s) (mv_id x) x\<rparr>) c s =
     s\<lparr>db_moviesById := fold (\<lambda>x m. jm_set m (mv_id x) x) c (db_moviesById s)\<rparr>"
  "fold (\<lambda>x s. s\<lparr>db_screeningsById := jm_set (db_screeningsById s) (sc_id x) x\<rparr>) d s =
     s\<lparr>db_screeningsById := fold (\<lambda>x m. jm_set m (sc_id x) x) d (db_screeningsById s)\<rparr>"
  "fold (\<lambda>x s. s\<lparr>db_seatsById := jm_set (db_seatsById s) (st_id x) x\<rparr>) e s =
     s\<lparr>db_seatsById := fold (\<lambda>x m. jm_set m (st_id x) x) e (db_seatsById s)\<rparr>"
  "fold set_reservation f s =
     s\<lparr>db_reservationsById := fold (\<lambda>x m. jm_set m (rv_id x) x) f (db_reservationsById s)\<rparr>"
proof -
  show "fold (\<lambda>x s. s\<lparr>db_movieProvidersById := jm_set (db_movieProvidersById s) (mp_id x) x\<rparr>) a s =
     s\<lparr>db_movieProvidersById := fold (\<lambda>x m. jm_set m (mp_id x) x) a (db_movieProvidersById s)\<rparr>"
    by (induction a arbitrary: s) simp_all
  show "fold (\<lambda>x s. s\<lparr>db_auditoriumsById := jm_set (db_auditoriumsById s) (au_id x) x\<rparr>) b s =
     s\<lparr>db_auditoriumsById := fold (\<lambda>x m. jm_set m (au_id x) x) b (db_auditoriumsById s)\<rparr>"
    by (induction b arbitrary: s) simp_all
  show "fold (\<lambda>x s. s\<lparr>db_moviesById := jm_set (db_moviesById s) (mv_id x) x\<rparr>) c s =
     s\<lparr>db_moviesById := fold (\<lambda>x m. jm_set m (mv_id x) x) c (db_moviesById s)\<rparr>"
    by (induction c arbitrary: s) simp_all
  show "fold (\<lambda>x s. s\<lparr>db_screeningsById := jm_set (db_screeningsById s) (sc_id x) x\<rparr>) d s =
     s\<lparr>db_screeningsById := fold (\<lambda>x m. jm_set m (sc_id x) x) d (db_screeningsById s)\<rparr>"
    by (induction d arbitrary: s) simp_all
  show "fold (\<lambda>x s. s\<lparr>db_seatsById := jm_set (db_seatsById s) (st_id x) x\<rparr>) e s =
     s\<lparr>db_seatsById := fold (\<lambda>x m. jm_set m (st_id x) x) e (db_seatsById s)\<rparr>"
    by (induction e arbitrary: s) simp_all
  show "fold set_reservation f s =
     s\<lparr>db_reservationsById := fold (\<lambda>x m. jm_set m (rv_id x) x) f (db_reservationsById s)\<rparr>"
    by (induction f arbitrary: s) (simp_all add: set_reservation_def)
qed

lemma new_store_constructed:
  assumes "seed_ok input"
  shows "new_store input empty_store = (Inr (),
    fold record_processing_attempt (case si_processingAttempts input of None \<Rightarrow> [] | Some as \<Rightarrow> as) (constructed input))"
proof -
  let ?rs = "si_reservationRequests input" and ?vs = "si_reservations input"
  have ok: "distinct (List.map rr_id ([] @ ?rs))" "int (length ([] @ ?rs)) \<le> max_safe_integer"
    "distinct (List.map fst [] @ List.map rv_id ?vs)"
    using assms by (simp_all add: seed_ok_def Let_def)
  have start: "catalogue_of input = seeded [] (catalogue_of input)"
    by (simp add: seeded_def seeded_metadata_def catalogue_of_def empty_store_def)
  have saved: "for_each (\<lambda>x. save_reservation_request x None) ?rs (catalogue_of input) =
      (Inr (), seeded ?rs (catalogue_of input))"
    using save_all_seeded [OF ok(1,2), of "catalogue_of input"] by (simp add: start [symmetric])
  have cat: "empty_store\<lparr>
     db_movieProvidersById := fold (\<lambda>x m. jm_set m (mp_id x) x) (si_movieProviders input) (db_movieProvidersById empty_store),
     db_auditoriumsById := fold (\<lambda>x m. jm_set m (au_id x) x) (si_auditoriums input) (db_auditoriumsById empty_store),
     db_moviesById := fold (\<lambda>x m. jm_set m (mv_id x) x) (si_movies input) (db_moviesById empty_store),
     db_screeningsById := fold (\<lambda>x m. jm_set m (sc_id x) x) (si_screenings input) (db_screeningsById empty_store),
     db_seatsById := fold (\<lambda>x m. jm_set m (st_id x) x) (si_seats input) (db_seatsById empty_store)\<rparr> = catalogue_of input"
    by (simp add: catalogue_of_def empty_store_def)
  have res: "(seeded ?rs (catalogue_of input))\<lparr>db_reservationsById :=
      fold (\<lambda>x m. jm_set m (rv_id x) x) ?vs (db_reservationsById (seeded ?rs (catalogue_of input)))\<rparr> = constructed input"
    using fold_set_new [OF ok(3)] by (simp add: constructed_def seeded_def catalogue_of_def empty_store_def)
  show ?thesis
    by (simp add: new_store_def bind_io_def for_each_modify catalogue_folds saved cat res)
qed

section \<open>The invariant of the constructed store\<close>

lemma constructed_view:
  "view (constructed input) = \<lparr>lg_request = map_of (List.map (\<lambda>r. (rr_id r, r)) (si_reservationRequests input)),
     lg_metadata = map_of (seeded_metadata (si_reservationRequests input)),
     lg_reservation = map_of (List.map (\<lambda>v. (rv_id v, v)) (si_reservations input)),
     lg_attempts = (\<lambda>i. []), lg_next = int (length (si_reservationRequests input)) + 1\<rparr>"
  by (simp add: view_def constructed_def seeded_def catalogue_of_def empty_store_def jm_get_def fun_eq_iff)

lemma map_of_by_key:
  "distinct (List.map f xs) \<Longrightarrow> map_of (List.map (\<lambda>x. (f x, x)) xs) i = Some x \<longleftrightarrow> x \<in> set xs \<and> f x = i"
  by (subst map_of_eq_Some_iff) (auto simp: comp_def)

lemma seeded_metadata_nth:
  "length (seeded_metadata rs) = length rs"
  "k < length rs \<Longrightarrow> seeded_metadata rs ! k = (rr_id (rs ! k), initial_metadata (int k + 1) None)"
  by (simp_all add: seeded_metadata_def add.commute del: upt_Suc)

lemma seeded_metadata_at:
  assumes "distinct (List.map rr_id rs)"
  shows "map_of (seeded_metadata rs) i = Some m \<longleftrightarrow>
    (\<exists>k < length rs. rr_id (rs ! k) = i \<and> m = initial_metadata (int k + 1) None)"
proof -
  have "map_of (seeded_metadata rs) i = Some m \<longleftrightarrow> (i, m) \<in> set (seeded_metadata rs)"
    using assms seeded_metadata_keys [of rs] by (intro map_of_eq_Some_iff) simp
  also have "\<dots> \<longleftrightarrow> (\<exists>k < length rs. rr_id (rs ! k) = i \<and> m = initial_metadata (int k + 1) None)"
    by (auto simp: in_set_conv_nth seeded_metadata_nth)
  finally show ?thesis .
qed

lemma initial_claim_state: "rr_status r \<noteq> PROCESSING \<Longrightarrow> claim_state_ok r (initial_metadata k None)"
  by (simp add: claim_state_ok_def claim_fields_absent_def cleared_metadata_def initial_metadata_def)

lemma constructed_inv:
  assumes "seed_ok input"
  shows "store_inv (constructed input)"
proof -
  let ?rs = "si_reservationRequests input" and ?vs = "si_reservations input"
  have seed: "distinct (List.map rr_id ?rs)" "int (length ?rs) \<le> max_safe_integer"
    "\<And>r. r \<in> set ?rs \<Longrightarrow> request_ok r \<and> rr_status r \<noteq> PROCESSING"
    "distinct (List.map rv_id ?vs)" "distinct (List.map rv_reservationRequestId ?vs)"
    "\<And>v. v \<in> set ?vs \<Longrightarrow> \<exists>r \<in> set ?rs. rr_status r = CONFIRMED \<and> reservation_for r v"
    "\<And>r. r \<in> set ?rs \<Longrightarrow> rr_status r = CONFIRMED \<Longrightarrow> \<exists>v \<in> set ?vs. rv_reservationRequestId v = rr_id r"
    "\<And>v w. v \<in> set ?vs \<Longrightarrow> w \<in> set ?vs \<Longrightarrow> rv_id v \<noteq> rv_id w \<Longrightarrow> seats_disjoint v w"
    using assms unfolding seed_ok_def Let_def by (simp_all add: list_all_iff list_ex_iff, force+)
  note req = map_of_by_key [OF seed(1)] and res = map_of_by_key [OF seed(4)]
    and md = seeded_metadata_at [OF seed(1)]
  have "requests_ok (view (constructed input))"
  proof -
    have "fst ` set (seeded_metadata ?rs) = rr_id ` set ?rs"
      using seeded_metadata_keys [of ?rs] by (metis list.set_map)
    then have "map_of (List.map (\<lambda>r. (rr_id r, r)) ?rs) i = None \<longleftrightarrow> map_of (seeded_metadata ?rs) i = None" for i
      by (simp add: map_of_eq_None_iff image_image)
    then show ?thesis
      unfolding requests_ok_def constructed_view
      by (auto simp: req md seed(3) initial_claim_state)
  qed
  moreover have "sequences_ok (view (constructed input))"
    unfolding sequences_ok_def constructed_view
    using seed(2) by (auto simp: md initial_metadata_def)
  moreover have "reservations_ok (view (constructed input))"
  proof -
    have "\<exists>r \<in> set ?rs. rr_id r = rv_reservationRequestId v \<and> rr_status r = CONFIRMED \<and> reservation_for r v"
      if "v \<in> set ?vs" for v
      using seed(6) [OF that] by (fastforce simp: reservation_for_def)
    moreover have "rv_id v = rv_id w" if "v \<in> set ?vs" "w \<in> set ?vs"
      "rv_reservationRequestId v = rv_reservationRequestId w" for v w
      using that seed(5) by (auto simp: distinct_map dest: inj_onD)
    ultimately show ?thesis
      unfolding reservations_ok_def constructed_view ledger.simps req res
      using seed(7) by (intro conjI allI impI) (metis | blast)+
  qed
  moreover have "no_double_booking (view (constructed input))"
    unfolding no_double_booking_def constructed_view using seed(8) by (auto simp: res)
  moreover have "attempts_ok (view (constructed input))"
    unfolding attempts_ok_def constructed_view by simp
  moreover have "maps_ok (constructed input)"
    using seed(1,4) seeded_metadata_keys [of ?rs]
    by (simp add: maps_ok_def jm_inv_def constructed_def seeded_def catalogue_of_def empty_store_def comp_def)
  ultimately show ?thesis by (simp add: store_inv_def ledger_inv_def)
qed

lemma record_attempts_inv: "store_inv s \<Longrightarrow> store_inv (fold record_processing_attempt as s)"
  by (induction "as" arbitrary: s) (simp_all add: store_inv_def store_simps)

lemma record_attempts_catalogue:
  "db_reservationRequestsById (fold record_processing_attempt as s) = db_reservationRequestsById s"
  "db_reservationsById (fold record_processing_attempt as s) = db_reservationsById s"
  "db_workMetadataById (fold record_processing_attempt as s) = db_workMetadataById s"
  "db_nextSequenceValue (fold record_processing_attempt as s) = db_nextSequenceValue s"
  by (induction "as" arbitrary: s) (simp_all add: record_processing_attempt_def Let_def)

lemma constructor_invariant:
  assumes "seed_ok input"
  shows "case create_store input of
      Inr s \<Rightarrow> store_inv s \<and> jm_values (db_reservationRequestsById s) = si_reservationRequests input \<and>
        jm_values (db_reservationsById s) = si_reservations input \<and>
        List.map md_sequence (jm_values (db_workMetadataById s)) = List.map int [1..<Suc (length (si_reservationRequests input))] \<and>
        db_nextSequenceValue s = int (length (si_reservationRequests input)) + 1
    | Inl e \<Rightarrow> False"
proof -
  let ?as = "case si_processingAttempts input of None \<Rightarrow> [] | Some as \<Rightarrow> as"
  have run: "create_store input = Inr (fold record_processing_attempt ?as (constructed input))"
    using new_store_constructed [OF assms] by (simp add: create_store_def)
  have sound: "store_inv (fold record_processing_attempt ?as (constructed input))"
    by (rule record_attempts_inv) (rule constructed_inv [OF assms])
  have "List.map md_sequence (jm_values (seeded_metadata rs)) = List.map int [1..<Suc (length rs)]" for rs
    by (induction rs rule: rev_induct) (simp_all add: jm_values_def seeded_metadata_snoc initial_metadata_def,
      simp add: seeded_metadata_def)
  then show "case create_store input of
      Inr s \<Rightarrow> store_inv s \<and> jm_values (db_reservationRequestsById s) = si_reservationRequests input \<and>
        jm_values (db_reservationsById s) = si_reservations input \<and>
        List.map md_sequence (jm_values (db_workMetadataById s)) = List.map int [1..<Suc (length (si_reservationRequests input))] \<and>
        db_nextSequenceValue s = int (length (si_reservationRequests input)) + 1
    | Inl e \<Rightarrow> False"
    using sound
    by (simp add: run record_attempts_catalogue constructed_def seeded_def catalogue_of_def jm_values_def comp_def
        del: upt_Suc)
qed


end
