(* ===== verification/Demo_Data.thy ===== *)
theory Demo_Data
  imports Seeding
begin

text \<open>
  The demo catalogue (\<open>src/src/infrastructure/fixtures/movie-reservations/movie-reservation-demo-data.ts\<close>)
  that seeds the in-memory store, and what seeding gives: the store the service starts from is
  well formed. An object literal is the association list of its properties.
\<close>

section \<open>Object properties\<close>

definition obj_prop :: "(string \<times> string) list \<Rightarrow> string \<Rightarrow> string" where
  "obj_prop obj key = (case map_of obj key of Some v \<Rightarrow> v | None \<Rightarrow> [])"

text \<open>\<open>{ k: create(ids.k), ... }\<close>\<close>

definition create_ids :: "(string \<Rightarrow> js_error + id) \<Rightarrow> (string \<times> string) list \<Rightarrow> js_error + (string \<times> id) list" where
  "create_ids create ids = map_err (\<lambda>(key, v). bind_err (create v) (\<lambda>i. Inr (key, i))) ids"

section \<open>The seat grid\<close>

record fixed_seat_id =
  fs_row :: string
  fs_number :: nat
  fs_id :: id

record seat_grid_input =
  sg_movieProviderId :: id
  sg_auditoriumId :: id
  sg_rows :: "string list"
  sg_seatsPerRow :: nat
  sg_generatedIdStart :: nat
  sg_fixedSeatIds :: "fixed_seat_id list"

definition format_seat_key :: "string \<Rightarrow> nat \<Rightarrow> string" where
  "format_seat_key row number = row @ CHR '':'' # nat_str number"

definition pad_start :: "nat \<Rightarrow> char \<Rightarrow> string \<Rightarrow> string" where
  "pad_start width c s = replicate (width - length s) c @ s"

definition create_generated_seat_id :: "nat \<Rightarrow> string" where
  "create_generated_seat_id sequence = ''66666666-6666-4666-8666-666666666'' @ pad_start 3 CHR ''0'' (nat_str sequence)"

definition grid_seat :: "seat_grid_input \<Rightarrow> (string, id) jsmap \<Rightarrow> string \<Rightarrow> nat \<Rightarrow> nat \<Rightarrow> js_error + seat" where
  "grid_seat input fixedSeatIds row rowIndex seatIndex =
    (let number = seatIndex + 1 in
     bind_err (create_seat_id (create_generated_seat_id
       (sg_generatedIdStart input + rowIndex * sg_seatsPerRow input + seatIndex))) (\<lambda>generatedSeatId.
     Inr \<lparr>st_id = (case jm_get fixedSeatIds (format_seat_key row number) of Some i \<Rightarrow> i | None \<Rightarrow> generatedSeatId),
          st_movieProviderId = sg_movieProviderId input, st_auditoriumId = sg_auditoriumId input,
          st_row = row, st_number = int number\<rparr>))"

fun grid_rows :: "seat_grid_input \<Rightarrow> (string, id) jsmap \<Rightarrow> string list \<Rightarrow> nat \<Rightarrow> js_error + seat list" where
  "grid_rows input fixedSeatIds [] rowIndex = Inr []"
| "grid_rows input fixedSeatIds (row # rows) rowIndex =
    bind_err (map_err (grid_seat input fixedSeatIds row rowIndex) [0..<sg_seatsPerRow input]) (\<lambda>seats.
    bind_err (grid_rows input fixedSeatIds rows (rowIndex + 1)) (\<lambda>others. Inr (seats @ others)))"

definition create_seat_grid :: "seat_grid_input \<Rightarrow> js_error + seat list" where
  "create_seat_grid input =
    grid_rows input
      (jm_new (List.map (\<lambda>s. (format_seat_key (fs_row s) (fs_number s), fs_id s)) (sg_fixedSeatIds input)))
      (sg_rows input) 0"

section \<open>The catalogue\<close>

definition demo_provider_ids :: "(string \<times> string) list" where
  "demo_provider_ids = [(''aurora'', ''11111111-1111-4111-8111-111111111111''),
     (''riverton'', ''22222222-2222-4222-8222-222222222222'')]"

definition demo_provider_codes :: "(string \<times> string) list" where
  "demo_provider_codes = [(''aurora'', ''aurora-silver-maple''),
     (''riverton'', ''riverton-picture-house'')]"

definition demo_auditorium_ids :: "(string \<times> string) list" where
  "demo_auditorium_ids = [(''auroraMain'', ''33333333-3333-4333-8333-333333333331''),
     (''auroraStudio'', ''33333333-3333-4333-8333-333333333333''),
     (''auroraGrand'', ''33333333-3333-4333-8333-333333333334''),
     (''rivertonOne'', ''33333333-3333-4333-8333-333333333332'')]"

definition demo_movie_ids :: "(string \<times> string) list" where
  "demo_movie_ids = [(''auroraShawshankRedemption'', ''44444444-4444-4444-8444-444444444434''),
     (''auroraMatrix'', ''44444444-4444-4444-8444-444444444435''),
     (''auroraEmpireStrikesBack'', ''44444444-4444-4444-8444-444444444436''),
     (''auroraStarWarsNewHope'', ''44444444-4444-4444-8444-444444444437''),
     (''auroraDarkKnight'', ''44444444-4444-4444-8444-444444444438''),
     (''auroraArlingtonRoad'', ''44444444-4444-4444-8444-444444444439''),
     (''auroraTypeSafeMatinee'', ''44444444-4444-4444-8444-444444444441''),
     (''auroraFargateAtMidnight'', ''44444444-4444-4444-8444-444444444442''),
     (''rivertonLastDeployment'', ''44444444-4444-4444-8444-444444444443''),
     (''rivertonCasablanca'', ''44444444-4444-4444-8444-444444444444'')]"

definition demo_screening_ids :: "(string \<times> string) list" where
  "demo_screening_ids = [(''auroraShawshankEvening'', ''55555555-5555-4555-8555-555555555541''),
     (''auroraMatrixLate'', ''55555555-5555-4555-8555-555555555542''),
     (''auroraEmpireStrikesBackMatinee'', ''55555555-5555-4555-8555-555555555543''),
     (''auroraStarWarsNewHopeAfternoon'', ''55555555-5555-4555-8555-555555555544''),
     (''auroraDarkKnightEvening'', ''55555555-5555-4555-8555-555555555545''),
     (''auroraArlingtonRoadLate'', ''55555555-5555-4555-8555-555555555546''),
     (''auroraTypeSafeMatineeMorning'', ''55555555-5555-4555-8555-555555555551''),
     (''auroraFargateAtMidnightAfternoon'', ''55555555-5555-4555-8555-555555555552''),
     (''rivertonLastDeploymentMorning'', ''55555555-5555-4555-8555-555555555553''),
     (''rivertonCasablancaAfternoon'', ''55555555-5555-4555-8555-555555555554'')]"

definition demo_seat_ids :: "(string \<times> string) list" where
  "demo_seat_ids = [(''auroraA1'', ''66666666-6666-4666-8666-666666666661''),
     (''auroraA2'', ''66666666-6666-4666-8666-666666666662''),
     (''auroraA3'', ''66666666-6666-4666-8666-666666666663''),
     (''rivertonB3'', ''66666666-6666-4666-8666-666666666664'')]"

definition demo_request_ids :: "(string \<times> string) list" where
  "demo_request_ids = [(''auroraAda'', ''77777777-7777-4777-8777-777777777771''),
     (''rivertonLinus'', ''77777777-7777-4777-8777-777777777772'')]"

definition demo_reservation_ids :: "(string \<times> string) list" where
  "demo_reservation_ids = [(''auroraAda'', ''88888888-8888-4888-8888-888888888881''),
     (''rivertonLinus'', ''88888888-8888-4888-8888-888888888882'')]"

definition demo_movie_providers :: "(string \<times> string) list \<Rightarrow> movie_provider list" where
  "demo_movie_providers providerIds =
    [\<lparr>mp_id = obj_prop providerIds ''aurora'', mp_code = obj_prop demo_provider_codes ''aurora'', mp_name = ''Aurora Cinema Group''\<rparr>,
     \<lparr>mp_id = obj_prop providerIds ''riverton'', mp_code = obj_prop demo_provider_codes ''riverton'', mp_name = ''Riverton Picture House''\<rparr>]"

definition demo_auditoriums :: "(string \<times> string) list \<Rightarrow> (string \<times> string) list \<Rightarrow> auditorium list" where
  "demo_auditoriums providerIds auditoriumIds =
    [\<lparr>au_id = obj_prop auditoriumIds ''auroraMain'', au_movieProviderId = obj_prop providerIds ''aurora'', au_name = ''Aurora Main Hall''\<rparr>,
     \<lparr>au_id = obj_prop auditoriumIds ''auroraStudio'', au_movieProviderId = obj_prop providerIds ''aurora'', au_name = ''Aurora Studio Two''\<rparr>,
     \<lparr>au_id = obj_prop auditoriumIds ''auroraGrand'', au_movieProviderId = obj_prop providerIds ''aurora'', au_name = ''Aurora Grand Screen''\<rparr>,
     \<lparr>au_id = obj_prop auditoriumIds ''rivertonOne'', au_movieProviderId = obj_prop providerIds ''riverton'', au_name = ''Riverton Screen 1''\<rparr>]"

definition demo_movies :: "(string \<times> string) list \<Rightarrow> (string \<times> string) list \<Rightarrow> movie list" where
  "demo_movies providerIds movieIds =
    [\<lparr>mv_id = obj_prop movieIds ''auroraShawshankRedemption'', mv_movieProviderId = obj_prop providerIds ''aurora'', mv_title = ''The Shawshank Redemption'', mv_rating = ''R'', mv_durationMinutes = 142\<rparr>,
     \<lparr>mv_id = obj_prop movieIds ''auroraMatrix'', mv_movieProviderId = obj_prop providerIds ''aurora'', mv_title = ''The Matrix'', mv_rating = ''R'', mv_durationMinutes = 136\<rparr>,
     \<lparr>mv_id = obj_prop movieIds ''auroraEmpireStrikesBack'', mv_movieProviderId = obj_prop providerIds ''aurora'', mv_title = ''Star Wars: Episode V - The Empire Strikes Back'', mv_rating = ''PG'', mv_durationMinutes = 124\<rparr>,
     \<lparr>mv_id = obj_prop movieIds ''auroraStarWarsNewHope'', mv_movieProviderId = obj_prop providerIds ''aurora'', mv_title = ''Star Wars: Episode IV - A New Hope'', mv_rating = ''PG'', mv_durationMinutes = 121\<rparr>,
     \<lparr>mv_id = obj_prop movieIds ''auroraDarkKnight'', mv_movieProviderId = obj_prop providerIds ''aurora'', mv_title = ''The Dark Knight'', mv_rating = ''PG-13'', mv_durationMinutes = 152\<rparr>,
     \<lparr>mv_id = obj_prop movieIds ''auroraArlingtonRoad'', mv_movieProviderId = obj_prop providerIds ''aurora'', mv_title = ''Arlington Road'', mv_rating = ''R'', mv_durationMinutes = 117\<rparr>,
     \<lparr>mv_id = obj_prop movieIds ''auroraTypeSafeMatinee'', mv_movieProviderId = obj_prop providerIds ''aurora'', mv_title = ''The Type-Safe Matinee'', mv_rating = ''PG'', mv_durationMinutes = 102\<rparr>,
     \<lparr>mv_id = obj_prop movieIds ''auroraFargateAtMidnight'', mv_movieProviderId = obj_prop providerIds ''aurora'', mv_title = ''Fargate at Midnight'', mv_rating = ''PG-13'', mv_durationMinutes = 118\<rparr>,
     \<lparr>mv_id = obj_prop movieIds ''rivertonLastDeployment'', mv_movieProviderId = obj_prop providerIds ''riverton'', mv_title = ''The Last Deployment'', mv_rating = ''PG'', mv_durationMinutes = 96\<rparr>,
     \<lparr>mv_id = obj_prop movieIds ''rivertonCasablanca'', mv_movieProviderId = obj_prop providerIds ''riverton'', mv_title = ''Casablanca'', mv_rating = ''PG'', mv_durationMinutes = 102\<rparr>]"

definition demo_screenings :: "(string \<times> string) list \<Rightarrow> (string \<times> string) list \<Rightarrow> (string \<times> string) list \<Rightarrow> (string \<times> string) list \<Rightarrow> screening list" where
  "demo_screenings providerIds auditoriumIds movieIds screeningIds =
    [\<lparr>sc_id = obj_prop screeningIds ''auroraShawshankEvening'', sc_movieProviderId = obj_prop providerIds ''aurora'', sc_movieId = obj_prop movieIds ''auroraShawshankRedemption'', sc_auditoriumId = obj_prop auditoriumIds ''auroraGrand'', sc_startsAt = ''2026-06-01T18:30:00.000Z'', sc_endsAt = ''2026-06-01T20:52:00.000Z''\<rparr>,
     \<lparr>sc_id = obj_prop screeningIds ''auroraMatrixLate'', sc_movieProviderId = obj_prop providerIds ''aurora'', sc_movieId = obj_prop movieIds ''auroraMatrix'', sc_auditoriumId = obj_prop auditoriumIds ''auroraStudio'', sc_startsAt = ''2026-06-01T21:30:00.000Z'', sc_endsAt = ''2026-06-01T23:46:00.000Z''\<rparr>,
     \<lparr>sc_id = obj_prop screeningIds ''auroraEmpireStrikesBackMatinee'', sc_movieProviderId = obj_prop providerIds ''aurora'', sc_movieId = obj_prop movieIds ''auroraEmpireStrikesBack'', sc_auditoriumId = obj_prop auditoriumIds ''auroraGrand'', sc_startsAt = ''2026-06-02T14:00:00.000Z'', sc_endsAt = ''2026-06-02T16:04:00.000Z''\<rparr>,
     \<lparr>sc_id = obj_prop screeningIds ''auroraStarWarsNewHopeAfternoon'', sc_movieProviderId = obj_prop providerIds ''aurora'', sc_movieId = obj_prop movieIds ''auroraStarWarsNewHope'', sc_auditoriumId = obj_prop auditoriumIds ''auroraMain'', sc_startsAt = ''2026-06-02T16:30:00.000Z'', sc_endsAt = ''2026-06-02T18:31:00.000Z''\<rparr>,
     \<lparr>sc_id = obj_prop screeningIds ''auroraDarkKnightEvening'', sc_movieProviderId = obj_prop providerIds ''aurora'', sc_movieId = obj_prop movieIds ''auroraDarkKnight'', sc_auditoriumId = obj_prop auditoriumIds ''auroraGrand'', sc_startsAt = ''2026-06-02T19:30:00.000Z'', sc_endsAt = ''2026-06-02T22:02:00.000Z''\<rparr>,
     \<lparr>sc_id = obj_prop screeningIds ''auroraArlingtonRoadLate'', sc_movieProviderId = obj_prop providerIds ''aurora'', sc_movieId = obj_prop movieIds ''auroraArlingtonRoad'', sc_auditoriumId = obj_prop auditoriumIds ''auroraStudio'', sc_startsAt = ''2026-06-02T22:20:00.000Z'', sc_endsAt = ''2026-06-03T00:17:00.000Z''\<rparr>,
     \<lparr>sc_id = obj_prop screeningIds ''auroraTypeSafeMatineeMorning'', sc_movieProviderId = obj_prop providerIds ''aurora'', sc_movieId = obj_prop movieIds ''auroraTypeSafeMatinee'', sc_auditoriumId = obj_prop auditoriumIds ''auroraMain'', sc_startsAt = ''2026-06-01T09:00:00.000Z'', sc_endsAt = ''2026-06-01T10:42:00.000Z''\<rparr>,
     \<lparr>sc_id = obj_prop screeningIds ''auroraFargateAtMidnightAfternoon'', sc_movieProviderId = obj_prop providerIds ''aurora'', sc_movieId = obj_prop movieIds ''auroraFargateAtMidnight'', sc_auditoriumId = obj_prop auditoriumIds ''auroraStudio'', sc_startsAt = ''2026-06-01T13:00:00.000Z'', sc_endsAt = ''2026-06-01T14:58:00.000Z''\<rparr>,
     \<lparr>sc_id = obj_prop screeningIds ''rivertonLastDeploymentMorning'', sc_movieProviderId = obj_prop providerIds ''riverton'', sc_movieId = obj_prop movieIds ''rivertonLastDeployment'', sc_auditoriumId = obj_prop auditoriumIds ''rivertonOne'', sc_startsAt = ''2026-06-02T10:00:00.000Z'', sc_endsAt = ''2026-06-02T11:36:00.000Z''\<rparr>,
     \<lparr>sc_id = obj_prop screeningIds ''rivertonCasablancaAfternoon'', sc_movieProviderId = obj_prop providerIds ''riverton'', sc_movieId = obj_prop movieIds ''rivertonCasablanca'', sc_auditoriumId = obj_prop auditoriumIds ''rivertonOne'', sc_startsAt = ''2026-06-02T15:00:00.000Z'', sc_endsAt = ''2026-06-02T16:42:00.000Z''\<rparr>]"

definition demo_seats :: "(string \<times> string) list \<Rightarrow> (string \<times> string) list \<Rightarrow> (string \<times> string) list \<Rightarrow> js_error + seat list" where
  "demo_seats providerIds auditoriumIds seatIds =
    bind_err (create_seat_grid \<lparr>sg_movieProviderId = obj_prop providerIds ''aurora'',
      sg_auditoriumId = obj_prop auditoriumIds ''auroraMain'', sg_rows = [''A'', ''B'', ''C'', ''D''],
      sg_seatsPerRow = 8, sg_generatedIdStart = 700,
      sg_fixedSeatIds = [\<lparr>fs_row = ''A'', fs_number = 1, fs_id = obj_prop seatIds ''auroraA1''\<rparr>,
        \<lparr>fs_row = ''A'', fs_number = 2, fs_id = obj_prop seatIds ''auroraA2''\<rparr>,
        \<lparr>fs_row = ''A'', fs_number = 3, fs_id = obj_prop seatIds ''auroraA3''\<rparr>]\<rparr>) (\<lambda>mainSeats.
    bind_err (create_seat_grid \<lparr>sg_movieProviderId = obj_prop providerIds ''aurora'',
      sg_auditoriumId = obj_prop auditoriumIds ''auroraStudio'', sg_rows = [''A'', ''B'', ''C''],
      sg_seatsPerRow = 6, sg_generatedIdStart = 740, sg_fixedSeatIds = []\<rparr>) (\<lambda>studioSeats.
    bind_err (create_seat_grid \<lparr>sg_movieProviderId = obj_prop providerIds ''aurora'',
      sg_auditoriumId = obj_prop auditoriumIds ''auroraGrand'', sg_rows = [''A'', ''B'', ''C'', ''D'', ''E''],
      sg_seatsPerRow = 10, sg_generatedIdStart = 760, sg_fixedSeatIds = []\<rparr>) (\<lambda>grandSeats.
    bind_err (create_seat_grid \<lparr>sg_movieProviderId = obj_prop providerIds ''riverton'',
      sg_auditoriumId = obj_prop auditoriumIds ''rivertonOne'', sg_rows = [''A'', ''B'', ''C'', ''D''],
      sg_seatsPerRow = 6, sg_generatedIdStart = 840,
      sg_fixedSeatIds = [\<lparr>fs_row = ''B'', fs_number = 3, fs_id = obj_prop seatIds ''rivertonB3''\<rparr>]\<rparr>) (\<lambda>rivertonSeats.
    Inr (mainSeats @ studioSeats @ grandSeats @ rivertonSeats)))))"

definition demo_requests :: "(string \<times> string) list \<Rightarrow> (string \<times> string) list \<Rightarrow> (string \<times> string) list \<Rightarrow>
    (string \<times> string) list \<Rightarrow> js_error + reservation_request list" where
  "demo_requests providerIds screeningIds seatIds requestIds =
    bind_err (create_user_id ''user-ada'') (\<lambda>ada.
    bind_err (create_user_id ''user-linus'') (\<lambda>linus.
    Inr [\<lparr>rr_id = obj_prop requestIds ''auroraAda'', rr_movieProviderId = obj_prop providerIds ''aurora'',
          rr_screeningId = obj_prop screeningIds ''auroraTypeSafeMatineeMorning'',
          rr_seatIds = [obj_prop seatIds ''auroraA1'', obj_prop seatIds ''auroraA2''],
          rr_requestedByUserId = ada, rr_status = CONFIRMED\<rparr>,
         \<lparr>rr_id = obj_prop requestIds ''rivertonLinus'', rr_movieProviderId = obj_prop providerIds ''riverton'',
          rr_screeningId = obj_prop screeningIds ''rivertonLastDeploymentMorning'',
          rr_seatIds = [obj_prop seatIds ''rivertonB3''],
          rr_requestedByUserId = linus, rr_status = CONFIRMED\<rparr>]))"

definition demo_reservations :: "(string \<times> string) list \<Rightarrow> (string \<times> string) list \<Rightarrow> (string \<times> string) list \<Rightarrow>
    (string \<times> string) list \<Rightarrow> js_error + reservation list" where
  "demo_reservations providerIds screeningIds seatIds requestIds =
    bind_err (create_reservation_id (obj_prop demo_reservation_ids ''auroraAda'')) (\<lambda>adaId.
    bind_err (create_user_id ''user-ada'') (\<lambda>ada.
    bind_err (create_reservation \<lparr>rv_id = adaId, rv_movieProviderId = obj_prop providerIds ''aurora'',
      rv_reservationRequestId = obj_prop requestIds ''auroraAda'',
      rv_screeningId = obj_prop screeningIds ''auroraTypeSafeMatineeMorning'',
      rv_seatIds = [obj_prop seatIds ''auroraA1'', obj_prop seatIds ''auroraA2''],
      rv_reservedByUserId = ada, rv_confirmedAt = ''2026-06-01T09:05:00.000Z''\<rparr>) (\<lambda>adaReservation.
    bind_err (create_reservation_id (obj_prop demo_reservation_ids ''rivertonLinus'')) (\<lambda>linusId.
    bind_err (create_user_id ''user-linus'') (\<lambda>linus.
    bind_err (create_reservation \<lparr>rv_id = linusId, rv_movieProviderId = obj_prop providerIds ''riverton'',
      rv_reservationRequestId = obj_prop requestIds ''rivertonLinus'',
      rv_screeningId = obj_prop screeningIds ''rivertonLastDeploymentMorning'',
      rv_seatIds = [obj_prop seatIds ''rivertonB3''],
      rv_reservedByUserId = linus, rv_confirmedAt = ''2026-06-02T10:15:00.000Z''\<rparr>) (\<lambda>linusReservation.
    Inr [adaReservation, linusReservation]))))))"

definition create_movie_reservation_demo_data :: "js_error + store_input" where
  "create_movie_reservation_demo_data =
    bind_err (create_ids create_movie_provider_id demo_provider_ids) (\<lambda>providerIds.
    bind_err (create_ids create_auditorium_id demo_auditorium_ids) (\<lambda>auditoriumIds.
    bind_err (create_ids create_movie_id demo_movie_ids) (\<lambda>movieIds.
    bind_err (create_ids create_screening_id demo_screening_ids) (\<lambda>screeningIds.
    bind_err (create_ids create_seat_id demo_seat_ids) (\<lambda>seatIds.
    bind_err (create_ids create_reservation_request_id demo_request_ids) (\<lambda>requestIds.
    bind_err (demo_seats providerIds auditoriumIds seatIds) (\<lambda>seats.
    bind_err (demo_requests providerIds screeningIds seatIds requestIds) (\<lambda>requests.
    bind_err (demo_reservations providerIds screeningIds seatIds requestIds) (\<lambda>reservations.
    Inr \<lparr>si_movieProviders = demo_movie_providers providerIds,
         si_auditoriums = demo_auditoriums providerIds auditoriumIds,
         si_movies = demo_movies providerIds movieIds,
         si_screenings = demo_screenings providerIds auditoriumIds movieIds screeningIds,
         si_seats = seats, si_reservationRequests = requests, si_reservations = reservations,
         si_processingAttempts = None\<rparr>)))))))))"

definition create_in_memory_seed_data :: "js_error + store_input" where
  "create_in_memory_seed_data = create_movie_reservation_demo_data"

section \<open>Ids of the demo data\<close>

text \<open>The ids of the demo data consist of decimal digits; this check is fast to evaluate.\<close>

definition is_dec :: "char \<Rightarrow> bool" where
  "is_dec c \<longleftrightarrow> c \<in> set ''0123456789''"

definition digit_uuid_pattern :: "(char \<Rightarrow> bool) list" where
  "digit_uuid_pattern = replicate 8 is_dec @ [is_dash] @ replicate 4 is_dec @ [is_dash] @
     [\<lambda>c. c = CHR ''4''] @ replicate 3 is_dec @ [is_dash] @ [\<lambda>c. c = CHR ''8''] @ replicate 3 is_dec @ [is_dash] @
     replicate 9 is_dec @ replicate 3 is_dec"

lemma is_dec_hex: "is_dec c \<Longrightarrow> is_hex_lower c"
proof -
  have "list_all is_hex_lower ''0123456789''" by code_simp
  then show "is_dec c \<Longrightarrow> is_hex_lower c" by (simp only: is_dec_def list_all_iff)
qed

lemma digit_uuid:
  assumes "matches_classes digit_uuid_pattern u"
  shows "matches_classes uuid_lower_pattern u"
proof -
  have split: "replicate 12 is_hex_lower = replicate 9 is_hex_lower @ replicate 3 is_hex_lower"
    by (simp flip: replicate_add)
  have "in_range 49 56 CHR ''4''" by code_simp
  then show ?thesis
    using assms unfolding uuid_lower_pattern_def digit_uuid_pattern_def split
    by (elim matches_classes_weaken, intro list_all2_appendI list_all2_rep list_all2_one allI impI)
      (simp_all add: is_dec_hex)
qed

lemma lower_uuid_accepted:
  assumes "matches_classes uuid_lower_pattern u"
  shows "create_uuid_id u t = Inr u"
  using assms by (simp add: create_uuid_id_Inr uuid_lower_pattern_weaken uuid_trim uuid_lower_fixed)

lemma create_ids_accepted:
  assumes "\<And>v. matches_classes uuid_lower_pattern v \<Longrightarrow> create v = Inr v"
    "list_all (\<lambda>(k, v). matches_classes digit_uuid_pattern v) ids"
  shows "create_ids create ids = Inr ids"
  using assms(2) unfolding create_ids_def by (induction ids) (auto simp: assms(1) digit_uuid)

lemma demo_ids_accepted:
  "create_ids create_movie_provider_id demo_provider_ids = Inr demo_provider_ids"
  "create_ids create_auditorium_id demo_auditorium_ids = Inr demo_auditorium_ids"
  "create_ids create_movie_id demo_movie_ids = Inr demo_movie_ids"
  "create_ids create_screening_id demo_screening_ids = Inr demo_screening_ids"
  "create_ids create_seat_id demo_seat_ids = Inr demo_seat_ids"
  "create_ids create_reservation_request_id demo_request_ids = Inr demo_request_ids"
  "create_ids create_reservation_id demo_reservation_ids = Inr demo_reservation_ids"
  by (rule create_ids_accepted,
      simp add: create_id_defs lower_uuid_accepted,
      code_simp)+

section \<open>Generated seat ids\<close>

definition digit3 :: "nat \<Rightarrow> string" where
  "digit3 n = [char_of (48 + n div 100), char_of (48 + n div 10 mod 10), char_of (48 + n mod 10)]"

lemma pad3: "n < 1000 \<Longrightarrow> pad_start 3 CHR ''0'' (nat_str n) = digit3 n"
proof -
  assume n: "n < 1000"
  have zero: "(char_of (48 :: nat) :: char) = CHR ''0''" by code_simp
  have pads: "replicate 2 c = [c, c]" "replicate (Suc 0) c = [c]" for c :: char
    by (simp_all add: numeral_2_eq_2)
  consider "n < 10" | "10 \<le> n" "n < 100" | "100 \<le> n" by linarith
  then show ?thesis
  proof cases
    case 1
    then show ?thesis
      by (simp add: nat_str.simps [of n] pad_start_def digit3_def zero pads)
  next
    case 2
    then have "n div 10 < 10" by simp
    with 2 show ?thesis
      by (simp add: nat_str.simps [of n] nat_str.simps [of "n div 10"] pad_start_def digit3_def zero pads)
  next
    case 3
    then have c: "\<not> n < 10" "\<not> n div 10 < 10" "n div 100 < 10" and d: "n div 10 div 10 = n div 100"
      using n by (simp_all add: div_mult2_eq [symmetric])
    have "nat_str n = digit3 n"
      unfolding nat_str.simps [of n] nat_str.simps [of "n div 10"] nat_str.simps [of "n div 10 div 10"]
      by (simp only: c d if_True if_False append_Cons append_Nil digit3_def)
    then show ?thesis by (simp add: pad_start_def digit3_def)
  qed
qed

lemma digit_char_code: "d < 10 \<Longrightarrow> code_unit (char_of (48 + d)) = 48 + d"
  by (simp add: code_unit_def)

lemma generated_seat_id_uuid:
  assumes "n < 1000"
  shows "matches_classes uuid_lower_pattern (create_generated_seat_id n)"
proof (rule digit_uuid)
  have dec: "is_dec (char_of (48 + d))" if "d < 10" for d :: nat
  proof -
    have "list_all (\<lambda>d. is_dec (char_of (48 + d))) [0..<10]" by code_simp
    then show ?thesis using that by (simp only: list_all_iff set_upt atLeastLessThan_iff le0 simp_thms)
  qed
  have suffix: "list_all is_dec (digit3 n)"
    using assms by (simp add: digit3_def dec)
  have prefix: "matches_classes (replicate 8 is_dec @ [is_dash] @ replicate 4 is_dec @ [is_dash] @
     [\<lambda>c. c = CHR ''4''] @ replicate 3 is_dec @ [is_dash] @ [\<lambda>c. c = CHR ''8''] @ replicate 3 is_dec @ [is_dash] @
     replicate 9 is_dec) ''66666666-6666-4666-8666-666666666''"
    by code_simp
  have "matches_classes (replicate 3 is_dec) (digit3 n)"
    using suffix by (simp add: matches_classes_def list_all2_conv_all_nth list_all_length digit3_def)
  then show "matches_classes digit_uuid_pattern (create_generated_seat_id n)"
    using list_all2_appendI [OF prefix [unfolded matches_classes_def]]
    unfolding matches_classes_def digit_uuid_pattern_def create_generated_seat_id_def pad3 [OF assms] append_assoc
    by blast
qed

lemma generated_seat_id_inj:
  assumes "m < 1000" "n < 1000" "create_generated_seat_id m = create_generated_seat_id n"
  shows "m = n"
proof -
  have inj: "a = b" if "char_of (48 + a) = (char_of (48 + b) :: char)" "a < 10" "b < 10" for a b :: nat
  proof -
    have "code_unit (char_of (48 + a)) = code_unit (char_of (48 + b))" by (rule arg_cong [OF that(1)])
    then show ?thesis unfolding digit_char_code [OF that(2)] digit_char_code [OF that(3)] by simp
  qed
  have "digit3 m = digit3 n"
    using assms(3) unfolding create_generated_seat_id_def pad3 [OF assms(1)] pad3 [OF assms(2)] by simp
  note d = this [unfolded digit3_def]
  have eqs: "(char_of (48 + m div 100) :: char) = char_of (48 + n div 100)"
    "(char_of (48 + m div 10 mod 10) :: char) = char_of (48 + n div 10 mod 10)"
    "(char_of (48 + m mod 10) :: char) = char_of (48 + n mod 10)"
    using arg_cong [OF d, of hd] arg_cong [OF d, of "\<lambda>s. hd (tl s)"] arg_cong [OF d, of "\<lambda>s. hd (tl (tl s))"]
    by (simp_all only: list.sel)
  have "m div 100 = n div 100" by (rule inj [OF eqs(1)]) (use assms(1,2) in simp_all)
  moreover have "m div 10 mod 10 = n div 10 mod 10" by (rule inj [OF eqs(2)]) simp_all
  moreover have "m mod 10 = n mod 10" by (rule inj [OF eqs(3)]) simp_all
  moreover have "k = 100 * (k div 100) + 10 * (k div 10 mod 10) + k mod 10" for k :: nat
  proof -
    have "k div 100 = k div 10 div 10" by (simp add: div_mult2_eq [symmetric])
    then show ?thesis
      using div_mult_mod_eq [of k 10] div_mult_mod_eq [of "k div 10" 10] by linarith
  qed
  ultimately show ?thesis by metis
qed

section \<open>The seat grid\<close>

text \<open>The number of a seat in its grid, counting rows first.\<close>

definition grid_seat_of :: "seat_grid_input \<Rightarrow> (string, id) jsmap \<Rightarrow> string \<Rightarrow> nat \<Rightarrow> nat \<Rightarrow> seat" where
  "grid_seat_of input fixed row rowIndex seatIndex =
    \<lparr>st_id = (case jm_get fixed (format_seat_key row (seatIndex + 1)) of Some i \<Rightarrow> i
       | None \<Rightarrow> create_generated_seat_id (sg_generatedIdStart input + rowIndex * sg_seatsPerRow input + seatIndex)),
     st_movieProviderId = sg_movieProviderId input, st_auditoriumId = sg_auditoriumId input,
     st_row = row, st_number = int (seatIndex + 1)\<rparr>"

lemma grid_seat_ok:
  assumes "sg_generatedIdStart input + rowIndex * sg_seatsPerRow input + seatIndex < 1000"
  shows "grid_seat input fixed row rowIndex seatIndex = Inr (grid_seat_of input fixed row rowIndex seatIndex)"
  using lower_uuid_accepted [OF generated_seat_id_uuid [OF assms]]
  by (simp add: grid_seat_def grid_seat_of_def create_seat_id_def Let_def)

lemma map_err_ok: "(\<And>x. x \<in> set xs \<Longrightarrow> f x = Inr (g x)) \<Longrightarrow> map_err f xs = Inr (List.map g xs)"
  by (induction xs) auto

lemma grid_rows_ok:
  assumes "sg_generatedIdStart input + (rowIndex + length rows) * sg_seatsPerRow input \<le> 1000"
  shows "grid_rows input fixed rows rowIndex =
    Inr (concat (List.map (\<lambda>(row, k). List.map (grid_seat_of input fixed row k) [0..<sg_seatsPerRow input])
      (zip rows [rowIndex..<rowIndex + length rows])))"
  using assms
proof (induction rows arbitrary: rowIndex)
  case (Cons row rows)
  have "map_err (grid_seat input fixed row rowIndex) [0..<sg_seatsPerRow input] =
      Inr (List.map (grid_seat_of input fixed row rowIndex) [0..<sg_seatsPerRow input])"
  proof (rule map_err_ok, rule grid_seat_ok)
    fix k assume "k \<in> set [0..<sg_seatsPerRow input]"
    then show "sg_generatedIdStart input + rowIndex * sg_seatsPerRow input + k < 1000"
      using Cons.prems by (simp add: algebra_simps)
  qed
  moreover have "grid_rows input fixed rows (rowIndex + 1) =
      Inr (concat (List.map (\<lambda>(row, k). List.map (grid_seat_of input fixed row k) [0..<sg_seatsPerRow input])
        (zip rows [rowIndex + 1..<rowIndex + 1 + length rows])))"
    by (rule Cons.IH) (use Cons.prems in simp)
  moreover have "[rowIndex..<rowIndex + length (row # rows)] = rowIndex # [rowIndex + 1..<rowIndex + 1 + length rows]"
    by (simp add: upt_conv_Cons del: upt_Suc)
  ultimately show ?case by (simp del: upt_Suc)
qed simp

definition fixed_seats :: "seat_grid_input \<Rightarrow> (string, id) jsmap" where
  "fixed_seats input =
    jm_new (List.map (\<lambda>s. (format_seat_key (fs_row s) (fs_number s), fs_id s)) (sg_fixedSeatIds input))"

lemma create_seat_grid_ok:
  assumes "sg_generatedIdStart input + length (sg_rows input) * sg_seatsPerRow input \<le> 1000"
  shows "create_seat_grid input =
    Inr (concat (List.map (\<lambda>(row, k). List.map (grid_seat_of input (fixed_seats input) row k) [0..<sg_seatsPerRow input])
      (zip (sg_rows input) [0..<length (sg_rows input)])))"
  using grid_rows_ok [of input 0 "sg_rows input" "fixed_seats input"] assms
  by (simp add: create_seat_grid_def fixed_seats_def)

lemma grid_places:
  assumes "length rs = length ks"
  shows "List.map (\<lambda>s. (st_row s, st_number s)) (concat (List.map (\<lambda>(row, k).
      List.map (grid_seat_of input fixed row k) [0..<n]) (zip rs ks))) =
    concat (List.map (\<lambda>row. List.map (\<lambda>k. (row, int (k + 1))) [0..<n]) rs)"
  using assms by (induction rs ks rule: list_induct2) (simp_all add: grid_seat_of_def comp_def)

lemma grid_ids:
  assumes "length rs = length ks" "s \<in> set (concat (List.map (\<lambda>(row, k). List.map (grid_seat_of input fixed row k) [0..<n]) (zip rs ks)))"
  shows "st_movieProviderId s = sg_movieProviderId input \<and> st_auditoriumId s = sg_auditoriumId input"
  using assms by (auto simp: grid_seat_of_def)

text \<open>The seat grid of the demo data. While the generated numbers stay below 1000 the grid is
  built without error: it has exactly one seat for every row and every number from 1 to the width, in
  reading order, all in the given auditorium and provider. From 1000 on the generated id has 13
  digits in its last group and is no UUID, which the bound excludes.\<close>

lemma seat_grid_is_complete:
  assumes "sg_generatedIdStart input + length (sg_rows input) * sg_seatsPerRow input \<le> 1000"
  shows "case create_seat_grid input of
      Inr seats \<Rightarrow>
        List.map (\<lambda>s. (st_row s, st_number s)) seats =
          concat (List.map (\<lambda>row. List.map (\<lambda>k. (row, int (k + 1))) [0..<sg_seatsPerRow input]) (sg_rows input)) \<and>
        list_all (\<lambda>s. st_movieProviderId s = sg_movieProviderId input \<and> st_auditoriumId s = sg_auditoriumId input) seats
    | Inl e \<Rightarrow> False"
  using grid_places [of "sg_rows input" "[0..<length (sg_rows input)]"]
    grid_ids [of "sg_rows input" "[0..<length (sg_rows input)]"]
  unfolding create_seat_grid_ok [OF assms] by (simp add: list_all_iff)

definition sample_grid :: seat_grid_input where
  "sample_grid = \<lparr>sg_movieProviderId = ''p'', sg_auditoriumId = ''a'', sg_rows = [''A'', ''B''],
     sg_seatsPerRow = 2, sg_generatedIdStart = 996, sg_fixedSeatIds = []\<rparr>"

lemma seat_grid_example:
  "case create_seat_grid sample_grid of
     Inr seats \<Rightarrow> List.map (\<lambda>s. (st_row s, st_number s)) seats = [(''A'', 1), (''A'', 2), (''B'', 1), (''B'', 2)]
   | Inl e \<Rightarrow> False"
  using seat_grid_is_complete [of sample_grid]
  by (simp add: sample_grid_def upt_conv_Cons split: sum.splits)

section \<open>The seeded service\<close>

lemma create_user_ids:
  "create_user_id ''user-ada'' = Inr ''user-ada''" "create_user_id ''user-linus'' = Inr ''user-linus''"
  by code_simp+

lemma demo_reservation_ids_accepted:
  "create_reservation_id ''88888888-8888-4888-8888-888888888881'' = Inr ''88888888-8888-4888-8888-888888888881''"
  "create_reservation_id ''88888888-8888-4888-8888-888888888882'' = Inr ''88888888-8888-4888-8888-888888888882''"
proof -
  have "matches_classes digit_uuid_pattern ''88888888-8888-4888-8888-888888888881''"
    "matches_classes digit_uuid_pattern ''88888888-8888-4888-8888-888888888882''"
    by code_simp+
  then show
    "create_reservation_id ''88888888-8888-4888-8888-888888888881'' = Inr ''88888888-8888-4888-8888-888888888881''"
    "create_reservation_id ''88888888-8888-4888-8888-888888888882'' = Inr ''88888888-8888-4888-8888-888888888882''"
    by (simp_all add: create_reservation_id_def lower_uuid_accepted digit_uuid)
qed

definition grid_seats :: "seat_grid_input \<Rightarrow> seat list" where
  "grid_seats input = concat (List.map (\<lambda>(row, k).
     List.map (grid_seat_of input (fixed_seats input) row k) [0..<sg_seatsPerRow input])
     (zip (sg_rows input) [0..<length (sg_rows input)]))"

definition demo_grids :: "seat_grid_input list" where
  "demo_grids =
    [\<lparr>sg_movieProviderId = obj_prop demo_provider_ids ''aurora'',
      sg_auditoriumId = obj_prop demo_auditorium_ids ''auroraMain'', sg_rows = [''A'', ''B'', ''C'', ''D''],
      sg_seatsPerRow = 8, sg_generatedIdStart = 700,
      sg_fixedSeatIds = [\<lparr>fs_row = ''A'', fs_number = 1, fs_id = obj_prop demo_seat_ids ''auroraA1''\<rparr>,
        \<lparr>fs_row = ''A'', fs_number = 2, fs_id = obj_prop demo_seat_ids ''auroraA2''\<rparr>,
        \<lparr>fs_row = ''A'', fs_number = 3, fs_id = obj_prop demo_seat_ids ''auroraA3''\<rparr>]\<rparr>,
     \<lparr>sg_movieProviderId = obj_prop demo_provider_ids ''aurora'',
      sg_auditoriumId = obj_prop demo_auditorium_ids ''auroraStudio'', sg_rows = [''A'', ''B'', ''C''],
      sg_seatsPerRow = 6, sg_generatedIdStart = 740, sg_fixedSeatIds = []\<rparr>,
     \<lparr>sg_movieProviderId = obj_prop demo_provider_ids ''aurora'',
      sg_auditoriumId = obj_prop demo_auditorium_ids ''auroraGrand'', sg_rows = [''A'', ''B'', ''C'', ''D'', ''E''],
      sg_seatsPerRow = 10, sg_generatedIdStart = 760, sg_fixedSeatIds = []\<rparr>,
     \<lparr>sg_movieProviderId = obj_prop demo_provider_ids ''riverton'',
      sg_auditoriumId = obj_prop demo_auditorium_ids ''rivertonOne'', sg_rows = [''A'', ''B'', ''C'', ''D''],
      sg_seatsPerRow = 6, sg_generatedIdStart = 840,
      sg_fixedSeatIds = [\<lparr>fs_row = ''B'', fs_number = 3, fs_id = obj_prop demo_seat_ids ''rivertonB3''\<rparr>]\<rparr>]"

lemma demo_seats_ok:
  "demo_seats demo_provider_ids demo_auditorium_ids demo_seat_ids = Inr (concat (List.map grid_seats demo_grids))"
  by (simp add: demo_seats_def demo_grids_def create_seat_grid_ok grid_seats_def del: upt_Suc)

definition demo_seat_numbers :: "nat list" where
  "demo_seat_numbers = [661, 662, 663] @ [703..<732] @ [740..<758] @ [760..<810] @ [840..<848] @ [664] @ [849..<864]"

lemma map_st_id_grid:
  "List.map st_id (grid_seats input) = concat (List.map (\<lambda>(row, r). List.map (\<lambda>k.
     case jm_get (fixed_seats input) (format_seat_key row (k + 1)) of Some i \<Rightarrow> i
     | None \<Rightarrow> create_generated_seat_id (sg_generatedIdStart input + r * sg_seatsPerRow input + k)) [0..<sg_seatsPerRow input])
     (zip (sg_rows input) [0..<length (sg_rows input)]))"
  by (simp add: grid_seats_def map_concat comp_def split_def grid_seat_of_def)

text \<open>When the fixed ids are generated ids too, the grid is the image of a list of numbers.\<close>

definition grid_numbers :: "(string \<times> nat) list \<Rightarrow> seat_grid_input \<Rightarrow> nat list" where
  "grid_numbers nums input = concat (List.map (\<lambda>(row, r). List.map (\<lambda>k.
     case map_of nums (format_seat_key row (k + 1)) of Some n \<Rightarrow> n
     | None \<Rightarrow> sg_generatedIdStart input + r * sg_seatsPerRow input + k) [0..<sg_seatsPerRow input])
     (zip (sg_rows input) [0..<length (sg_rows input)]))"

lemma map_st_id_numbers:
  assumes "fixed_seats input = List.map (\<lambda>(key, n). (key, create_generated_seat_id n)) nums"
  shows "List.map st_id (grid_seats input) = List.map create_generated_seat_id (grid_numbers nums input)"
proof -
  have get: "jm_get (fixed_seats input) key = map_option create_generated_seat_id (map_of nums key)" for key
    unfolding assms jm_get_def by (simp add: map_of_map)
  have pull: "(case map_option f v of Some i \<Rightarrow> i | None \<Rightarrow> f d) = f (case v of Some n \<Rightarrow> n | None \<Rightarrow> d)"
    for f :: "nat \<Rightarrow> id" and v d
    by (cases v) simp_all
  show ?thesis
    unfolding map_st_id_grid grid_numbers_def get pull by (simp add: map_concat comp_def split_def)
qed

lemma demo_fixed_seats:
  "List.map fixed_seats demo_grids =
     [[(''A:1'', create_generated_seat_id 661), (''A:2'', create_generated_seat_id 662),
       (''A:3'', create_generated_seat_id 663)], [], [], [(''B:3'', create_generated_seat_id 664)]]"
  by code_simp

lemma demo_grid_numbers:
  "concat (List.map (\<lambda>(nums, input). grid_numbers nums input)
     (zip [[(''A:1'', 661), (''A:2'', 662), (''A:3'', 663)], [], [], [(''B:3'', 664)]] demo_grids)) = demo_seat_numbers"
  by code_simp

lemma demo_seat_ids_generated:
  "List.map st_id (concat (List.map grid_seats demo_grids)) = List.map create_generated_seat_id demo_seat_numbers"
proof -
  let ?nums = "[[(''A:1'', 661), (''A:2'', 662), (''A:3'', 663)], [], [], [(''B:3'', 664)]] :: (string \<times> nat) list list"
  have "List.map fixed_seats demo_grids = List.map (List.map (\<lambda>(key, n). (key, create_generated_seat_id n))) ?nums"
    by (simp add: demo_fixed_seats)
  then have "List.map (List.map st_id) (List.map grid_seats demo_grids) =
      List.map (\<lambda>(nums, input). List.map create_generated_seat_id (grid_numbers nums input)) (zip ?nums demo_grids)"
    by (simp add: demo_grids_def map_st_id_numbers)
  then show ?thesis
    unfolding demo_grid_numbers [symmetric] map_concat by (simp add: comp_def split_def)
qed

definition demo_request_list :: "reservation_request list" where
  "demo_request_list =
    [\<lparr>rr_id = ''77777777-7777-4777-8777-777777777771'', rr_movieProviderId = ''11111111-1111-4111-8111-111111111111'',
      rr_screeningId = ''55555555-5555-4555-8555-555555555551'',
      rr_seatIds = [''66666666-6666-4666-8666-666666666661'', ''66666666-6666-4666-8666-666666666662''],
      rr_requestedByUserId = ''user-ada'', rr_status = CONFIRMED\<rparr>,
     \<lparr>rr_id = ''77777777-7777-4777-8777-777777777772'', rr_movieProviderId = ''22222222-2222-4222-8222-222222222222'',
      rr_screeningId = ''55555555-5555-4555-8555-555555555553'',
      rr_seatIds = [''66666666-6666-4666-8666-666666666664''],
      rr_requestedByUserId = ''user-linus'', rr_status = CONFIRMED\<rparr>]"

definition demo_reservation_list :: "reservation list" where
  "demo_reservation_list =
    [\<lparr>rv_id = ''88888888-8888-4888-8888-888888888881'', rv_movieProviderId = ''11111111-1111-4111-8111-111111111111'',
      rv_reservationRequestId = ''77777777-7777-4777-8777-777777777771'',
      rv_screeningId = ''55555555-5555-4555-8555-555555555551'',
      rv_seatIds = [''66666666-6666-4666-8666-666666666661'', ''66666666-6666-4666-8666-666666666662''],
      rv_reservedByUserId = ''user-ada'', rv_confirmedAt = ''2026-06-01T09:05:00.000Z''\<rparr>,
     \<lparr>rv_id = ''88888888-8888-4888-8888-888888888882'', rv_movieProviderId = ''22222222-2222-4222-8222-222222222222'',
      rv_reservationRequestId = ''77777777-7777-4777-8777-777777777772'',
      rv_screeningId = ''55555555-5555-4555-8555-555555555553'',
      rv_seatIds = [''66666666-6666-4666-8666-666666666664''],
      rv_reservedByUserId = ''user-linus'', rv_confirmedAt = ''2026-06-02T10:15:00.000Z''\<rparr>]"

lemma demo_requests_ok:
  "demo_requests demo_provider_ids demo_screening_ids demo_seat_ids demo_request_ids = Inr demo_request_list"
  by (simp add: demo_requests_def create_user_ids demo_request_list_def obj_prop_def demo_provider_ids_def
      demo_screening_ids_def demo_seat_ids_def demo_request_ids_def)

lemma demo_reservations_ok:
  "demo_reservations demo_provider_ids demo_screening_ids demo_seat_ids demo_request_ids = Inr demo_reservation_list"
proof -
  have "create_reservation v = Inr v" if "rv_seatIds v \<noteq> []" "distinct (rv_seatIds v)" for v
    using that by (simp add: create_reservation_Inr)
  then show ?thesis
    by (simp add: demo_reservations_def create_user_ids demo_reservation_ids_accepted demo_reservation_list_def
        obj_prop_def demo_provider_ids_def demo_screening_ids_def demo_seat_ids_def demo_request_ids_def
        demo_reservation_ids_def)
qed

definition demo_data :: store_input where
  "demo_data = \<lparr>si_movieProviders = demo_movie_providers demo_provider_ids,
     si_auditoriums = demo_auditoriums demo_provider_ids demo_auditorium_ids,
     si_movies = demo_movies demo_provider_ids demo_movie_ids,
     si_screenings = demo_screenings demo_provider_ids demo_auditorium_ids demo_movie_ids demo_screening_ids,
     si_seats = concat (List.map grid_seats demo_grids), si_reservationRequests = demo_request_list,
     si_reservations = demo_reservation_list, si_processingAttempts = None\<rparr>"

lemma demo_data_created: "create_movie_reservation_demo_data = Inr demo_data"
  by (simp add: create_movie_reservation_demo_data_def demo_ids_accepted demo_seats_ok demo_requests_ok
      demo_reservations_ok demo_data_def)

lemma demo_seed_ok: "seed_ok demo_data"
proof -
  have "seed_ok demo_data = seed_ok (empty_seed\<lparr>si_reservationRequests := demo_request_list, si_reservations := demo_reservation_list\<rparr>)"
    for empty_seed
    by (simp add: seed_ok_def demo_data_def)
  moreover have "seed_ok \<lparr>si_movieProviders = [], si_auditoriums = [], si_movies = [], si_screenings = [], si_seats = [],
      si_reservationRequests = demo_request_list, si_reservations = demo_reservation_list, si_processingAttempts = None\<rparr>"
    by (simp add: seed_ok_def demo_request_list_def demo_reservation_list_def request_ok_def reservation_for_def
        seats_disjoint_def max_safe_integer_def)
  ultimately show ?thesis by (simp add: seed_ok_def demo_data_def)
qed

text \<open>
  Every screening plays a movie of its provider in an auditorium of its provider, for as long as
  the movie lasts.
\<close>

definition screening_ok :: "store_input \<Rightarrow> screening \<Rightarrow> bool" where
  "screening_ok d s \<longleftrightarrow>
     list_ex (\<lambda>a. au_id a = sc_auditoriumId s \<and> au_movieProviderId a = sc_movieProviderId s) (si_auditoriums d) \<and>
     list_ex (\<lambda>m. mv_id m = sc_movieId s \<and> mv_movieProviderId m = sc_movieProviderId s \<and>
       (case (date_get_time (sc_startsAt s), date_get_time (sc_endsAt s)) of
          (Some t, Some u) \<Rightarrow> u = t + mv_durationMinutes m * 60000 | _ \<Rightarrow> False)) (si_movies d)"

definition catalogue_ok :: "store_input \<Rightarrow> bool" where
  "catalogue_ok d \<longleftrightarrow>
     distinct (List.map mp_id (si_movieProviders d)) \<and> distinct (List.map au_id (si_auditoriums d)) \<and>
     distinct (List.map mv_id (si_movies d)) \<and> distinct (List.map sc_id (si_screenings d)) \<and>
     list_all (screening_ok d) (si_screenings d)"

lemma demo_catalogue_ok:
  "catalogue_ok \<lparr>si_movieProviders = demo_movie_providers demo_provider_ids,
     si_auditoriums = demo_auditoriums demo_provider_ids demo_auditorium_ids,
     si_movies = demo_movies demo_provider_ids demo_movie_ids,
     si_screenings = demo_screenings demo_provider_ids demo_auditorium_ids demo_movie_ids demo_screening_ids,
     si_seats = [], si_reservationRequests = [], si_reservations = [], si_processingAttempts = None\<rparr>"
  by code_simp

lemma demo_seats_distinct:
  "distinct (List.map st_id (si_seats demo_data))" "length (si_seats demo_data) = 124"
proof -
  have ids: "List.map st_id (si_seats demo_data) = List.map create_generated_seat_id demo_seat_numbers"
    by (simp add: demo_data_def demo_seat_ids_generated)
  have dist: "distinct demo_seat_numbers"
    unfolding demo_seat_numbers_def by (simp del: upt_Suc)
  have bound: "n < 1000" if "n \<in> set demo_seat_numbers" for n
    using that unfolding demo_seat_numbers_def by (auto simp del: upt_Suc)
  have "length demo_seat_numbers = 124"
    unfolding demo_seat_numbers_def by (simp del: upt_Suc)
  then show "length (si_seats demo_data) = 124"
    using arg_cong [OF ids, of length] by simp
  have "inj_on create_generated_seat_id (set demo_seat_numbers)"
    by (rule inj_onI) (rule generated_seat_id_inj, simp_all only: bound)
  with dist show "distinct (List.map st_id (si_seats demo_data))"
    unfolding ids distinct_map by simp
qed



end
