(* ===== verification/Authentication.thy ===== *)
theory Authentication
  imports Service Http_Boundary Demo_Data
begin

text \<open>
  Authentication: JWT claims to a normalised user
  (\<open>infrastructure/authentication/movie-reservation-claims-parser.ts\<close>), the authentication
  managers and service, and the GraphQL authentication middleware
  (\<open>presentation/graphql/middleware/graphql-authentication.middleware.ts\<close>). Token decoding
  (\<open>jose\<close>) is a parameter.
\<close>

section \<open>JSON values\<close>

text \<open>
  An untrusted value. An object is the list of its own properties in enumeration order; an
  absent property is \<open>undefined\<close>, here \<open>None\<close>.
\<close>

datatype json =
    JNull
  | JBool bool
  | JNumber int
  | JString string
  | JArray "json list"
  | JObject "(string \<times> json) list"

type_synonym jwt_claims = "(string \<times> json) list"

fun json_prop :: "json \<Rightarrow> string \<Rightarrow> json option" where
  "json_prop (JObject ps) key = map_of ps key"
| "json_prop _ key = None"

text \<open>\<open>typeof value === 'object' && value !== null\<close>\<close>

fun is_record :: "json option \<Rightarrow> bool" where
  "is_record (Some (JObject ps)) = True"
| "is_record (Some (JArray xs)) = True"
| "is_record _ = False"

fun object_values :: "json \<Rightarrow> json list" where
  "object_values (JObject ps) = List.map snd ps"
| "object_values (JArray xs) = xs"
| "object_values _ = []"

section \<open>Claims\<close>

definition read_required_string_claim :: "jwt_claims \<Rightarrow> string \<Rightarrow> js_error + string" where
  "read_required_string_claim claims name =
    (case map_of claims name of
       Some (JString s) \<Rightarrow>
         if length (js_trim s) = 0 then Inl (AuthenticationError ''Invalid token claims'') else Inr s
     | _ \<Rightarrow> Inl (AuthenticationError ''Invalid token claims''))"

definition read_optional_string_claim :: "jwt_claims \<Rightarrow> string \<Rightarrow> string option" where
  "read_optional_string_claim claims name =
    (case map_of claims name of Some (JString s) \<Rightarrow> Some s | _ \<Rightarrow> None)"

text \<open>
  \<open>^[a-z0-9]+(?:-[a-z0-9]+)*$\<close>: the pieces between dashes are all non-empty and of that class.
\<close>

definition is_code_char :: "char \<Rightarrow> bool" where
  "is_code_char c \<longleftrightarrow> is_lower_az c \<or> is_digit c"

definition provider_code_pattern :: "string \<Rightarrow> bool" where
  "provider_code_pattern s \<longleftrightarrow> list_all (\<lambda>p. p \<noteq> [] \<and> list_all is_code_char p) (js_split CHR ''-'' s)"

definition read_optional_movie_provider_code_claim :: "jwt_claims \<Rightarrow> string \<Rightarrow> js_error + string option" where
  "read_optional_movie_provider_code_claim claims name =
    (case read_optional_string_claim claims name of
       None \<Rightarrow> Inr None
     | Some v \<Rightarrow>
         (let trimmedValue = js_trim v in
          if \<not> provider_code_pattern trimmedValue then Inl (AuthenticationError ''Invalid token claims'')
          else Inr (Some trimmedValue)))"

definition create_required_movie_provider_id_claim :: "string \<Rightarrow> js_error + id" where
  "create_required_movie_provider_id_claim v =
    (case create_movie_provider_id v of
       Inr i \<Rightarrow> Inr i | Inl e \<Rightarrow> Inl (AuthenticationError ''Invalid token claims''))"

definition parse_scopes :: "jwt_claims \<Rightarrow> string list" where
  "parse_scopes claims =
    (case map_of claims ''scope'' of
       Some (JString scope) \<Rightarrow> List.filter (\<lambda>v. length v > 0) (js_split CHR '' '' scope)
     | _ \<Rightarrow> [])"

fun string_items :: "json option \<Rightarrow> string list option" where
  "string_items (Some (JArray xs)) = Some (List.concat (List.map (\<lambda>x. case x of JString s \<Rightarrow> [s] | _ \<Rightarrow> []) xs))"
| "string_items _ = None"

definition roles_of_record :: "json option \<Rightarrow> string list" where
  "roles_of_record v =
    (if \<not> is_record v then []
     else case string_items (json_prop (the v) ''roles'') of None \<Rightarrow> [] | Some rs \<Rightarrow> rs)"

definition read_realm_roles :: "jwt_claims \<Rightarrow> string list" where
  "read_realm_roles claims = roles_of_record (map_of claims ''realm_access'')"

definition read_resource_roles :: "jwt_claims \<Rightarrow> string list" where
  "read_resource_roles claims =
    (let resourceAccess = map_of claims ''resource_access'' in
     if \<not> is_record resourceAccess then []
     else List.concat (List.map (\<lambda>r. roles_of_record (Some r)) (object_values (the resourceAccess))))"

definition as_user_role :: "string \<Rightarrow> user_role option" where
  "as_user_role role = List.find (\<lambda>r. role_str r = role) [CUSTOMER, TENANT_ADMIN, SYSTEM]"

definition parse_roles :: "jwt_claims \<Rightarrow> user_role list" where
  "parse_roles claims =
    List.concat (List.map (\<lambda>role. case as_user_role role of Some r \<Rightarrow> [r] | None \<Rightarrow> [])
      (read_realm_roles claims @ read_resource_roles claims))"

definition parse_movie_reservation_claims :: "jwt_claims \<Rightarrow> js_error + authenticated_user" where
  "parse_movie_reservation_claims claims =
    bind_err (read_required_string_claim claims ''sub'') (\<lambda>userId.
    bind_err (read_required_string_claim claims ''movie_provider_id'') (\<lambda>movieProviderId.
    bind_err (read_optional_movie_provider_code_claim claims ''movie_provider_code'') (\<lambda>movieProviderCode.
    (let username = (case or_else (read_optional_string_claim claims ''preferred_username'')
             (read_optional_string_claim claims ''name'') of Some n \<Rightarrow> n | None \<Rightarrow> userId);
         email = (case read_optional_string_claim claims ''email'' of Some m \<Rightarrow> m | None \<Rightarrow> []) in
     bind_err (create_user_id userId) (\<lambda>uid.
     bind_err (create_required_movie_provider_id_claim movieProviderId) (\<lambda>provider.
     Inr \<lparr>us_userId = uid, us_username = username, us_email = email, us_roles = parse_roles claims,
          us_scopes = parse_scopes claims, us_movieProviderId = provider,
          us_movieProviderCode = movieProviderCode\<rparr>))))))"

section \<open>Managers and service\<close>

type_synonym 'w token_validation_client = "string \<Rightarrow> ('w, jwt_claims) io"

type_synonym 'w authentication_manager_op = "string option \<Rightarrow> ('w, authenticated_user) io"

text \<open>\<open>decodeJwt\<close> is a parameter; every error it throws is mapped.\<close>

definition local_jwt_authenticate :: "(string \<Rightarrow> js_error + jwt_claims) \<Rightarrow> 'w token_validation_client" where
  "local_jwt_authenticate decodeJwt token =
    catch_io (lift (decodeJwt token)) (\<lambda>_. throw (AuthenticationError ''Invalid token''))"

definition jwt_authenticate :: "'w token_validation_client \<Rightarrow> 'w authentication_manager_op" where
  "jwt_authenticate client token =
    (case token of
       None \<Rightarrow> throw (AuthenticationError ''Missing token'')
     | Some t \<Rightarrow>
         if length (js_trim t) = 0 then throw (AuthenticationError ''Missing token'')
         else bind_io (client t) (\<lambda>claims. lift (parse_movie_reservation_claims claims)))"

definition fixed_user_authenticate :: "'w authentication_manager_op" where
  "fixed_user_authenticate token =
    bind_io (lift (create_user_id ''local-dev-user'')) (\<lambda>uid.
    bind_io (lift (create_movie_provider_id (obj_prop demo_provider_ids ''aurora''))) (\<lambda>provider.
    ret \<lparr>us_userId = uid, us_username = ''local-dev-admin'', us_email = ''local-dev@example.test'',
         us_roles = [TENANT_ADMIN], us_scopes = [''reservations:read:tenant''],
         us_movieProviderId = provider,
         us_movieProviderCode = Some (obj_prop demo_provider_codes ''aurora'')\<rparr>))"

datatype auth_mode = Local_Fixed_User | Local_Jwt | Oidc

definition create_authentication_manager ::
  "auth_mode \<Rightarrow> (string \<Rightarrow> js_error + jwt_claims) \<Rightarrow> js_error + 'w authentication_manager_op" where
  "create_authentication_manager mode decodeJwt =
    (case mode of
       Local_Fixed_User \<Rightarrow> Inr fixed_user_authenticate
     | Local_Jwt \<Rightarrow> Inr (jwt_authenticate (local_jwt_authenticate decodeJwt))
     | Oidc \<Rightarrow> Inl (Error ''OIDC token validation is not implemented yet''))"

definition authenticate_jwt_token :: "'w authentication_manager_op \<Rightarrow> 'w authentication_manager_op" where
  "authenticate_jwt_token manager token = manager token"

section \<open>The bearer token\<close>

type_synonym headers = "string \<Rightarrow> header_value option"

definition read_header :: "headers \<Rightarrow> string \<Rightarrow> string option" where
  "read_header headers name =
    (case headers name of
       None \<Rightarrow> None
     | Some (Header_One s) \<Rightarrow> Some s
     | Some (Header_Many ss) \<Rightarrow> (case ss of [] \<Rightarrow> None | s # rest \<Rightarrow> Some s))"

definition extract_bearer_token :: "headers \<Rightarrow> string option" where
  "extract_bearer_token headers =
    (case read_header headers ''authorization'' of
       None \<Rightarrow> None
     | Some authorization \<Rightarrow>
         (case js_split CHR '' '' authorization of
            scheme # token # rest \<Rightarrow>
              if scheme \<noteq> ''Bearer'' \<or> length (js_trim token) = 0 then None else Some token
          | _ \<Rightarrow> None))"

section \<open>Facts\<close>

text \<open>
  What the rest of the service relies on: the provider id is a canonical lower-case UUID, the
  user id is trimmed and not empty, a provider code has the slug form.
\<close>

definition sound_user :: "authenticated_user \<Rightarrow> bool" where
  "sound_user u \<longleftrightarrow> matches_classes uuid_lower_pattern (us_movieProviderId u) \<and>
     us_userId u \<noteq> [] \<and> js_trim (us_userId u) = us_userId u \<and>
     pred_option provider_code_pattern (us_movieProviderCode u)"

text \<open>The claims the parser accepts.\<close>

definition text_claim :: "jwt_claims \<Rightarrow> string \<Rightarrow> string option" where
  "text_claim claims name = (case map_of claims name of Some (JString s) \<Rightarrow> Some (js_trim s) | _ \<Rightarrow> None)"

definition valid_claims :: "jwt_claims \<Rightarrow> bool" where
  "valid_claims claims \<longleftrightarrow>
     (case text_claim claims ''sub'' of Some v \<Rightarrow> v \<noteq> [] | None \<Rightarrow> False) \<and>
     (case text_claim claims ''movie_provider_id'' of
        Some v \<Rightarrow> matches_classes uuid_pattern v | None \<Rightarrow> False) \<and>
     pred_option provider_code_pattern (text_claim claims ''movie_provider_code'')"

lemma as_user_role_Some: "as_user_role s = Some r \<longleftrightarrow> role_str r = s"
  unfolding as_user_role_def by (cases r) auto

lemma in_parse_roles:
  "r \<in> set (parse_roles claims) \<longleftrightarrow>
    role_str r \<in> set (read_realm_roles claims) \<union> set (read_resource_roles claims)"
proof -
  have "r \<in> set (parse_roles claims) \<longleftrightarrow>
      (\<exists>s \<in> set (read_realm_roles claims) \<union> set (read_resource_roles claims). as_user_role s = Some r)"
    unfolding parse_roles_def by (auto split: option.splits) (metis UnCI option.distinct(1) option.inject)+
  then show ?thesis by (auto simp: as_user_role_Some)
qed

lemma read_required_string_claim_eq:
  "read_required_string_claim claims name =
    (case text_claim claims name of
       Some v \<Rightarrow> if v = [] then Inl (AuthenticationError ''Invalid token claims'')
         else Inr (case map_of claims name of Some (JString s) \<Rightarrow> s | _ \<Rightarrow> [])
     | None \<Rightarrow> Inl (AuthenticationError ''Invalid token claims''))"
  unfolding read_required_string_claim_def text_claim_def by (auto split: option.split json.split)

lemma read_optional_movie_provider_code_claim_eq:
  "read_optional_movie_provider_code_claim claims name =
    (if pred_option provider_code_pattern (text_claim claims name) then Inr (text_claim claims name)
     else Inl (AuthenticationError ''Invalid token claims''))"
  unfolding read_optional_movie_provider_code_claim_def read_optional_string_claim_def text_claim_def Let_def
  by (auto split: option.split json.split)

lemma parse_claims_core:
  "case parse_movie_reservation_claims claims of
     Inr u \<Rightarrow> valid_claims claims \<and> sound_user u \<and>
       text_claim claims ''sub'' = Some (us_userId u) \<and>
       map_option js_lower (text_claim claims ''movie_provider_id'') = Some (us_movieProviderId u) \<and>
       us_movieProviderCode u = text_claim claims ''movie_provider_code'' \<and>
       (\<forall>r. r \<in> set (us_roles u) \<longleftrightarrow>
          role_str r \<in> set (read_realm_roles claims) \<union> set (read_resource_roles claims))
   | Inl e \<Rightarrow> e = AuthenticationError ''Invalid token claims'' \<and> \<not> valid_claims claims"
proof -
  have sub: "text_claim claims name = Some v \<Longrightarrow>
      js_trim (case map_of claims name of Some (JString s) \<Rightarrow> s | _ \<Rightarrow> []) = v" for v name
    by (auto simp: text_claim_def split: option.splits json.splits)
  have trimmed: "text_claim claims name = Some v \<Longrightarrow> js_trim v = v" for v name
    by (auto simp: text_claim_def split: option.splits json.splits)
  have nonempty: "\<not> matches_classes uuid_pattern []"
    using matches_classes_length [of uuid_pattern "[]"] by (auto simp: uuid_pattern_def)
  show ?thesis
    unfolding parse_movie_reservation_claims_def read_required_string_claim_eq
      read_optional_movie_provider_code_claim_eq valid_claims_def
    by (cases "text_claim claims ''sub''"; cases "text_claim claims ''movie_provider_id''")
      (auto simp: sub trimmed nonempty create_user_id_def create_required_movie_provider_id_claim_def Let_def
        create_movie_provider_id_def create_uuid_id_def sound_user_def uuid_lower_matches in_parse_roles)
qed

section \<open>The contract of a manager\<close>

text \<open>
  The boundaries need one thing of a manager: a user it returns is sound.
\<close>

locale authentication_manager =
  fixes authenticate :: "'w authentication_manager_op"
  assumes returns_sound: "authenticate token w = (Inr u, w') \<Longrightarrow> sound_user u"
begin

lemma service_returns_sound: "authenticate_jwt_token authenticate token w = (Inr u, w') \<Longrightarrow> sound_user u"
  unfolding authenticate_jwt_token_def by (rule returns_sound)

lemma actor_of_sound:
  assumes "authenticate_jwt_token authenticate token w = (Inr u, w')"
  shows "matches_classes uuid_lower_pattern (ac_movieProviderId (create_actor_context u)) \<and>
    ac_userId (create_actor_context u) \<noteq> []"
  using service_returns_sound [OF assms] by (simp add: sound_user_def create_actor_context_def)

end

lemma jwt_authenticate_sound: "jwt_authenticate client token w = (Inr u, w') \<Longrightarrow> sound_user u"
  by (auto simp: jwt_authenticate_def bind_io_def throw_def lift_def
      split: option.splits if_splits prod.splits sum.splits)
    (use parse_claims_core in \<open>fastforce split: sum.splits\<close>)

lemma provider_code_parts:
  assumes "CHR ''-'' \<notin> set s" "s \<noteq> []" "list_all is_code_char s"
  shows "provider_code_pattern s"
  using assms by (simp add: provider_code_pattern_def js_split_unit)

definition fixed_user :: authenticated_user where
  "fixed_user = \<lparr>us_userId = ''local-dev-user'', us_username = ''local-dev-admin'',
     us_email = ''local-dev@example.test'', us_roles = [TENANT_ADMIN], us_scopes = [''reservations:read:tenant''],
     us_movieProviderId = obj_prop demo_provider_ids ''aurora'',
     us_movieProviderCode = Some (obj_prop demo_provider_codes ''aurora'')\<rparr>"

lemma aurora_uuid: "matches_classes uuid_lower_pattern (obj_prop demo_provider_ids ''aurora'')"
  by (rule digit_uuid) code_simp

lemma fixed_user_authenticate_eq: "fixed_user_authenticate token w = (Inr fixed_user, w)"
proof -
  have "create_user_id ''local-dev-user'' = Inr ''local-dev-user''" by code_simp
  then show ?thesis
    by (simp add: fixed_user_authenticate_def fixed_user_def create_movie_provider_id_def
        lower_uuid_accepted [OF aurora_uuid])
qed

lemma fixed_user_sound: "sound_user fixed_user"
proof -
  have "js_trim ''local-dev-user'' = ''local-dev-user''" by code_simp
  moreover have "provider_code_pattern (obj_prop demo_provider_codes ''aurora'')" by code_simp
  ultimately show ?thesis by (simp add: sound_user_def fixed_user_def aurora_uuid)
qed

interpretation jwt: authentication_manager "jwt_authenticate client" for client
  by unfold_locales (rule jwt_authenticate_sound)

interpretation fixed: authentication_manager fixed_user_authenticate
  by unfold_locales (simp add: fixed_user_authenticate_eq fixed_user_sound)

lemma created_manager_sound:
  assumes "create_authentication_manager mode decodeJwt = Inr manager"
  shows "authentication_manager manager"
  using assms jwt.authentication_manager_axioms fixed.authentication_manager_axioms
  by (auto simp: create_authentication_manager_def split: auth_mode.splits)

section \<open>Properties\<close>

text \<open>C28: parsing JWT claims yields a sound user or exactly the error \<open>Invalid token claims\<close>.
  It succeeds exactly on claims with a non-blank subject, a provider id that is a UUID and, when
  there is one, a well-formed provider code; the user has the trimmed subject, the canonical
  provider id and the code, and holds a role exactly when the realm roles or the roles of some
  resource name it.\<close>

theorem claims_give_sound_user:
  "case parse_movie_reservation_claims claims of
     Inr u \<Rightarrow> valid_claims claims \<and> sound_user u \<and>
       text_claim claims ''sub'' = Some (us_userId u) \<and>
       map_option js_lower (text_claim claims ''movie_provider_id'') = Some (us_movieProviderId u) \<and>
       us_movieProviderCode u = text_claim claims ''movie_provider_code'' \<and>
       (\<forall>r. r \<in> set (us_roles u) \<longleftrightarrow>
          role_str r \<in> set (read_realm_roles claims) \<union> set (read_resource_roles claims))
   | Inl e \<Rightarrow> e = AuthenticationError ''Invalid token claims'' \<and> \<not> valid_claims claims"
  by (rule parse_claims_core)

lemma split_two:
  "(\<exists>rest. js_split sep s = p # q # rest) \<longleftrightarrow>
    sep \<notin> set p \<and> sep \<notin> set q \<and> (\<exists>rest. s = p @ sep # q @ rest \<and> (rest = [] \<or> hd rest = sep))"
proof
  assume "\<exists>rest. js_split sep s = p # q # rest"
  then obtain rest where split: "js_split sep s = p # q # rest" by blast
  then have "s = js_join sep (p # q # rest)" using js_join_split [of sep s] by simp
  then have "s = p @ sep # q @ (if rest = [] then [] else sep # js_join sep rest)"
    by (cases rest) simp_all
  moreover have "sep \<notin> set p" "sep \<notin> set q" using split js_split_no_sep [of _ sep s] by auto
  ultimately show "sep \<notin> set p \<and> sep \<notin> set q \<and> (\<exists>rest. s = p @ sep # q @ rest \<and> (rest = [] \<or> hd rest = sep))"
    by (cases "rest = []") auto
next
  assume "sep \<notin> set p \<and> sep \<notin> set q \<and> (\<exists>rest. s = p @ sep # q @ rest \<and> (rest = [] \<or> hd rest = sep))"
  then obtain rest where p: "sep \<notin> set p" "sep \<notin> set q" "s = p @ sep # q @ rest" "rest = [] \<or> hd rest = sep"
    by blast
  show "\<exists>rest. js_split sep s = p # q # rest"
  proof (cases rest)
    case Nil
    with p show ?thesis by (simp add: js_split_app js_split_unit)
  next
    case (Cons c cs)
    with p show ?thesis by (simp add: js_split_app)
  qed
qed

lemma extract_bearer_token_Some:
  "extract_bearer_token headers = Some t \<longleftrightarrow> js_trim t \<noteq> [] \<and> CHR '' '' \<notin> set t \<and>
    (\<exists>rest. read_header headers ''authorization'' = Some (''Bearer '' @ t @ rest) \<and>
      (rest = [] \<or> hd rest = CHR '' ''))"
proof (cases "read_header headers ''authorization''")
  case (Some a)
  have "extract_bearer_token headers = Some t \<longleftrightarrow>
      js_trim t \<noteq> [] \<and> (\<exists>rest. js_split CHR '' '' a = ''Bearer'' # t # rest)"
    using Some by (auto simp: extract_bearer_token_def split: list.splits if_splits)
  then show ?thesis using Some by (auto simp: split_two)
qed (simp add: extract_bearer_token_def)

text \<open>The bearer credential reaches the token client exactly as sent. A token is taken from the
  first \<open>Authorization\<close> value exactly when that value is \<open>Bearer\<close>, one blank and a
  non-blank text without blanks, followed by nothing or by a blank; a JWT manager then asks the
  token client about that text, and without one it rejects with \<open>Missing token\<close> without
  asking.\<close>

lemma bearer_token_is_passed_on:
  "(extract_bearer_token headers = Some t \<longleftrightarrow> js_trim t \<noteq> [] \<and> CHR '' '' \<notin> set t \<and>
     (\<exists>rest. read_header headers ''authorization'' = Some (''Bearer '' @ t @ rest) \<and>
        (rest = [] \<or> hd rest = CHR '' ''))) \<and>
   authenticate_jwt_token (jwt_authenticate client) (extract_bearer_token headers) =
     (case extract_bearer_token headers of
        None \<Rightarrow> throw (AuthenticationError ''Missing token'')
      | Some token \<Rightarrow> bind_io (client token) (\<lambda>claims. lift (parse_movie_reservation_claims claims)))"
proof (intro conjI extract_bearer_token_Some)
  show "authenticate_jwt_token (jwt_authenticate client) (extract_bearer_token headers) =
     (case extract_bearer_token headers of
        None \<Rightarrow> throw (AuthenticationError ''Missing token'')
      | Some token \<Rightarrow> bind_io (client token) (\<lambda>claims. lift (parse_movie_reservation_claims claims)))"
  proof (cases "extract_bearer_token headers")
    case (Some token)
    then have "js_trim token \<noteq> []" by (simp only: extract_bearer_token_Some simp_thms)
    with Some show ?thesis by (simp add: authenticate_jwt_token_def jwt_authenticate_def fun_eq_iff)
  qed (simp add: authenticate_jwt_token_def jwt_authenticate_def fun_eq_iff)
qed

end
