(* ===== verification/Auth_Boundary.thy ===== *)
theory Auth_Boundary
  imports Authentication
begin

text \<open>
  The two authenticated boundaries: the GraphQL authentication middleware
  (\<open>presentation/graphql/middleware/graphql-authentication.middleware.ts\<close>) and the demo
  login (\<open>application/authentication/demo-login.service.ts\<close>, its credential verifier and
  its controller), with the audit port they report to
  (\<open>application/audit\<close>).
\<close>

section \<open>The audit port\<close>

datatype authentication_failure_reason =
    INVALID_CREDENTIALS | MISSING_CREDENTIALS | MALFORMED_CREDENTIALS | INVALID_TOKEN | UNAUTHENTICATED

datatype authentication_outcome = Authenticated | Not_Authenticated authentication_failure_reason

datatype auth_boundary = Demo_Login | Graphql

record authentication_audit_attempt =
  aa_outcome :: authentication_outcome
  aa_route :: string
  aa_authBoundary :: auth_boundary

record audit_receipt =
  ar_request_id :: string
  ar_audit_event_id :: string
  ar_trace_id :: "string option"

type_synonym 'w authentication_audit_recorder = "authentication_audit_attempt \<Rightarrow> ('w, audit_receipt) io"

section \<open>The GraphQL middleware\<close>

text \<open>What the middleware stores on the request.\<close>

record request_identity =
  id_authenticatedUser :: "authenticated_user option"
  id_actor :: "actor_context option"

type_synonym 'e graphql_world = "request_identity \<times> 'e request_world"

fun read_header_values :: "header_value option \<Rightarrow> string list" where
  "read_header_values None = []"
| "read_header_values (Some (Header_One s)) = [s]"
| "read_header_values (Some (Header_Many ss)) = ss"

definition is_graphql_landing_page_request :: "http_request \<Rightarrow> bool" where
  "is_graphql_landing_page_request req =
    (if rq_method req \<noteq> Some ''GET'' then False
     else list_ex (\<lambda>contentType. js_includes contentType ''text/html'')
       (read_header_values (rq_headers req ''accept'')))"

definition unauthenticated_attempt :: authentication_audit_attempt where
  "unauthenticated_attempt = \<lparr>aa_outcome = Not_Authenticated UNAUTHENTICATED, aa_route = ''/graphql'',
     aa_authBoundary = Graphql\<rparr>"

text \<open>\<open>respond statusCode message\<close> is \<open>res.status(statusCode).json({statusCode, message})\<close>.\<close>

definition graphql_authentication_use ::
  "bool \<Rightarrow> 'e graphql_world authentication_manager_op \<Rightarrow> 'e graphql_world authentication_audit_recorder \<Rightarrow>
    (int \<Rightarrow> string \<Rightarrow> ('e graphql_world, unit) io) \<Rightarrow> http_request \<Rightarrow> ('e graphql_world, unit) io \<Rightarrow>
    ('e graphql_world, unit) io" where
  "graphql_authentication_use enableGraphiql authenticate record respond req nxt =
    (if enableGraphiql \<and> is_graphql_landing_page_request req then nxt
     else catch_io
       (bind_io (authenticate_jwt_token authenticate (extract_bearer_token (rq_headers req))) (\<lambda>authenticatedUser.
        then_io (on_env (enrich_with_authenticated_user authenticatedUser))
        (then_io (on_db (modify (\<lambda>i. i\<lparr>id_authenticatedUser := Some authenticatedUser\<rparr>)))
        (then_io (on_db (modify (\<lambda>i. i\<lparr>id_actor := Some (create_actor_context authenticatedUser)\<rparr>))) nxt))))
       (\<lambda>err. case err of
          AuthenticationError m \<Rightarrow>
            then_io
              (catch_io (bind_io (record unauthenticated_attempt) (\<lambda>_. ret ()))
                (\<lambda>auditError. if auditError \<noteq> AuditEmissionUnavailableError then throw auditError else ret ()))
              (respond 401 ''Unauthenticated'')
        | _ \<Rightarrow> throw err))"

section \<open>Demo login\<close>

type_synonym demo_credential_verifier = "string \<Rightarrow> string \<Rightarrow> bool"

text \<open>\<open>hash\<close> is SHA-256; digests have one size, so \<open>timingSafeEqual\<close> is equality.\<close>

definition constant_time_verifier :: "(string \<Rightarrow> string) \<Rightarrow> string \<Rightarrow> string \<Rightarrow> demo_credential_verifier" where
  "constant_time_verifier hash expectedUsername expectedPassword username password =
    (let usernameMatches = (hash username = hash expectedUsername);
         passwordMatches = (hash password = hash expectedPassword)
     in usernameMatches \<and> passwordMatches)"

definition demo_authenticate :: "demo_credential_verifier \<Rightarrow> json option \<Rightarrow> authentication_outcome" where
  "demo_authenticate verifier body =
    (case body of
       None \<Rightarrow> Not_Authenticated MISSING_CREDENTIALS
     | Some JNull \<Rightarrow> Not_Authenticated MISSING_CREDENTIALS
     | Some (JObject credentials) \<Rightarrow>
         (case (map_of credentials ''username'', map_of credentials ''password'') of
            (Some username, Some password) \<Rightarrow>
              (case (username, password) of
                 (JString u, JString p) \<Rightarrow>
                   if length u > 256 \<or> length p > 1024 then Not_Authenticated MALFORMED_CREDENTIALS
                   else if length u = 0 \<or> length p = 0 then Not_Authenticated MISSING_CREDENTIALS
                   else if \<not> verifier u p then Not_Authenticated INVALID_CREDENTIALS
                   else Authenticated
               | _ \<Rightarrow> Not_Authenticated MALFORMED_CREDENTIALS)
          | _ \<Rightarrow> Not_Authenticated MISSING_CREDENTIALS)
     | _ \<Rightarrow> Not_Authenticated MALFORMED_CREDENTIALS)"

record demo_login_result =
  dr_authenticated :: bool
  dr_message :: string
  dr_receipt :: "audit_receipt option"

definition demo_login_decision :: "authentication_outcome \<Rightarrow> demo_login_result" where
  "demo_login_decision outcome =
    (if outcome = Authenticated
     then \<lparr>dr_authenticated = True, dr_message = ''Demo credentials accepted'', dr_receipt = None\<rparr>
     else \<lparr>dr_authenticated = False, dr_message = ''Invalid credentials'', dr_receipt = None\<rparr>)"

definition demo_login ::
  "demo_credential_verifier \<Rightarrow> 'w authentication_audit_recorder \<Rightarrow> json option \<Rightarrow> ('w, demo_login_result) io" where
  "demo_login verifier record body =
    (let outcome = demo_authenticate verifier body; decision = demo_login_decision outcome in
     catch_io
       (bind_io (record \<lparr>aa_outcome = outcome, aa_route = ''/demo/auth/login'', aa_authBoundary = Demo_Login\<rparr>)
         (\<lambda>receipt. ret (decision\<lparr>dr_receipt := Some receipt\<rparr>)))
       (\<lambda>e. if e = AuditEmissionUnavailableError then ret decision else throw e))"

definition demo_auth_controller_login ::
  "(json option \<Rightarrow> ('w, demo_login_result) io) \<Rightarrow> (int \<Rightarrow> demo_login_result \<Rightarrow> ('w, unit) io) \<Rightarrow>
    json option \<Rightarrow> ('w, unit) io" where
  "demo_auth_controller_login login respond body =
    bind_io (login body) (\<lambda>result. respond (if dr_authenticated result then 200 else 401) result)"

text \<open>The providers of the module: the login service, when demo login is enabled.\<close>

datatype demo_auth_settings = Demo_Auth_Disabled | Demo_Auth_Enabled string string

definition demo_auth_module_for_root ::
  "(string \<Rightarrow> string) \<Rightarrow> demo_auth_settings \<Rightarrow> 'w authentication_audit_recorder \<Rightarrow>
    (json option \<Rightarrow> ('w, demo_login_result) io) option" where
  "demo_auth_module_for_root hash settings audit =
    (case settings of
       Demo_Auth_Disabled \<Rightarrow> None
     | Demo_Auth_Enabled username password \<Rightarrow>
         Some (demo_login (constant_time_verifier hash username password) audit))"

section \<open>Facts\<close>

text \<open>
  Handlers that insist on an authenticated request: without a sound user and the actor built
  from that user they refuse to run.
\<close>

definition sound_identity :: "request_identity \<Rightarrow> bool" where
  "sound_identity i \<longleftrightarrow> (case id_authenticatedUser i of
     Some u \<Rightarrow> sound_user u \<and> id_actor i = Some (create_actor_context u) | None \<Rightarrow> False)"

definition guard_identity :: "('e graphql_world, unit) io \<Rightarrow> ('e graphql_world, unit) io" where
  "guard_identity m = (\<lambda>w. if sound_identity (fst w) then m w else (Inl (Error ''unauthenticated handler''), w))"

lemma enrich_with_user_runs:
  fixes w :: "'e request_world"
  shows "\<exists>w'. enrich_with_authenticated_user u w = (Inr (), w')"
  by (cases w) (auto simp: enrich_with_authenticated_user_def get_current_request_context_def enter_with_def
      on_db_app bind_io_def split: option.split)

lemma store_identity:
  "bind_io (on_env (enrich_with_authenticated_user u)) (\<lambda>_.
     bind_io (on_db (modify (\<lambda>i. i\<lparr>id_authenticatedUser := Some u\<rparr>))) (\<lambda>_.
     bind_io (on_db (modify (\<lambda>i. i\<lparr>id_actor := Some (create_actor_context u)\<rparr>))) (\<lambda>_. nxt))) (i, rw) =
   nxt (i\<lparr>id_authenticatedUser := Some u, id_actor := Some (create_actor_context u)\<rparr>,
     snd (enrich_with_authenticated_user u rw))"
proof -
  obtain w' where "enrich_with_authenticated_user u rw = (Inr (), w')"
    using enrich_with_user_runs by blast
  then show ?thesis by (simp add: bind_io_def on_db_app on_env_app)
qed

section \<open>Properties\<close>

text \<open>C24: no GraphQL handler runs without a sound identity. Whatever manager the service is configured
  with, and whatever the request and the token client say, the middleware behaves exactly as it
  would with handlers that refuse to run unless the request carries a sound user and the actor
  built from that user. The one exception is the landing page of an enabled GraphiQL.\<close>

theorem handlers_run_authenticated:
  assumes "create_authentication_manager mode decodeJwt = Inr manager"
    and "\<not> (enableGraphiql \<and> is_graphql_landing_page_request req)"
  shows "graphql_authentication_use enableGraphiql manager record respond req nxt =
    graphql_authentication_use enableGraphiql manager record respond req (guard_identity nxt)"
proof
  fix w :: "'a graphql_world"
  let ?token = "extract_bearer_token (rq_headers req)"
  obtain r i rw where run: "authenticate_jwt_token manager ?token w = (r, (i, rw))" by (metis prod.collapse)
  have "sound_identity (i\<lparr>id_authenticatedUser := Some u, id_actor := Some (create_actor_context u)\<rparr>)"
    if "r = Inr u" for u
    using authentication_manager.service_returns_sound [OF created_manager_sound [OF assms(1)]] run that
    by (simp add: sound_identity_def)
  then show "graphql_authentication_use enableGraphiql manager record respond req nxt w =
    graphql_authentication_use enableGraphiql manager record respond req (guard_identity nxt) w"
    by (cases r)
      (simp_all add: graphql_authentication_use_def if_not_P [OF assms(2)] catch_io_def
        bind_io_def [where m = "authenticate_jwt_token _ _"] run store_identity guard_identity_def)
qed

definition sample_req :: http_request where
  "sample_req = \<lparr>rq_method = Some ''GET'', rq_baseUrl = None, rq_originalUrl = None, rq_routePath = None,
     rq_url = None, rq_headers = (\<lambda>n. if n = ''accept'' then Some (Header_Many [''text/html'']) else None)\<rparr>"

definition sample_world :: "nat graphql_world" where
  "sample_world = (\<lparr>id_authenticatedUser = None, id_actor = None\<rparr>, (None, 0))"

theorem handlers_run_authenticated_witness:
  "graphql_authentication_use False fixed_user_authenticate (\<lambda>_. throw AuditEmissionUnavailableError)
      (\<lambda>status message. throw (Error message)) sample_req (on_db (modify (\<lambda>i. i\<lparr>id_actor := None\<rparr>))) sample_world =
   graphql_authentication_use False fixed_user_authenticate (\<lambda>_. throw AuditEmissionUnavailableError)
      (\<lambda>status message. throw (Error message)) sample_req
      (guard_identity (on_db (modify (\<lambda>i. i\<lparr>id_actor := None\<rparr>)))) sample_world \<and>
   is_graphql_landing_page_request sample_req"
proof
  show "is_graphql_landing_page_request sample_req" by code_simp
qed (rule fun_cong, rule handlers_run_authenticated [of Local_Fixed_User "\<lambda>_. Inr []"],
    simp_all add: create_authentication_manager_def)

text \<open>A rejected request is answered with 401, whether or not the audit publisher is available, and
  no handler runs. When the manager rejects, the middleware tells the recorder once about an
  unauthenticated GraphQL request, and then responds; only an error of the recorder other than
  the documented unavailability replaces the response.\<close>

lemma rejection_is_answered:
  assumes "\<not> (enableGraphiql \<and> is_graphql_landing_page_request req)"
    and "manager (extract_bearer_token (rq_headers req)) w = (Inl (AuthenticationError m), w1)"
  shows "graphql_authentication_use enableGraphiql manager record respond req nxt w =
    (case record unauthenticated_attempt w1 of
       (Inr receipt, w2) \<Rightarrow> respond 401 ''Unauthenticated'' w2
     | (Inl e, w2) \<Rightarrow> if e = AuditEmissionUnavailableError then respond 401 ''Unauthenticated'' w2 else (Inl e, w2))"
  unfolding graphql_authentication_use_def if_not_P [OF assms(1)]
  by (auto simp: authenticate_jwt_token_def assms(2) catch_io_def bind_io_def
      split: prod.splits sum.splits)

lemma rejection_is_answered_example:
  "graphql_authentication_use True (jwt_authenticate (\<lambda>_. ret [])) (\<lambda>_. throw AuditEmissionUnavailableError)
      (\<lambda>status message. throw (Error message)) (sample_req\<lparr>rq_method := Some ''POST''\<rparr>) (ret ()) sample_world =
    (Inl (Error ''Unauthenticated''), sample_world)"
proof -
  have "extract_bearer_token (rq_headers sample_req) = None"
    by (simp add: sample_req_def extract_bearer_token_def read_header_def)
  then show ?thesis
    by (subst rejection_is_answered [of _ _ _ sample_world "''Missing token''" sample_world])
      (simp_all add: jwt_authenticate_def is_graphql_landing_page_request_def)
qed

text \<open>The credentials the demo login accepts.\<close>

definition accepted_credentials :: "(string \<Rightarrow> string) \<Rightarrow> string \<Rightarrow> string \<Rightarrow> json option \<Rightarrow> bool" where
  "accepted_credentials hash username password body \<longleftrightarrow>
     (case body of
        Some (JObject credentials) \<Rightarrow>
          (case (map_of credentials ''username'', map_of credentials ''password'') of
             (Some (JString u), Some (JString p)) \<Rightarrow> 1 \<le> length u \<and> length u \<le> 256 \<and> 1 \<le> length p \<and>
               length p \<le> 1024 \<and> hash u = hash username \<and> hash p = hash password
           | _ \<Rightarrow> False)
      | _ \<Rightarrow> False)"

lemma demo_authenticate_accepts:
  "demo_authenticate (constant_time_verifier hash username password) body = Authenticated \<longleftrightarrow>
    accepted_credentials hash username password body"
  unfolding demo_authenticate_def accepted_credentials_def constant_time_verifier_def Let_def
  by (auto simp: Suc_le_eq split: option.split json.split)

text \<open>The answer to a demo login depends on the credentials alone. For any body, the response has
  status 200 and an acceptance exactly when both credentials are non-empty texts within their
  length limits whose digests are the configured ones, and otherwise 401 and a refusal; the
  audit contributes the receipt when the event was accepted and changes nothing when it is
  unavailable; any other error of the recorder is thrown on.\<close>

lemma demo_login_answers_credentials:
  "demo_auth_controller_login (demo_login (constant_time_verifier hash username password) record) respond body w =
    (let accepted = accepted_credentials hash username password body;
         outcome = demo_authenticate (constant_time_verifier hash username password) body;
         answer = (\<lambda>receipt. respond (if accepted then 200 else 401)
           \<lparr>dr_authenticated = accepted,
            dr_message = (if accepted then ''Demo credentials accepted'' else ''Invalid credentials''),
            dr_receipt = receipt\<rparr>)
     in case record \<lparr>aa_outcome = outcome, aa_route = ''/demo/auth/login'', aa_authBoundary = Demo_Login\<rparr> w of
          (Inr receipt, w') \<Rightarrow> answer (Some receipt) w'
        | (Inl e, w') \<Rightarrow> if e = AuditEmissionUnavailableError then answer None w' else (Inl e, w'))"
proof -
  let ?outcome = "demo_authenticate (constant_time_verifier hash username password) body"
  have decision: "demo_login_decision ?outcome =
      \<lparr>dr_authenticated = accepted_credentials hash username password body,
       dr_message = (if accepted_credentials hash username password body
         then ''Demo credentials accepted'' else ''Invalid credentials''), dr_receipt = None\<rparr>"
    using demo_authenticate_accepts [of hash username password body] by (auto simp: demo_login_decision_def)
  obtain r w' where "record \<lparr>aa_outcome = ?outcome, aa_route = ''/demo/auth/login'', aa_authBoundary = Demo_Login\<rparr> w =
      (r, w')" by fastforce
  then show ?thesis
    by (cases r)
      (simp_all add: demo_auth_controller_login_def demo_login_def Let_def decision bind_io_def catch_io_def)
qed

end
