(* ===== verification/Audit_Sdk.thy ===== *)
theory Audit_Sdk
  imports Auth_Boundary
begin

text \<open>
  The audit package (\<open>packages/audit-sdk/src\<close>): the authentication event and how it is built
  from untrusted ids and headers, its validation against the published JSON schema
  (\<open>contract/platform-audit-event-v1.schema.json\<close>), and the EventBridge publisher. Ajv
  and the AWS client are parameters.
\<close>

section \<open>The event\<close>

datatype audit_service_name = Reservation_Service | Reservation_Agent | Recommendation_Service

fun service_name_str :: "audit_service_name \<Rightarrow> string" where
  "service_name_str Reservation_Service = ''movie-reservation-service''"
| "service_name_str Reservation_Agent = ''movie-reservation-agent''"
| "service_name_str Recommendation_Service = ''movie-recommendation-service''"

datatype sdk_failure_reason =
    Sdk_Invalid_Credentials | Sdk_Missing_Credentials | Sdk_Malformed_Credentials | Sdk_Invalid_Token
  | Sdk_Unauthenticated

fun sdk_reason_str :: "sdk_failure_reason \<Rightarrow> string" where
  "sdk_reason_str Sdk_Invalid_Credentials = ''INVALID_CREDENTIALS''"
| "sdk_reason_str Sdk_Missing_Credentials = ''MISSING_CREDENTIALS''"
| "sdk_reason_str Sdk_Malformed_Credentials = ''MALFORMED_CREDENTIALS''"
| "sdk_reason_str Sdk_Invalid_Token = ''INVALID_TOKEN''"
| "sdk_reason_str Sdk_Unauthenticated = ''UNAUTHENTICATED''"

datatype sdk_outcome = Sdk_Authenticated | Sdk_Not_Authenticated sdk_failure_reason

datatype sdk_boundary = Sdk_Demo_Login | Sdk_Graphql | Sdk_Api_Auth

fun sdk_boundary_str :: "sdk_boundary \<Rightarrow> string" where
  "sdk_boundary_str Sdk_Demo_Login = ''demo_login''"
| "sdk_boundary_str Sdk_Graphql = ''graphql''"
| "sdk_boundary_str Sdk_Api_Auth = ''api_auth''"

text \<open>\<open>ei_keys\<close> is \<open>Object.keys(input)\<close>.\<close>

record audit_event_input =
  ei_keys :: "string list"
  ei_outcome :: sdk_outcome
  ei_route :: string
  ei_authBoundary :: sdk_boundary
  ei_correlationId :: string
  ei_requestId :: string
  ei_serviceName :: audit_service_name
  ei_serviceVersion :: string
  ei_environment :: string
  ei_traceId :: "string option"
  ei_spanId :: "string option"
  ei_awsAlbTraceId :: "string option"
  ei_awsCloudfrontRequestId :: "string option"

record audit_product =
  pd_name :: audit_service_name
  pd_vendor_name :: string
  pd_version :: string

record audit_metadata =
  mt_version :: string
  mt_uid :: string
  mt_correlation_uid :: string
  mt_product :: audit_product

record audit_service =
  as_name :: audit_service_name
  as_version :: string

record audit_user =
  au_user_name :: string
  au_type_id :: int

record audit_platform =
  pl_schema_version :: string
  pl_environment :: string
  pl_request_id :: string
  pl_trace_id :: "string option"
  pl_span_id :: "string option"
  pl_aws_alb_trace_id :: "string option"
  pl_aws_cloudfront_request_id :: "string option"
  pl_route :: string
  pl_auth_boundary :: sdk_boundary

record authentication_audit_event =
  ev_activity_id :: int
  ev_activity_name :: string
  ev_category_uid :: int
  ev_class_uid :: int
  ev_type_uid :: int
  ev_severity_id :: int
  ev_status_id :: int
  ev_status_detail :: string
  ev_time :: int
  ev_metadata :: audit_metadata
  ev_service :: audit_service
  ev_user :: audit_user
  ev_platform :: audit_platform

section \<open>Serialisation\<close>

text \<open>
  \<open>JSON.stringify\<close> of strings: quotes, backslashes and control characters are escaped. The
  characters are Latin-1, so UTF-8 needs one byte below 128 and two above.
\<close>

definition hex_digit :: "nat \<Rightarrow> char" where
  "hex_digit n = (if n < 10 then char_of (48 + n) else char_of (87 + n))"

definition json_escape_char :: "char \<Rightarrow> string" where
  "json_escape_char c =
    (let n = code_unit c in
     if n = 34 then [CHR 0x5C, c]
     else if n = 92 then [CHR 0x5C, c]
     else if n = 8 then [CHR 0x5C, CHR ''b'']
     else if n = 9 then [CHR 0x5C, CHR ''t'']
     else if n = 10 then [CHR 0x5C, CHR ''n'']
     else if n = 12 then [CHR 0x5C, CHR ''f'']
     else if n = 13 then [CHR 0x5C, CHR ''r'']
     else if n < 32 then [CHR 0x5C, CHR ''u'', CHR ''0'', CHR ''0'', hex_digit (n div 16), hex_digit (n mod 16)]
     else [c])"

definition json_string :: "string \<Rightarrow> string" where
  "json_string s = CHR 0x22 # List.concat (List.map json_escape_char s) @ [CHR 0x22]"

fun join_comma :: "string list \<Rightarrow> string" where
  "join_comma [] = []"
| "join_comma [x] = x"
| "join_comma (x # y # ys) = x @ CHR '','' # join_comma (y # ys)"

fun json_stringify :: "json \<Rightarrow> string" where
  "json_stringify JNull = ''null''"
| "json_stringify (JBool b) = (if b then ''true'' else ''false'')"
| "json_stringify (JNumber n) = int_str n"
| "json_stringify (JString s) = json_string s"
| "json_stringify (JArray xs) = CHR ''['' # join_comma (List.map json_stringify xs) @ '']''"
| "json_stringify (JObject ps) =
     CHR ''{'' # join_comma (List.map (\<lambda>(k, v). json_string k @ CHR '':'' # json_stringify v) ps) @ ''}''"

definition utf8_byte_length :: "string \<Rightarrow> nat" where
  "utf8_byte_length s = sum_list (List.map (\<lambda>c. if code_unit c < 128 then 1 else 2) s)"

definition optional_field :: "string \<Rightarrow> string option \<Rightarrow> (string \<times> json) list" where
  "optional_field name v = (case v of None \<Rightarrow> [] | Some s \<Rightarrow> [(name, JString s)])"

definition event_json :: "authentication_audit_event \<Rightarrow> json" where
  "event_json ev = JObject
    [(''activity_id'', JNumber (ev_activity_id ev)),
     (''activity_name'', JString (ev_activity_name ev)),
     (''category_uid'', JNumber (ev_category_uid ev)),
     (''class_uid'', JNumber (ev_class_uid ev)),
     (''type_uid'', JNumber (ev_type_uid ev)),
     (''severity_id'', JNumber (ev_severity_id ev)),
     (''status_id'', JNumber (ev_status_id ev)),
     (''status_detail'', JString (ev_status_detail ev)),
     (''time'', JNumber (ev_time ev)),
     (''metadata'', JObject
       [(''version'', JString (mt_version (ev_metadata ev))),
        (''uid'', JString (mt_uid (ev_metadata ev))),
        (''correlation_uid'', JString (mt_correlation_uid (ev_metadata ev))),
        (''product'', JObject
          [(''name'', JString (service_name_str (pd_name (mt_product (ev_metadata ev))))),
           (''vendor_name'', JString (pd_vendor_name (mt_product (ev_metadata ev)))),
           (''version'', JString (pd_version (mt_product (ev_metadata ev))))])]),
     (''service'', JObject
       [(''name'', JString (service_name_str (as_name (ev_service ev)))),
        (''version'', JString (as_version (ev_service ev)))]),
     (''user'', JObject
       [(''name'', JString (au_user_name (ev_user ev))),
        (''type_id'', JNumber (au_type_id (ev_user ev)))]),
     (''unmapped'', JObject
       [(''platform'', JObject
         ([(''schema_version'', JString (pl_schema_version (ev_platform ev))),
           (''environment'', JString (pl_environment (ev_platform ev))),
           (''request_id'', JString (pl_request_id (ev_platform ev)))] @
          optional_field ''trace_id'' (pl_trace_id (ev_platform ev)) @
          optional_field ''span_id'' (pl_span_id (ev_platform ev)) @
          optional_field ''aws_alb_trace_id'' (pl_aws_alb_trace_id (ev_platform ev)) @
          optional_field ''aws_cloudfront_request_id'' (pl_aws_cloudfront_request_id (ev_platform ev)) @
          [(''route'', JString (pl_route (ev_platform ev))),
           (''auth_boundary'', JString (sdk_boundary_str (pl_auth_boundary (ev_platform ev))))]))])]"

section \<open>Validation\<close>

definition max_audit_event_bytes :: nat where
  "max_audit_event_bytes = 240 * 1024"

text \<open>An error object of Ajv, and an issue: its code and its path.\<close>

record ajv_error =
  ae_keyword :: string
  ae_instancePath :: string

type_synonym audit_issue = "string \<times> string"

definition to_safe_issue :: "ajv_error \<Rightarrow> audit_issue" where
  "to_safe_issue e =
    (let path = (if length (ae_instancePath e) = 0 then ''/'' else ae_instancePath e) in
     if ae_keyword e = ''required'' then (''missing_field'', path)
     else if ae_keyword e = ''additionalProperties'' then (''forbidden_field'', path)
     else if path = ''/metadata/version'' \<or> path = ''/unmapped/platform/schema_version''
       then (''invalid_version'', path)
     else if path = ''/time'' then (''invalid_timestamp'', path)
     else if ae_keyword e = ''enum'' \<or> ae_keyword e = ''const'' then (''invalid_enum'', path)
     else if ae_keyword e = ''pattern'' \<or> ae_keyword e = ''format'' then (''invalid_format'', path)
     else (''invalid_contract'', path))"

datatype 'v audit_validation_result = Valid 'v nat | Invalid "audit_issue list"

text \<open>
  \<open>serialize\<close> is \<open>JSON.stringify\<close>: it may throw or give \<open>undefined\<close>. The compiled
  schema gives \<open>None\<close> for a valid value, and otherwise its error objects.
\<close>

definition validate_authentication_audit_event ::
  "('v \<Rightarrow> js_error + string option) \<Rightarrow> ('v \<Rightarrow> ajv_error list option) \<Rightarrow> 'v \<Rightarrow> 'v audit_validation_result" where
  "validate_authentication_audit_event serialize schema v =
    (case serialize v of
       Inl e \<Rightarrow> Invalid [(''invalid_contract'', ''/'')]
     | Inr None \<Rightarrow> Invalid [(''invalid_contract'', ''/'')]
     | Inr (Some serialized) \<Rightarrow>
         (let byteLength = utf8_byte_length serialized in
          if byteLength > max_audit_event_bytes then Invalid [(''size_exceeded'', ''/'')]
          else (case schema v of
                  Some errors \<Rightarrow> Invalid (List.map to_safe_issue errors)
                | None \<Rightarrow> Valid v byteLength)))"

type_synonym audit_schema = "authentication_audit_event \<Rightarrow> ajv_error list option"

definition assert_valid_authentication_audit_event ::
  "audit_schema \<Rightarrow> authentication_audit_event \<Rightarrow> js_error + unit" where
  "assert_valid_authentication_audit_event schema ev =
    (case validate_authentication_audit_event (\<lambda>v. Inr (Some (json_stringify (event_json v)))) schema ev of
       Invalid issues \<Rightarrow> Inl (AuditContractError issues)
     | Valid v n \<Rightarrow> Inr ())"

section \<open>Building the event\<close>

record 'e audit_event_providers =
  pv_now :: "('e, int) io"
  pv_generate :: "('e, string) io"

definition allowed_input_keys :: "string list" where
  "allowed_input_keys = [''outcome'', ''route'', ''authBoundary'', ''correlationId'', ''requestId'',
     ''serviceName'', ''serviceVersion'', ''environment'', ''traceId'', ''spanId'', ''awsAlbTraceId'',
     ''awsCloudfrontRequestId'']"

definition normalize_hex_id :: "string option \<Rightarrow> nat \<Rightarrow> string option" where
  "normalize_hex_id v n =
    (case v of
       None \<Rightarrow> None
     | Some s \<Rightarrow>
         if \<not> matches_bounded is_hex_lower n n s \<or> (s \<noteq> [] \<and> list_all (\<lambda>c. c = CHR ''0'') s) then None
         else Some s)"

definition is_printable :: "char \<Rightarrow> bool" where
  "is_printable c \<longleftrightarrow> in_range 32 126 c"

definition sanitize_header :: "string option \<Rightarrow> string option" where
  "sanitize_header v =
    (case v of
       None \<Rightarrow> None
     | Some s \<Rightarrow>
         if length s > 512 then None
         else (let sanitized = js_trim (List.map (\<lambda>c. if is_printable c then c else CHR '' '') s) in
               if length sanitized = 0 then None else Some sanitized))"

definition authentication_audit_event_of ::
  "audit_event_input \<Rightarrow> int \<Rightarrow> string \<Rightarrow> authentication_audit_event" where
  "authentication_audit_event_of input now uid =
    (let traceId = normalize_hex_id (ei_traceId input) 32;
         spanId = (if traceId = None then None else normalize_hex_id (ei_spanId input) 16);
         albTraceId = sanitize_header (ei_awsAlbTraceId input);
         cloudfrontRequestId = sanitize_header (ei_awsCloudfrontRequestId input)
     in \<lparr>ev_activity_id = 99, ev_activity_name = ''Credential validation'', ev_category_uid = 3,
         ev_class_uid = 3002, ev_type_uid = 300299,
         ev_severity_id = (case ei_outcome input of Sdk_Authenticated \<Rightarrow> 1 | _ \<Rightarrow> 2),
         ev_status_id = (case ei_outcome input of Sdk_Authenticated \<Rightarrow> 1 | _ \<Rightarrow> 2),
         ev_status_detail = (case ei_outcome input of Sdk_Authenticated \<Rightarrow> ''AUTHENTICATED''
           | Sdk_Not_Authenticated reason \<Rightarrow> sdk_reason_str reason),
         ev_time = now,
         ev_metadata = \<lparr>mt_version = ''1.3.0'', mt_uid = uid, mt_correlation_uid = ei_correlationId input,
           mt_product = \<lparr>pd_name = ei_serviceName input, pd_vendor_name = ''Movie Reservation Platform Lab'',
             pd_version = ei_serviceVersion input\<rparr>\<rparr>,
         ev_service = \<lparr>as_name = ei_serviceName input, as_version = ei_serviceVersion input\<rparr>,
         ev_user = (case ei_outcome input of
            Sdk_Authenticated \<Rightarrow> \<lparr>au_user_name = ''demo-user'', au_type_id = 1\<rparr>
          | _ \<Rightarrow> \<lparr>au_user_name = ''unknown'', au_type_id = 0\<rparr>),
         ev_platform = \<lparr>pl_schema_version = ''1'', pl_environment = ei_environment input,
           pl_request_id = ei_requestId input, pl_trace_id = traceId, pl_span_id = spanId,
           pl_aws_alb_trace_id = albTraceId, pl_aws_cloudfront_request_id = cloudfrontRequestId,
           pl_route = ei_route input, pl_auth_boundary = ei_authBoundary input\<rparr>\<rparr>)"

definition build_authentication_audit_event ::
  "audit_schema \<Rightarrow> 'e audit_event_providers \<Rightarrow> audit_event_input \<Rightarrow> ('e, authentication_audit_event) io" where
  "build_authentication_audit_event schema providers input =
    (if list_ex (\<lambda>key. key \<notin> set allowed_input_keys) (ei_keys input)
     then throw (AuditContractError [(''forbidden_field'', ''/'')])
     else
     bind_io (pv_now providers) (\<lambda>now.
     bind_io (pv_generate providers) (\<lambda>uid.
     (let event = authentication_audit_event_of input now uid in
      then_io (lift (assert_valid_authentication_audit_event schema event)) (ret event)))))"

section \<open>Publishing\<close>

record audit_publish_result =
  pr_failure :: "audit_publish_failure_reason option"
  pr_auditEventId :: string
  pr_transportEventId :: "string option"

definition publish_accepted :: "string \<Rightarrow> string option \<Rightarrow> audit_publish_result" where
  "publish_accepted auditEventId transportEventId =
     \<lparr>pr_failure = None, pr_auditEventId = auditEventId, pr_transportEventId = transportEventId\<rparr>"

definition publish_refused :: "string \<Rightarrow> audit_publish_failure_reason \<Rightarrow> audit_publish_result" where
  "publish_refused auditEventId reason =
     \<lparr>pr_failure = Some reason, pr_auditEventId = auditEventId, pr_transportEventId = None\<rparr>"

text \<open>The options of a publish: the signal, when there is one, and whether it is aborted.\<close>

type_synonym 'w audit_publisher =
  "authentication_audit_event \<Rightarrow> bool option \<Rightarrow> ('w, audit_publish_result) io"

record put_events_result_entry =
  pe_EventId :: "string option"
  pe_ErrorCode :: "string option"
  pe_ErrorMessage :: "string option"

record put_events_response =
  ps_FailedEntryCount :: "int option"
  ps_Entries :: "put_events_result_entry option list option"

definition determine_reason :: "string \<Rightarrow> audit_publish_failure_reason" where
  "determine_reason errorCode =
    (if errorCode = ''ThrottlingException'' then F_Throttled
     else if errorCode = ''InternalFailure'' then F_Unavailable
     else if errorCode = ''AccessDeniedException'' then F_Configuration
     else F_Rejected)"

definition inspect_put_events_response :: "put_events_response \<Rightarrow> string \<Rightarrow> audit_publish_result" where
  "inspect_put_events_response response auditEventId =
    (case ps_Entries response of
       Some [Some entry] \<Rightarrow>
         (case ps_FailedEntryCount response of
            None \<Rightarrow> publish_refused auditEventId F_Unavailable
          | Some failedEntryCount \<Rightarrow>
              if failedEntryCount > 1 then publish_refused auditEventId F_Unavailable
              else if failedEntryCount = 0 then
                (if pe_ErrorCode entry \<noteq> None \<or> pe_ErrorMessage entry \<noteq> None
                 then publish_refused auditEventId F_Unavailable
                 else (case pe_EventId entry of
                    None \<Rightarrow> publish_refused auditEventId F_Unavailable
                  | Some eventId \<Rightarrow>
                      if length (js_trim eventId) = 0 then publish_refused auditEventId F_Unavailable
                      else publish_accepted auditEventId (Some eventId)))
              else (case pe_ErrorCode entry of
                 None \<Rightarrow> publish_refused auditEventId F_Unavailable
               | Some errorCode \<Rightarrow>
                   if pe_EventId entry \<noteq> None \<or> length (js_trim errorCode) = 0 \<or> pe_ErrorMessage entry = None
                   then publish_refused auditEventId F_Unavailable
                   else publish_refused auditEventId (determine_reason errorCode)))
     | _ \<Rightarrow> publish_refused auditEventId F_Unavailable)"

text \<open>A thrown value of the transport, with its \<open>name\<close> when that is a string.\<close>

definition classify_transport_error :: "string option \<Rightarrow> audit_publish_failure_reason" where
  "classify_transport_error name =
    (if name = Some ''ThrottlingException'' \<or> name = Some ''TooManyRequestsException'' then F_Throttled
     else if name = Some ''InvalidArgument'' \<or> name = Some ''InvalidParameterException'' \<or>
        name = Some ''ResourceNotFoundException'' \<or> name = Some ''AccessDeniedException'' then F_Configuration
     else F_Unavailable)"

record event_bridge_config =
  ec_eventBusArn :: string
  ec_timeoutMs :: int
  ec_resources :: "string list option"

text \<open>
  \<open>[\p{Cc}\p{Cf}]\<close> on Latin-1: the control characters and the soft hyphen.
\<close>

definition is_control_or_format :: "char \<Rightarrow> bool" where
  "is_control_or_format c \<longleftrightarrow> in_range 0 31 c \<or> in_range 127 159 c \<or> code_unit c = 173"

definition is_bounded_resource_arn :: "string \<Rightarrow> bool" where
  "is_bounded_resource_arn resource \<longleftrightarrow> length resource \<ge> 5 \<and> length resource \<le> 2048 \<and>
     js_starts_with resource ''arn:'' \<and> \<not> list_ex is_control_or_format resource"

definition is_region_char :: "char \<Rightarrow> bool" where
  "is_region_char c \<longleftrightarrow> is_lower_az c \<or> is_digit c \<or> c = CHR ''-''"

definition is_bus_name_char :: "char \<Rightarrow> bool" where
  "is_bus_name_char c \<longleftrightarrow> is_upper_az c \<or> is_lower_az c \<or> is_digit c \<or> c \<in> set ''._/-''"

text \<open>
  The patterns of an ARN, by the pieces between its colons: no class of either pattern has a
  colon.
\<close>

definition event_bus_arn_pattern :: "string \<Rightarrow> bool" where
  "event_bus_arn_pattern arn =
    (case js_split CHR '':'' arn of
       [scheme, part, service, region, account, resource] \<Rightarrow>
         scheme = ''arn'' \<and> part \<in> {''aws'', ''aws-cn'', ''aws-us-gov''} \<and> service = ''events'' \<and>
         region \<noteq> [] \<and> list_all is_region_char region \<and> matches_bounded is_digit 12 12 account \<and>
         js_starts_with resource ''event-bus/'' \<and> matches_bounded is_bus_name_char 1 256 (drop 10 resource)
     | _ \<Rightarrow> False)"

definition is_partition_char :: "char \<Rightarrow> bool" where
  "is_partition_char c \<longleftrightarrow> is_lower_az c \<or> c = CHR ''-''"

definition event_bus_region :: "string \<Rightarrow> string option" where
  "event_bus_region arn =
    (case js_split CHR '':'' arn of
       scheme # part # service # region # rest \<Rightarrow>
         if scheme = ''arn'' \<and> part \<noteq> [] \<and> list_all is_partition_char part \<and> service = ''events'' \<and>
            region \<noteq> [] \<and> list_all is_region_char region \<and> rest \<noteq> [] then Some region else None
     | _ \<Rightarrow> None)"

record event_bridge_publisher =
  ep_eventBusArn :: string
  ep_timeoutMs :: int
  ep_resources :: "string list"

definition new_event_bridge_audit_publisher :: "event_bridge_config \<Rightarrow> js_error + event_bridge_publisher" where
  "new_event_bridge_audit_publisher config =
    (if \<not> event_bus_arn_pattern (ec_eventBusArn config) then Inl (AuditPublisherConfigurationError ''eventBusArn'')
     else if \<bar>ec_timeoutMs config\<bar> > max_safe_integer \<or> ec_timeoutMs config < 1 \<or> ec_timeoutMs config > 30000
       then Inl (AuditPublisherConfigurationError ''timeoutMs'')
     else if (case ec_resources config of None \<Rightarrow> 0 | Some rs \<Rightarrow> length rs) > 5 \<or>
         (case ec_resources config of None \<Rightarrow> False | Some rs \<Rightarrow> list_ex (\<lambda>r. \<not> is_bounded_resource_arn r) rs)
       then Inl (AuditPublisherConfigurationError ''resources'')
     else Inr \<lparr>ep_eventBusArn = ec_eventBusArn config, ep_timeoutMs = ec_timeoutMs config,
        ep_resources = (case ec_resources config of None \<Rightarrow> [] | Some rs \<Rightarrow> rs)\<rparr>)"

fun audit_source :: "audit_service_name \<Rightarrow> string" where
  "audit_source Reservation_Service = ''movie-platform.reservation-service.audit''"
| "audit_source Reservation_Agent = ''movie-platform.reservation-agent.audit''"
| "audit_source Recommendation_Service = ''movie-platform.recommendation-service.audit''"

record put_events_entry =
  pn_Source :: string
  pn_DetailType :: string
  pn_EventBusName :: string
  pn_Detail :: string
  pn_Resources :: "string list option"

definition put_events_entry_of :: "event_bridge_publisher \<Rightarrow> authentication_audit_event \<Rightarrow> put_events_entry" where
  "put_events_entry_of P event =
     \<lparr>pn_Source = audit_source (as_name (ev_service event)), pn_DetailType = ''ocsf.authentication.v1'',
      pn_EventBusName = ep_eventBusArn P,
      pn_Detail = json_stringify (JObject [(''envelope_version'', JString ''1''), (''event'', event_json event)]),
      pn_Resources = (if length (ep_resources P) = 0 then None else Some (ep_resources P))\<rparr>"

text \<open>
  What settles first after a send: the transport's promise, the timer or the caller's abort.
\<close>

datatype publish_race =
    Race_Response put_events_response
  | Race_Error "string option"
  | Race_Timeout
  | Race_Aborted

text \<open>
  \<open>client entry timeoutMs\<close> starts the send and the timer and waits for the first to settle.
\<close>

definition event_bridge_publish ::
  "audit_schema \<Rightarrow> (put_events_entry \<Rightarrow> int \<Rightarrow> ('w, publish_race) io) \<Rightarrow> event_bridge_publisher \<Rightarrow>
    'w audit_publisher" where
  "event_bridge_publish schema client P event signal =
    bind_io (lift (assert_valid_authentication_audit_event schema event)) (\<lambda>_.
    if signal = Some True then ret (publish_refused (mt_uid (ev_metadata event)) F_Aborted)
    else
    bind_io (client (put_events_entry_of P event) (ep_timeoutMs P)) (\<lambda>outcome.
    ret (case outcome of
       Race_Timeout \<Rightarrow> publish_refused (mt_uid (ev_metadata event)) F_Timeout
     | Race_Aborted \<Rightarrow> publish_refused (mt_uid (ev_metadata event)) F_Aborted
     | Race_Error name \<Rightarrow> publish_refused (mt_uid (ev_metadata event)) (classify_transport_error name)
     | Race_Response response \<Rightarrow> inspect_put_events_response response (mt_uid (ev_metadata event)))))"

text \<open>
  \<open>connect region\<close> is the send of \<open>new EventBridgeClient({region, maxAttempts: 1})\<close>.
\<close>

definition create_event_bridge_audit_client ::
  "(string \<Rightarrow> put_events_entry \<Rightarrow> int \<Rightarrow> ('w, publish_race) io) \<Rightarrow> string \<Rightarrow>
    js_error + (put_events_entry \<Rightarrow> int \<Rightarrow> ('w, publish_race) io)" where
  "create_event_bridge_audit_client connect eventBusArn =
    (case event_bus_region eventBusArn of
       None \<Rightarrow> Inl (AuditPublisherConfigurationError ''eventBusArn'')
     | Some region \<Rightarrow> Inr (connect region))"

definition create_event_bridge_audit_publisher ::
  "audit_schema \<Rightarrow> (string \<Rightarrow> put_events_entry \<Rightarrow> int \<Rightarrow> ('w, publish_race) io) \<Rightarrow> event_bridge_config \<Rightarrow>
    js_error + 'w audit_publisher" where
  "create_event_bridge_audit_publisher schema connect config =
    bind_err (create_event_bridge_audit_client connect (ec_eventBusArn config)) (\<lambda>client.
    bind_err (new_event_bridge_audit_publisher config) (\<lambda>P.
    Inr (event_bridge_publish schema client P)))"

end
