(* ===== verification/Audit_Contract.thy ===== *)
theory Audit_Contract
  imports Audit_Sdk
begin

text \<open>
  The published contract of audit events as a predicate (the JSON schema
  \<open>packages/audit-sdk/contract/platform-audit-event-v1.schema.json\<close>, clause by clause), and the
  proof that the builder only produces events within the contract and the size limit. Then what
  the EventBridge publisher reports.
\<close>

section \<open>The contract\<close>

definition uuid_v4_pattern :: "(char \<Rightarrow> bool) list" where
  "uuid_v4_pattern = replicate 8 is_hex_lower @ [is_dash] @ replicate 4 is_hex_lower @ [is_dash] @
     [\<lambda>c. c = CHR ''4''] @ replicate 3 is_hex_lower @ [is_dash] @
     [\<lambda>c. c \<in> set ''89ab''] @ replicate 3 is_hex_lower @ [is_dash] @ replicate 12 is_hex_lower"

definition contract_hex :: "nat \<Rightarrow> string \<Rightarrow> bool" where
  "contract_hex n s \<longleftrightarrow> length s = n \<and> list_all is_hex_lower s \<and> \<not> list_all (\<lambda>c. c = CHR ''0'') s"

definition contract_header :: "string \<Rightarrow> bool" where
  "contract_header = matches_bounded is_printable 1 512"

definition bounded_text :: "string \<Rightarrow> bool" where
  "bounded_text = matches_bounded (\<lambda>_. True) 1 128"

definition is_route_char :: "char \<Rightarrow> bool" where
  "is_route_char c \<longleftrightarrow> \<not> (c = CHR ''?'' \<or> in_range 0 31 c \<or> code_unit c = 127)"

definition contract_route :: "string \<Rightarrow> bool" where
  "contract_route s \<longleftrightarrow> length s \<le> 256 \<and> (\<exists>rest. s = CHR ''/'' # rest \<and> list_all is_route_char rest)"

definition failure_details :: "string list" where
  "failure_details = [''INVALID_CREDENTIALS'', ''MISSING_CREDENTIALS'', ''MALFORMED_CREDENTIALS'', ''INVALID_TOKEN'',
     ''UNAUTHENTICATED'']"

definition contract_outcome :: "authentication_audit_event \<Rightarrow> bool" where
  "contract_outcome ev \<longleftrightarrow>
     (ev_status_id ev = 2 \<and> ev_severity_id ev = 2 \<and> ev_user ev = \<lparr>au_user_name = ''unknown'', au_type_id = 0\<rparr> \<and>
        ev_status_detail ev \<in> set failure_details) \<or>
     (ev_status_id ev = 1 \<and> ev_severity_id ev = 1 \<and> ev_user ev = \<lparr>au_user_name = ''demo-user'', au_type_id = 1\<rparr> \<and>
        ev_status_detail ev = ''AUTHENTICATED'')"

definition contract_metadata :: "audit_metadata \<Rightarrow> bool" where
  "contract_metadata m \<longleftrightarrow> mt_version m = ''1.3.0'' \<and> matches_classes uuid_v4_pattern (mt_uid m) \<and>
     request_id_pattern (mt_correlation_uid m) \<and> pd_vendor_name (mt_product m) = ''Movie Reservation Platform Lab'' \<and>
     bounded_text (pd_version (mt_product m))"

definition contract_platform :: "audit_platform \<Rightarrow> bool" where
  "contract_platform p \<longleftrightarrow> pl_schema_version p = ''1'' \<and> bounded_text (pl_environment p) \<and>
     request_id_pattern (pl_request_id p) \<and> pred_option (contract_hex 32) (pl_trace_id p) \<and>
     pred_option (contract_hex 16) (pl_span_id p) \<and> pred_option contract_header (pl_aws_alb_trace_id p) \<and>
     pred_option contract_header (pl_aws_cloudfront_request_id p) \<and> contract_route (pl_route p)"

definition contract_event :: "authentication_audit_event \<Rightarrow> bool" where
  "contract_event ev \<longleftrightarrow> ev_activity_id ev = 99 \<and> ev_activity_name ev = ''Credential validation'' \<and>
     ev_category_uid ev = 3 \<and> ev_class_uid ev = 3002 \<and> ev_type_uid ev = 300299 \<and> ev_time ev \<ge> 0 \<and>
     contract_metadata (ev_metadata ev) \<and> bounded_text (as_version (ev_service ev)) \<and>
     contract_platform (ev_platform ev) \<and> contract_outcome ev"

section \<open>The size of an event\<close>

lemma utf8_append [simp]:
  "utf8_byte_length (s @ t) = utf8_byte_length s + utf8_byte_length t" "utf8_byte_length [] = 0"
  "utf8_byte_length (c # s) = (if code_unit c < 128 then 1 else 2) + utf8_byte_length s"
  by (simp_all add: utf8_byte_length_def)

lemma utf8_length: "utf8_byte_length s \<le> 2 * length s"
  by (induction s) auto

lemma escape_size: "utf8_byte_length (json_escape_char c) \<le> 6"
proof -
  have "code_unit (hex_digit n) < 128" if "n < 16" for n
    using that by (simp add: hex_digit_def code_unit_def)
  then show ?thesis by (auto simp: json_escape_char_def Let_def code_unit_def)
qed

lemma json_string_size: "utf8_byte_length (json_string s) \<le> 2 + 6 * length s"
proof -
  have "utf8_byte_length (List.concat (List.map json_escape_char s)) \<le> 6 * length s"
    by (induction s) (use escape_size in \<open>auto intro: add_mono\<close>)
  then show ?thesis by (simp add: json_string_def code_unit_def)
qed

fun json_bound :: "json \<Rightarrow> nat" where
  "json_bound JNull = 4"
| "json_bound (JBool b) = 5"
| "json_bound (JNumber n) = 2 * length (int_str n)"
| "json_bound (JString s) = 2 + 6 * length s"
| "json_bound (JArray xs) = 2 + sum_list (List.map (\<lambda>x. json_bound x + 1) xs)"
| "json_bound (JObject ps) = 2 + sum_list (List.map (\<lambda>(k, v). 4 + 6 * length k + json_bound v) ps)"

lemma join_comma_size:
  "utf8_byte_length (join_comma xs) \<le> sum_list (List.map (\<lambda>x. utf8_byte_length x + 1) xs)"
  by (induction xs rule: join_comma.induct) (auto simp: code_unit_def)

lemma json_size: "utf8_byte_length (json_stringify j) \<le> json_bound j"
proof (induction j)
  case (JString s)
  then show ?case using json_string_size [of s] by simp
next
  case (JNumber n)
  then show ?case by (simp add: utf8_length)
next
  case (JArray xs)
  have "sum_list (List.map (\<lambda>x. utf8_byte_length (json_stringify x) + 1) xs) \<le>
      sum_list (List.map (\<lambda>x. json_bound x + 1) xs)"
    using JArray by (intro sum_list_mono) auto
  then show ?case using join_comma_size [of "List.map json_stringify xs"]
    by (simp add: comp_def code_unit_def)
next
  case (JObject ps)
  let ?f = "\<lambda>(k, v). json_string k @ CHR '':'' # json_stringify v"
  have "utf8_byte_length (?f p) + 1 \<le> (\<lambda>(k, v). 4 + 6 * length k + json_bound v) p" if "p \<in> set ps" for p
  proof -
    obtain k v where p: "p = (k, v)" by fastforce
    with that have "utf8_byte_length (json_stringify v) \<le> json_bound v"
      using JObject by (fastforce simp: snds.simps)
    then show ?thesis using json_string_size [of k] by (simp add: p code_unit_def)
  qed
  then have "sum_list (List.map (\<lambda>p. utf8_byte_length (?f p) + 1) ps) \<le>
      sum_list (List.map (\<lambda>(k, v). 4 + 6 * length k + json_bound v) ps)"
    by (intro sum_list_mono) auto
  then show ?case using join_comma_size [of "List.map ?f ps"]
    by (simp add: comp_def code_unit_def case_prod_unfold)
qed (simp_all add: code_unit_def)

lemma nat_str_length: "n < 10 ^ Suc k \<Longrightarrow> length (nat_str n) \<le> Suc k"
proof (induction k arbitrary: n)
  case 0
  then show ?case by (simp add: nat_str.simps)
next
  case (Suc k)
  then have "length (nat_str (n div 10)) \<le> Suc k" by (intro Suc.IH) simp
  then show ?case by (subst nat_str.simps) simp
qed

lemma int_str_length: "0 \<le> i \<Longrightarrow> i \<le> 8640000000000000 \<Longrightarrow> length (int_str i) \<le> 16"
  using nat_str_length [of "nat i" 15] by (simp add: int_str_def)

lemma optional_field_bound:
  "pred_option (\<lambda>s. length s \<le> n) v \<Longrightarrow>
    sum_list (List.map (\<lambda>(k, j). 4 + 6 * length k + json_bound j) (optional_field name v)) \<le> 6 + 6 * length name + 6 * n"
  by (cases v) (simp_all add: optional_field_def)

lemma const_int_length:
  "length (int_str 99) \<le> 16" "length (int_str 3) \<le> 16" "length (int_str 3002) \<le> 16"
  "length (int_str 300299) \<le> 16" "length (int_str 0) \<le> 16" "length (int_str 1) \<le> 16" "length (int_str 2) \<le> 16"
  by (rule int_str_length; simp)+

lemma service_name_length: "length (service_name_str n) \<le> 28"
  by (cases n) simp_all

lemma boundary_length: "length (sdk_boundary_str b) \<le> 10"
  by (cases b) simp_all

lemma contract_lengths:
  assumes "contract_event ev" "ev_time ev \<le> 8640000000000000"
  shows "json_bound (event_json ev) \<le> 20000"
proof -
  let ?m = "ev_metadata ev" and ?p = "ev_platform ev"
  have lens: "length (mt_uid ?m) = 36" "length (mt_correlation_uid ?m) \<le> 128" "length (mt_version ?m) = 5"
    "length (pd_vendor_name (mt_product ?m)) = 30" "length (pd_version (mt_product ?m)) \<le> 128"
    "length (as_version (ev_service ev)) \<le> 128" "length (ev_activity_name ev) = 21"
    "length (pl_schema_version ?p) = 1" "length (pl_environment ?p) \<le> 128" "length (pl_request_id ?p) \<le> 128"
    "length (pl_route ?p) \<le> 256"
    using assms(1) matches_classes_length [of uuid_v4_pattern "mt_uid ?m"]
    by (auto simp: contract_event_def contract_metadata_def contract_platform_def bounded_text_def
        request_id_pattern_def matches_bounded_def contract_route_def uuid_v4_pattern_def)
  have opt: "pred_option (\<lambda>s. length s \<le> 32) (pl_trace_id ?p)" "pred_option (\<lambda>s. length s \<le> 16) (pl_span_id ?p)"
    "pred_option (\<lambda>s. length s \<le> 512) (pl_aws_alb_trace_id ?p)"
    "pred_option (\<lambda>s. length s \<le> 512) (pl_aws_cloudfront_request_id ?p)"
    using assms(1)
    by (auto simp: contract_event_def contract_platform_def contract_hex_def contract_header_def
        matches_bounded_def elim!: option.pred_mono_strong)
  have user: "length (au_user_name (ev_user ev)) \<le> 9" "length (int_str (au_type_id (ev_user ev))) \<le> 16"
    "length (int_str (ev_severity_id ev)) \<le> 16" "length (int_str (ev_status_id ev)) \<le> 16"
    "length (ev_status_detail ev) \<le> 21"
    using assms(1) by (auto simp: contract_event_def contract_outcome_def failure_details_def const_int_length)
  have ints: "length (int_str (ev_activity_id ev)) \<le> 16" "length (int_str (ev_category_uid ev)) \<le> 16"
    "length (int_str (ev_class_uid ev)) \<le> 16" "length (int_str (ev_type_uid ev)) \<le> 16"
    "length (int_str (ev_time ev)) \<le> 16"
    using assms by (auto simp: contract_event_def const_int_length intro: int_str_length)
  note opts = optional_field_bound [OF opt(1), of "''trace_id''"] optional_field_bound [OF opt(2), of "''span_id''"]
    optional_field_bound [OF opt(3), of "''aws_alb_trace_id''"]
    optional_field_bound [OF opt(4), of "''aws_cloudfront_request_id''"]
  show ?thesis
    using lens user ints opts service_name_length [of "pd_name (mt_product ?m)"]
      service_name_length [of "as_name (ev_service ev)"] boundary_length [of "pl_auth_boundary ?p"]
    by (simp add: event_json_def)
qed

section \<open>The builder stays within the contract\<close>

lemma is_printable_space: "is_printable CHR '' ''"
  by code_simp

lemma js_trim_length: "length (js_trim s) \<le> length s"
  using length_dropWhile_le [of is_js_space "rev (dropWhile is_js_space s)"] length_dropWhile_le [of is_js_space s]
  by (simp add: js_trim_def)

lemma sanitize_header_contract: "pred_option contract_header (sanitize_header v)"
proof (cases v)
  case (Some s)
  let ?s = "List.map (\<lambda>c. if is_printable c then c else CHR '' '') s"
  have "length (js_trim ?s) \<le> length ?s" by (rule js_trim_length)
  moreover have "list_all is_printable (js_trim ?s)"
    unfolding js_trim_def by (auto simp: list_all_iff is_printable_space dest!: set_dropWhileD)
  ultimately show ?thesis using Some
    by (auto simp: sanitize_header_def contract_header_def matches_bounded_def Let_def Suc_le_eq)
qed (simp add: sanitize_header_def)

lemma normalize_hex_id_contract: "0 < n \<Longrightarrow> pred_option (contract_hex n) (normalize_hex_id v n)"
  by (cases v) (auto simp: normalize_hex_id_def matches_bounded_def contract_hex_def)

text \<open>What the builder expects of its caller: only known keys, and values of the contract's shape.\<close>

definition contract_input :: "audit_event_input \<Rightarrow> bool" where
  "contract_input input \<longleftrightarrow> set (ei_keys input) \<subseteq> set allowed_input_keys \<and> contract_route (ei_route input) \<and>
     request_id_pattern (ei_correlationId input) \<and> request_id_pattern (ei_requestId input) \<and>
     bounded_text (ei_serviceVersion input) \<and> bounded_text (ei_environment input)"

lemma event_of_contract:
  assumes "contract_input input" "0 \<le> now" "matches_classes uuid_v4_pattern uid"
  shows "contract_event (authentication_audit_event_of input now uid)"
proof -
  have reason: "sdk_reason_str r \<in> set failure_details" for r
    by (cases r) (simp_all add: failure_details_def)
  have outcome: "contract_outcome (authentication_audit_event_of input now uid)"
    by (cases "ei_outcome input")
      (simp_all add: contract_outcome_def authentication_audit_event_of_def Let_def reason)
  show ?thesis
    using assms outcome
    by (auto simp: contract_event_def contract_input_def contract_metadata_def contract_platform_def
        authentication_audit_event_of_def Let_def sanitize_header_contract normalize_hex_id_contract)
qed

text \<open>
  What Ajv documents of a compiled schema: it accepts exactly the values the schema describes.
  And the providers: the clock gives a time of ECMAScript's range, the generator version 4 UUIDs.
\<close>

definition schema_of_contract :: "audit_schema \<Rightarrow> bool" where
  "schema_of_contract schema \<longleftrightarrow> (\<forall>ev. schema ev = None \<longleftrightarrow> contract_event ev)"

definition sound_providers :: "'e audit_event_providers \<Rightarrow> bool" where
  "sound_providers providers \<longleftrightarrow>
     (\<forall>e. case pv_now providers e of (Inr t, _) \<Rightarrow> 0 \<le> t \<and> t \<le> 8640000000000000 | _ \<Rightarrow> False) \<and>
     (\<forall>e. case pv_generate providers e of (Inr u, _) \<Rightarrow> matches_classes uuid_v4_pattern u | _ \<Rightarrow> False)"

lemma contract_event_accepted:
  assumes "schema_of_contract schema" "contract_event ev" "ev_time ev \<le> 8640000000000000"
  shows "assert_valid_authentication_audit_event schema ev = Inr ()"
proof -
  have "utf8_byte_length (json_stringify (event_json ev)) \<le> max_audit_event_bytes"
    using json_size [of "event_json ev"] contract_lengths [OF assms(2,3)] by (simp add: max_audit_event_bytes_def)
  moreover have "schema ev = None" using assms(1,2) by (simp add: schema_of_contract_def)
  ultimately show ?thesis
    by (simp add: assert_valid_authentication_audit_event_def validate_authentication_audit_event_def Let_def)
qed

lemma sound_providersE:
  assumes "sound_providers providers"
  obtains t e' where "pv_now providers e = (Inr t, e')" "0 \<le> t" "t \<le> 8640000000000000"
  using assms unfolding sound_providers_def
  by (cases "pv_now providers e") (auto split: sum.splits dest!: spec [of _ e])

lemma sound_generatorE:
  assumes "sound_providers providers"
  obtains u e' where "pv_generate providers e = (Inr u, e')" "matches_classes uuid_v4_pattern u"
  using assms unfolding sound_providers_def
  by (cases "pv_generate providers e") (auto split: sum.splits dest!: spec [of _ e])

lemma build_event_core:
  assumes "schema_of_contract schema" "sound_providers providers" "contract_input input"
  obtains ev e' t u where "build_authentication_audit_event schema providers input e = (Inr ev, e')"
    "ev = authentication_audit_event_of input t u" "contract_event ev"
    "utf8_byte_length (json_stringify (event_json ev)) \<le> max_audit_event_bytes"
    "assert_valid_authentication_audit_event schema ev = Inr ()"
proof -
  obtain t e1 where now: "pv_now providers e = (Inr t, e1)" "0 \<le> t" "t \<le> 8640000000000000"
    using assms(2) by (rule sound_providersE)
  obtain u e2 where gen: "pv_generate providers e1 = (Inr u, e2)" "matches_classes uuid_v4_pattern u"
    using assms(2) by (rule sound_generatorE)
  let ?ev = "authentication_audit_event_of input t u"
  have time: "ev_time ?ev = t" by (simp add: authentication_audit_event_of_def Let_def)
  have c: "contract_event ?ev" using assms(3) now(2) gen(2) by (rule event_of_contract)
  have ok: "assert_valid_authentication_audit_event schema ?ev = Inr ()"
    using assms(1) c now(3) by (intro contract_event_accepted) (simp_all add: time)
  have keys: "\<not> list_ex (\<lambda>key. key \<notin> set allowed_input_keys) (ei_keys input)"
    using assms(3) by (auto simp: contract_input_def list_ex_iff)
  have size: "utf8_byte_length (json_stringify (event_json ?ev)) \<le> max_audit_event_bytes"
    using json_size [of "event_json ?ev"] contract_lengths [OF c] now(3) by (simp add: max_audit_event_bytes_def time)
  show ?thesis
    by (rule that [OF _ refl c size ok])
      (simp add: build_authentication_audit_event_def if_not_P [OF keys] bind_io_def now(1) gen(1) ok)
qed

section \<open>Properties\<close>

text \<open>C25: an audit event that the builder makes always fits the published contract. For known keys, safe
  ids, a bounded version and environment and a route, building succeeds whatever the outcome and
  whatever untrusted trace ids and proxy headers come with it: the event satisfies every clause of
  the schema, serialises to at most 240 KiB, and keeps the supplied ids; a span id appears only
  with a trace id.\<close>

theorem built_event_fits_contract:
  assumes "schema_of_contract schema" "sound_providers providers" "contract_input input"
  shows "case build_authentication_audit_event schema providers input e of
      (Inr ev, e') \<Rightarrow> contract_event ev \<and>
        utf8_byte_length (json_stringify (event_json ev)) \<le> max_audit_event_bytes \<and>
        mt_correlation_uid (ev_metadata ev) = ei_correlationId input \<and>
        pl_request_id (ev_platform ev) = ei_requestId input \<and>
        (ev_status_id ev = 1 \<longleftrightarrow> ei_outcome input = Sdk_Authenticated) \<and>
        (pl_trace_id (ev_platform ev) = None \<longrightarrow> pl_span_id (ev_platform ev) = None)
    | (Inl x, e') \<Rightarrow> False"
proof -
  obtain ev e' t u where b: "build_authentication_audit_event schema providers input e = (Inr ev, e')"
    "ev = authentication_audit_event_of input t u" "contract_event ev"
    "utf8_byte_length (json_stringify (event_json ev)) \<le> max_audit_event_bytes"
    using assms by (rule build_event_core)
  then show ?thesis
    by (auto simp: authentication_audit_event_of_def Let_def split: sdk_outcome.splits)
qed

definition sample_schema :: audit_schema where
  "sample_schema ev = (if contract_event ev then None else Some [])"

definition sample_providers :: "nat audit_event_providers" where
  "sample_providers = \<lparr>pv_now = ret 1700000000000,
     pv_generate = (\<lambda>n. (Inr ''9b2f1c34-7d1e-4f6a-8b3c-0123456789ab'', Suc n))\<rparr>"

definition sample_event_input :: audit_event_input where
  "sample_event_input = \<lparr>ei_keys = [''outcome'', ''awsAlbTraceId''],
     ei_outcome = Sdk_Not_Authenticated Sdk_Unauthenticated, ei_route = ''/graphql'', ei_authBoundary = Sdk_Graphql,
     ei_correlationId = ''order-77'', ei_requestId = ''r1'', ei_serviceName = Reservation_Service,
     ei_serviceVersion = ''1.0'', ei_environment = ''test'', ei_traceId = Some ''xyz'', ei_spanId = Some ''1'',
     ei_awsAlbTraceId = Some [CHR 0x0A], ei_awsCloudfrontRequestId = None\<rparr>"

lemma sample_schema_ok: "schema_of_contract sample_schema"
  by (simp add: schema_of_contract_def sample_schema_def)

lemma sample_providers_ok: "sound_providers sample_providers"
proof -
  have "matches_classes uuid_v4_pattern ''9b2f1c34-7d1e-4f6a-8b3c-0123456789ab''" by code_simp
  then show ?thesis by (simp add: sound_providers_def sample_providers_def)
qed

lemma sample_event_input_ok: "contract_input sample_event_input"
proof -
  have "request_id_pattern ''order-77''" "request_id_pattern ''r1''" "list_all is_route_char ''graphql''"
    by code_simp+
  then show ?thesis
    by (simp add: contract_input_def sample_event_input_def allowed_input_keys_def contract_route_def
        bounded_text_def matches_bounded_def)
qed

theorem built_event_fits_contract_witness:
  "case build_authentication_audit_event sample_schema sample_providers sample_event_input 0 of
      (Inr ev, e') \<Rightarrow> contract_event ev \<and> mt_correlation_uid (ev_metadata ev) = ''order-77'' \<and> ev_status_id ev \<noteq> 1
    | (Inl x, e') \<Rightarrow> False"
  using built_event_fits_contract [OF sample_schema_ok sample_providers_ok sample_event_input_ok, of 0]
  by (simp add: sample_event_input_def split: prod.splits sum.splits)

lemma inspect_uid: "pr_auditEventId (inspect_put_events_response response uid) = uid"
  unfolding inspect_put_events_response_def publish_refused_def publish_accepted_def
  by (simp split: option.split list.split)

lemma inspect_accepts:
  "pr_failure (inspect_put_events_response response uid) = None \<longleftrightarrow>
    (\<exists>i. ps_FailedEntryCount response = Some 0 \<and> js_trim i \<noteq> [] \<and>
      ps_Entries response = Some [Some \<lparr>pe_EventId = Some i, pe_ErrorCode = None, pe_ErrorMessage = None\<rparr>])"
proof (cases "\<exists>entry. ps_Entries response = Some [Some entry]")
  case True
  then obtain entry where "ps_Entries response = Some [Some entry]" by blast
  then show ?thesis
    by (cases entry; cases "ps_FailedEntryCount response"; cases "pe_ErrorCode entry"; cases "pe_EventId entry")
      (auto simp: inspect_put_events_response_def publish_refused_def publish_accepted_def)
next
  case False
  then have "pr_failure (inspect_put_events_response response uid) \<noteq> None"
    by (auto simp: inspect_put_events_response_def publish_refused_def split: option.split list.split)
  with False show ?thesis by auto
qed

lemma event_bridge_publish_uid:
  "event_bridge_publish schema client P ev signal w = (Inr r, w') \<Longrightarrow> pr_auditEventId r = mt_uid (ev_metadata ev)"
  by (auto simp: event_bridge_publish_def bind_io_def publish_refused_def inspect_uid
      split: sum.splits prod.splits if_splits publish_race.splits)

text \<open>C26: EventBridge publishing fails closed. A publish reports acceptance exactly when the event is
  valid, the caller had not aborted, and the transport answered first with one entry, no failed
  entry, no error and a non-blank event id; every other answer, error, timeout or abort is a
  refusal, always about this event. Only an invalid event, or the client itself, makes it throw.\<close>

theorem publish_fails_closed:
  "case event_bridge_publish schema client P ev signal w of
     (Inr r, w') \<Rightarrow> pr_auditEventId r = mt_uid (ev_metadata ev) \<and>
       assert_valid_authentication_audit_event schema ev = Inr () \<and>
       (pr_failure r = None \<longleftrightarrow> signal \<noteq> Some True \<and>
         (\<exists>i. js_trim i \<noteq> [] \<and> fst (client (put_events_entry_of P ev) (ep_timeoutMs P) w) =
           Inr (Race_Response \<lparr>ps_FailedEntryCount = Some 0, ps_Entries =
             Some [Some \<lparr>pe_EventId = Some i, pe_ErrorCode = None, pe_ErrorMessage = None\<rparr>]\<rparr>)))
   | (Inl x, w') \<Rightarrow> assert_valid_authentication_audit_event schema ev = Inl x \<or>
       fst (client (put_events_entry_of P ev) (ep_timeoutMs P) w) = Inl x"
proof -
  let ?uid = "mt_uid (ev_metadata ev)"
  obtain c w1 where client: "client (put_events_entry_of P ev) (ep_timeoutMs P) w = (c, w1)" by fastforce
  have accepted: "pr_failure (inspect_put_events_response response ?uid) = None \<longleftrightarrow>
      (\<exists>i. js_trim i \<noteq> [] \<and> response = \<lparr>ps_FailedEntryCount = Some 0, ps_Entries =
        Some [Some \<lparr>pe_EventId = Some i, pe_ErrorCode = None, pe_ErrorMessage = None\<rparr>]\<rparr>)" for response
    by (cases response) (auto simp: inspect_accepts)
  have refused: "pr_failure (publish_refused ?uid reason) \<noteq> None" "pr_auditEventId (publish_refused ?uid reason) = ?uid"
    for reason by (simp_all add: publish_refused_def)
  consider (invalid) x where "assert_valid_authentication_audit_event schema ev = Inl x"
    | (valid) "assert_valid_authentication_audit_event schema ev = Inr ()"
    by (cases "assert_valid_authentication_audit_event schema ev") auto
  then show ?thesis
  proof cases
    case invalid
    then show ?thesis by (simp add: event_bridge_publish_def)
  next
    case valid
    show ?thesis
    proof (cases "signal = Some True")
      case True
      then show ?thesis using valid refused by (simp add: event_bridge_publish_def)
    next
      case False
      show ?thesis
      proof (cases c)
        case (Inl x)
        then show ?thesis using valid False client by (simp add: event_bridge_publish_def bind_io_def)
      next
        case (Inr outcome)
        then show ?thesis
          using valid False client refused
          by (cases outcome) (simp_all add: event_bridge_publish_def bind_io_def accepted inspect_uid)
      qed
    qed
  qed
qed

lemma bus_arn_region:
  assumes "event_bus_arn_pattern arn"
  shows "event_bus_region arn = Some (js_split CHR '':'' arn ! 3)"
proof -
  have "list_all is_partition_char ''aws''" "list_all is_partition_char ''aws-cn''" "list_all is_partition_char ''aws-us-gov''"
    by code_simp+
  then show ?thesis
    using assms unfolding event_bus_arn_pattern_def event_bus_region_def
    by (auto split: list.splits)
qed

text \<open>The region of the AWS client cannot drift from the bus. Creating a publisher succeeds exactly
  for a well-formed bus ARN, a timeout of 1 to 30000 ms and at most five bounded resource ARNs,
  otherwise it throws a configuration error that names the offending field; the client it uses is
  connected to the region in the bus ARN. The second parse of the ARN never rejects an ARN the
  publisher accepts.\<close>

lemma publisher_region_is_bus_region:
  "create_event_bridge_audit_publisher schema connect config =
    (case new_event_bridge_audit_publisher config of
       Inl e \<Rightarrow> Inl e
     | Inr P \<Rightarrow> Inr (event_bridge_publish schema (connect (js_split CHR '':'' (ec_eventBusArn config) ! 3)) P)) \<and>
   ((\<exists>P. new_event_bridge_audit_publisher config = Inr P) \<longleftrightarrow>
     event_bus_arn_pattern (ec_eventBusArn config) \<and> 1 \<le> ec_timeoutMs config \<and> ec_timeoutMs config \<le> 30000 \<and>
     pred_option (\<lambda>rs. length rs \<le> 5 \<and> list_all is_bounded_resource_arn rs) (ec_resources config))"
proof
  show "create_event_bridge_audit_publisher schema connect config =
    (case new_event_bridge_audit_publisher config of
       Inl e \<Rightarrow> Inl e
     | Inr P \<Rightarrow> Inr (event_bridge_publish schema (connect (js_split CHR '':'' (ec_eventBusArn config) ! 3)) P))"
  proof (cases "event_bus_arn_pattern (ec_eventBusArn config)")
    case True
    then show ?thesis
      by (simp add: create_event_bridge_audit_publisher_def create_event_bridge_audit_client_def bus_arn_region
          bind_err_def)
  next
    case False
    then show ?thesis
      by (auto simp: create_event_bridge_audit_publisher_def create_event_bridge_audit_client_def
          new_event_bridge_audit_publisher_def split: option.split)
  qed
  show "(\<exists>P. new_event_bridge_audit_publisher config = Inr P) \<longleftrightarrow>
     event_bus_arn_pattern (ec_eventBusArn config) \<and> 1 \<le> ec_timeoutMs config \<and> ec_timeoutMs config \<le> 30000 \<and>
     pred_option (\<lambda>rs. length rs \<le> 5 \<and> list_all is_bounded_resource_arn rs) (ec_resources config)"
    by (cases "ec_resources config")
      (auto simp: new_event_bridge_audit_publisher_def max_safe_integer_def list_ex_iff list_all_iff)
qed

end
