(* ===== verification/Audit_Recorder.thy ===== *)
theory Audit_Recorder
  imports Audit_Contract
begin

text \<open>
  The service side of auditing (\<open>src/src/infrastructure/audit\<close>,
  \<open>src/src/di/audit\<close>): the stdout publisher, the metered publisher, the comparison mirror, the
  publisher graph built from the settings, and the recorder that turns an authentication attempt
  into a published event.
\<close>

section \<open>Publishers\<close>

text \<open>
  The output stream. \<open>so_write line callback\<close> writes and may call back with or without an
  error, during the call; a later call back is outside of the publish. The callback works on the
  local variable of the caller, the second part of the world.
\<close>

record 'w audit_output =
  so_writableLength :: "('w, nat) io"
  so_write :: "string \<Rightarrow> (bool \<Rightarrow> ('w \<times> bool, unit) io) \<Rightarrow> ('w \<times> bool, unit) io"

definition audit_line :: "authentication_audit_event \<Rightarrow> string" where
  "audit_line event = json_stringify (JObject [(''audit'', event_json event)]) @ [CHR 0x0A]"

definition stdout_publish ::
  "'w audit_output \<Rightarrow> (string \<Rightarrow> ('w, unit) io) \<Rightarrow> nat \<Rightarrow> 'w audit_publisher" where
  "stdout_publish out reportFailure maxBufferedBytes event signal =
    (let auditEventId = mt_uid (ev_metadata event); line = audit_line event;
         failed = then_io (on_env (modify (\<lambda>_. True))) (on_db (reportFailure ''write_failed'')) in
     bind_io (so_writableLength out) (\<lambda>writableLength.
     if writableLength + utf8_byte_length line > maxBufferedBytes
     then then_io (reportFailure ''buffer_full'') (ret (publish_refused auditEventId F_Unavailable))
     else with_local False
       (then_io (catch_io (so_write out line (\<lambda>error. if error then failed else ret ())) (\<lambda>_. failed))
         (bind_io (on_env (gets (\<lambda>b. b))) (\<lambda>localFailure.
          ret (if localFailure then publish_refused auditEventId F_Unavailable
               else publish_accepted auditEventId None))))))"

definition metered_record ::
  "(audit_publish_failure_reason option \<Rightarrow> int \<Rightarrow> ('w, unit) io) \<Rightarrow> ('w, int) io \<Rightarrow>
    audit_publish_failure_reason option \<Rightarrow> int \<Rightarrow> ('w, unit) io" where
  "metered_record recordSample now outcome startedAt =
    bind_io now (\<lambda>n. recordSample outcome (n - startedAt))"

definition metered_publish ::
  "'w audit_publisher \<Rightarrow> (audit_publish_failure_reason option \<Rightarrow> int \<Rightarrow> ('w, unit) io) \<Rightarrow> ('w, int) io \<Rightarrow>
    'w audit_publisher" where
  "metered_publish innerPublisher recordSample now event signal =
    bind_io now (\<lambda>startedAt.
    catch_io
      (bind_io (innerPublisher event signal) (\<lambda>result.
       then_io (metered_record recordSample now (pr_failure result) startedAt) (ret result)))
      (\<lambda>error. then_io (metered_record recordSample now (Some F_Unavailable) startedAt) (throw error)))"

definition mirror_publish :: "'w audit_publisher \<Rightarrow> 'w audit_publisher \<Rightarrow> 'w audit_publisher" where
  "mirror_publish primaryPublisher comparisonPublisher event signal =
    finally_io (primaryPublisher event signal)
      (catch_io (bind_io (comparisonPublisher event signal) (\<lambda>_. ret ())) (\<lambda>_. ret ()))"

datatype audit_publisher_settings =
    Audit_Stdout
  | Audit_Eventbridge (st_eventBusArn: string) (st_timeoutMs: int) (st_stdoutComparisonMirror: bool)

text \<open>
  \<open>new MeteredAuditPublisher(innerPublisher, {publisher, role})\<close> with its default sample and
  clock; \<open>performance.now()\<close> and \<open>process.hrtime\<close> are one monotonic clock.
\<close>

definition metered_publisher_of ::
  "'e telemetry \<Rightarrow> audit_publisher_name \<Rightarrow> audit_publisher_role \<Rightarrow> 'e request_world audit_publisher \<Rightarrow>
    'e request_world audit_publisher" where
  "metered_publisher_of T publisher role innerPublisher =
    metered_publish innerPublisher
      (\<lambda>outcome duration. on_env (record_audit_publish_metrics T publisher role outcome duration))
      (on_env (tl_hrtime T))"

definition metered ::
  "'e telemetry \<Rightarrow> 'e request_world audit_publisher \<Rightarrow> audit_publisher_name \<Rightarrow> audit_publisher_role \<Rightarrow>
    ('e request_world, 'e request_world audit_publisher) io" where
  "metered T innerPublisher publisher role =
    then_io (on_env (initialize_audit_publish_metric_series T publisher role))
      (ret (metered_publisher_of T publisher role innerPublisher))"

definition create_audit_publisher ::
  "'e telemetry \<Rightarrow> 'e request_world audit_publisher \<Rightarrow>
    (event_bridge_config \<Rightarrow> js_error + 'e request_world audit_publisher) \<Rightarrow> audit_publisher_settings \<Rightarrow>
    ('e request_world, 'e request_world audit_publisher) io" where
  "create_audit_publisher T stdout createEventBridge settings =
    (case settings of
       Audit_Stdout \<Rightarrow> metered T stdout P_Stdout P_Primary
     | Audit_Eventbridge eventBusArn timeoutMs stdoutComparisonMirror \<Rightarrow>
         bind_io (lift (createEventBridge \<lparr>ec_eventBusArn = eventBusArn, ec_timeoutMs = timeoutMs,
             ec_resources = None\<rparr>)) (\<lambda>eventBridge.
         bind_io (metered T eventBridge P_Eventbridge P_Primary) (\<lambda>primaryPublisher.
         if \<not> stdoutComparisonMirror then ret primaryPublisher
         else bind_io (metered T stdout P_Stdout P_Comparison) (\<lambda>comparisonPublisher.
           ret (mirror_publish primaryPublisher comparisonPublisher)))))"

definition default_stdout_publisher ::
  "'e request_world audit_output \<Rightarrow> 'e request_world application_logger \<Rightarrow> 'e request_world audit_publisher" where
  "default_stdout_publisher out L =
    stdout_publish out (\<lambda>reason. lo_error L ''audit.stdout.failed''
      (Some [(''failure_reason'', Some (L_String reason))]) None) 262144"

section \<open>The recorder\<close>

record audit_service_identity =
  si_serviceName :: audit_service_name
  si_serviceVersion :: string
  si_environment :: string

fun sdk_failure_reason_by_application_reason :: "authentication_failure_reason \<Rightarrow> sdk_failure_reason" where
  "sdk_failure_reason_by_application_reason INVALID_CREDENTIALS = Sdk_Invalid_Credentials"
| "sdk_failure_reason_by_application_reason MISSING_CREDENTIALS = Sdk_Missing_Credentials"
| "sdk_failure_reason_by_application_reason MALFORMED_CREDENTIALS = Sdk_Malformed_Credentials"
| "sdk_failure_reason_by_application_reason INVALID_TOKEN = Sdk_Invalid_Token"
| "sdk_failure_reason_by_application_reason UNAUTHENTICATED = Sdk_Unauthenticated"

fun sdk_outcome_of :: "authentication_outcome \<Rightarrow> sdk_outcome" where
  "sdk_outcome_of Authenticated = Sdk_Authenticated"
| "sdk_outcome_of (Not_Authenticated reason) =
    Sdk_Not_Authenticated (sdk_failure_reason_by_application_reason reason)"

fun sdk_boundary_of :: "auth_boundary \<Rightarrow> sdk_boundary" where
  "sdk_boundary_of Demo_Login = Sdk_Demo_Login"
| "sdk_boundary_of Graphql = Sdk_Graphql"

text \<open>The input of the builder: the spreads of the object literal, in order.\<close>

definition audit_input_of ::
  "audit_service_identity \<Rightarrow> authentication_audit_attempt \<Rightarrow> request_context option \<Rightarrow> span_context option \<Rightarrow>
    string \<Rightarrow> string \<Rightarrow> audit_event_input" where
  "audit_input_of identity attempt requestContext activeSpan requestId correlationId =
    (let alb = Option.bind requestContext rc_awsXAmznTraceId;
         cloudfront = Option.bind requestContext rc_awsCloudfrontRequestId
     in \<lparr>ei_keys = [''outcome'', ''route'', ''authBoundary'', ''serviceName'', ''serviceVersion'', ''environment'',
           ''requestId'', ''correlationId''] @
           (if activeSpan = None then [] else [''traceId'', ''spanId'']) @
           (if alb = None then [] else [''awsAlbTraceId'']) @
           (if cloudfront = None then [] else [''awsCloudfrontRequestId'']),
         ei_outcome = sdk_outcome_of (aa_outcome attempt), ei_route = aa_route attempt,
         ei_authBoundary = sdk_boundary_of (aa_authBoundary attempt), ei_correlationId = correlationId,
         ei_requestId = requestId, ei_serviceName = si_serviceName identity,
         ei_serviceVersion = si_serviceVersion identity, ei_environment = si_environment identity,
         ei_traceId = map_option sx_traceId activeSpan, ei_spanId = map_option sx_spanId activeSpan,
         ei_awsAlbTraceId = alb, ei_awsCloudfrontRequestId = cloudfront\<rparr>)"

definition context_or_uuid ::
  "'e telemetry \<Rightarrow> (request_context \<Rightarrow> string) \<Rightarrow> request_context option \<Rightarrow> ('e request_world, string) io" where
  "context_or_uuid T read requestContext =
    (case requestContext of Some c \<Rightarrow> ret (read c) | None \<Rightarrow> on_env (tl_randomUUID T))"

definition audit_span_attributes :: "authentication_audit_event \<Rightarrow> attributes" where
  "audit_span_attributes event =
    (let platform = ev_platform event in
     [(''audit.event_id'', L_String (mt_uid (ev_metadata event))),
      (''audit.outcome'', L_String (ev_status_detail event)),
      (''app.request_id'', L_String (pl_request_id platform)),
      (''app.correlation_id'', L_String (mt_correlation_uid (ev_metadata event)))] @
     (case pl_aws_alb_trace_id platform of None \<Rightarrow> [] | Some t \<Rightarrow> [(''aws.alb.trace_id'', L_String t)]) @
     (case pl_aws_cloudfront_request_id platform of
        None \<Rightarrow> [] | Some t \<Rightarrow> [(''aws.cloudfront.request_id'', L_String t)]))"

definition audit_correlation_log_fields :: "authentication_audit_event \<Rightarrow> log_fields" where
  "audit_correlation_log_fields event =
    (let platform = ev_platform event in
     [(''audit_event_id'', Some (L_String (mt_uid (ev_metadata event)))),
      (''correlation_id'', Some (L_String (mt_correlation_uid (ev_metadata event)))),
      (''request_id'', Some (L_String (pl_request_id platform))),
      (''trace_id'', map_option L_String (pl_trace_id platform)),
      (''span_id'', map_option L_String (pl_span_id platform)),
      (''aws_alb_trace_id'', map_option L_String (pl_aws_alb_trace_id platform)),
      (''aws_cloudfront_request_id'', map_option L_String (pl_aws_cloudfront_request_id platform)),
      (''auth_boundary'', Some (L_String (sdk_boundary_str (pl_auth_boundary platform)))),
      (''auth_status_id'', Some (L_Number (ev_status_id event)))])"

text \<open>\<open>span?.setAttributes(...)\<close> is the operation \<open>tl_setSpanAttributes\<close>.\<close>

definition record_authentication_audit ::
  "'e telemetry \<Rightarrow> audit_schema \<Rightarrow> audit_service_identity \<Rightarrow> 'e request_world audit_publisher \<Rightarrow>
    'e request_world application_logger \<Rightarrow> 'e audit_event_providers \<Rightarrow>
    'e request_world authentication_audit_recorder" where
  "record_authentication_audit T schema identity publisher L providers attempt =
    bind_io get_current_request_context (\<lambda>requestContext.
    bind_io (on_env (read_active_span_identifiers T)) (\<lambda>activeSpan.
    bind_io (context_or_uuid T rc_requestId requestContext) (\<lambda>requestId.
    bind_io (context_or_uuid T rc_correlationId requestContext) (\<lambda>correlationId.
    bind_io (on_env (build_authentication_audit_event schema providers
        (audit_input_of identity attempt requestContext activeSpan requestId correlationId))) (\<lambda>event.
    bind_io (on_env (tl_setSpanAttributes T (audit_span_attributes event))) (\<lambda>_.
    bind_io (catch_io (publisher event None) (\<lambda>_. ret (publish_refused (mt_uid (ev_metadata event)) F_Unavailable)))
      (\<lambda>result.
    case pr_failure result of
      Some reason \<Rightarrow>
        then_io (lo_error L ''audit.emit.failed'' (Some (obj_spread (audit_correlation_log_fields event)
            [(''failure_reason'', Some (L_String (failure_reason_str reason)))])) None)
          (throw AuditEmissionUnavailableError)
    | None \<Rightarrow>
        then_io (lo_info L ''audit.authentication'' (Some (audit_correlation_log_fields event)))
          (ret \<lparr>ar_request_id = pl_request_id (ev_platform event),
                ar_audit_event_id = mt_uid (ev_metadata event),
                ar_trace_id = pl_trace_id (ev_platform event)\<rparr>))))))))"

definition create_authentication_audit_recorder ::
  "'e telemetry \<Rightarrow> audit_schema \<Rightarrow> 'e request_world audit_publisher \<Rightarrow>
    (event_bridge_config \<Rightarrow> js_error + 'e request_world audit_publisher) \<Rightarrow>
    'e request_world application_logger \<Rightarrow> 'e audit_event_providers \<Rightarrow> string \<Rightarrow> string \<Rightarrow>
    audit_publisher_settings \<Rightarrow>
    ('e request_world, 'e request_world authentication_audit_recorder) io" where
  "create_authentication_audit_recorder T schema stdout createEventBridge L providers version environment settings =
    bind_io (create_audit_publisher T stdout createEventBridge settings) (\<lambda>publisher.
    then_io (lo_info L ''audit.publisher.selected'' (Some
      ([(''audit_publisher'', Some (L_String (case settings of Audit_Stdout \<Rightarrow> ''stdout'' | _ \<Rightarrow> ''eventbridge'')))] @
       (case settings of
          Audit_Stdout \<Rightarrow> []
        | Audit_Eventbridge arn timeoutMs stdoutComparisonMirror \<Rightarrow>
            [(''stdout_comparison_mirror'', Some (L_Bool stdoutComparisonMirror)),
             (''publish_timeout_ms'', Some (L_Number timeoutMs))]))))
      (ret (record_authentication_audit T schema
        \<lparr>si_serviceName = Reservation_Service, si_serviceVersion = version, si_environment = environment\<rparr>
        publisher L providers)))"

section \<open>Effects on a request\<close>

text \<open>
  An effect of a request that leaves the request context alone; and one that, besides, never
  throws.
\<close>

definition keeps_context :: "('e request_world, 'a) io \<Rightarrow> bool" where
  "keeps_context m \<longleftrightarrow> (\<forall>c. keeps (\<lambda>w. fst w = c) m)"

definition quiet :: "('e request_world, 'a) io \<Rightarrow> bool" where
  "quiet m \<longleftrightarrow> (\<forall>w. \<exists>x e. m w = (Inr x, (fst w, e)))"

definition never_throws :: "('e, 'a) io \<Rightarrow> bool" where
  "never_throws m \<longleftrightarrow> (\<forall>e. \<exists>x e'. m e = (Inr x, e'))"

named_theorems context_intros \<open>rules that an effect keeps the request context\<close>
named_theorems quiet_intros \<open>rules that an effect is quiet\<close>

lemma keeps_contextD: "keeps_context m \<Longrightarrow> m w = (r, w') \<Longrightarrow> fst w' = fst w"
  using keepsD [of "\<lambda>v. fst v = fst w" m w] by (simp add: keeps_context_def)

lemma keeps_context_pure [context_intros]:
  "keeps_context (ret x)" "keeps_context (throw e)" "keeps_context (lift r)" "keeps_context (gets g)"
  "keeps_context get_current_request_context" "keeps_context (on_env m)"
  by (auto simp: keeps_context_def keeps_def get_current_request_context_def on_db_def on_env_def split: prod.split)

lemma keeps_context_compose [context_intros]:
  "keeps_context m \<Longrightarrow> (\<And>x. keeps_context (f x)) \<Longrightarrow> keeps_context (bind_io m f)"
  "keeps_context n \<Longrightarrow> (\<And>e. keeps_context (h e)) \<Longrightarrow> keeps_context (catch_io n h)"
  "keeps_context n' \<Longrightarrow> keeps_context g \<Longrightarrow> keeps_context (finally_io n' g)"
  unfolding keeps_context_def by (blast intro: keeps_intros)+

lemma quiet_keeps_context: "quiet m \<Longrightarrow> keeps_context m"
  unfolding quiet_def keeps_context_def keeps_def by (metis fst_conv snd_conv)

lemma quietE:
  assumes "quiet m"
  obtains x e where "m w = (Inr x, (fst w, e))"
  using assms unfolding quiet_def by blast

lemma quiet_pure [quiet_intros]: "quiet (ret x)" "quiet (gets g)" "quiet get_current_request_context"
  by (auto simp: quiet_def get_current_request_context_def on_db_app)

lemma quiet_on_env [quiet_intros]: "never_throws m \<Longrightarrow> quiet (on_env m)"
  unfolding quiet_def never_throws_def by (metis fst_conv on_env_app prod.collapse snd_conv)

lemma quiet_bind [quiet_intros]: "quiet m \<Longrightarrow> (\<And>x. quiet (f x)) \<Longrightarrow> quiet (bind_io m f)"
  unfolding quiet_def bind_io_def by (metis (no_types, lifting) fst_conv old.prod.case old.sum.simps(6))

lemma never_throws_bind [quiet_intros]:
  "never_throws m \<Longrightarrow> (\<And>x. never_throws (f x)) \<Longrightarrow> never_throws (bind_io m f)"
  unfolding never_throws_def bind_io_def by (metis (no_types, lifting) old.prod.case old.sum.simps(6))

lemma never_throws_ret [quiet_intros]: "never_throws (ret x)"
  by (simp add: never_throws_def)

text \<open>
  What the telemetry APIs document: they do not throw, and \<open>randomUUID\<close> gives UUIDs.
\<close>

definition quiet_telemetry :: "'e telemetry \<Rightarrow> bool" where
  "quiet_telemetry T \<longleftrightarrow> generates_uuids T \<and> never_throws (tl_hrtime T) \<and> never_throws (tl_activeSpan T) \<and>
     never_throws (tl_inject T) \<and> (\<forall>a. never_throws (tl_setSpanAttributes T a)) \<and>
     (\<forall>l a m. never_throws (tl_pino T l a m)) \<and> (\<forall>n k a. never_throws (tl_counterAdd T n k a)) \<and>
     (\<forall>n k a. never_throws (tl_histogramRecord T n k a))"

lemma quiet_telemetryD:
  assumes "quiet_telemetry T"
  shows "never_throws (tl_hrtime T)" "never_throws (tl_activeSpan T)" "never_throws (tl_setSpanAttributes T a)"
    "never_throws (tl_pino T l a m)" "never_throws (tl_counterAdd T n k a)" "never_throws (tl_histogramRecord T n k a)"
    "generates_uuids T"
  using assms by (simp_all add: quiet_telemetry_def)

lemma active_span_never_throws: "quiet_telemetry T \<Longrightarrow> never_throws (read_active_span_identifiers T)"
  unfolding read_active_span_identifiers_def
  by (intro never_throws_bind quiet_telemetryD(2)) (auto intro: quiet_intros split: option.split)

lemma write_log_quiet:
  assumes "quiet_telemetry T"
  shows "quiet (write_log T level event flds)"
  unfolding write_log_def create_application_log_payload_def Let_def
  by (auto intro!: quiet_intros active_span_never_throws assms quiet_telemetryD [OF assms])

lemma write_log_keeps_context: "keeps_context (write_log T level event flds)"
  unfolding write_log_def create_application_log_payload_def Let_def
  by (auto intro!: context_intros)

lemma application_logger_quiet:
  "quiet_telemetry T \<Longrightarrow> quiet (lo_info (application_logger_of T) event flds)"
  "quiet_telemetry T \<Longrightarrow> quiet (lo_error (application_logger_of T) event flds error)"
  by (simp_all add: application_logger_of_def write_log_quiet)

lemma record_metrics_quiet:
  "quiet_telemetry T \<Longrightarrow> quiet (on_env (record_audit_publish_metrics T name role outcome duration))"
  unfolding record_audit_publish_metrics_def Let_def then_bind
  by (intro quiet_intros) (auto intro: quiet_telemetryD)

lemma metered_record_quiet:
  "quiet_telemetry T \<Longrightarrow>
    quiet (metered_record (\<lambda>o' d. on_env (record_audit_publish_metrics T name role o' d)) (on_env (tl_hrtime T)) out t)"
  unfolding metered_record_def by (intro quiet_intros record_metrics_quiet quiet_telemetryD)

section \<open>The contract of a publisher\<close>

text \<open>
  A publisher reports on the event it was given, and does not touch the context of the request
  it works for; it may throw.
\<close>

locale audit_publisher =
  fixes publish :: "'e request_world audit_publisher"
  assumes about_event: "publish ev signal w = (Inr r, w') \<Longrightarrow> pr_auditEventId r = mt_uid (ev_metadata ev)"
    and publish_keeps_context: "keeps_context (publish ev signal)"

locale metered_publisher = audit_publisher publish
  for publish :: "'e request_world audit_publisher" +
  fixes T :: "'e telemetry"
    and name :: audit_publisher_name
    and role :: audit_publisher_role
begin

lemma metered_about_event:
  "metered_publisher_of T name role publish ev signal w = (Inr r, w') \<Longrightarrow> pr_auditEventId r = mt_uid (ev_metadata ev)"
  by (auto simp: metered_publisher_of_def metered_publish_def bind_io_def catch_io_def split: prod.splits sum.splits dest: about_event)

lemma metered_keeps_context: "keeps_context (metered_publisher_of T name role publish ev signal)"
  unfolding metered_publisher_of_def metered_publish_def metered_record_def then_bind
  by (intro context_intros publish_keeps_context)

text \<open>With telemetry that does not throw, metering is transparent.\<close>

lemma metered_transparent:
  assumes "quiet_telemetry T"
  shows "fst (metered_publisher_of T name role publish ev signal w) = fst (publish ev signal (fst w, snd (tl_hrtime T (snd w))))"
proof -
  obtain c e where w: "w = (c, e)" by fastforce
  obtain t e1 where clock: "tl_hrtime T e = (Inr t, e1)"
    using quiet_telemetryD(1) [OF assms] unfolding never_throws_def by blast
  obtain r v where run: "publish ev signal (c, e1) = (r, v)" by (cases "publish ev signal (c, e1)")
  have rec: "\<exists>x e'. metered_record (\<lambda>outcome duration. on_env (record_audit_publish_metrics T name role outcome duration))
      (on_env (tl_hrtime T)) out t v = (Inr x, (fst v, e'))" for out
    using metered_record_quiet [OF assms] by (blast elim: quietE)
  show ?thesis
  proof (cases r)
    case (Inl x)
    then show ?thesis using rec [of "Some F_Unavailable"]
      by (auto simp: metered_publisher_of_def metered_publish_def bind_io_def catch_io_def on_env_app w clock run)
  next
    case (Inr res)
    then show ?thesis using rec [of "pr_failure res"]
      by (auto simp: metered_publisher_of_def metered_publish_def bind_io_def catch_io_def on_env_app w clock run)
  qed
qed

end

sublocale metered_publisher \<subseteq> metered: audit_publisher "metered_publisher_of T name role publish"
  by unfold_locales (rule metered_about_event metered_keeps_context, assumption?)+

locale mirrored_publisher = primary: audit_publisher primary + comparison: audit_publisher comparison
  for primary comparison :: "'e request_world audit_publisher"
begin

lemma mirror_transparent: "fst (mirror_publish primary comparison ev signal w) = fst (primary ev signal w)"
  by (auto simp: mirror_publish_def finally_io_def catch_io_def bind_io_def split: prod.split sum.split)

lemma mirror_about_event:
  assumes "mirror_publish primary comparison ev signal w = (Inr r, w')"
  shows "pr_auditEventId r = mt_uid (ev_metadata ev)"
proof -
  have "fst (primary ev signal w) = Inr r" using mirror_transparent [of ev signal w] assms by simp
  then show ?thesis by (cases "primary ev signal w") (simp add: primary.about_event)
qed

lemma mirror_keeps_context: "keeps_context (mirror_publish primary comparison ev signal)"
  unfolding mirror_publish_def
  by (intro context_intros primary.publish_keeps_context comparison.publish_keeps_context)

end

sublocale mirrored_publisher \<subseteq> mirrored: audit_publisher "mirror_publish primary comparison"
  by unfold_locales (rule mirror_about_event mirror_keeps_context, assumption?)+

section \<open>The publishers of the service keep the contract\<close>

text \<open>
  The process's output stream: it says whether the call reported an error, and how often; the
  request context is out of its reach.
\<close>

definition stream_output :: "('e, nat) io \<Rightarrow> (string \<Rightarrow> ('e, bool list) io) \<Rightarrow> 'e request_world audit_output" where
  "stream_output bufferedBytes emit = \<lparr>so_writableLength = on_env bufferedBytes,
     so_write = (\<lambda>line callback. bind_io (on_db (on_env (emit line))) (for_each callback))\<rparr>"

lemma stdout_publish_uid:
  "stdout_publish out reportFailure n ev signal w = (Inr r, w') \<Longrightarrow> pr_auditEventId r = mt_uid (ev_metadata ev)"
  unfolding stdout_publish_def Let_def with_local_def
  by (auto simp: bind_io_def gets_def on_env_def publish_refused_def publish_accepted_def
      split: prod.splits sum.splits if_splits)

lemma keeps_context_local:
  assumes "\<And>c. keeps (\<lambda>w. fst (fst w) = c) m"
  shows "keeps_context (with_local l m)"
  unfolding keeps_context_def
proof
  fix c
  show "keeps (\<lambda>w. fst w = c) (with_local l m)"
    using assms [of c] by (auto simp: keeps_def with_local_def split: prod.split) (metis fst_conv snd_conv)
qed

lemma keeps_lifted:
  "keeps_context m \<Longrightarrow> keeps (\<lambda>w. fst (fst w) = c) (on_db m)" "keeps (\<lambda>w. fst (fst w) = c) (on_env m')"
  using keeps_on_db [of "\<lambda>s. fst s = c" m] keeps_on_env [of "\<lambda>s. fst s = c" m'] by (simp_all add: keeps_context_def)

lemma stdout_publish_keeps_context:
  assumes "\<And>reason. keeps_context (reportFailure reason)"
  shows "keeps_context (stdout_publish (stream_output len emit) reportFailure n ev signal)"
  unfolding stdout_publish_def Let_def stream_output_def audit_output.simps then_bind
  by (intro context_intros keeps_context_local keeps_intros keeps_lifted assms conjI impI
      | simp split: if_split | intro conjI impI)+

interpretation stdout: audit_publisher "default_stdout_publisher (stream_output len emit) (application_logger_of T)"
  for len emit T
  unfolding default_stdout_publisher_def
  by unfold_locales
    (auto intro: stdout_publish_uid stdout_publish_keeps_context simp: application_logger_of_def write_log_keeps_context)

interpretation bridge: audit_publisher "event_bridge_publish schema (\<lambda>entry ms. on_env (send entry ms)) P"
  for schema send P
proof
  show "pr_auditEventId r = mt_uid (ev_metadata ev)"
    if "event_bridge_publish schema (\<lambda>entry ms. on_env (send entry ms)) P ev signal w = (Inr r, w')" for ev signal w r w'
    using that by (rule event_bridge_publish_uid)
  show "keeps_context (event_bridge_publish schema (\<lambda>entry ms. on_env (send entry ms)) P ev signal)" for ev signal
    unfolding event_bridge_publish_def by (auto intro!: context_intros)
qed

interpretation stdout_metered: metered_publisher
    "default_stdout_publisher (stream_output len emit) (application_logger_of U)" U nm rl
  for len emit U nm rl
  by unfold_locales

interpretation bridge_metered: metered_publisher
    "event_bridge_publish schema (\<lambda>entry ms. on_env (send entry ms)) P" U nm rl
  for schema send P U nm rl
  by unfold_locales

interpretation bridge_mirrored: mirrored_publisher
    "metered_publisher_of U P_Eventbridge P_Primary
       (event_bridge_publish schema (\<lambda>entry ms. on_env (send entry ms)) P)"
    "metered_publisher_of U P_Stdout P_Comparison
       (default_stdout_publisher (stream_output len emit) (application_logger_of U))"
  for schema send P U len emit
  by (intro mirrored_publisher.intro bridge_metered.metered.audit_publisher_axioms
      stdout_metered.metered.audit_publisher_axioms)

section \<open>The recorder\<close>

lemma audit_input_keys: "set (ei_keys (audit_input_of identity attempt c a i j)) \<subseteq> set allowed_input_keys"
  by (auto simp: audit_input_of_def Let_def allowed_input_keys_def)

lemma audit_input_contract:
  assumes "bounded_text (si_serviceVersion identity)" "bounded_text (si_environment identity)"
    "contract_route (aa_route attempt)" "request_id_pattern i" "request_id_pattern j"
  shows "contract_input (audit_input_of identity attempt c a i j)"
  using assms audit_input_keys [of identity attempt c a i j]
  by (simp add: contract_input_def) (simp add: audit_input_of_def Let_def)

lemma context_or_uuid_runs:
  assumes "quiet_telemetry T" "pred_option (\<lambda>c. request_id_pattern (read c)) rc"
  obtains i e where "context_or_uuid T read rc w = (Inr i, (fst w, e))" "request_id_pattern i"
    "\<forall>c. rc = Some c \<longrightarrow> i = read c"
proof (cases rc)
  case None
  obtain u e where "tl_randomUUID T (snd w) = (Inr u, e)" "matches_classes uuid_lower_pattern u"
    using quiet_telemetryD(7) [OF assms(1)] by (rule generates_uuidsE)
  with None show ?thesis
    by (cases w; intro that [of u e]) (simp_all add: context_or_uuid_def on_env_app uuid_is_request_id)
next
  case (Some c)
  with assms(2) show ?thesis by (intro that [of "read c" "snd w"]) (simp_all add: context_or_uuid_def)
qed

text \<open>The routes of the two boundaries, and a sound identity of the service.\<close>

definition sound_audit_identity :: "audit_service_identity \<Rightarrow> bool" where
  "sound_audit_identity identity \<longleftrightarrow>
     bounded_text (si_serviceVersion identity) \<and> bounded_text (si_environment identity)"

lemma boundary_routes: "contract_route ''/graphql''" "contract_route ''/demo/auth/login''"
proof -
  have "list_all is_route_char ''graphql''" "list_all is_route_char ''demo/auth/login''" by code_simp+
  then show "contract_route ''/graphql''" "contract_route ''/demo/auth/login''" by (simp_all add: contract_route_def)
qed

context audit_publisher
begin

text \<open>
  Recording: with telemetry that does not throw, the recorder builds a valid event, publishes it
  once, and ends with a receipt for the event exactly when the publisher accepted it, and with
  \<open>AuditEmissionUnavailableError\<close> otherwise, whatever the publisher threw.
\<close>

lemma record_runs:
  assumes quiet: "quiet_telemetry T" and schema: "schema_of_contract schema" and providers: "sound_providers providers"
    and identity: "sound_audit_identity identity" and route: "contract_route (aa_route attempt)"
    and ctx: "pred_option request_context_inv (fst w)"
  obtains ev v where "contract_event ev" "fst v = fst w"
    "\<forall>c. fst w = Some c \<longrightarrow> pl_request_id (ev_platform ev) = rc_requestId c"
    "case fst (publish ev None v) of
       Inr result \<Rightarrow> (case pr_failure result of
           None \<Rightarrow> \<exists>e. record_authentication_audit T schema identity publish (application_logger_of T) providers attempt w =
             (Inr \<lparr>ar_request_id = pl_request_id (ev_platform ev), ar_audit_event_id = mt_uid (ev_metadata ev),
                ar_trace_id = pl_trace_id (ev_platform ev)\<rparr>, (fst w, e))
         | Some reason \<Rightarrow> \<exists>e. record_authentication_audit T schema identity publish (application_logger_of T) providers
             attempt w = (Inl AuditEmissionUnavailableError, (fst w, e)))
     | Inl x \<Rightarrow> \<exists>e. record_authentication_audit T schema identity publish (application_logger_of T) providers
         attempt w = (Inl AuditEmissionUnavailableError, (fst w, e))"
proof -
  obtain c e where w: "w = (c, e)" by fastforce
  have ids: "pred_option (\<lambda>c. request_id_pattern (rc_requestId c)) c"
    "pred_option (\<lambda>c. request_id_pattern (rc_correlationId c)) c"
    using ctx by (cases c; simp add: w request_context_inv_def)+
  obtain a e1 where span: "read_active_span_identifiers T e = (Inr a, e1)"
    using active_span_never_throws [OF quiet] unfolding never_throws_def by blast
  obtain i e2 where i: "context_or_uuid T rc_requestId c (c, e1) = (Inr i, (c, e2))" "request_id_pattern i"
      "\<forall>c'. c = Some c' \<longrightarrow> i = rc_requestId c'"
    by (rule context_or_uuid_runs [OF quiet ids(1), of "(c, e1)", unfolded fst_conv])
  obtain j e3 where j: "context_or_uuid T rc_correlationId c (c, e2) = (Inr j, (c, e3))" "request_id_pattern j"
    by (rule context_or_uuid_runs [OF quiet ids(2), of "(c, e2)", unfolded fst_conv])
  let ?input = "audit_input_of identity attempt c a i j"
  have input: "contract_input ?input"
    using identity route i(2) j(2) by (intro audit_input_contract) (simp_all add: sound_audit_identity_def)
  obtain ev e4 t u where ev: "build_authentication_audit_event schema providers ?input e3 = (Inr ev, e4)"
      "ev = authentication_audit_event_of ?input t u" "contract_event ev"
    by (rule build_event_core [OF schema providers input, of e3])
  obtain x e5 where attrs: "tl_setSpanAttributes T (audit_span_attributes ev) e4 = (Inr x, e5)"
    using quiet_telemetryD(3) [OF quiet, of "audit_span_attributes ev"] unfolding never_throws_def by blast
  obtain r v where pub: "publish ev None (c, e5) = (r, v)" by (cases "publish ev None (c, e5)")
  have v: "fst v = c" using keeps_contextD [OF publish_keeps_context pub] by simp
  have info: "\<exists>e. bind_io (lo_info (application_logger_of T) event flds) (\<lambda>_. ret x) v = (Inr x, (c, e))"
    for event flds and x :: audit_receipt
    by (rule quietE [OF application_logger_quiet(1) [OF quiet], of event flds v]) (simp add: bind_io_def v)
  have err: "\<exists>e. bind_io (lo_error (application_logger_of T) event flds error) (\<lambda>_. throw x) v =
      (Inl x :: js_error + audit_receipt, (c, e))" for event flds error x
    by (rule quietE [OF application_logger_quiet(2) [OF quiet], of event flds error v]) (simp add: bind_io_def v)
  have run: "record_authentication_audit T schema identity publish (application_logger_of T) providers attempt w =
      (case r of
         Inl x \<Rightarrow> bind_io (lo_error (application_logger_of T) ''audit.emit.failed'' (Some (obj_spread
             (audit_correlation_log_fields ev) [(''failure_reason'', Some (L_String ''unavailable''))])) None)
           (\<lambda>_. throw AuditEmissionUnavailableError) v
       | Inr result \<Rightarrow> (case pr_failure result of
           Some reason \<Rightarrow> bind_io (lo_error (application_logger_of T) ''audit.emit.failed'' (Some (obj_spread
               (audit_correlation_log_fields ev)
               [(''failure_reason'', Some (L_String (failure_reason_str reason)))])) None)
             (\<lambda>_. throw AuditEmissionUnavailableError) v
         | None \<Rightarrow> bind_io (lo_info (application_logger_of T) ''audit.authentication''
               (Some (audit_correlation_log_fields ev)))
             (\<lambda>_. ret \<lparr>ar_request_id = pl_request_id (ev_platform ev), ar_audit_event_id = mt_uid (ev_metadata ev),
                ar_trace_id = pl_trace_id (ev_platform ev)\<rparr>) v))"
    by (cases r)
      (simp_all add: record_authentication_audit_def w get_current_request_context_def bind_io_def on_db_app on_env_app
        span i(1) j(1) ev(1) attrs pub catch_io_def publish_refused_def split: option.split)
  show ?thesis
  proof (rule that [of ev "(c, e5)"])
    show "\<forall>c. fst w = Some c \<longrightarrow> pl_request_id (ev_platform ev) = rc_requestId c"
      using i(3) by (simp add: w ev(2) authentication_audit_event_of_def audit_input_of_def Let_def)
    show "case fst (publish ev None (c, e5)) of
       Inr result \<Rightarrow> (case pr_failure result of
           None \<Rightarrow> \<exists>e. record_authentication_audit T schema identity publish (application_logger_of T) providers attempt w =
             (Inr \<lparr>ar_request_id = pl_request_id (ev_platform ev), ar_audit_event_id = mt_uid (ev_metadata ev),
                ar_trace_id = pl_trace_id (ev_platform ev)\<rparr>, (fst w, e))
         | Some reason \<Rightarrow> \<exists>e. record_authentication_audit T schema identity publish (application_logger_of T) providers
             attempt w = (Inl AuditEmissionUnavailableError, (fst w, e)))
     | Inl x \<Rightarrow> \<exists>e. record_authentication_audit T schema identity publish (application_logger_of T) providers
         attempt w = (Inl AuditEmissionUnavailableError, (fst w, e))"
      unfolding run using info err
      by (cases r) (simp_all add: pub w split: option.split)
  qed (simp_all add: ev(3) w)
qed

lemma record_outcome:
  assumes "quiet_telemetry T" "schema_of_contract schema" "sound_providers providers" "sound_audit_identity identity"
    "contract_route (aa_route attempt)" "pred_option request_context_inv (fst w)"
  shows "case record_authentication_audit T schema identity publish (application_logger_of T) providers attempt w of
     (Inr receipt, w') \<Rightarrow> fst w' = fst w \<and> (\<forall>c. fst w = Some c \<longrightarrow> ar_request_id receipt = rc_requestId c)
   | (Inl x, w') \<Rightarrow> fst w' = fst w \<and> x = AuditEmissionUnavailableError"
proof -
  obtain ev v where run: "\<forall>c. fst w = Some c \<longrightarrow> pl_request_id (ev_platform ev) = rc_requestId c"
    "case fst (publish ev None v) of
       Inr result \<Rightarrow> (case pr_failure result of
           None \<Rightarrow> \<exists>e. record_authentication_audit T schema identity publish (application_logger_of T) providers attempt w =
             (Inr \<lparr>ar_request_id = pl_request_id (ev_platform ev), ar_audit_event_id = mt_uid (ev_metadata ev),
                ar_trace_id = pl_trace_id (ev_platform ev)\<rparr>, (fst w, e))
         | Some reason \<Rightarrow> \<exists>e. record_authentication_audit T schema identity publish (application_logger_of T) providers
             attempt w = (Inl AuditEmissionUnavailableError, (fst w, e)))
     | Inl x \<Rightarrow> \<exists>e. record_authentication_audit T schema identity publish (application_logger_of T) providers
         attempt w = (Inl AuditEmissionUnavailableError, (fst w, e))"
    using assms by (rule record_runs)
  then show ?thesis
    by (cases "fst (publish ev None v)"; cases "pr_failure (projr (fst (publish ev None v)))") auto
qed

end

section \<open>The publisher graph\<close>

text \<open>The publishers of the running service: the stream, and the AWS client of a region.\<close>

definition service_stdout ::
  "'e telemetry \<Rightarrow> ('e, nat) io \<Rightarrow> (string \<Rightarrow> ('e, bool list) io) \<Rightarrow> 'e request_world audit_publisher" where
  "service_stdout T len emit = default_stdout_publisher (stream_output len emit) (application_logger_of T)"

definition service_event_bridge ::
  "audit_schema \<Rightarrow> (string \<Rightarrow> put_events_entry \<Rightarrow> int \<Rightarrow> ('e, publish_race) io) \<Rightarrow> event_bridge_config \<Rightarrow>
    js_error + 'e request_world audit_publisher" where
  "service_event_bridge schema connect =
    create_event_bridge_audit_publisher schema (\<lambda>region entry ms. on_env (connect region entry ms))"

lemma service_event_bridge_Inr:
  assumes "service_event_bridge schema connect config = Inr p"
  obtains P region where "p = event_bridge_publish schema (\<lambda>entry ms. on_env (connect region entry ms)) P"
  using assms
  by (auto simp: service_event_bridge_def create_event_bridge_audit_publisher_def
      create_event_bridge_audit_client_def bind_err_Inr split: option.splits)

lemma metered_Inr: "metered T inner name role w = (Inr p, w') \<Longrightarrow> p = metered_publisher_of T name role inner"
  by (auto simp: metered_def bind_io_def split: prod.splits sum.splits)

text \<open>Every publisher the settings can select keeps the contract.\<close>

lemma created_publisher:
  assumes "create_audit_publisher T (service_stdout T len emit) (service_event_bridge schema connect) settings w = (Inr p, w')"
  shows "audit_publisher p"
proof (cases settings)
  case Audit_Stdout
  then show ?thesis
    using assms stdout_metered.metered.audit_publisher_axioms
    by (auto simp: create_audit_publisher_def service_stdout_def dest!: metered_Inr)
next
  case (Audit_Eventbridge arn ms mirror)
  then obtain b P region where b: "service_event_bridge schema connect
      \<lparr>ec_eventBusArn = arn, ec_timeoutMs = ms, ec_resources = None\<rparr> = Inr b"
      "b = event_bridge_publish schema (\<lambda>entry ms. on_env (connect region entry ms)) P"
    using assms
    by (cases "service_event_bridge schema connect \<lparr>ec_eventBusArn = arn, ec_timeoutMs = ms, ec_resources = None\<rparr>")
      (auto simp: create_audit_publisher_def elim: service_event_bridge_Inr)
  show ?thesis
    using assms b bridge_metered.metered.audit_publisher_axioms bridge_mirrored.mirrored.audit_publisher_axioms
    by (auto simp: create_audit_publisher_def Audit_Eventbridge service_stdout_def elim!: bind_io_cases
        dest!: metered_Inr split: if_splits)
qed

section \<open>Properties\<close>

text \<open>C27: the comparison mirror is invisible to callers. Two publishers built from the same EventBridge
  settings, one with the stdout comparison and one without, give the same result or throw the same
  error for any event from any state; and with telemetry that does not throw, that is what the
  EventBridge publisher alone gives.\<close>

theorem comparison_mirror_is_transparent:
  assumes "service_event_bridge schema connect
      \<lparr>ec_eventBusArn = arn, ec_timeoutMs = ms, ec_resources = None\<rparr> = Inr bridge"
    and "create_audit_publisher T (service_stdout T len emit) (service_event_bridge schema connect)
      (Audit_Eventbridge arn ms True) w = (Inr mirrored, w1)"
    and "create_audit_publisher T (service_stdout T len emit) (service_event_bridge schema connect)
      (Audit_Eventbridge arn ms False) w = (Inr plain, w2)"
    and "quiet_telemetry T"
  shows "fst (mirrored ev signal v) = fst (plain ev signal v) \<and>
    fst (plain ev signal v) = fst (bridge ev signal (fst v, snd (tl_hrtime T (snd v))))"
proof -
  obtain P region where bridge: "bridge = event_bridge_publish schema (\<lambda>entry ms. on_env (connect region entry ms)) P"
    using assms(1) by (rule service_event_bridge_Inr)
  have plain: "plain = metered_publisher_of T P_Eventbridge P_Primary bridge"
    using assms(1,3) by (auto simp: create_audit_publisher_def elim!: bind_io_cases dest!: metered_Inr)
  have mirrored: "mirrored = mirror_publish (metered_publisher_of T P_Eventbridge P_Primary bridge)
      (metered_publisher_of T P_Stdout P_Comparison (service_stdout T len emit))"
    using assms(1,2) by (auto simp: create_audit_publisher_def elim!: bind_io_cases dest!: metered_Inr)
  show ?thesis
    unfolding mirrored plain bridge service_stdout_def
    by (rule conjI [OF bridge_mirrored.mirror_transparent bridge_metered.metered_transparent [OF assms(4)]])
qed

lemma created_recorder:
  assumes "create_authentication_audit_recorder T schema (service_stdout T len emit)
      (service_event_bridge schema connect) (application_logger_of T) providers version environment settings w0 =
      (Inr record, w1)"
  obtains p where "audit_publisher p"
    "record = record_authentication_audit T schema
       \<lparr>si_serviceName = Reservation_Service, si_serviceVersion = version, si_environment = environment\<rparr> p
       (application_logger_of T) providers"
proof -
  obtain p v where "create_audit_publisher T (service_stdout T len emit) (service_event_bridge schema connect) settings w0 =
      (Inr p, v)" "record = record_authentication_audit T schema
       \<lparr>si_serviceName = Reservation_Service, si_serviceVersion = version, si_environment = environment\<rparr> p
       (application_logger_of T) providers"
    using assms by (auto simp: create_authentication_audit_recorder_def elim!: bind_io_cases)
  with created_publisher [OF this(1)] show ?thesis by (intro that)
qed

text \<open>C23: auditing never changes an authentication answer. With the recorder the service builds, for any
  publisher its settings select and whatever that publisher does (refuse, time out, throw), a demo
  login never throws and accepts exactly the configured credentials; a receipt it hands out names
  the request. A rejected GraphQL request is always answered with 401.\<close>

theorem audit_never_changes_the_answer:
  assumes "quiet_telemetry T" "schema_of_contract schema" "sound_providers providers"
    and "bounded_text version" "bounded_text environment"
    and recorder: "create_authentication_audit_recorder T schema (service_stdout T len emit)
      (service_event_bridge schema connect) (application_logger_of T) providers version environment settings w0 =
      (Inr record, w1)"
    and ctx: "pred_option request_context_inv c"
    and graphql: "\<not> (enableGraphiql \<and> is_graphql_landing_page_request req)"
      "manager (extract_bearer_token (rq_headers req)) v = (Inl (AuthenticationError m), (i, (c, e)))"
  shows "(case demo_login (constant_time_verifier hash username password) record body (c, e) of
       (Inr r, w') \<Rightarrow> (dr_authenticated r \<longleftrightarrow> accepted_credentials hash username password body) \<and>
         pred_option (\<lambda>receipt. pred_option (\<lambda>rc. ar_request_id receipt = rc_requestId rc) c) (dr_receipt r)
     | (Inl x, w') \<Rightarrow> False) \<and>
    (\<exists>e'. graphql_authentication_use enableGraphiql manager (\<lambda>attempt. on_env (record attempt)) respond req nxt v =
      respond 401 ''Unauthenticated'' (i, (c, e')))"
proof
  obtain p where p: "audit_publisher p" "record = record_authentication_audit T schema
      \<lparr>si_serviceName = Reservation_Service, si_serviceVersion = version, si_environment = environment\<rparr> p
      (application_logger_of T) providers"
    using recorder by (rule created_recorder)
  have out: "case record attempt (c, e) of
      (Inr receipt, w') \<Rightarrow> fst w' = c \<and> (\<forall>rc. c = Some rc \<longrightarrow> ar_request_id receipt = rc_requestId rc)
    | (Inl x, w') \<Rightarrow> fst w' = c \<and> x = AuditEmissionUnavailableError"
    if "contract_route (aa_route attempt)" for attempt
  proof -
    have "sound_audit_identity
        \<lparr>si_serviceName = Reservation_Service, si_serviceVersion = version, si_environment = environment\<rparr>"
      using assms(4,5) by (simp add: sound_audit_identity_def)
    from audit_publisher.record_outcome [OF p(1) assms(1-3) this that, where w = "(c, e)"] ctx
    show ?thesis by (simp only: fst_conv p(2) simp_thms)
  qed
  show "case demo_login (constant_time_verifier hash username password) record body (c, e) of
       (Inr r, w') \<Rightarrow> (dr_authenticated r \<longleftrightarrow> accepted_credentials hash username password body) \<and>
         pred_option (\<lambda>receipt. pred_option (\<lambda>rc. ar_request_id receipt = rc_requestId rc) c) (dr_receipt r)
     | (Inl x, w') \<Rightarrow> False"
    using out [of "\<lparr>aa_outcome = demo_authenticate (constant_time_verifier hash username password) body,
        aa_route = ''/demo/auth/login'', aa_authBoundary = Demo_Login\<rparr>"]
      demo_authenticate_accepts [of hash username password body]
    by (cases c) (auto simp: demo_login_def demo_login_decision_def Let_def bind_io_def catch_io_def boundary_routes
        split: prod.splits sum.splits option.split)
  obtain r e' where "record unauthenticated_attempt (c, e) = (r, (c, e'))"
      "r = Inl AuditEmissionUnavailableError \<or> (\<exists>receipt. r = Inr receipt)"
    using out [of unauthenticated_attempt]
    by (auto simp: unauthenticated_attempt_def boundary_routes split: prod.splits sum.splits)
  then show "\<exists>e'. graphql_authentication_use enableGraphiql manager (\<lambda>attempt. on_env (record attempt)) respond req nxt v =
      respond 401 ''Unauthenticated'' (i, (c, e'))"
    by (intro exI [of _ e'])
      (auto simp: graphql_authentication_use_def if_not_P [OF graphql(1)] authenticate_jwt_token_def graphql(2)
        catch_io_def bind_io_def on_env_app)
qed

section \<open>Witnesses\<close>

lemma sample_telemetry_quiet: "quiet_telemetry sample_telemetry"
  using sample_generates by (simp add: quiet_telemetry_def never_throws_def sample_telemetry_def)

lemma sample_for_each: "for_each (\<lambda>x. ret ()) xs w = (Inr (), w)"
proof (induction xs)
  case Nil
  show ?case by (simp only: for_each.simps ret_app)
next
  case (Cons x xs)
  then show ?case by (simp only: for_each.simps then_bind bind_io_ret)
qed

lemma sample_metered: "metered sample_telemetry inner name role w = (Inr (metered_publisher_of sample_telemetry name role inner), w)"
  by (cases w) (simp add: metered_def initialize_audit_publish_metric_series_def Let_def on_env_app bind_io_def
      sample_telemetry_def sample_for_each)

definition sample_arn :: string where
  "sample_arn = ''arn:aws:events:eu-west-1:123456789012:event-bus/audit''"

definition sample_connect :: "string \<Rightarrow> put_events_entry \<Rightarrow> int \<Rightarrow> (nat, publish_race) io" where
  "sample_connect region entry ms = ret Race_Timeout"

definition sample_stdout :: "nat request_world audit_publisher" where
  "sample_stdout = service_stdout sample_telemetry (ret 0) (\<lambda>_. ret [])"

lemma sample_bridge:
  "\<exists>P. service_event_bridge sample_schema sample_connect
      \<lparr>ec_eventBusArn = sample_arn, ec_timeoutMs = 500, ec_resources = None\<rparr> = Inr P"
proof -
  have "event_bus_arn_pattern sample_arn" by code_simp
  moreover then have "event_bus_region sample_arn \<noteq> None" by (simp add: bus_arn_region)
  ultimately show ?thesis
    by (auto simp: service_event_bridge_def create_event_bridge_audit_publisher_def
        create_event_bridge_audit_client_def new_event_bridge_audit_publisher_def max_safe_integer_def)
qed

theorem comparison_mirror_is_transparent_witness:
  "\<exists>(bridge :: nat request_world audit_publisher) mirrored (plain :: nat request_world audit_publisher).
     fst (create_audit_publisher sample_telemetry sample_stdout
       (service_event_bridge sample_schema sample_connect) (Audit_Eventbridge sample_arn 500 True) (None, 0)) = Inr mirrored \<and>
     fst (mirrored (authentication_audit_event_of sample_event_input 0 []) None (None, 0)) =
     fst (plain (authentication_audit_event_of sample_event_input 0 []) None (None, 0)) \<and>
     fst (plain (authentication_audit_event_of sample_event_input 0 []) None (None, 0)) =
     fst (bridge (authentication_audit_event_of sample_event_input 0 []) None (None, 0))"
proof -
  let ?eb = "service_event_bridge sample_schema sample_connect"
  obtain b where b: "?eb \<lparr>ec_eventBusArn = sample_arn, ec_timeoutMs = 500, ec_resources = None\<rparr> = Inr b"
    using sample_bridge by blast
  let ?primary = "metered_publisher_of sample_telemetry P_Eventbridge P_Primary b"
  let ?mirror = "mirror_publish ?primary (metered_publisher_of sample_telemetry P_Stdout P_Comparison sample_stdout)"
  have plain: "create_audit_publisher sample_telemetry sample_stdout ?eb (Audit_Eventbridge sample_arn 500 False) (None, 0) =
      (Inr ?primary, (None, 0))"
    by (simp add: create_audit_publisher_def b bind_io_def sample_metered)
  have mirrored: "create_audit_publisher sample_telemetry sample_stdout ?eb (Audit_Eventbridge sample_arn 500 True) (None, 0) =
      (Inr ?mirror, (None, 0))"
    by (simp add: create_audit_publisher_def b bind_io_def sample_metered)
  have clock: "snd (tl_hrtime sample_telemetry n) = n" for n by (simp add: sample_telemetry_def)
  have "fst (?mirror (authentication_audit_event_of sample_event_input 0 []) None (None, 0)) =
      fst (?primary (authentication_audit_event_of sample_event_input 0 []) None (None, 0)) \<and>
    fst (?primary (authentication_audit_event_of sample_event_input 0 []) None (None, 0)) =
      fst (b (authentication_audit_event_of sample_event_input 0 []) None (None, 0))"
    using comparison_mirror_is_transparent [OF b mirrored [unfolded sample_stdout_def] plain [unfolded sample_stdout_def]
        sample_telemetry_quiet, of "authentication_audit_event_of sample_event_input 0 []" None "(None, 0)"]
    by (simp only: clock sample_stdout_def fst_conv snd_conv simp_thms)
  then show ?thesis
    by - (rule exI [of _ b], rule exI [of _ ?mirror], rule exI [of _ ?primary], simp only: mirrored fst_conv simp_thms)
qed

theorem audit_never_changes_the_answer_witness:
  "\<exists>record.
    fst (create_authentication_audit_recorder sample_telemetry sample_schema sample_stdout
      (service_event_bridge sample_schema sample_connect) (application_logger_of sample_telemetry) sample_providers
      ''1.0'' ''test'' Audit_Stdout (None, 0)) = Inr record \<and>
    (case demo_login (constant_time_verifier (\<lambda>s. s) ''demo'' ''pw'') record
       (Some (JObject [(''username'', JString ''demo''), (''password'', JString ''pw'')])) (Some sample_context, 0) of
       (Inr r, w') \<Rightarrow> dr_authenticated r
     | (Inl x, w') \<Rightarrow> False)"
proof -
  let ?create = "create_authentication_audit_recorder sample_telemetry sample_schema sample_stdout
      (service_event_bridge sample_schema sample_connect) (application_logger_of sample_telemetry) sample_providers
      ''1.0'' ''test'' Audit_Stdout (None, 0)"
  obtain u n where log: "lo_info (application_logger_of sample_telemetry) ''audit.publisher.selected''
      (Some [(''audit_publisher'', Some (L_String ''stdout''))]) (None, 0) = (Inr u, (None, n))"
    using quietE [OF application_logger_quiet(1) [OF sample_telemetry_quiet], of _ _ "(None, 0)"] by auto
  have "\<exists>record. ?create = (Inr record, (None, n))"
    by (simp add: create_authentication_audit_recorder_def create_audit_publisher_def bind_io_def sample_metered log)
  then obtain rd where rd: "?create = (Inr rd, (None, n))" by blast
  have versions: "bounded_text ''1.0''" "bounded_text ''test''" by (simp_all add: bounded_text_def matches_bounded_def)
  have ok: "accepted_credentials (\<lambda>s. s) ''demo'' ''pw''
      (Some (JObject [(''username'', JString ''demo''), (''password'', JString ''pw'')]))"
    by (simp add: accepted_credentials_def)
  have rejects: "jwt_authenticate (\<lambda>_. ret []) (extract_bearer_token (rq_headers sample_req))
        (fst sample_world, (Some sample_context, 0)) =
      (Inl (AuthenticationError ''Missing token''), (fst sample_world, (Some sample_context, 0)))"
    by (simp add: sample_req_def extract_bearer_token_def read_header_def jwt_authenticate_def)
  have "case demo_login (constant_time_verifier (\<lambda>s. s) ''demo'' ''pw'') rd
       (Some (JObject [(''username'', JString ''demo''), (''password'', JString ''pw'')])) (Some sample_context, 0) of
       (Inr r, w') \<Rightarrow> dr_authenticated r | (Inl x, w') \<Rightarrow> False"
    using audit_never_changes_the_answer [where manager = "jwt_authenticate (\<lambda>_. ret [])" and req = sample_req
        and v = "(fst sample_world, (Some sample_context, 0))" and i = "fst sample_world" and c = "Some sample_context"
        and e = 0 and enableGraphiql = False and hash = "\<lambda>s. s" and username = "''demo''" and password = "''pw''"
        and body = "Some (JObject [(''username'', JString ''demo''), (''password'', JString ''pw'')])",
        OF sample_telemetry_quiet sample_schema_ok sample_providers_ok versions rd [unfolded sample_stdout_def] _ _ rejects]
      sample_context_inv ok
    by (auto split: prod.splits sum.splits)
  with rd show ?thesis by auto
qed

end
