(* ===== verification/Graphql_Plugin.thy ===== *)
theory Graphql_Plugin
  imports Auth_Boundary
begin

text \<open>
  The Apollo plugin that logs GraphQL operations
  (\<open>presentation/graphql/plugins/graphql-operation-logging.plugin.ts\<close>): the callbacks of one
  request, the mutable state they share, and the automaton of log events they implement. The
  span API is a record of operations, the logger is the port of \<open>application-logger.ts\<close>.
\<close>

section \<open>State and inputs\<close>

record operation_log_metadata =
  om_operationName :: string
  om_operationType :: string
  om_businessOperation :: string
  om_movieProviderCode :: string
  om_userId :: string

record operation_log_state =
  os_startedAt :: int
  os_metadata :: operation_log_metadata
  os_operationStartLogged :: bool
  os_terminalLogWritten :: bool

record 'e operation_span =
  sn_start :: "string \<Rightarrow> ('e, unit) io"
  sn_setStatus :: "span_status \<Rightarrow> string option \<Rightarrow> ('e, unit) io"
  sn_setAttribute :: "string \<Rightarrow> log_value \<Rightarrow> ('e, unit) io"
  sn_end :: "('e, unit) io"

datatype selection = Field_Selection string | Other_Selection

record operation_definition =
  od_operation :: string
  od_selections :: "selection list"

text \<open>A \<open>GraphQLError\<close>: the thrown value itself, its message, and the wrapped original.\<close>

record graphql_error =
  ge_error :: js_error
  ge_message :: string
  ge_originalError :: "js_error option"

record graphql_response =
  gs_kind :: string
  gs_errors :: "js_error list option"

record graphql_context =
  gc_authenticatedUser :: authenticated_user
  gc_actor :: actor_context

type_synonym 'e operation_world = "operation_log_state \<times> 'e request_world"

section \<open>Helpers\<close>

definition anonymous_operation_name :: string where
  "anonymous_operation_name = ''anonymous''"

definition replace_char :: "(char \<Rightarrow> bool) \<Rightarrow> char \<Rightarrow> string \<Rightarrow> string" where
  "replace_char p r s = List.map (\<lambda>c. if p c then r else c) s"

definition sanitize_log_token :: "string \<Rightarrow> string" where
  "sanitize_log_token v =
    replace_char (\<lambda>c. c = CHR ''='') CHR '':''
      (replace_char is_js_space CHR ''_''
        (replace_char (\<lambda>c. c = CHR 0x0A) CHR '' ''
          (replace_char (\<lambda>c. c = CHR 0x22) CHR 0x27 v)))"

definition known_business_operations :: "string list" where
  "known_business_operations = [''me'', ''movies'', ''screenings'', ''requestReservation'',
     ''reservationRequestStatus'', ''reservationResult'']"

fun field_names :: "selection list \<Rightarrow> string list" where
  "field_names [] = []"
| "field_names (Field_Selection n # ss) = n # field_names ss"
| "field_names (Other_Selection # ss) = field_names ss"

definition resolve_business_operation :: "operation_definition option \<Rightarrow> string" where
  "resolve_business_operation operation =
    (case operation of
       None \<Rightarrow> ''unknown''
     | Some d \<Rightarrow>
         (case field_names (od_selections d) of
            [] \<Rightarrow> ''unknown''
          | firstFieldName # rest \<Rightarrow>
              if firstFieldName \<in> set known_business_operations then firstFieldName else ''unknown''))"

definition get_graphql_error_type :: "'e telemetry \<Rightarrow> graphql_error \<Rightarrow> string" where
  "get_graphql_error_type T error =
    (case error_constructor_name T (case ge_originalError error of Some o' \<Rightarrow> o' | None \<Rightarrow> ge_error error) of
       Some name \<Rightarrow> name | None \<Rightarrow> [])"

definition classify_graphql_outcome :: "'e telemetry \<Rightarrow> graphql_error list \<Rightarrow> graphql_operation_outcome" where
  "classify_graphql_outcome T errors =
    (if list_ex (\<lambda>error. get_graphql_error_type T error = ''AuthenticationError'') errors then G_Auth_Error
     else if errors = [] then G_Graphql_Error else G_Graphql_Error)"

definition read_response_errors :: "graphql_response \<Rightarrow> js_error list" where
  "read_response_errors response =
    (if gs_kind response \<noteq> ''single'' then []
     else case gs_errors response of None \<Rightarrow> [] | Some errors \<Rightarrow> errors)"

definition create_initial_metadata :: "graphql_context \<Rightarrow> operation_log_metadata" where
  "create_initial_metadata c =
     \<lparr>om_operationName = anonymous_operation_name, om_operationType = ''unknown'', om_businessOperation = ''unknown'',
      om_movieProviderCode = (case us_movieProviderCode (gc_authenticatedUser c) of Some p \<Rightarrow> p | None \<Rightarrow> ''unknown''),
      om_userId = ac_userId (gc_actor c)\<rparr>"

definition create_operation_log_fields :: "operation_log_state \<Rightarrow> log_fields \<Rightarrow> log_fields" where
  "create_operation_log_fields st flds =
    obj_spread
      [(''graphql_operation_name'', Some (L_String (sanitize_log_token (om_operationName (os_metadata st))))),
       (''graphql_operation_type'', Some (L_String (sanitize_log_token (om_operationType (os_metadata st))))),
       (''business_operation'', Some (L_String (om_businessOperation (os_metadata st)))),
       (''movie_provider_code'', Some (L_String (sanitize_log_token (om_movieProviderCode (os_metadata st))))),
       (''user_id'', Some (L_String (sanitize_log_token (om_userId (os_metadata st)))))] flds"

text \<open>\<open>errorMessages.join(' | ')\<close>\<close>

fun join_messages :: "string list \<Rightarrow> string" where
  "join_messages [] = []"
| "join_messages [m] = m"
| "join_messages (m # n # ms) = m @ '' | '' @ join_messages (n # ms)"

section \<open>Effects\<close>

definition op_state :: "('e operation_world, operation_log_state) io" where
  "op_state = on_db (gets (\<lambda>st. st))"

definition op_update :: "(operation_log_state \<Rightarrow> operation_log_state) \<Rightarrow> ('e operation_world, unit) io" where
  "op_update f = on_db (modify f)"

definition op_env :: "('e, 'a) io \<Rightarrow> ('e operation_world, 'a) io" where
  "op_env m = on_env (on_env m)"

definition operation_duration :: "'e telemetry \<Rightarrow> int \<Rightarrow> ('e operation_world, int) io" where
  "operation_duration T startedAt = bind_io (op_env (tl_hrtime T)) (\<lambda>now. ret (now - startedAt))"

definition create_request_log_state ::
  "'e telemetry \<Rightarrow> 'e operation_span \<Rightarrow> graphql_context \<Rightarrow> ('e, operation_log_state) io" where
  "create_request_log_state T S c =
    bind_io (tl_hrtime T) (\<lambda>startedAt.
    then_io (sn_start S ''graphql.operation'')
      (ret \<lparr>os_startedAt = startedAt, os_metadata = create_initial_metadata c,
            os_operationStartLogged = False, os_terminalLogWritten = False\<rparr>))"

definition ensure_operation_start_logged :: "'e request_world application_logger \<Rightarrow> ('e operation_world, unit) io" where
  "ensure_operation_start_logged L =
    bind_io op_state (\<lambda>st.
    if os_operationStartLogged st then ret ()
    else then_io (op_update (\<lambda>s. s\<lparr>os_operationStartLogged := True\<rparr>))
      (bind_io op_state (\<lambda>s.
       on_env (lo_info L ''graphql.operation.start'' (Some (create_operation_log_fields s []))))))"

definition annotate_span :: "'e operation_span \<Rightarrow> ('e operation_world, unit) io" where
  "annotate_span S =
    bind_io op_state (\<lambda>st.
    then_io (op_env (sn_setAttribute S ''graphql.operation.name'' (L_String (om_operationName (os_metadata st)))))
    (then_io (op_env (sn_setAttribute S ''graphql.operation.type'' (L_String (om_operationType (os_metadata st)))))
    (then_io (op_env (sn_setAttribute S ''business.operation'' (L_String (om_businessOperation (os_metadata st)))))
    (then_io (op_env (sn_setAttribute S ''movie.provider.code'' (L_String (om_movieProviderCode (os_metadata st)))))
      (op_env (sn_setAttribute S ''enduser.id'' (L_String (om_userId (os_metadata st)))))))))"

definition log_operation_failure ::
  "'e telemetry \<Rightarrow> 'e operation_span \<Rightarrow> 'e request_world application_logger \<Rightarrow> graphql_error list \<Rightarrow>
    ('e operation_world, unit) io" where
  "log_operation_failure T S L errors =
    then_io (ensure_operation_start_logged L)
    (bind_io op_state (\<lambda>st.
     bind_io (operation_duration T (os_startedAt st)) (\<lambda>duration.
     (let outcome = classify_graphql_outcome T errors;
          errorTypes = List.map (get_graphql_error_type T) errors;
          errorMessages = List.map ge_message errors;
          joined = join_messages errorMessages in
      then_io (op_update (\<lambda>s. s\<lparr>os_terminalLogWritten := True\<rparr>))
      (then_io (op_env (sn_setStatus S Status_Error
        (Some (if joined = [] then graphql_outcome_str outcome else joined))))
      (then_io (op_env (sn_setAttribute S ''graphql.error.count'' (L_Number (int (length errors)))))
      (then_io (op_env (sn_end S))
      (bind_io op_state (\<lambda>s.
       then_io (on_env (lo_error L ''graphql.operation.failure'' (Some (create_operation_log_fields s
          [(''duration_ms'', Some (L_Millis duration)), (''outcome'', Some (L_String (graphql_outcome_str outcome))),
           (''error_count'', Some (L_Number (int (length errors)))), (''error_types'', Some (L_Strings errorTypes)),
           (''error_messages'', Some (L_Strings errorMessages))]))
          (case errors of [] \<Rightarrow> None
            | error # rest \<Rightarrow> Some (case ge_originalError error of Some o' \<Rightarrow> o' | None \<Rightarrow> ge_error error))))
       (then_io (op_env (record_graphql_operation_metrics T (om_businessOperation (os_metadata s))
          (om_operationType (os_metadata s)) outcome duration))
        (for_each (\<lambda>error. op_env (increment_graphql_exception_count T (om_businessOperation (os_metadata s))
          (classify_diagnostic_exception T
            (case ge_originalError error of Some o' \<Rightarrow> o' | None \<Rightarrow> ge_error error)))) errors)))))))))))"

definition log_operation_finish ::
  "'e telemetry \<Rightarrow> 'e operation_span \<Rightarrow> 'e request_world application_logger \<Rightarrow> ('e operation_world, unit) io" where
  "log_operation_finish T S L =
    then_io (ensure_operation_start_logged L)
    (bind_io op_state (\<lambda>st.
     bind_io (operation_duration T (os_startedAt st)) (\<lambda>duration.
     then_io (op_update (\<lambda>s. s\<lparr>os_terminalLogWritten := True\<rparr>))
     (then_io (op_env (sn_setStatus S Status_Ok None))
     (then_io (op_env (sn_end S))
     (bind_io op_state (\<lambda>s.
      then_io (on_env (lo_info L ''graphql.operation.finish'' (Some (create_operation_log_fields s
         [(''duration_ms'', Some (L_Millis duration)), (''outcome'', Some (L_String ''success''))]))))
       (op_env (record_graphql_operation_metrics T (om_businessOperation (os_metadata s))
         (om_operationType (os_metadata s)) G_Success duration)))))))))"

section \<open>Callbacks\<close>

definition did_resolve_operation ::
  "'e operation_span \<Rightarrow> 'e request_world application_logger \<Rightarrow> string option \<Rightarrow> operation_definition option \<Rightarrow>
    ('e operation_world, unit) io" where
  "did_resolve_operation S L operationName operation =
    (let businessOperation = resolve_business_operation operation;
         name = (case operationName of Some n \<Rightarrow> n | None \<Rightarrow> anonymous_operation_name);
         kind = (case operation of Some d \<Rightarrow> od_operation d | None \<Rightarrow> ''unknown'') in
     then_io (op_update (\<lambda>s. s\<lparr>os_metadata := (os_metadata s)\<lparr>om_operationName := name, om_operationType := kind,
       om_businessOperation := businessOperation\<rparr>\<rparr>))
     (then_io (on_env (enrich_with_graphql_operation \<lparr>go_operationName = sanitize_log_token name,
        go_operationType = sanitize_log_token kind, go_businessOperation = businessOperation\<rparr>))
     (then_io (annotate_span S) (ensure_operation_start_logged L))))"

definition did_encounter_errors ::
  "'e telemetry \<Rightarrow> 'e operation_span \<Rightarrow> 'e request_world application_logger \<Rightarrow> graphql_error list \<Rightarrow>
    ('e operation_world, unit) io" where
  "did_encounter_errors T S L errors = log_operation_failure T S L errors"

definition will_send_response ::
  "'e telemetry \<Rightarrow> 'e operation_span \<Rightarrow> 'e request_world application_logger \<Rightarrow> graphql_response \<Rightarrow>
    ('e operation_world, unit) io" where
  "will_send_response T S L response =
    bind_io op_state (\<lambda>st.
    if os_terminalLogWritten st then ret ()
    else if length (read_response_errors response) > 0 then log_operation_failure T S L []
    else log_operation_finish T S L)"

text \<open>The callbacks of the server, outside of a request's state.\<close>

definition error_fields :: "'e telemetry \<Rightarrow> js_error \<Rightarrow> log_fields" where
  "error_fields T error =
    [(''error_type'', map_option L_String (error_constructor_name T error)),
     (''error_message'', Some (L_String (error_message T error)))]"

definition context_creation_did_fail ::
  "'e telemetry \<Rightarrow> 'e request_world application_logger \<Rightarrow> js_error \<Rightarrow> ('e request_world, unit) io" where
  "context_creation_did_fail T L error =
    then_io (lo_error L ''graphql.context.failure'' (Some (error_fields T error)) (Some error))
      (on_env (record_graphql_operation_metrics T ''unknown'' ''unknown'' G_Auth_Error 0))"

definition unexpected_error_processing_request ::
  "'e telemetry \<Rightarrow> 'e request_world application_logger \<Rightarrow> js_error \<Rightarrow> ('e request_world, unit) io" where
  "unexpected_error_processing_request T L error =
    then_io (lo_error L ''graphql.operation.unexpected_error'' (Some (error_fields T error)) (Some error))
      (on_env (record_graphql_operation_metrics T ''unknown'' ''unknown'' G_Unexpected_Error 0))"

section \<open>The automaton of log events\<close>

text \<open>
  What one request may log, as an automaton: whether the start and a terminal event were logged,
  and the events so far.
\<close>

datatype plugin_callback =
    Did_Resolve_Operation "string option" "operation_definition option"
  | Did_Encounter_Errors "graphql_error list"
  | Will_Send_Response graphql_response

fun run_callback ::
  "'e telemetry \<Rightarrow> 'e operation_span \<Rightarrow> 'e request_world application_logger \<Rightarrow> plugin_callback \<Rightarrow>
    ('e operation_world, unit) io" where
  "run_callback T S L (Did_Resolve_Operation n d) = did_resolve_operation S L n d"
| "run_callback T S L (Did_Encounter_Errors errors) = did_encounter_errors T S L errors"
| "run_callback T S L (Will_Send_Response response) = will_send_response T S L response"

record log_automaton =
  la_started :: bool
  la_terminal :: bool
  la_events :: "string list"

definition la_emit :: "string \<Rightarrow> log_automaton \<Rightarrow> log_automaton" where
  "la_emit ev a = a\<lparr>la_events := la_events a @ [ev]\<rparr>"

definition la_start :: "log_automaton \<Rightarrow> log_automaton" where
  "la_start a = (if la_started a then a else la_emit ''graphql.operation.start'' (a\<lparr>la_started := True\<rparr>))"

definition la_end :: "string \<Rightarrow> log_automaton \<Rightarrow> log_automaton" where
  "la_end ev a = la_emit ev ((la_start a)\<lparr>la_terminal := True\<rparr>)"

fun la_step :: "plugin_callback \<Rightarrow> log_automaton \<Rightarrow> log_automaton" where
  "la_step (Did_Resolve_Operation n d) a = la_start a"
| "la_step (Did_Encounter_Errors errors) a = la_end ''graphql.operation.failure'' a"
| "la_step (Will_Send_Response response) a =
    (if la_terminal a then a
     else la_end (if read_response_errors response \<noteq> [] then ''graphql.operation.failure''
       else ''graphql.operation.finish'') a)"

section \<open>The plugin implements the automaton\<close>

text \<open>
  The environment of the proof: telemetry that does not throw, and the log lines written so far,
  by their \<open>event\<close> field.
\<close>

definition silent :: "('e \<Rightarrow> string list) \<Rightarrow> ('e, 'a) io \<Rightarrow> bool" where
  "silent events m \<longleftrightarrow> (\<forall>e. \<exists>x e'. m e = (Inr x, e') \<and> events e' = events e)"

definition event_field :: "attributes \<Rightarrow> string list" where
  "event_field a = (case jm_get a ''event'' of Some (L_String ev) \<Rightarrow> [ev] | _ \<Rightarrow> [])"

definition records_logs :: "'e telemetry \<Rightarrow> 'e operation_span \<Rightarrow> ('e \<Rightarrow> string list) \<Rightarrow> bool" where
  "records_logs T S events \<longleftrightarrow>
     (\<forall>l a m e. \<exists>e'. tl_pino T l a m e = (Inr (), e') \<and> events e' = events e @ event_field a) \<and>
     silent events (tl_hrtime T) \<and> silent events (tl_activeSpan T) \<and>
     (\<forall>n k a. silent events (tl_counterAdd T n k a)) \<and> (\<forall>n k a. silent events (tl_histogramRecord T n k a)) \<and>
     (\<forall>c m. silent events (sn_setStatus S c m)) \<and> (\<forall>n v. silent events (sn_setAttribute S n v)) \<and>
     silent events (sn_end S)"

definition log_abs :: "('e \<Rightarrow> string list) \<Rightarrow> 'e operation_world \<Rightarrow> log_automaton" where
  "log_abs events w = \<lparr>la_started = os_operationStartLogged (fst w), la_terminal = os_terminalLogWritten (fst w),
     la_events = events (snd (snd w))\<rparr>"

text \<open>\<open>sim events m w a\<close>: run from \<open>w\<close>, \<open>m\<close> returns, in a state that abstracts to \<open>a\<close>.\<close>

definition sim :: "('e \<Rightarrow> string list) \<Rightarrow> ('e operation_world, 'a) io \<Rightarrow> 'e operation_world \<Rightarrow> log_automaton \<Rightarrow> bool" where
  "sim events m w a \<longleftrightarrow> (\<exists>x w'. m w = (Inr x, w') \<and> log_abs events w' = a)"

lemma simI: "m w = (Inr x, w') \<Longrightarrow> log_abs events w' = a \<Longrightarrow> sim events m w a"
  unfolding sim_def by blast

lemma sim_bind:
  assumes "sim events m w a" "\<And>x w'. log_abs events w' = a \<Longrightarrow> sim events (f x) w' b"
  shows "sim events (bind_io m f) w b"
  using assms unfolding sim_def by (auto simp: bind_io_def)

lemma sim_state: "sim events (f (fst w)) w b \<Longrightarrow> sim events (bind_io op_state f) w b"
  by (cases w) (simp add: sim_def op_state_def bind_io_def on_db_app)

lemma sim_ret: "sim events (ret x) w (log_abs events w)"
  by (simp add: sim_def)

lemma sim_env:
  assumes "silent events m"
  shows "sim events (op_env m) w (log_abs events w)"
proof -
  obtain st c e where w: "w = (st, (c, e))" by (metis prod.collapse)
  obtain x e' where "m e = (Inr x, e')" "events e' = events e" using assms unfolding silent_def by blast
  then show ?thesis by (intro simI [of _ _ x "(st, (c, e'))"]) (simp_all add: w op_env_def on_env_app log_abs_def)
qed

lemma sim_update:
  "os_operationStartLogged (f (fst w)) = s \<Longrightarrow> os_terminalLogWritten (f (fst w)) = t \<Longrightarrow>
    sim events (op_update f) w ((log_abs events w)\<lparr>la_started := s, la_terminal := t\<rparr>)"
  by (cases w) (simp add: sim_def op_update_def on_db_app log_abs_def)

lemma records_logsD:
  assumes "records_logs T S events"
  shows "silent events (tl_hrtime T)" "silent events (tl_activeSpan T)" "silent events (tl_counterAdd T n k a)"
    "silent events (tl_histogramRecord T n k a)" "silent events (sn_setStatus S c m)"
    "silent events (sn_setAttribute S n' v)" "silent events (sn_end S)"
    "\<exists>e'. tl_pino T l a' m' e = (Inr (), e') \<and> events e' = events e @ event_field a'"
  using assms unfolding records_logs_def by blast+

lemma silent_bind: "silent events m \<Longrightarrow> (\<And>x. silent events (f x)) \<Longrightarrow> silent events (bind_io m f)"
  unfolding silent_def bind_io_def by (metis (no_types, lifting) old.prod.case old.sum.simps(6))

lemma event_payload: "event_field p = [ev]" if "jm_get p = payload_field c a ev fs"
  using that by (simp add: event_field_def payload_field_def forbidden_field_names_def)

text \<open>A log call of the application logger appends exactly its event.\<close>

lemma write_log_appends:
  assumes "records_logs T S events" "jm_inv fs"
  shows "\<exists>e'. write_log T level ev (Some fs) (c, e) = (Inr (), (c, e')) \<and> events e' = events e @ [ev]"
proof -
  obtain a e1 where span: "tl_activeSpan T e = (Inr a, e1)" "events e1 = events e"
    using records_logsD(2) [OF assms(1)] unfolding silent_def by blast
  have read: "\<exists>i. read_active_span_identifiers T e = (Inr i, e1)"
    using span(1) by (simp add: read_active_span_identifiers_def bind_io_def split: option.split)
  obtain p m where payload: "create_application_log_payload T ev (Some fs) (c, e) = (Inr (p, m), (c, e1))"
      "event_field p = [ev]"
    using log_payload_core [OF assms(2), where T = T and event = ev and c = c and e = e] read
    by (auto simp: create_application_log_payload_def Let_def get_current_request_context_def on_db_app on_env_app
        bind_io_def event_payload split: prod.splits sum.splits)
  obtain e2 where "tl_pino T level p m e1 = (Inr (), e2)" "events e2 = events e1 @ event_field p"
    using records_logsD(8) [OF assms(1)] by blast
  then show ?thesis using payload span(2) by (simp add: write_log_def bind_io_def on_env_app)
qed

lemma operation_fields_inv: "jm_inv (create_operation_log_fields st flds)"
  unfolding create_operation_log_fields_def by (rule obj_spread_inv) (simp add: jm_inv_def)

lemma add_error_fields_inv: "jm_inv flds \<Longrightarrow> jm_inv (add_error_fields T (Some flds) error)"
  unfolding add_error_fields_def Let_def by (auto intro!: obj_spread_inv split: option.split)

lemma sim_log:
  assumes "records_logs T S events" "jm_inv flds"
  shows "sim events (on_env (write_log T level ev (Some flds))) w (la_emit ev (log_abs events w))"
proof -
  obtain st c e where w: "w = (st, (c, e))" by (metis prod.collapse)
  obtain e' where "write_log T level ev (Some flds) (c, e) = (Inr (), (c, e'))" "events e' = events e @ [ev]"
    using write_log_appends [OF assms] by blast
  then show ?thesis
    by (intro simI [of _ _ "()" "(st, (c, e'))"]) (simp_all add: w on_env_app log_abs_def la_emit_def)
qed

lemma sim_info:
  "records_logs T S events \<Longrightarrow> sim events
    (on_env (lo_info (application_logger_of T) ev (Some (create_operation_log_fields st flds)))) w
    (la_emit ev (log_abs events w))"
  unfolding application_logger_of_def application_logger.simps by (rule sim_log [OF _ operation_fields_inv])

lemma sim_error:
  "records_logs T S events \<Longrightarrow> sim events
    (on_env (lo_error (application_logger_of T) ev (Some (create_operation_log_fields st flds)) error)) w
    (la_emit ev (log_abs events w))"
  unfolding application_logger_of_def application_logger.simps
  by (rule sim_log [OF _ add_error_fields_inv [OF operation_fields_inv]])

lemma log_abs_simps:
  "la_started (log_abs events w) = os_operationStartLogged (fst w)"
  "la_terminal (log_abs events w) = os_terminalLogWritten (fst w)"
  by (simp_all add: log_abs_def)

lemma sim_start:
  assumes "records_logs T S events"
  shows "sim events (ensure_operation_start_logged (application_logger_of T)) w (la_start (log_abs events w))"
  unfolding ensure_operation_start_logged_def
proof (rule sim_state)
  let ?log = "\<lambda>s. on_env (lo_info (application_logger_of T) ''graphql.operation.start''
      (Some (create_operation_log_fields s [])))"
  show "sim events (if os_operationStartLogged (fst w) then ret ()
      else then_io (op_update (\<lambda>s. s\<lparr>os_operationStartLogged := True\<rparr>)) (bind_io op_state ?log)) w
    (la_start (log_abs events w))"
  proof (cases "os_operationStartLogged (fst w)")
    case True
    then show ?thesis using sim_ret [of events "()" w] by (simp add: la_start_def log_abs_simps)
  next
    case False
    have "sim events (bind_io (op_update (\<lambda>s. s\<lparr>os_operationStartLogged := True\<rparr>)) (\<lambda>_. bind_io op_state ?log)) w
        (la_emit ''graphql.operation.start'' ((log_abs events w)\<lparr>la_started := True\<rparr>))"
    proof (rule sim_bind)
      show "sim events (op_update (\<lambda>s. s\<lparr>os_operationStartLogged := True\<rparr>)) w ((log_abs events w)\<lparr>la_started := True\<rparr>)"
        using sim_update [of "\<lambda>s. s\<lparr>os_operationStartLogged := True\<rparr>" w True "os_terminalLogWritten (fst w)" events]
        by (simp add: log_abs_def)
      show "sim events (bind_io op_state ?log) w' (la_emit ''graphql.operation.start'' ((log_abs events w)\<lparr>la_started := True\<rparr>))"
        if "log_abs events w' = (log_abs events w)\<lparr>la_started := True\<rparr>" for w'
        using sim_info [OF assms, of "''graphql.operation.start''" "fst w'" "[]" w'] that by (auto intro: sim_state)
    qed
    with False show ?thesis by (simp add: la_start_def log_abs_simps)
  qed
qed

lemma sim_silent_bind:
  assumes "silent events m" "\<And>x w'. log_abs events w' = log_abs events w \<Longrightarrow> sim events (f x) w' b"
  shows "sim events (bind_io (op_env m) f) w b"
  using sim_env [OF assms(1)] assms(2) by (rule sim_bind)

lemma sim_silent: "silent events m \<Longrightarrow> log_abs events w = a \<Longrightarrow> sim events (op_env m) w a"
  using sim_env by blast

lemma sim_for_each:
  "(\<And>x. silent events (f x)) \<Longrightarrow> log_abs events w = a \<Longrightarrow> sim events (for_each (\<lambda>x. op_env (f x)) xs) w a"
proof (induction xs arbitrary: w)
  case Nil
  then show ?case using sim_ret [of events "()" w] by (simp del: ret_app)
next
  case (Cons x xs)
  then show ?case by (simp only: for_each.simps then_bind) (intro sim_silent_bind, simp_all)
qed

lemma metrics_silent:
  assumes "records_logs T S events"
  shows "silent events (record_graphql_operation_metrics T b k out d)"
    "silent events (increment_graphql_exception_count T b x)"
  using records_logsD(3,4) [OF assms]
  by (auto simp: record_graphql_operation_metrics_def increment_graphql_exception_count_def Let_def intro: silent_bind)

lemma sim_terminal:
  "sim events (op_update (\<lambda>s. s\<lparr>os_terminalLogWritten := True\<rparr>)) w ((log_abs events w)\<lparr>la_terminal := True\<rparr>)"
  using sim_update [of "\<lambda>s. s\<lparr>os_terminalLogWritten := True\<rparr>" w "os_operationStartLogged (fst w)" True events]
  by (simp add: log_abs_def)

lemma sim_duration:
  assumes "records_logs T S events" "\<And>x w'. log_abs events w' = log_abs events w \<Longrightarrow> sim events (f x) w' b"
  shows "sim events (bind_io (operation_duration T t) f) w b"
proof (rule sim_bind)
  show "sim events (operation_duration T t) w (log_abs events w)"
    unfolding operation_duration_def
    by (rule sim_silent_bind [OF records_logsD(1) [OF assms(1)]]) (metis sim_ret)
qed (rule assms(2))

lemma sim_failure:
  assumes "records_logs T S events"
  shows "sim events (log_operation_failure T S (application_logger_of T) errors) w
    (la_end ''graphql.operation.failure'' (log_abs events w))"
  unfolding log_operation_failure_def then_bind Let_def la_end_def
  by (rule sim_bind [OF sim_start [OF assms]], rule sim_state, rule sim_duration [OF assms],
      rule sim_bind [OF sim_terminal],
      rule sim_silent_bind [OF records_logsD(5) [OF assms]], rule sim_silent_bind [OF records_logsD(6) [OF assms]],
      rule sim_silent_bind [OF records_logsD(7) [OF assms]], rule sim_state,
      rule sim_bind [OF sim_error [OF assms]], rule sim_silent_bind [OF metrics_silent(1) [OF assms]],
      rule sim_for_each [OF metrics_silent(2) [OF assms]]) simp

lemma sim_finish:
  assumes "records_logs T S events"
  shows "sim events (log_operation_finish T S (application_logger_of T)) w
    (la_end ''graphql.operation.finish'' (log_abs events w))"
  unfolding log_operation_finish_def then_bind Let_def la_end_def
  by (rule sim_bind [OF sim_start [OF assms]], rule sim_state, rule sim_duration [OF assms],
      rule sim_bind [OF sim_terminal],
      rule sim_silent_bind [OF records_logsD(5) [OF assms]], rule sim_silent_bind [OF records_logsD(7) [OF assms]],
      rule sim_state, rule sim_bind [OF sim_info [OF assms]],
      rule sim_silent [OF metrics_silent(1) [OF assms]]) simp

lemma sim_enrich: "sim events (on_env (enrich_with_graphql_operation g)) w (log_abs events w)"
proof -
  obtain st c e where "w = (st, (c, e))" by (metis prod.collapse)
  then show ?thesis
    by (cases c)
      (simp_all add: sim_def on_env_app enrich_with_graphql_operation_def get_current_request_context_def
        enter_with_def on_db_app bind_io_def log_abs_def)
qed

lemma sim_annotate:
  assumes "records_logs T S events" "log_abs events w = a"
  shows "sim events (annotate_span S) w a"
  unfolding annotate_span_def then_bind
  by (rule sim_state, (rule sim_silent_bind [OF records_logsD(6) [OF assms(1)]])+,
      rule sim_silent [OF records_logsD(6) [OF assms(1)]]) (simp add: assms(2))

lemma sim_resolve:
  assumes "records_logs T S events"
  shows "sim events (did_resolve_operation S (application_logger_of T) n d) w (la_start (log_abs events w))"
proof -
  have meta: "sim events (op_update (\<lambda>s. s\<lparr>os_metadata := (os_metadata s)\<lparr>om_operationName := a, om_operationType := b,
      om_businessOperation := c\<rparr>\<rparr>)) w (log_abs events w)" for a b c
    using sim_update [of _ w "os_operationStartLogged (fst w)" "os_terminalLogWritten (fst w)" events]
    by (simp add: log_abs_def)
  show ?thesis
    unfolding did_resolve_operation_def then_bind Let_def
    by (rule sim_bind [OF meta], rule sim_bind [OF sim_enrich], rule sim_bind [OF sim_annotate [OF assms refl]])
      (metis sim_start [OF assms])
qed

lemma sim_callback:
  assumes "records_logs T S events"
  shows "sim events (run_callback T S (application_logger_of T) cb) w (la_step cb (log_abs events w))"
proof (cases cb)
  case (Did_Resolve_Operation n d)
  then show ?thesis using sim_resolve [OF assms] by simp
next
  case (Did_Encounter_Errors errors)
  then show ?thesis using sim_failure [OF assms] by (simp add: did_encounter_errors_def)
next
  case (Will_Send_Response response)
  show ?thesis
    unfolding Will_Send_Response run_callback.simps will_send_response_def
    by (rule sim_state)
      (use sim_ret [of events "()" w] sim_failure [OF assms, of "[]" w] sim_finish [OF assms, of w] in
        \<open>auto simp: log_abs_simps\<close>)
qed

lemma sim_callbacks:
  assumes "records_logs T S events"
  shows "sim events (for_each (run_callback T S (application_logger_of T)) cbs) w (fold la_step cbs (log_abs events w))"
proof (induction cbs arbitrary: w)
  case Nil
  then show ?case using sim_ret [of events "()" w] by (simp del: ret_app)
next
  case (Cons cb cbs)
  show ?case
    unfolding for_each.simps then_bind
    by (rule sim_bind [OF sim_callback [OF assms]]) (metis Cons.IH fold_simps(2))
qed

section \<open>Properties\<close>

text \<open>C29: the logging plugin refines its automaton of log events. For any sequence of Apollo callbacks,
  with any operations, errors and responses, from any state of a request, the plugin returns, and
  its two flags and the events it has written to the log are those of the automaton after the same
  callbacks. The telemetry does not throw; the log is read at the Pino boundary, by the
  \<open>event\<close> field of each line.\<close>

theorem plugin_refines_automaton:
  assumes "records_logs T S events"
  shows "case for_each (run_callback T S (application_logger_of T)) cbs w of
      (Inr u, w') \<Rightarrow> log_abs events w' = fold la_step cbs (log_abs events w)
    | (Inl x, w') \<Rightarrow> False"
  using sim_callbacks [OF assms, of cbs w] by (auto simp: sim_def)

text \<open>The automaton, from its initial state.\<close>

definition la_ok :: "log_automaton \<Rightarrow> bool" where
  "la_ok a \<longleftrightarrow>
     (if la_started a
      then \<exists>rest. la_events a = ''graphql.operation.start'' # rest \<and>
        set rest \<subseteq> {''graphql.operation.failure'', ''graphql.operation.finish''} \<and>
        count_list rest ''graphql.operation.finish'' \<le> 1 \<and> (la_terminal a \<longleftrightarrow> rest \<noteq> [])
      else la_events a = [] \<and> \<not> la_terminal a)"

lemma la_ok_step: "la_ok a \<Longrightarrow> la_ok (la_step cb a)"
  by (cases cb; cases "la_started a"; cases "la_terminal a")
    (auto simp: la_ok_def la_start_def la_end_def la_emit_def count_list_append)

lemma la_ok_fold: "la_ok a \<Longrightarrow> la_ok (fold la_step cbs a)"
  by (induction cbs arbitrary: a) (auto simp: la_ok_step)

lemma la_terminal_mono: "la_terminal a \<Longrightarrow> la_terminal (fold la_step cbs a)"
proof (induction cbs arbitrary: a)
  case (Cons cb cbs)
  have "la_terminal (la_step cb a)" using Cons.prems by (cases cb) (auto simp: la_start_def la_end_def la_emit_def)
  then show ?case using Cons.IH by simp
qed simp

lemma la_terminal_send: "Will_Send_Response r \<in> set cbs \<Longrightarrow> la_terminal (fold la_step cbs a)"
  by (induction cbs arbitrary: a) (auto simp: la_end_def la_emit_def la_terminal_mono)

lemma la_started_step: "la_terminal a \<longrightarrow> la_started a \<Longrightarrow> la_started (la_step cb a)"
  by (cases cb) (auto simp: la_start_def la_end_def la_emit_def)

lemma la_started_fold:
  assumes "cbs \<noteq> []" "la_ok a"
  shows "la_started (fold la_step cbs a)"
proof -
  have keep: "la_started b \<Longrightarrow> la_started (fold la_step cs b)" for b cs
    by (induction cs arbitrary: b) (simp_all add: la_started_step)
  obtain cb cs where "cbs = cb # cs" using assms(1) by (cases cbs) auto
  moreover have "la_started (la_step cb a)"
    using assms(2) by (intro la_started_step) (auto simp: la_ok_def split: if_splits)
  ultimately show ?thesis by (simp add: keep)
qed

text \<open>C30: the log lines of a GraphQL request are paired. From a fresh request state, whatever callbacks
  Apollo makes and in whatever order, the plugin returns, and what it has logged is one
  \<open>start\<close> line, first, followed only by \<open>failure\<close> and at most one \<open>finish\<close>
  line; nothing is logged before the first callback; and as soon as a response was sent there is a
  terminal line.\<close>

theorem operation_logs_are_paired:
  assumes "records_logs T S events"
    and "create_request_log_state T S gctx e0 = (Inr st, e)" "events e = []"
  shows "case for_each (run_callback T S (application_logger_of T)) cbs (st, (c, e)) of
      (Inr u, (st', (c', e'))) \<Rightarrow>
        (if cbs = [] then events e' = []
         else \<exists>rest. events e' = ''graphql.operation.start'' # rest \<and>
           set rest \<subseteq> {''graphql.operation.failure'', ''graphql.operation.finish''} \<and>
           count_list rest ''graphql.operation.finish'' \<le> 1 \<and>
           (rest = [] \<longrightarrow> (\<forall>r. Will_Send_Response r \<notin> set cbs)))
    | (Inl x, (st', (c', e'))) \<Rightarrow> False"
proof -
  let ?a = "log_abs events (st, (c, e))"
  have fresh: "la_ok ?a"
    using assms(2,3) by (auto simp: create_request_log_state_def la_ok_def log_abs_def elim!: bind_io_cases)
  obtain st' c' e' where run: "for_each (run_callback T S (application_logger_of T)) cbs (st, (c, e)) =
      (Inr (), (st', (c', e')))" "log_abs events (st', (c', e')) = fold la_step cbs ?a"
    using sim_callbacks [OF assms(1), of cbs "(st, (c, e))"] by (auto simp: sim_def)
  then have ev: "events e' = la_events (fold la_step cbs ?a)" by (metis log_abs_def log_automaton.select_convs(3) snd_conv)
  show ?thesis
  proof (cases "cbs = []")
    case True
    then show ?thesis using assms(3) by simp
  next
    case False
    have "\<exists>rest. events e' = ''graphql.operation.start'' # rest \<and>
        set rest \<subseteq> {''graphql.operation.failure'', ''graphql.operation.finish''} \<and>
        count_list rest ''graphql.operation.finish'' \<le> 1 \<and> (la_terminal (fold la_step cbs ?a) \<longleftrightarrow> rest \<noteq> [])"
      using la_ok_fold [OF fresh, of cbs] la_started_fold [OF False fresh] by (simp add: la_ok_def ev)
    then show ?thesis using False la_terminal_send [of _ cbs ?a] by (auto simp: run(1))
  qed
qed

section \<open>Witnesses\<close>

text \<open>Telemetry that writes the log into a list.\<close>

definition list_telemetry :: "string list telemetry" where
  "list_telemetry = \<lparr>tl_randomUUID = ret [], tl_hrtime = ret 0, tl_activeSpan = ret None,
     tl_isSpanContextValid = (\<lambda>_. True), tl_inject = ret (None, None), tl_setSpanAttributes = (\<lambda>_. ret ()),
     tl_foreignError = (\<lambda>_. None), tl_errorStack = (\<lambda>_. None),
     tl_pino = (\<lambda>_ a _. modify (\<lambda>log. log @ event_field a)),
     tl_counterAdd = (\<lambda>_ _ _. ret ()), tl_histogramRecord = (\<lambda>_ _ _. ret ())\<rparr>"

definition list_span :: "string list operation_span" where
  "list_span = \<lparr>sn_start = (\<lambda>_. ret ()), sn_setStatus = (\<lambda>_ _. ret ()), sn_setAttribute = (\<lambda>_ _. ret ()), sn_end = ret ()\<rparr>"

definition sample_operation_state :: operation_log_state where
  "sample_operation_state = \<lparr>os_startedAt = 0, os_metadata = create_initial_metadata
     \<lparr>gc_authenticatedUser = fixed_user, gc_actor = create_actor_context fixed_user\<rparr>,
     os_operationStartLogged = False, os_terminalLogWritten = False\<rparr>"

lemma list_telemetry_records: "records_logs list_telemetry list_span (\<lambda>log. log)"
  by (simp add: records_logs_def silent_def list_telemetry_def list_span_def)

definition sample_callbacks :: "plugin_callback list" where
  "sample_callbacks = [Did_Resolve_Operation (Some ''Movies'')
       (Some \<lparr>od_operation = ''query'', od_selections = [Field_Selection ''movies'']\<rparr>),
     Will_Send_Response \<lparr>gs_kind = ''single'', gs_errors = None\<rparr>]"

theorem plugin_refines_automaton_witness:
  "case for_each (run_callback list_telemetry list_span (application_logger_of list_telemetry)) sample_callbacks
      (sample_operation_state, (None, [])) of
     (Inr u, (st, (c, log))) \<Rightarrow> log = [''graphql.operation.start'', ''graphql.operation.finish'']
   | (Inl x, w') \<Rightarrow> False"
proof -
  have "la_events (fold la_step sample_callbacks (log_abs (\<lambda>log. log) (sample_operation_state, (None, [])))) =
      [''graphql.operation.start'', ''graphql.operation.finish'']"
    by (simp add: sample_callbacks_def log_abs_def sample_operation_state_def la_start_def la_end_def la_emit_def
        read_response_errors_def)
  then show ?thesis
    using plugin_refines_automaton [OF list_telemetry_records, of sample_callbacks "(sample_operation_state, (None, []))"]
    by (auto simp: log_abs_def split: prod.splits sum.splits dest: arg_cong [of _ _ la_events])
qed

theorem operation_logs_are_paired_witness:
  "case for_each (run_callback list_telemetry list_span (application_logger_of list_telemetry)) sample_callbacks
      (sample_operation_state, (None, [])) of
     (Inr u, (st, (c, log))) \<Rightarrow> \<exists>rest. log = ''graphql.operation.start'' # rest \<and> rest \<noteq> []
   | (Inl x, w') \<Rightarrow> False"
proof -
  have create: "create_request_log_state list_telemetry list_span
      \<lparr>gc_authenticatedUser = fixed_user, gc_actor = create_actor_context fixed_user\<rparr> [] = (Inr sample_operation_state, [])"
    by (simp add: create_request_log_state_def list_telemetry_def list_span_def sample_operation_state_def)
  have "\<exists>r. Will_Send_Response r \<in> set sample_callbacks" "sample_callbacks \<noteq> []"
    by (auto simp: sample_callbacks_def)
  then show ?thesis
    using operation_logs_are_paired [OF list_telemetry_records create refl, of sample_callbacks None]
    by (fastforce split: prod.splits sum.splits)
qed

end
