(* ===== verification/Workers.thy ===== *)
theory Workers
  imports Work_Contract
begin

text \<open>
  Any number of workers over one work repository whose operations are atomic, as transactions of a database are:
  their calls are interleaved in any order. Which calls a worker makes is not restricted to what the
  processor does; it acts on a claim that some worker was given, and rejects for a reservation that
  some search has found.
\<close>

text \<open>The state: the repository, the claims handed out and the reservations found, so far.\<close>

inductive workers_step :: "'s work_repository_ops \<Rightarrow> (string \<Rightarrow> bool) \<Rightarrow> (string \<Rightarrow> bool) \<Rightarrow>
    's \<times> claimed_reservation_request set \<times> id set \<Rightarrow> 's \<times> claimed_reservation_request set \<times> id set \<Rightarrow> bool"
  for W time_ok id_ok where
  claims: "wr_claimNext W input s = (res, s') \<Longrightarrow>
    workers_step W time_ok id_ok (s, cs, ws) (s', cs \<union> {c. res = Inr (Some c)}, ws)"
| heartbeats: "wr_heartbeat W hb s = (bres, s') \<Longrightarrow> workers_step W time_ok id_ok (s, cs, ws) (s', cs, ws)"
| searches: "c \<in> cs \<Longrightarrow>
    wr_findConflict W (rr_screeningId (cl_reservationRequest c)) (rr_seatIds (cl_reservationRequest c)) s = (vres, s') \<Longrightarrow>
    workers_step W time_ok id_ok (s, cs, ws) (s', cs, ws \<union> {rv_id v |v. vres = Inr (Some v)})"
| rejects: "c \<in> cs \<Longrightarrow> attempt_for time_ok c ra \<Longrightarrow> at_conflictingReservationId ra \<in> ws \<Longrightarrow>
    wr_reject W c ra s = (qres, s') \<Longrightarrow> workers_step W time_ok id_ok (s, cs, ws) (s', cs, ws)"
| releases: "c \<in> cs \<Longrightarrow> attempt_for time_ok c fa \<Longrightarrow> wr_release W c fa s = (qres, s') \<Longrightarrow>
    workers_step W time_ok id_ok (s, cs, ws) (s', cs, ws)"
| fails: "c \<in> cs \<Longrightarrow> attempt_for time_ok c fa \<Longrightarrow> wr_fail W c fa s = (qres, s') \<Longrightarrow>
    workers_step W time_ok id_ok (s, cs, ws) (s', cs, ws)"
| confirms: "co_claimedWorkItem ci \<in> cs \<Longrightarrow>
    reservation_for (cl_reservationRequest (co_claimedWorkItem ci)) (co_reservation ci) \<Longrightarrow>
    id_ok (rv_id (co_reservation ci)) \<Longrightarrow> time_ok (rv_confirmedAt (co_reservation ci)) \<Longrightarrow>
    attempt_for time_ok (co_claimedWorkItem ci) (co_attempt ci) \<Longrightarrow>
    at_reservationId (co_attempt ci) = rv_id (co_reservation ci) \<Longrightarrow> wr_confirm W ci s = (cres, s') \<Longrightarrow>
    workers_step W time_ok id_ok (s, cs, ws) (s', cs, ws)"

definition workers_inv :: "('s \<Rightarrow> bool) \<Rightarrow> ('s \<Rightarrow> ledger) \<Rightarrow>
    's \<times> claimed_reservation_request set \<times> id set \<Rightarrow> bool" where
  "workers_inv sound ledger x \<longleftrightarrow> (case x of (s, cs, ws) \<Rightarrow> sound s \<and> (\<forall>c \<in> cs. claim_of (ledger s) c) \<and>
     (\<forall>i \<in> ws. lg_reservation (ledger s) i \<noteq> None))"

lemma workers_inv_evolves:
  assumes "workers_inv sound ledger (s, cs, ws)" "sound s'" "evolves (ledger s) (ledger s')"
    "\<forall>c \<in> cs'. claim_of (ledger s') c" "\<forall>i \<in> ws'. lg_reservation (ledger s') i \<noteq> None"
  shows "workers_inv sound ledger (s', cs \<union> cs', ws \<union> ws')"
proof -
  have "lg_reservation (ledger s') i \<noteq> None" if "lg_reservation (ledger s) i \<noteq> None" for i
    using assms(3) that unfolding evolves_def by fastforce
  then show ?thesis
    using assms claim_of_evolves [OF _ assms(3)] unfolding workers_inv_def by auto
qed

context work_repository
begin

lemma workers_step_inv:
  assumes "workers_step W time_ok id_ok x y" "workers_inv sound ledger x"
  shows "workers_inv sound ledger y \<and> evolves (ledger (fst x)) (ledger (fst y))"
  using assms
proof (cases rule: workers_step.cases)
  case (claims input s res s' cs ws)
  then have "sound s" using assms(2) by (simp add: workers_inv_def)
  note law = claim_law [OF this claims(3)]
  have "\<forall>c \<in> {c. res = Inr (Some c)}. claim_of (ledger s') c"
    using law owned_claim_of same_request_refl by blast
  then show ?thesis
    using workers_inv_evolves [of sound ledger s cs ws s' "{c. res = Inr (Some c)}" "{}"] law claims assms(2)
    by (auto dest: advances_evolves)
next
  case (heartbeats hb s bres s' cs ws)
  then have "sound s" using assms(2) by (simp add: workers_inv_def)
  note law = heartbeat_law [OF this heartbeats(3)]
  then show ?thesis
    using workers_inv_evolves [of sound ledger s cs ws s' "{}" "{}"] heartbeats assms(2) by (auto dest: advances_evolves)
next
  case (searches c cs s vres s' ws)
  then have s: "sound s" and "claim_of (ledger s) c" using assms(2) by (simp_all add: workers_inv_def)
  then obtain r where r: "lg_request (ledger s) (rr_id (cl_reservationRequest c)) = Some r"
    "same_request (cl_reservationRequest c) r" unfolding claim_of_def by blast
  note law = find_law [OF s r(1), unfolded same_request_fields [OF r(2), THEN conjunct2, THEN conjunct2, THEN conjunct1]
      same_request_fields [OF r(2), THEN conjunct2, THEN conjunct2, THEN conjunct2, THEN conjunct1], OF searches(4)]
  have "\<forall>i \<in> {rv_id v |v. vres = Inr (Some v)}. lg_reservation (ledger s') i \<noteq> None"
    using law inv_reservationD [OF inv_ledger [OF s]] by fastforce
  then show ?thesis
    using workers_inv_evolves [of sound ledger s cs ws s' "{}" "{rv_id v |v. vres = Inr (Some v)}"] law searches assms(2)
    by auto
next
  case (rejects c cs ra ws s qres s')
  then have p: "sound s" "claim_of (ledger s) c" "lg_reservation (ledger s) (at_conflictingReservationId ra) \<noteq> None"
    using assms(2) by (simp_all add: workers_inv_def)
  show ?thesis
    using workers_inv_evolves [of sound ledger s cs ws s' "{}" "{}"] rejects assms(2)
      reject_law [OF p(1,2) rejects(4) p(3) rejects(6)] reject_evolves [OF p(1,2) rejects(4) p(3) rejects(6)] by auto
next
  case (releases c cs fa s qres s' ws)
  then have p: "sound s" "claim_of (ledger s) c" using assms(2) by (simp_all add: workers_inv_def)
  show ?thesis
    using workers_inv_evolves [of sound ledger s cs ws s' "{}" "{}"] releases assms(2)
      release_law [OF p releases(4,5)] release_evolves [OF p releases(4,5)] by auto
next
  case (fails c cs fa s qres s' ws)
  then have p: "sound s" "claim_of (ledger s) c" using assms(2) by (simp_all add: workers_inv_def)
  show ?thesis
    using workers_inv_evolves [of sound ledger s cs ws s' "{}" "{}"] fails assms(2)
      fail_law [OF p fails(4,5)] fail_evolves [OF p fails(4,5)] by auto
next
  case (confirms ci cs s cres s' ws)
  then have p: "sound s" "confirm_ok time_ok id_ok (ledger s) ci" using assms(2) by (simp_all add: workers_inv_def confirm_ok_def)
  show ?thesis
    using workers_inv_evolves [of sound ledger s cs ws s' "{}" "{}"] confirms assms(2)
      confirm_law [OF p confirms(9)] confirm_evolves [OF p confirms(9)] by auto
qed

lemma workers_run_inv:
  assumes "(workers_step W time_ok id_ok)\<^sup>*\<^sup>* x y" "workers_inv sound ledger x"
  shows "workers_inv sound ledger y \<and> evolves (ledger (fst x)) (ledger (fst y))"
  using assms
  by (induction rule: rtranclp_induct) (auto dest: workers_step_inv intro: evolves_trans)

text \<open>Whatever the workers do: no seat is booked twice and history is permanent.\<close>

lemma workers_safe:
  assumes "sound s" "(workers_step W time_ok id_ok)\<^sup>*\<^sup>* (s, {}, {}) (s', cs, ws)"
  shows "sound s' \<and> evolves (ledger s) (ledger s') \<and> ledger_inv (ledger s')"
  using workers_run_inv [OF assms(2)] assms(1) inv_ledger [of s'] by (simp add: workers_inv_def)

end

end
