(* ===== verification/Sql.thy ===== *)
theory Sql
  imports Iso_Time "HOL-Library.Multiset"
begin

text \<open>
  What the Postgres repositories rely on of the database. A statement is data, written the way
  the query builder of the source spells it; a schema is data, written the way the migrations
  spell it. The engine that runs statements (Postgres, the driver and the query builder) is a
  parameter: a record of operations on an arbitrary state. \<open>documented_sql\<close> says what is
  documented of it: a statement either fails and changes nothing, or has the effect given
  here; every state it reaches satisfies the declared constraints; and a transaction is
  all or nothing.

  The statements of one transaction are not interleaved with those of another; the locks a
  query asks for are part of the statement.
\<close>

section \<open>Values, rows and tables\<close>

text \<open>A \<open>timestamptz\<close> is an instant in milliseconds since the epoch.\<close>

datatype sql_value = SQL_Null | SQL_Text string | SQL_Number int | SQL_Time int

type_synonym row = "string \<Rightarrow> sql_value"
type_synonym tables = "string \<Rightarrow> row list"

datatype sql_type = T_Uuid | T_Text | T_Integer | T_Bigint | T_Timestamptz

text \<open>The values the source binds: \<open>P_Now\<close> is \<open>fn.now()\<close>, \<open>P_Plus_One\<close> is
  \<open>raw('col + 1')\<close> of the column it is assigned to.\<close>

datatype param = P_Null | P_Text string | P_Number int | P_Now | P_Plus_One

fun p_optional :: "string option \<Rightarrow> param" where
  "p_optional None = P_Null"
| "p_optional (Some s) = P_Text s"

section \<open>Schemas\<close>

datatype column_default = D_Null | D_Number int | D_Generated

record column =
  cn_name :: string
  cn_type :: sql_type
  cn_notNull :: bool
  cn_default :: column_default

datatype table_constraint =
    Unique string "string list"
  | Foreign_Key "string list" string "string list"
  | Check "row \<Rightarrow> bool"

record table_schema =
  ts_name :: string
  ts_columns :: "column list"
  ts_constraints :: "table_constraint list"

type_synonym schema = "table_schema list"

text \<open>The canonical text of a \<open>uuid\<close>.\<close>

definition uuid_hex_pattern :: "(char \<Rightarrow> bool) \<Rightarrow> (char \<Rightarrow> bool) list" where
  "uuid_hex_pattern h = replicate 8 h @ [is_dash] @ replicate 4 h @ [is_dash] @ replicate 4 h @ [is_dash] @
     replicate 4 h @ [is_dash] @ replicate 12 h"

definition uuid_text :: "string \<Rightarrow> bool" where
  "uuid_text s \<longleftrightarrow> matches_classes (uuid_hex_pattern is_hex_lower) s"

fun has_type :: "sql_type \<Rightarrow> sql_value \<Rightarrow> bool" where
  "has_type t SQL_Null = True"
| "has_type T_Uuid (SQL_Text s) = uuid_text s"
| "has_type T_Text (SQL_Text s) = True"
| "has_type T_Integer (SQL_Number n) = (- (2 ^ 31) \<le> n \<and> n < 2 ^ 31)"
| "has_type T_Bigint (SQL_Number n) = (- (2 ^ 63) \<le> n \<and> n < 2 ^ 63)"
| "has_type T_Timestamptz (SQL_Time t) = True"
| "has_type _ _ = False"

text \<open>A unique or foreign key with a null in it constrains nothing.\<close>

definition key_of :: "string list \<Rightarrow> row \<Rightarrow> sql_value list" where
  "key_of cols r = List.map r cols"

definition no_null :: "sql_value list \<Rightarrow> bool" where
  "no_null vs \<longleftrightarrow> SQL_Null \<notin> set vs"

fun constraint_holds :: "tables \<Rightarrow> row list \<Rightarrow> table_constraint \<Rightarrow> bool" where
  "constraint_holds t rs (Unique name cols) = distinct (filter no_null (List.map (key_of cols) rs))"
| "constraint_holds t rs (Foreign_Key cols ref_table ref_cols) =
     list_all (\<lambda>k. \<not> no_null k \<or> k \<in> set (List.map (key_of ref_cols) (t ref_table))) (List.map (key_of cols) rs)"
| "constraint_holds t rs (Check p) = list_all p rs"

definition table_ok :: "tables \<Rightarrow> table_schema \<Rightarrow> bool" where
  "table_ok t s \<longleftrightarrow>
     list_all (\<lambda>r. list_all (\<lambda>c. has_type (cn_type c) (r (cn_name c)) \<and>
       (cn_notNull c \<longrightarrow> r (cn_name c) \<noteq> SQL_Null)) (ts_columns s)) (t (ts_name s)) \<and>
     list_all (constraint_holds t (t (ts_name s))) (ts_constraints s)"

definition schema_ok :: "schema \<Rightarrow> tables \<Rightarrow> bool" where
  "schema_ok S t \<longleftrightarrow> list_all (table_ok t) S"

definition find_column :: "schema \<Rightarrow> string \<Rightarrow> string \<Rightarrow> column option" where
  "find_column S tab c = Option.bind (List.find (\<lambda>s. ts_name s = tab) S)
     (\<lambda>s. List.find (\<lambda>k. cn_name k = c) (ts_columns s))"

definition column_type :: "schema \<Rightarrow> string \<Rightarrow> string \<Rightarrow> sql_type" where
  "column_type S tab c = (case find_column S tab c of None \<Rightarrow> T_Text | Some k \<Rightarrow> cn_type k)"

definition default_of :: "schema \<Rightarrow> string \<Rightarrow> string \<Rightarrow> column_default" where
  "default_of S tab c = (case find_column S tab c of None \<Rightarrow> D_Null | Some k \<Rightarrow> cn_default k)"

section \<open>Statements\<close>

text \<open>
  A column reference names the alias of its table and the column. A plain query has one table
  with the alias \<open>''''\<close>. Conditions compare a column with a bound value.
\<close>

type_synonym col_ref = "string \<times> string"

datatype sql_source =
    From string string
  | Inner_Join sql_source string string "(col_ref \<times> col_ref) list"
  | Left_Join sql_source string string "(col_ref \<times> col_ref) list"

datatype cond =
    C_Eq col_ref param
  | C_Less col_ref param
  | C_Less_Eq col_ref param
  | C_Null col_ref
  | C_In col_ref "param list"
  | C_And cond cond
  | C_Or cond cond

datatype sql_output = All_Of string | Columns "(string \<times> col_ref) list"
datatype lock = No_Lock | For_Update | For_Update_Skip_Locked

record select_query =
  sq_source :: sql_source
  sq_where :: "cond list"
  sq_order :: "col_ref list"
  sq_output :: sql_output
  sq_first :: bool
  sq_lock :: lock

datatype statement =
    Select select_query
  | Update string "cond list" "(string \<times> param) list"
  | Insert string "(string \<times> param) list list"

definition col :: "string \<Rightarrow> col_ref" where
  "col c = ('''', c)"

text \<open>\<open>where({a: x, b: y})\<close>\<close>

fun where_object :: "(string \<times> param) list \<Rightarrow> cond list" where
  "where_object [] = []"
| "where_object ((c, p) # xs) = C_Eq (col c) p # where_object xs"

definition from_table :: "string \<Rightarrow> select_query" where
  "from_table tab = \<lparr>sq_source = From tab '''', sq_where = [], sq_order = [], sq_output = All_Of '''', sq_first = False,
     sq_lock = No_Lock\<rparr>"

section \<open>The documented effect of a statement\<close>

text \<open>
  What the database makes of a bound text at a column of type \<open>uuid\<close> or
  \<open>timestamptz\<close>, if it accepts it, and its order of values.
\<close>

record conversions =
  cv_uuid :: "string \<Rightarrow> string option"
  cv_timestamptz :: "string \<Rightarrow> int option"
  cv_le :: "sql_value \<Rightarrow> sql_value \<Rightarrow> bool"

fun convert :: "conversions \<Rightarrow> sql_type \<Rightarrow> param \<Rightarrow> sql_value option" where
  "convert V t P_Null = Some SQL_Null"
| "convert V T_Uuid (P_Text s) = map_option SQL_Text (cv_uuid V s)"
| "convert V T_Text (P_Text s) = Some (SQL_Text s)"
| "convert V T_Timestamptz (P_Text s) = map_option SQL_Time (cv_timestamptz V s)"
| "convert V T_Integer (P_Number n) = Some (SQL_Number n)"
| "convert V T_Bigint (P_Number n) = Some (SQL_Number n)"
| "convert V _ _ = None"

text \<open>A joined row gives a row for each alias; the alias of an unmatched left join is all null.\<close>

type_synonym joined = "string \<Rightarrow> row"

definition null_row :: row where
  "null_row = (\<lambda>_. SQL_Null)"

definition join_matches :: "joined \<Rightarrow> (col_ref \<times> col_ref) list \<Rightarrow> bool" where
  "join_matches j on \<longleftrightarrow> list_all (\<lambda>((a, c), (b, d)). j a c = j b d \<and> j a c \<noteq> SQL_Null) on"

fun source_rows :: "tables \<Rightarrow> sql_source \<Rightarrow> joined list" where
  "source_rows t (From tab al) = List.map (\<lambda>r. (\<lambda>_. null_row)(al := r)) (t tab)"
| "source_rows t (Inner_Join s tab al on) =
     concat (List.map (\<lambda>j. filter (\<lambda>k. join_matches k on) (List.map (\<lambda>r. j(al := r)) (t tab))) (source_rows t s))"
| "source_rows t (Left_Join s tab al on) =
     concat (List.map (\<lambda>j. let ks = filter (\<lambda>k. join_matches k on) (List.map (\<lambda>r. j(al := r)) (t tab)) in
       if ks = [] then [j(al := null_row)] else ks) (source_rows t s))"

fun alias_table :: "sql_source \<Rightarrow> string \<Rightarrow> string" where
  "alias_table (From tab al) a = tab"
| "alias_table (Inner_Join s tab al on) a = (if a = al then tab else alias_table s a)"
| "alias_table (Left_Join s tab al on) a = (if a = al then tab else alias_table s a)"

definition ref_type :: "schema \<Rightarrow> sql_source \<Rightarrow> col_ref \<Rightarrow> sql_type" where
  "ref_type S src c = column_type S (alias_table src (fst c)) (snd c)"

text \<open>A comparison with null is not true.\<close>

fun sql_less :: "sql_value \<Rightarrow> sql_value \<Rightarrow> bool" where
  "sql_less (SQL_Number m) (SQL_Number n) = (m < n)"
| "sql_less (SQL_Time m) (SQL_Time n) = (m < n)"
| "sql_less _ _ = False"

definition sql_eq :: "sql_value \<Rightarrow> sql_value \<Rightarrow> bool" where
  "sql_eq v w \<longleftrightarrow> v = w \<and> v \<noteq> SQL_Null"

text \<open>The bound values of a condition are accepted; and the condition then holds of a row.\<close>

fun cond_binds :: "conversions \<Rightarrow> (col_ref \<Rightarrow> sql_type) \<Rightarrow> cond \<Rightarrow> bool" where
  "cond_binds V ty (C_Eq c p) = (convert V (ty c) p \<noteq> None)"
| "cond_binds V ty (C_Less c p) = (convert V (ty c) p \<noteq> None)"
| "cond_binds V ty (C_Less_Eq c p) = (convert V (ty c) p \<noteq> None)"
| "cond_binds V ty (C_Null c) = True"
| "cond_binds V ty (C_In c ps) = list_all (\<lambda>p. convert V (ty c) p \<noteq> None) ps"
| "cond_binds V ty (C_And a b) = (cond_binds V ty a \<and> cond_binds V ty b)"
| "cond_binds V ty (C_Or a b) = (cond_binds V ty a \<and> cond_binds V ty b)"

fun holds :: "conversions \<Rightarrow> (col_ref \<Rightarrow> sql_type) \<Rightarrow> joined \<Rightarrow> cond \<Rightarrow> bool" where
  "holds V ty j (C_Eq c p) = sql_eq (j (fst c) (snd c)) (the (convert V (ty c) p))"
| "holds V ty j (C_Less c p) = sql_less (j (fst c) (snd c)) (the (convert V (ty c) p))"
| "holds V ty j (C_Less_Eq c p) =
     (sql_less (j (fst c) (snd c)) (the (convert V (ty c) p)) \<or> sql_eq (j (fst c) (snd c)) (the (convert V (ty c) p)))"
| "holds V ty j (C_Null c) = (j (fst c) (snd c) = SQL_Null)"
| "holds V ty j (C_In c ps) = list_ex (\<lambda>p. sql_eq (j (fst c) (snd c)) (the (convert V (ty c) p))) ps"
| "holds V ty j (C_And a b) = (holds V ty j a \<and> holds V ty j b)"
| "holds V ty j (C_Or a b) = (holds V ty j a \<or> holds V ty j b)"

text \<open>
  A query gives the matching rows in the order asked for, in any order where it leaves that
  open; a query that skips locked rows gives some of them.
\<close>

fun lex_le :: "('a \<Rightarrow> 'a \<Rightarrow> bool) \<Rightarrow> 'a list \<Rightarrow> 'a list \<Rightarrow> bool" where
  "lex_le le (x # xs) (y # ys) = (if x = y then lex_le le xs ys else le x y)"
| "lex_le le _ _ = True"

definition order_keys :: "col_ref list \<Rightarrow> joined \<Rightarrow> sql_value list" where
  "order_keys cols j = List.map (\<lambda>(a, c). j a c) cols"

fun project :: "sql_output \<Rightarrow> joined \<Rightarrow> row" where
  "project (All_Of al) j = j al"
| "project (Columns cs) j = (\<lambda>n. case map_of cs n of None \<Rightarrow> SQL_Null | Some (a, c) \<Rightarrow> j a c)"

definition matching :: "conversions \<Rightarrow> schema \<Rightarrow> select_query \<Rightarrow> tables \<Rightarrow> joined list" where
  "matching V S q t = filter (\<lambda>j. list_all (holds V (ref_type S (sq_source q)) j) (sq_where q)) (source_rows t (sq_source q))"

definition is_result :: "conversions \<Rightarrow> schema \<Rightarrow> select_query \<Rightarrow> tables \<Rightarrow> row list \<Rightarrow> bool" where
  "is_result V S q t rows \<longleftrightarrow> list_all (cond_binds V (ref_type S (sq_source q))) (sq_where q) \<and>
     (\<exists>js. (if sq_lock q = For_Update_Skip_Locked then mset js \<subseteq># mset (matching V S q t)
            else mset js = mset (matching V S q t)) \<and>
        sorted_wrt (\<lambda>a b. lex_le (cv_le V) (order_keys (sq_order q) a) (order_keys (sq_order q) b)) js \<and>
        rows = List.map (project (sq_output q)) (if sq_first q then take 1 js else js))"

text \<open>Assigning a bound value to a column: the old value and the new one.\<close>

fun assigns :: "conversions \<Rightarrow> sql_type \<Rightarrow> param \<Rightarrow> sql_value \<Rightarrow> sql_value \<Rightarrow> bool" where
  "assigns V ty P_Now old new = (\<exists>t. new = SQL_Time t)"
| "assigns V ty P_Plus_One old new = (\<exists>n. old = SQL_Number n \<and> new = SQL_Number (n + 1))"
| "assigns V ty p old new = (convert V ty p = Some new)"

definition is_updated :: "conversions \<Rightarrow> schema \<Rightarrow> string \<Rightarrow> (string \<times> param) list \<Rightarrow> row \<Rightarrow> row \<Rightarrow> bool" where
  "is_updated V S tab sets old new \<longleftrightarrow> (\<forall>c. case map_of sets c of
     None \<Rightarrow> new c = old c | Some p \<Rightarrow> assigns V (column_type S tab c) p (old c) (new c))"

fun is_default :: "column_default \<Rightarrow> sql_value \<Rightarrow> bool" where
  "is_default D_Null v = (v = SQL_Null)"
| "is_default (D_Number n) v = (v = SQL_Number n)"
| "is_default D_Generated v = (\<exists>n \<ge> 1. v = SQL_Number n)"

definition is_inserted :: "conversions \<Rightarrow> schema \<Rightarrow> string \<Rightarrow> (string \<times> param) list \<Rightarrow> row \<Rightarrow> bool" where
  "is_inserted V S tab vals new \<longleftrightarrow> (\<forall>c. case map_of vals c of
     None \<Rightarrow> is_default (default_of S tab c) (new c)
   | Some p \<Rightarrow> assigns V (column_type S tab c) p SQL_Null (new c))"

definition row_matches :: "conversions \<Rightarrow> schema \<Rightarrow> string \<Rightarrow> cond list \<Rightarrow> row \<Rightarrow> bool" where
  "row_matches V S tab cs r = list_all (holds V (ref_type S (From tab '''')) ((\<lambda>_. null_row)('''' := r))) cs"

fun effect_of :: "conversions \<Rightarrow> schema \<Rightarrow> statement \<Rightarrow> tables \<Rightarrow> row list \<Rightarrow> tables \<Rightarrow> bool" where
  "effect_of V S (Select q) t rows t' = (t' = t \<and> is_result V S q t rows)"
| "effect_of V S (Update tab cs sets) t rows t' =
     (list_all (cond_binds V (ref_type S (From tab ''''))) cs \<and>
      (\<exists>f. (\<forall>r \<in> set (t tab). row_matches V S tab cs r \<longrightarrow> is_updated V S tab sets r (f r)) \<and>
         t' = t(tab := List.map (\<lambda>r. if row_matches V S tab cs r then f r else r) (t tab)) \<and>
         rows = List.map f (filter (row_matches V S tab cs) (t tab))))"
| "effect_of V S (Insert tab vals) t rows t' =
     (\<exists>new. list_all2 (is_inserted V S tab) vals new \<and> t' = t(tab := t tab @ new))"

section \<open>The engine\<close>

text \<open>
  The operations of a connection. \<open>eg_errorCode\<close> and \<open>eg_errorConstraint\<close> read the
  \<open>code\<close> and \<open>constraint\<close> of a thrown error object.
\<close>

record 'd engine =
  eg_run :: "statement \<Rightarrow> ('d, row list) io"
  eg_begin :: "('d, unit) io"
  eg_commit :: "('d, unit) io"
  eg_rollback :: "('d, unit) io"
  eg_errorCode :: "js_error \<Rightarrow> string option"
  eg_errorConstraint :: "js_error \<Rightarrow> string option"

text \<open>\<open>database.transaction(callback)\<close>\<close>

definition transaction :: "'d engine \<Rightarrow> ('d, 'a) io \<Rightarrow> ('d, 'a) io" where
  "transaction E callback =
    then_io (eg_begin E)
      (bind_io (catch_io callback (\<lambda>e. bind_io (catch_io (eg_rollback E) (\<lambda>_. ret ())) (\<lambda>_. throw e))) (\<lambda>x.
       then_io (eg_commit E) (ret x)))"

definition total_order :: "('a \<Rightarrow> 'a \<Rightarrow> bool) \<Rightarrow> bool" where
  "total_order le \<longleftrightarrow> (\<forall>a b. le a b \<or> le b a) \<and> (\<forall>a b. le a b \<longrightarrow> le b a \<longrightarrow> a = b) \<and>
     (\<forall>a b c. le a b \<longrightarrow> le b c \<longrightarrow> le a c)"

definition documented_conversions :: "conversions \<Rightarrow> bool" where
  "documented_conversions V \<longleftrightarrow>
     (\<forall>s u. cv_uuid V s = Some u \<longrightarrow> uuid_text u) \<and> (\<forall>s. uuid_text s \<longrightarrow> cv_uuid V s = Some s) \<and>
     (\<forall>s t. date_get_time s = Some t \<longrightarrow> cv_timestamptz V s = Some t) \<and> total_order (cv_le V) \<and>
     (\<forall>m n. cv_le V (SQL_Number m) (SQL_Number n) \<longleftrightarrow> m \<le> n)"

text \<open>
  \<open>T\<close> is the content of the tables in a state, \<open>K\<close> their content when the transaction
  in progress began.
\<close>

definition documented_sql ::
  "conversions \<Rightarrow> schema \<Rightarrow> 'd engine \<Rightarrow> ('d \<Rightarrow> tables) \<Rightarrow> ('d \<Rightarrow> tables) \<Rightarrow> bool" where
  "documented_sql V S E T K \<longleftrightarrow> documented_conversions V \<and>
     (\<forall>st d. K (snd (eg_run E st d)) = K d \<and>
        (case fst (eg_run E st d) of
           Inl e \<Rightarrow> T (snd (eg_run E st d)) = T d
         | Inr rows \<Rightarrow> effect_of V S st (T d) rows (T (snd (eg_run E st d))) \<and>
             (schema_ok S (T d) \<longrightarrow> schema_ok S (T (snd (eg_run E st d)))))) \<and>
     (\<forall>d. T (snd (eg_begin E d)) = T d \<and> (fst (eg_begin E d) = Inr () \<longrightarrow> K (snd (eg_begin E d)) = T d)) \<and>
     (\<forall>d. T (snd (eg_commit E d)) = (if fst (eg_commit E d) = Inr () then T d else K d)) \<and>
     (\<forall>d. T (snd (eg_rollback E d)) = K d)"

end
