(* ===== verification/Postgres_Schema.thy ===== *)
theory Postgres_Schema
  imports Sql Ports
begin

text \<open>
  The schema the migrations build
  (\<open>infrastructure/database/migrations/202605290001_create_movie_reservation_schema.ts\<close> and
  \<open>202606020001_add_reservation_request_observability_context.ts\<close>), as data: the columns of each table with
  types and defaults, and its constraints. Indexes have no effect on what is stored.
\<close>

section \<open>Building blocks\<close>

definition uuid_column :: "string \<Rightarrow> column" where
  "uuid_column c = \<lparr>cn_name = c, cn_type = T_Uuid, cn_notNull = True, cn_default = D_Null\<rparr>"

definition text_column :: "string \<Rightarrow> column" where
  "text_column c = \<lparr>cn_name = c, cn_type = T_Text, cn_notNull = True, cn_default = D_Null\<rparr>"

definition integer_column :: "string \<Rightarrow> column" where
  "integer_column c = \<lparr>cn_name = c, cn_type = T_Integer, cn_notNull = True, cn_default = D_Null\<rparr>"

definition timestamp_column :: "string \<Rightarrow> column" where
  "timestamp_column c = \<lparr>cn_name = c, cn_type = T_Timestamptz, cn_notNull = True, cn_default = D_Null\<rparr>"

definition count_column :: "string \<Rightarrow> column" where
  "count_column c = (integer_column c)\<lparr>cn_default := D_Number 0\<rparr>"

definition generated_column :: "string \<Rightarrow> column" where
  "generated_column c = \<lparr>cn_name = c, cn_type = T_Bigint, cn_notNull = True, cn_default = D_Generated\<rparr>"

definition nullable :: "column \<Rightarrow> column" where
  "nullable k = k\<lparr>cn_notNull := False\<rparr>"

text \<open>\<open>table.uuid(...).references('id').inTable(t)\<close>\<close>

definition references_id :: "string \<Rightarrow> string \<Rightarrow> table_constraint" where
  "references_id c t = Foreign_Key [c] t [''id'']"

definition primary_key :: "string \<Rightarrow> string list \<Rightarrow> table_constraint" where
  "primary_key t cols = Unique (t @ ''_pkey'') cols"

text \<open>\<open>addTextEnumConstraint\<close>\<close>

definition text_enum_constraint :: "string \<Rightarrow> string list \<Rightarrow> table_constraint" where
  "text_enum_constraint c allowedValues = Check (\<lambda>r. r c = SQL_Null \<or> r c \<in> set (List.map SQL_Text allowedValues))"

section \<open>The tables\<close>

definition reservation_request_statuses :: "string list" where
  "reservation_request_statuses = [''REQUESTED'', ''PROCESSING'', ''CONFIRMED'', ''REJECTED'', ''FAILED'']"

definition processing_attempt_outcomes :: "string list" where
  "processing_attempt_outcomes = [''confirmed'', ''rejected'', ''failed'']"

definition movie_providers_table :: table_schema where
  "movie_providers_table = \<lparr>ts_name = ''movie_providers'',
     ts_columns = [uuid_column ''id'', text_column ''code'', text_column ''name''],
     ts_constraints = [primary_key ''movie_providers'' [''id''], Unique ''movie_providers_code_unique'' [''code'']]\<rparr>"

definition movies_table :: table_schema where
  "movies_table = \<lparr>ts_name = ''movies'',
     ts_columns = [uuid_column ''id'', uuid_column ''movie_provider_id'', text_column ''title'', text_column ''rating'',
       integer_column ''duration_minutes''],
     ts_constraints = [primary_key ''movies'' [''id''], references_id ''movie_provider_id'' ''movie_providers'',
       Unique ''movies_id_movie_provider_id_unique'' [''id'', ''movie_provider_id'']]\<rparr>"

definition auditoriums_table :: table_schema where
  "auditoriums_table = \<lparr>ts_name = ''auditoriums'',
     ts_columns = [uuid_column ''id'', uuid_column ''movie_provider_id'', text_column ''name''],
     ts_constraints = [primary_key ''auditoriums'' [''id''], references_id ''movie_provider_id'' ''movie_providers'',
       Unique ''auditoriums_id_movie_provider_id_unique'' [''id'', ''movie_provider_id'']]\<rparr>"

definition screenings_table :: table_schema where
  "screenings_table = \<lparr>ts_name = ''screenings'',
     ts_columns = [uuid_column ''id'', uuid_column ''movie_provider_id'', uuid_column ''movie_id'',
       uuid_column ''auditorium_id'', timestamp_column ''starts_at'', timestamp_column ''ends_at''],
     ts_constraints = [primary_key ''screenings'' [''id''], references_id ''movie_provider_id'' ''movie_providers'',
       references_id ''movie_id'' ''movies'', references_id ''auditorium_id'' ''auditoriums'',
       Unique ''screenings_id_movie_provider_id_unique'' [''id'', ''movie_provider_id''],
       Unique ''screenings_id_movie_provider_id_auditorium_id_unique'' [''id'', ''movie_provider_id'', ''auditorium_id''],
       Foreign_Key [''movie_id'', ''movie_provider_id''] ''movies'' [''id'', ''movie_provider_id''],
       Foreign_Key [''auditorium_id'', ''movie_provider_id''] ''auditoriums'' [''id'', ''movie_provider_id'']]\<rparr>"

definition seats_table :: table_schema where
  "seats_table = \<lparr>ts_name = ''seats'',
     ts_columns = [uuid_column ''id'', uuid_column ''movie_provider_id'', uuid_column ''auditorium_id'',
       text_column ''row_label'', integer_column ''seat_number''],
     ts_constraints = [primary_key ''seats'' [''id''], references_id ''movie_provider_id'' ''movie_providers'',
       references_id ''auditorium_id'' ''auditoriums'',
       Unique ''seats_auditorium_id_row_label_seat_number_unique'' [''auditorium_id'', ''row_label'', ''seat_number''],
       Unique ''seats_id_movie_provider_id_unique'' [''id'', ''movie_provider_id''],
       Unique ''seats_id_movie_provider_id_auditorium_id_unique'' [''id'', ''movie_provider_id'', ''auditorium_id''],
       Foreign_Key [''auditorium_id'', ''movie_provider_id''] ''auditoriums'' [''id'', ''movie_provider_id'']]\<rparr>"

definition reservation_requests_table :: table_schema where
  "reservation_requests_table = \<lparr>ts_name = ''reservation_requests'',
     ts_columns = [uuid_column ''id'', generated_column ''sequence'', uuid_column ''movie_provider_id'',
       uuid_column ''screening_id'', text_column ''requested_by_user_id'', text_column ''status'',
       timestamp_column ''requested_at'', nullable (text_column ''claimed_by''), nullable (text_column ''claim_token''),
       nullable (timestamp_column ''claimed_at''), nullable (timestamp_column ''claim_expires_at''),
       nullable (timestamp_column ''last_heartbeat_at''), count_column ''lease_timeout_count'',
       count_column ''transient_failure_count'', nullable (timestamp_column ''processed_at''),
       timestamp_column ''updated_at''],
     ts_constraints = [primary_key ''reservation_requests'' [''id''],
       references_id ''movie_provider_id'' ''movie_providers'', references_id ''screening_id'' ''screenings'',
       Unique ''reservation_requests_sequence_unique'' [''sequence''],
       Unique ''reservation_requests_id_movie_provider_id_screening_id_unique'' [''id'', ''movie_provider_id'', ''screening_id''],
       Foreign_Key [''screening_id'', ''movie_provider_id''] ''screenings'' [''id'', ''movie_provider_id''],
       text_enum_constraint ''status'' reservation_request_statuses]\<rparr>"

definition reservation_request_seats_table :: table_schema where
  "reservation_request_seats_table = \<lparr>ts_name = ''reservation_request_seats'',
     ts_columns = [uuid_column ''reservation_request_id'', uuid_column ''movie_provider_id'', uuid_column ''screening_id'',
       uuid_column ''auditorium_id'', uuid_column ''seat_id''],
     ts_constraints = [primary_key ''reservation_request_seats'' [''reservation_request_id'', ''seat_id''],
       Foreign_Key [''reservation_request_id'', ''movie_provider_id'', ''screening_id''] ''reservation_requests''
         [''id'', ''movie_provider_id'', ''screening_id''],
       Foreign_Key [''screening_id'', ''movie_provider_id'', ''auditorium_id''] ''screenings''
         [''id'', ''movie_provider_id'', ''auditorium_id''],
       Foreign_Key [''seat_id'', ''movie_provider_id'', ''auditorium_id''] ''seats''
         [''id'', ''movie_provider_id'', ''auditorium_id'']]\<rparr>"

definition reservations_table :: table_schema where
  "reservations_table = \<lparr>ts_name = ''reservations'',
     ts_columns = [uuid_column ''id'', uuid_column ''movie_provider_id'', uuid_column ''reservation_request_id'',
       uuid_column ''screening_id'', text_column ''reserved_by_user_id'', timestamp_column ''confirmed_at''],
     ts_constraints = [primary_key ''reservations'' [''id''], references_id ''movie_provider_id'' ''movie_providers'',
       Unique ''reservations_reservation_request_id_unique'' [''reservation_request_id''],
       references_id ''reservation_request_id'' ''reservation_requests'', references_id ''screening_id'' ''screenings'',
       Foreign_Key [''screening_id'', ''movie_provider_id''] ''screenings'' [''id'', ''movie_provider_id''],
       Foreign_Key [''reservation_request_id'', ''movie_provider_id'', ''screening_id''] ''reservation_requests''
         [''id'', ''movie_provider_id'', ''screening_id''],
       Unique ''reservations_id_movie_provider_id_screening_id_unique'' [''id'', ''movie_provider_id'', ''screening_id'']]\<rparr>"

definition reservation_seats_table :: table_schema where
  "reservation_seats_table = \<lparr>ts_name = ''reservation_seats'',
     ts_columns = [uuid_column ''reservation_id'', uuid_column ''movie_provider_id'', uuid_column ''screening_id'',
       uuid_column ''auditorium_id'', uuid_column ''seat_id''],
     ts_constraints = [primary_key ''reservation_seats'' [''reservation_id'', ''seat_id''],
       Foreign_Key [''reservation_id'', ''movie_provider_id'', ''screening_id''] ''reservations''
         [''id'', ''movie_provider_id'', ''screening_id''],
       Foreign_Key [''screening_id'', ''movie_provider_id'', ''auditorium_id''] ''screenings''
         [''id'', ''movie_provider_id'', ''auditorium_id''],
       Foreign_Key [''seat_id'', ''movie_provider_id'', ''auditorium_id''] ''seats''
         [''id'', ''movie_provider_id'', ''auditorium_id''],
       Unique ''reservation_seats_screening_id_seat_id_unique'' [''screening_id'', ''seat_id'']]\<rparr>"

text \<open>
  A check refuses a row only when its condition is false, not when it is null; comparing a null
  gives null.
\<close>

definition not_false_eq :: "sql_value \<Rightarrow> string \<Rightarrow> bool" where
  "not_false_eq v s \<longleftrightarrow> v = SQL_Null \<or> v = SQL_Text s"

definition attempt_shape :: "row \<Rightarrow> bool" where
  "attempt_shape r \<longleftrightarrow>
     (not_false_eq (r ''outcome'') ''confirmed'' \<and> r ''reservation_id'' \<noteq> SQL_Null \<and> r ''reason'' = SQL_Null \<and>
       r ''conflicting_reservation_id'' = SQL_Null) \<or>
     (not_false_eq (r ''outcome'') ''rejected'' \<and> not_false_eq (r ''reason'') ''seat-conflict'' \<and>
       r ''reservation_id'' = SQL_Null \<and> r ''conflicting_reservation_id'' \<noteq> SQL_Null) \<or>
     (not_false_eq (r ''outcome'') ''failed'' \<and>
       (not_false_eq (r ''reason'') ''unexpected-error'' \<or> not_false_eq (r ''reason'') ''lease-timeout'') \<and>
       r ''reservation_id'' = SQL_Null \<and> r ''conflicting_reservation_id'' = SQL_Null)"

definition processing_attempts_table :: table_schema where
  "processing_attempts_table = \<lparr>ts_name = ''reservation_request_processing_attempts'',
     ts_columns = [generated_column ''id'', uuid_column ''reservation_request_id'',
       (generated_column ''reservation_request_sequence'')\<lparr>cn_default := D_Null\<rparr>, timestamp_column ''started_at'',
       timestamp_column ''completed_at'', text_column ''outcome'', nullable (text_column ''reason''),
       nullable (uuid_column ''reservation_id''), nullable (uuid_column ''conflicting_reservation_id'')],
     ts_constraints = [primary_key ''reservation_request_processing_attempts'' [''id''],
       references_id ''reservation_request_id'' ''reservation_requests'',
       references_id ''reservation_id'' ''reservations'', references_id ''conflicting_reservation_id'' ''reservations'',
       text_enum_constraint ''outcome'' processing_attempt_outcomes, Check attempt_shape]\<rparr>"

definition create_movie_reservation_schema :: schema where
  "create_movie_reservation_schema = [movie_providers_table, movies_table, auditoriums_table, screenings_table, seats_table,
     reservation_requests_table, reservation_request_seats_table, reservations_table, reservation_seats_table,
     processing_attempts_table]"

text \<open>The second migration adds columns to the requests.\<close>

definition alter_table :: "string \<Rightarrow> column list \<Rightarrow> schema \<Rightarrow> schema" where
  "alter_table tab cs S = List.map (\<lambda>s. if ts_name s = tab then s\<lparr>ts_columns := ts_columns s @ cs\<rparr> else s) S"

definition add_observability_context :: "schema \<Rightarrow> schema" where
  "add_observability_context = alter_table ''reservation_requests''
     (List.map (\<lambda>c. nullable (text_column c)) [''correlation_id'', ''request_id'', ''traceparent'', ''tracestate''])"

definition service_schema :: schema where
  "service_schema = add_observability_context create_movie_reservation_schema"

text \<open>
  The undoing of the first migration: tables are dropped in an order in which no dropped table is
  still referenced.
\<close>

definition dropped_tables :: "string list" where
  "dropped_tables = [''reservation_request_processing_attempts'', ''reservation_seats'', ''reservations'',
     ''reservation_request_seats'', ''reservation_requests'', ''seats'', ''screenings'', ''auditoriums'', ''movies'',
     ''movie_providers'']"

definition drop_tables :: "string list \<Rightarrow> schema \<Rightarrow> schema" where
  "drop_tables names S = filter (\<lambda>s. ts_name s \<notin> set names) S"

end
