(* ===== verification/Postgres_Mappers.thy ===== *)
theory Postgres_Mappers
  imports Postgres_Schema Work_Repository
begin

text \<open>
  Rows to domain values (\<open>infrastructure/repositories/postgres/postgres-mappers.ts\<close>), the
  error test (\<open>postgres-errors.ts\<close>), and the seat lookups.
\<close>

section \<open>Reading a column\<close>

fun as_text :: "sql_value \<Rightarrow> string" where
  "as_text (SQL_Text s) = s"
| "as_text _ = []"

fun as_optional_text :: "sql_value \<Rightarrow> string option" where
  "as_optional_text (SQL_Text s) = Some s"
| "as_optional_text _ = None"

text \<open>\<open>Number(value)\<close> of a number or of the text the driver gives for a \<open>bigint\<close>.\<close>

fun as_number :: "sql_value \<Rightarrow> int" where
  "as_number (SQL_Number n) = n"
| "as_number _ = 0"

text \<open>\<open>toIsoString\<close>: the driver gives a \<open>Date\<close> for a timestamp.\<close>

fun sql_iso_string :: "sql_value \<Rightarrow> js_error + string" where
  "sql_iso_string (SQL_Time t) = to_iso_string t"
| "sql_iso_string (SQL_Text s) = (case date_get_time s of
     None \<Rightarrow> Inl (RangeError ''Invalid time value'') | Some t \<Rightarrow> to_iso_string t)"
| "sql_iso_string (SQL_Number n) = to_iso_string n"
| "sql_iso_string SQL_Null = to_iso_string 0"

section \<open>Mappers\<close>

definition to_movie_provider :: "row \<Rightarrow> js_error + movie_provider" where
  "to_movie_provider r =
    bind_err (create_movie_provider_id (as_text (r ''id''))) (\<lambda>i.
    Inr \<lparr>mp_id = i, mp_code = as_text (r ''code''), mp_name = as_text (r ''name'')\<rparr>)"

definition to_movie :: "row \<Rightarrow> js_error + movie" where
  "to_movie r =
    bind_err (create_movie_id (as_text (r ''id''))) (\<lambda>i.
    bind_err (create_movie_provider_id (as_text (r ''movie_provider_id''))) (\<lambda>p.
    Inr \<lparr>mv_id = i, mv_movieProviderId = p, mv_title = as_text (r ''title''), mv_rating = as_text (r ''rating''),
      mv_durationMinutes = as_number (r ''duration_minutes'')\<rparr>))"

definition to_auditorium :: "row \<Rightarrow> js_error + auditorium" where
  "to_auditorium r =
    bind_err (create_auditorium_id (as_text (r ''id''))) (\<lambda>i.
    bind_err (create_movie_provider_id (as_text (r ''movie_provider_id''))) (\<lambda>p.
    Inr \<lparr>au_id = i, au_movieProviderId = p, au_name = as_text (r ''name'')\<rparr>))"

definition to_screening :: "row \<Rightarrow> js_error + screening" where
  "to_screening r =
    bind_err (create_screening_id (as_text (r ''id''))) (\<lambda>i.
    bind_err (create_movie_provider_id (as_text (r ''movie_provider_id''))) (\<lambda>p.
    bind_err (create_movie_id (as_text (r ''movie_id''))) (\<lambda>m.
    bind_err (create_auditorium_id (as_text (r ''auditorium_id''))) (\<lambda>a.
    bind_err (sql_iso_string (r ''starts_at'')) (\<lambda>s.
    bind_err (sql_iso_string (r ''ends_at'')) (\<lambda>e.
    Inr \<lparr>sc_id = i, sc_movieProviderId = p, sc_movieId = m, sc_auditoriumId = a, sc_startsAt = s, sc_endsAt = e\<rparr>))))))"

definition to_seat :: "row \<Rightarrow> js_error + seat" where
  "to_seat r =
    bind_err (create_seat_id (as_text (r ''id''))) (\<lambda>i.
    bind_err (create_movie_provider_id (as_text (r ''movie_provider_id''))) (\<lambda>p.
    bind_err (create_auditorium_id (as_text (r ''auditorium_id''))) (\<lambda>a.
    Inr \<lparr>st_id = i, st_movieProviderId = p, st_auditoriumId = a, st_row = as_text (r ''row_label''),
      st_number = as_number (r ''seat_number'')\<rparr>)))"

definition parse_reservation_request_status :: "string \<Rightarrow> js_error + reservation_request_status" where
  "parse_reservation_request_status v =
    (case List.find (\<lambda>st. status_str st = v) [REQUESTED, PROCESSING, CONFIRMED, REJECTED, FAILED] of
       Some st \<Rightarrow> Inr st
     | None \<Rightarrow> Inl (Error (''Invalid reservation request status from database: '' @ v)))"

definition to_reservation_request :: "row \<Rightarrow> id list \<Rightarrow> js_error + reservation_request" where
  "to_reservation_request r seatIds =
    bind_err (create_reservation_request_id (as_text (r ''id''))) (\<lambda>i.
    bind_err (create_movie_provider_id (as_text (r ''movie_provider_id''))) (\<lambda>p.
    bind_err (create_screening_id (as_text (r ''screening_id''))) (\<lambda>s.
    bind_err (create_user_id (as_text (r ''requested_by_user_id''))) (\<lambda>u.
    bind_err (parse_reservation_request_status (as_text (r ''status''))) (\<lambda>st.
    Inr \<lparr>rr_id = i, rr_movieProviderId = p, rr_screeningId = s, rr_seatIds = seatIds, rr_requestedByUserId = u,
      rr_status = st\<rparr>)))))"

definition to_reservation :: "row \<Rightarrow> id list \<Rightarrow> js_error + reservation" where
  "to_reservation r seatIds =
    bind_err (create_reservation_id (as_text (r ''id''))) (\<lambda>i.
    bind_err (create_movie_provider_id (as_text (r ''movie_provider_id''))) (\<lambda>p.
    bind_err (create_reservation_request_id (as_text (r ''reservation_request_id''))) (\<lambda>q.
    bind_err (create_screening_id (as_text (r ''screening_id''))) (\<lambda>s.
    bind_err (create_user_id (as_text (r ''reserved_by_user_id''))) (\<lambda>u.
    bind_err (sql_iso_string (r ''confirmed_at'')) (\<lambda>c.
    create_reservation \<lparr>rv_id = i, rv_movieProviderId = p, rv_reservationRequestId = q, rv_screeningId = s,
      rv_seatIds = seatIds, rv_reservedByUserId = u, rv_confirmedAt = c\<rparr>))))))"

definition to_reservation_request_sequence :: "sql_value \<Rightarrow> js_error + int" where
  "to_reservation_request_sequence v = create_reservation_request_sequence (as_number v)"

definition to_reservation_work_observability_context :: "row \<Rightarrow> work_observability_context option" where
  "to_reservation_work_observability_context r =
    (case as_optional_text (r ''correlation_id'') of None \<Rightarrow> None | Some c \<Rightarrow>
    (case as_optional_text (r ''request_id'') of None \<Rightarrow> None | Some q \<Rightarrow>
    (case as_optional_text (r ''traceparent'') of None \<Rightarrow> None | Some p \<Rightarrow>
      Some \<lparr>oc_correlationId = c, oc_requestId = q, oc_traceparent = p,
        oc_tracestate = as_optional_text (r ''tracestate'')\<rparr>)))"

definition to_processing_attempt :: "row \<Rightarrow> js_error + processing_attempt" where
  "to_processing_attempt r =
    bind_err (create_reservation_request_id (as_text (r ''reservation_request_id''))) (\<lambda>i.
    bind_err (to_reservation_request_sequence (r ''reservation_request_sequence'')) (\<lambda>n.
    bind_err (sql_iso_string (r ''started_at'')) (\<lambda>s.
    bind_err (sql_iso_string (r ''completed_at'')) (\<lambda>c.
    if as_text (r ''outcome'') = ''confirmed'' \<and> r ''reservation_id'' \<noteq> SQL_Null
    then bind_err (create_reservation_id (as_text (r ''reservation_id''))) (\<lambda>v.
      Inr (Confirmed_Attempt \<lparr>at_reservationRequestId = i, at_sequence = n, at_startedAt = s, at_completedAt = c,
        at_reservationId = v\<rparr>))
    else if as_text (r ''outcome'') = ''rejected'' \<and> r ''reason'' = SQL_Text ''seat-conflict'' \<and>
      r ''conflicting_reservation_id'' \<noteq> SQL_Null
    then bind_err (create_reservation_id (as_text (r ''conflicting_reservation_id''))) (\<lambda>v.
      Inr (Rejected_Attempt \<lparr>at_reservationRequestId = i, at_sequence = n, at_startedAt = s, at_completedAt = c,
        at_rejectionReason = Seat_Conflict, at_conflictingReservationId = v\<rparr>))
    else if as_text (r ''outcome'') = ''failed'' \<and> r ''reason'' = SQL_Text ''unexpected-error''
    then Inr (Failed_Attempt \<lparr>at_reservationRequestId = i, at_sequence = n, at_startedAt = s, at_completedAt = c,
        at_failureReason = Unexpected_Error\<rparr>)
    else if as_text (r ''outcome'') = ''failed'' \<and> r ''reason'' = SQL_Text ''lease-timeout''
    then Inr (Failed_Attempt \<lparr>at_reservationRequestId = i, at_sequence = n, at_startedAt = s, at_completedAt = c,
        at_failureReason = Lease_Timeout\<rparr>)
    else Inl (Error (''Invalid reservation request processing attempt row for '' @
      as_text (r ''reservation_request_id'')))))))"

section \<open>Errors and single rows\<close>

definition is_postgres_unique_violation :: "'d engine \<Rightarrow> js_error \<Rightarrow> string \<Rightarrow> bool" where
  "is_postgres_unique_violation E error constraintName \<longleftrightarrow>
     eg_errorCode E error = Some ''23505'' \<and> eg_errorConstraint E error = Some constraintName"

definition require_single_row :: "row list \<Rightarrow> string \<Rightarrow> js_error + row" where
  "require_single_row rows errorMessage = (case rows of [] \<Rightarrow> Inl (Error errorMessage) | r # _ \<Rightarrow> Inr r)"

text \<open>\<open>.first()\<close> gives the row or \<open>undefined\<close>.\<close>

definition run_first :: "'d engine \<Rightarrow> select_query \<Rightarrow> ('d, row option) io" where
  "run_first E q = bind_io (eg_run E (Select (q\<lparr>sq_first := True\<rparr>))) (\<lambda>rows.
     ret (case rows of [] \<Rightarrow> None | r # _ \<Rightarrow> Some r))"

section \<open>Seat lookups\<close>

definition find_reservation_request_seat_ids :: "'d engine \<Rightarrow> string \<Rightarrow> ('d, id list) io" where
  "find_reservation_request_seat_ids E reservationRequestId =
    bind_io (eg_run E (Select ((from_table ''reservation_request_seats'')
      \<lparr>sq_output := Columns [(''seat_id'', col ''seat_id'')],
       sq_where := [C_Eq (col ''reservation_request_id'') (P_Text reservationRequestId)],
       sq_order := [col ''seat_id'']\<rparr>))) (\<lambda>rows.
    lift (map_err (\<lambda>r. create_seat_id (as_text (r ''seat_id''))) rows))"

definition find_reservation_seat_ids :: "'d engine \<Rightarrow> string \<Rightarrow> ('d, id list) io" where
  "find_reservation_seat_ids E reservationId =
    bind_io (eg_run E (Select ((from_table ''reservation_seats'')
      \<lparr>sq_output := Columns [(''seat_id'', col ''seat_id'')],
       sq_where := [C_Eq (col ''reservation_id'') (P_Text reservationId)],
       sq_order := [col ''seat_id'']\<rparr>))) (\<lambda>rows.
    lift (map_err (\<lambda>r. create_seat_id (as_text (r ''seat_id''))) rows))"

end
