(* ===== verification/Postgres_Movie.thy ===== *)
theory Postgres_Movie
  imports Postgres_Mappers
begin

text \<open>
  The product-facing repository over Postgres (\<open>postgres-movie-reservation.repository.ts\<close>)
  and its reader of screening availability (\<open>postgres-screening-availability.reader.ts\<close>).
\<close>

definition run_all :: "'d engine \<Rightarrow> select_query \<Rightarrow> (row \<Rightarrow> js_error + 'a) \<Rightarrow> ('d, 'a list) io" where
  "run_all E q mapper = bind_io (eg_run E (Select q)) (\<lambda>rows. lift (map_err mapper rows))"

text \<open>\<open>row === undefined ? null : mapper(row)\<close>\<close>

definition run_optional :: "'d engine \<Rightarrow> select_query \<Rightarrow> (row \<Rightarrow> js_error + 'a) \<Rightarrow> ('d, 'a option) io" where
  "run_optional E q mapper = bind_io (run_first E q) (\<lambda>found.
     case found of None \<Rightarrow> ret None | Some r \<Rightarrow> bind_io (lift (mapper r)) (\<lambda>x. ret (Some x)))"

definition pg_find_movie_provider_by_id :: "'d engine \<Rightarrow> id \<Rightarrow> ('d, movie_provider option) io" where
  "pg_find_movie_provider_by_id E movieProviderId =
    run_optional E ((from_table ''movie_providers'')\<lparr>sq_where := where_object [(''id'', P_Text movieProviderId)]\<rparr>)
      to_movie_provider"

definition pg_find_movies_by_provider_id :: "'d engine \<Rightarrow> id \<Rightarrow> ('d, movie list) io" where
  "pg_find_movies_by_provider_id E movieProviderId =
    run_all E ((from_table ''movies'')\<lparr>sq_where := where_object [(''movie_provider_id'', P_Text movieProviderId)],
      sq_order := [col ''id'']\<rparr>) to_movie"

definition pg_find_movie_by_id :: "'d engine \<Rightarrow> id \<Rightarrow> id \<Rightarrow> ('d, movie option) io" where
  "pg_find_movie_by_id E movieProviderId movieId =
    run_optional E ((from_table ''movies'')\<lparr>sq_where :=
      where_object [(''id'', P_Text movieId), (''movie_provider_id'', P_Text movieProviderId)]\<rparr>) to_movie"

definition pg_find_screenings_by_provider_id :: "'d engine \<Rightarrow> id \<Rightarrow> id option \<Rightarrow> ('d, screening list) io" where
  "pg_find_screenings_by_provider_id E movieProviderId movieId =
    run_all E ((from_table ''screenings'')\<lparr>sq_where :=
      where_object ([(''movie_provider_id'', P_Text movieProviderId)] @
        (case movieId of None \<Rightarrow> [] | Some m \<Rightarrow> [(''movie_id'', P_Text m)])),
      sq_order := [col ''starts_at'']\<rparr>) to_screening"

definition pg_find_screening_for_provider :: "'d engine \<Rightarrow> id \<Rightarrow> id \<Rightarrow> ('d, screening option) io" where
  "pg_find_screening_for_provider E movieProviderId screeningId =
    run_optional E ((from_table ''screenings'')\<lparr>sq_where :=
      where_object [(''id'', P_Text screeningId), (''movie_provider_id'', P_Text movieProviderId)]\<rparr>) to_screening"

definition pg_find_seats_by_screening_id :: "'d engine \<Rightarrow> id \<Rightarrow> id \<Rightarrow> ('d, seat list) io" where
  "pg_find_seats_by_screening_id E movieProviderId screeningId =
    bind_io (pg_find_screening_for_provider E movieProviderId screeningId) (\<lambda>found.
    case found of
      None \<Rightarrow> ret []
    | Some x \<Rightarrow> run_all E ((from_table ''seats'')\<lparr>sq_where :=
        where_object [(''movie_provider_id'', P_Text movieProviderId), (''auditorium_id'', P_Text (sc_auditoriumId x))],
        sq_order := [col ''row_label'', col ''seat_number'']\<rparr>) to_seat)"

text \<open>The loops over the seat rows and over the screening rows.\<close>

fun group_seats :: "row list \<Rightarrow> (string, seat list) jsmap \<Rightarrow> js_error + (string, seat list) jsmap" where
  "group_seats [] m = Inr m"
| "group_seats (r # rs) m = bind_err (to_seat r) (\<lambda>x.
     group_seats rs (jm_set m (as_text (r ''auditorium_id''))
       ((case jm_get m (as_text (r ''auditorium_id'')) of None \<Rightarrow> [] | Some xs \<Rightarrow> xs) @ [x])))"

fun assign_seats :: "(string, seat list) jsmap \<Rightarrow> row list \<Rightarrow> (id, seat list) jsmap \<Rightarrow> js_error + (id, seat list) jsmap" where
  "assign_seats groups [] m = Inr m"
| "assign_seats groups (r # rs) m = bind_err (create_screening_id (as_text (r ''id''))) (\<lambda>i.
     assign_seats groups rs (jm_set m i
       (case jm_get groups (as_text (r ''auditorium_id'')) of None \<Rightarrow> [] | Some xs \<Rightarrow> xs)))"

text \<open>\<open>[...new Set(xs)]\<close> keeps the first of equal elements.\<close>

fun unique_in_order :: "'a list \<Rightarrow> 'a list \<Rightarrow> 'a list" where
  "unique_in_order seen [] = rev seen"
| "unique_in_order seen (x # xs) = unique_in_order (if x \<in> set seen then seen else x # seen) xs"

definition pg_find_seats_by_screening_ids :: "'d engine \<Rightarrow> id \<Rightarrow> id list \<Rightarrow> ('d, (id, seat list) jsmap) io" where
  "pg_find_seats_by_screening_ids E movieProviderId screeningIds =
    (if length screeningIds = 0 then ret []
     else bind_io (eg_run E (Select ((from_table ''screenings'')\<lparr>sq_where :=
         [C_Eq (col ''movie_provider_id'') (P_Text movieProviderId), C_In (col ''id'') (List.map P_Text screeningIds)]\<rparr>)))
       (\<lambda>screeningRows.
       (let auditoriumIds = unique_in_order [] (List.map (\<lambda>r. as_text (r ''auditorium_id'')) screeningRows) in
        bind_io (if length auditoriumIds = 0 then ret []
          else eg_run E (Select ((from_table ''seats'')\<lparr>sq_where :=
            [C_Eq (col ''movie_provider_id'') (P_Text movieProviderId),
             C_In (col ''auditorium_id'') (List.map P_Text auditoriumIds)],
            sq_order := [col ''row_label'', col ''seat_number'']\<rparr>))) (\<lambda>seatRows.
        bind_io (lift (group_seats seatRows [])) (\<lambda>groups.
        lift (assign_seats groups screeningRows []))))))"

definition pg_find_seats_by_ids_for_screening :: "'d engine \<Rightarrow> id \<Rightarrow> id \<Rightarrow> id list \<Rightarrow> ('d, seat list) io" where
  "pg_find_seats_by_ids_for_screening E movieProviderId screeningId seatIds =
    (if length seatIds = 0 then ret []
     else run_all E
       \<lparr>sq_source = Inner_Join (From ''seats'' ''seats'') ''screenings'' ''screenings''
          [((''screenings'', ''auditorium_id''), (''seats'', ''auditorium_id'')),
           ((''screenings'', ''movie_provider_id''), (''seats'', ''movie_provider_id''))],
        sq_where = [C_Eq (''screenings'', ''movie_provider_id'') (P_Text movieProviderId),
          C_Eq (''screenings'', ''id'') (P_Text screeningId), C_In (''seats'', ''id'') (List.map P_Text seatIds)],
        sq_order = [(''seats'', ''row_label''), (''seats'', ''seat_number'')], sq_output = All_Of ''seats'',
        sq_first = False, sq_lock = No_Lock\<rparr> to_seat)"

definition pg_find_reservation_request_by_id :: "'d engine \<Rightarrow> id \<Rightarrow> ('d, reservation_request option) io" where
  "pg_find_reservation_request_by_id E reservationRequestId =
    bind_io (run_first E ((from_table ''reservation_requests'')\<lparr>sq_where :=
      where_object [(''id'', P_Text reservationRequestId)]\<rparr>)) (\<lambda>found.
    case found of
      None \<Rightarrow> ret None
    | Some r \<Rightarrow> bind_io (find_reservation_request_seat_ids E reservationRequestId) (\<lambda>seatIds.
        bind_io (lift (to_reservation_request r seatIds)) (\<lambda>q. ret (Some q))))"

definition require_screening_row :: "'d engine \<Rightarrow> id \<Rightarrow> id \<Rightarrow> ('d, row) io" where
  "require_screening_row E movieProviderId screeningId =
    bind_io (run_first E ((from_table ''screenings'')\<lparr>sq_where :=
      where_object [(''id'', P_Text screeningId), (''movie_provider_id'', P_Text movieProviderId)]\<rparr>)) (\<lambda>found.
    case found of None \<Rightarrow> throw (Error (''Screening '' @ screeningId @ '' was not found'')) | Some r \<Rightarrow> ret r)"

definition request_values :: "reservation_request \<Rightarrow> work_observability_context option \<Rightarrow> (string \<times> param) list" where
  "request_values q context_opt =
    [(''id'', P_Text (rr_id q)), (''movie_provider_id'', P_Text (rr_movieProviderId q)),
     (''screening_id'', P_Text (rr_screeningId q)), (''requested_by_user_id'', P_Text (rr_requestedByUserId q)),
     (''status'', P_Text (status_str (rr_status q))),
     (''correlation_id'', p_optional (map_option oc_correlationId context_opt)),
     (''request_id'', p_optional (map_option oc_requestId context_opt)),
     (''traceparent'', p_optional (map_option oc_traceparent context_opt)),
     (''tracestate'', p_optional (Option.bind context_opt oc_tracestate)),
     (''requested_at'', P_Now), (''updated_at'', P_Now)]"

definition request_seat_values :: "reservation_request \<Rightarrow> row \<Rightarrow> id \<Rightarrow> (string \<times> param) list" where
  "request_seat_values q screeningRow seatId =
    [(''reservation_request_id'', P_Text (rr_id q)), (''movie_provider_id'', P_Text (rr_movieProviderId q)),
     (''screening_id'', P_Text (rr_screeningId q)), (''auditorium_id'', P_Text (as_text (screeningRow ''auditorium_id''))),
     (''seat_id'', P_Text seatId)]"

definition pg_save_reservation_request ::
  "'d engine \<Rightarrow> reservation_request \<Rightarrow> work_observability_context option \<Rightarrow> ('d, unit) io" where
  "pg_save_reservation_request E q context_opt =
    catch_io
      (transaction E
        (bind_io (require_screening_row E (rr_movieProviderId q) (rr_screeningId q)) (\<lambda>screeningRow.
         then_io (eg_run E (Insert ''reservation_requests'' [request_values q context_opt]))
         (bind_io (eg_run E (Insert ''reservation_request_seats''
            (List.map (request_seat_values q screeningRow) (rr_seatIds q)))) (\<lambda>_. ret ())))))
      (\<lambda>error. if is_postgres_unique_violation E error ''reservation_requests_pkey''
         then throw (ReservationRequestAlreadyExistsError (rr_id q)) else throw error)"

definition pg_find_reservation_by_id :: "'d engine \<Rightarrow> id \<Rightarrow> ('d, reservation option) io" where
  "pg_find_reservation_by_id E reservationId =
    bind_io (run_first E ((from_table ''reservations'')\<lparr>sq_where := where_object [(''id'', P_Text reservationId)]\<rparr>))
      (\<lambda>found.
    case found of
      None \<Rightarrow> ret None
    | Some r \<Rightarrow> bind_io (find_reservation_seat_ids E reservationId) (\<lambda>seatIds.
        bind_io (lift (to_reservation r seatIds)) (\<lambda>v. ret (Some v))))"

definition pg_find_reservation_by_request_id :: "'d engine \<Rightarrow> id \<Rightarrow> ('d, reservation option) io" where
  "pg_find_reservation_by_request_id E reservationRequestId =
    bind_io (run_first E ((from_table ''reservations'')\<lparr>sq_where :=
      where_object [(''reservation_request_id'', P_Text reservationRequestId)]\<rparr>)) (\<lambda>found.
    case found of
      None \<Rightarrow> ret None
    | Some r \<Rightarrow> bind_io (find_reservation_seat_ids E (as_text (r ''id''))) (\<lambda>seatIds.
        bind_io (lift (to_reservation r seatIds)) (\<lambda>v. ret (Some v))))"

definition postgres_movie_repository :: "'d engine \<Rightarrow> 'd movie_repository_ops" where
  "postgres_movie_repository E =
    \<lparr>mr_findMovieProviderById = pg_find_movie_provider_by_id E,
     mr_findMoviesByProviderId = pg_find_movies_by_provider_id E,
     mr_findMovieById = pg_find_movie_by_id E,
     mr_findScreeningsByProviderId = pg_find_screenings_by_provider_id E,
     mr_findScreeningForProvider = pg_find_screening_for_provider E,
     mr_findSeatsByScreeningId = pg_find_seats_by_screening_id E,
     mr_findSeatsByScreeningIds = pg_find_seats_by_screening_ids E,
     mr_findSeatsByIdsForScreening = pg_find_seats_by_ids_for_screening E,
     mr_findReservationRequestById = pg_find_reservation_request_by_id E,
     mr_saveReservationRequest = pg_save_reservation_request E,
     mr_findReservationById = pg_find_reservation_by_id E,
     mr_findReservationByReservationRequestId = pg_find_reservation_by_request_id E\<rparr>"

section \<open>Availability\<close>

definition availability_query :: "id \<Rightarrow> id \<Rightarrow> select_query" where
  "availability_query movieProviderId screeningId =
    \<lparr>sq_source = Left_Join
       (Left_Join (From ''screenings'' ''sc'') ''seats'' ''s''
         [((''s'', ''movie_provider_id''), (''sc'', ''movie_provider_id'')),
          ((''s'', ''auditorium_id''), (''sc'', ''auditorium_id''))])
       ''reservation_seats'' ''rs''
       [((''rs'', ''movie_provider_id''), (''sc'', ''movie_provider_id'')),
        ((''rs'', ''screening_id''), (''sc'', ''id'')), ((''rs'', ''seat_id''), (''s'', ''id''))],
     sq_where = [C_Eq (''sc'', ''movie_provider_id'') (P_Text movieProviderId), C_Eq (''sc'', ''id'') (P_Text screeningId)],
     sq_order = [], sq_output = Columns [(''seat_id'', (''s'', ''id'')), (''reserved_seat_id'', (''rs'', ''seat_id''))],
     sq_first = False, sq_lock = No_Lock\<rparr>"

text \<open>\<open>availabilityRows.parse\<close>: a nullable text in each of the two columns.\<close>

definition nullable_text :: "sql_value \<Rightarrow> bool" where
  "nullable_text v \<longleftrightarrow> (case v of SQL_Null \<Rightarrow> True | SQL_Text s \<Rightarrow> True | _ \<Rightarrow> False)"

fun availability_seats :: "row list \<Rightarrow> js_error + seat_availability list" where
  "availability_seats [] = Inr []"
| "availability_seats (r # rs) =
     (if r ''seat_id'' = SQL_Null then availability_seats rs
      else bind_err (create_seat_id (as_text (r ''seat_id''))) (\<lambda>i.
        bind_err (availability_seats rs) (\<lambda>xs.
        Inr (\<lparr>sa_seatId = i, sa_available = (r ''reserved_seat_id'' = SQL_Null)\<rparr> # xs))))"

definition pg_read_availability :: "'d engine \<Rightarrow> js_error \<Rightarrow> id \<Rightarrow> id \<Rightarrow> ('d, screening_availability option) io" where
  "pg_read_availability E zodError movieProviderId screeningId =
    bind_io (eg_run E (Select (availability_query movieProviderId screeningId))) (\<lambda>rows.
    if \<not> list_all (\<lambda>r. nullable_text (r ''seat_id'') \<and> nullable_text (r ''reserved_seat_id'')) rows then throw zodError
    else if length rows = 0 then ret None
    else bind_io (lift (availability_seats rows)) (\<lambda>xs.
      ret (Some \<lparr>av_screeningId = screeningId, av_seats = xs\<rparr>)))"

end
