(* ===== verification/Postgres_Work.thy ===== *)
theory Postgres_Work
  imports Postgres_Mappers
begin

text \<open>
  The Postgres side of the work repository port: claiming and leases
  (\<open>postgres-reservation-request-claimer.ts\<close>), status changes and attempts
  (\<open>postgres-reservation-request-state-store.ts\<close>), confirmed reservations
  (\<open>postgres-reservation-store.ts\<close>), and the facade over them
  (\<open>postgres-reservation-request-work.repository.ts\<close>).
\<close>

section \<open>Status changes and attempts\<close>

definition cleared_claim_columns :: "(string \<times> param) list" where
  "cleared_claim_columns = [(''claimed_by'', P_Null), (''claim_token'', P_Null), (''claimed_at'', P_Null),
     (''claim_expires_at'', P_Null), (''last_heartbeat_at'', P_Null)]"

text \<open>\<open>requireClaimedProcessingRequest\<close>; its checks on the row it finds come as a function of their own.\<close>

definition check_claimed_row :: "claimed_reservation_request \<Rightarrow> row \<Rightarrow> js_error + row" where
  "check_claimed_row c r =
    bind_err (to_reservation_request_sequence (r ''sequence'')) (\<lambda>storedSequence.
    if storedSequence \<noteq> cl_sequence c
    then Inl (Error (''Claimed reservation request '' @ rr_id (cl_reservationRequest c) @ '' sequence changed''))
    else if r ''status'' \<noteq> SQL_Text (status_str PROCESSING)
    then Inl (Error (''Claimed reservation request '' @ as_text (r ''id'') @ '' is '' @ as_text (r ''status'') @
      '', not PROCESSING''))
    else if r ''claimed_by'' \<noteq> SQL_Text (cl_claimedBy c) \<or> r ''claim_token'' \<noteq> SQL_Text (cl_claimToken c)
    then Inl (Error (''Claimed reservation request '' @ as_text (r ''id'') @ '' claim was lost''))
    else Inr r)"

definition require_claimed_processing_request :: "'d engine \<Rightarrow> claimed_reservation_request \<Rightarrow> ('d, row) io" where
  "require_claimed_processing_request E c =
    bind_io (run_first E ((from_table ''reservation_requests'')
      \<lparr>sq_where := where_object [(''id'', P_Text (rr_id (cl_reservationRequest c)))], sq_lock := For_Update\<rparr>)) (\<lambda>found.
    case found of
      None \<Rightarrow> throw (Error (''Claimed reservation request '' @ rr_id (cl_reservationRequest c) @ '' was not found''))
    | Some r \<Rightarrow> lift (check_claimed_row c r))"

definition update_claimed_request_status ::
  "'d engine \<Rightarrow> claimed_reservation_request \<Rightarrow> reservation_request_status \<Rightarrow> bool \<Rightarrow> ('d, reservation_request) io" where
  "update_claimed_request_status E c st incrementTransientFailureCount =
    bind_io (eg_run E (Update ''reservation_requests''
      (where_object [(''id'', P_Text (rr_id (cl_reservationRequest c)))])
      ([(''status'', P_Text (status_str st))] @ cleared_claim_columns @
       (if incrementTransientFailureCount then [(''transient_failure_count'', P_Plus_One)] else []) @
       [(''processed_at'', if st = REQUESTED then P_Null else P_Now), (''updated_at'', P_Now)]))) (\<lambda>updatedRows.
    bind_io (lift (require_single_row updatedRows
      (''Reservation request '' @ rr_id (cl_reservationRequest c) @ '' was not updated''))) (\<lambda>updatedRow.
    bind_io (find_reservation_request_seat_ids E (as_text (updatedRow ''id''))) (\<lambda>seatIds.
    lift (to_reservation_request updatedRow seatIds))))"

fun read_attempt_reason :: "processing_attempt \<Rightarrow> param" where
  "read_attempt_reason (Confirmed_Attempt a) = P_Null"
| "read_attempt_reason (Rejected_Attempt a) = P_Text ''seat-conflict''"
| "read_attempt_reason (Failed_Attempt a) =
     P_Text (case at_failureReason a of Unexpected_Error \<Rightarrow> ''unexpected-error'' | Lease_Timeout \<Rightarrow> ''lease-timeout'')"

fun attempt_outcome :: "processing_attempt \<Rightarrow> string" where
  "attempt_outcome (Confirmed_Attempt a) = ''confirmed''"
| "attempt_outcome (Rejected_Attempt a) = ''rejected''"
| "attempt_outcome (Failed_Attempt a) = ''failed''"

fun attempt_base :: "processing_attempt \<Rightarrow> processing_attempt_base" where
  "attempt_base (Confirmed_Attempt a) = processing_attempt_base.truncate a"
| "attempt_base (Rejected_Attempt a) = processing_attempt_base.truncate a"
| "attempt_base (Failed_Attempt a) = processing_attempt_base.truncate a"

definition attempt_values :: "processing_attempt \<Rightarrow> (string \<times> param) list" where
  "attempt_values attempt =
    [(''reservation_request_id'', P_Text (at_reservationRequestId (attempt_base attempt))),
     (''reservation_request_sequence'', P_Number (at_sequence (attempt_base attempt))),
     (''started_at'', P_Text (at_startedAt (attempt_base attempt))),
     (''completed_at'', P_Text (at_completedAt (attempt_base attempt))),
     (''outcome'', P_Text (attempt_outcome attempt)),
     (''reason'', read_attempt_reason attempt),
     (''reservation_id'', case attempt of Confirmed_Attempt a \<Rightarrow> P_Text (at_reservationId a) | _ \<Rightarrow> P_Null),
     (''conflicting_reservation_id'',
        case attempt of Rejected_Attempt a \<Rightarrow> P_Text (at_conflictingReservationId a) | _ \<Rightarrow> P_Null)]"

definition insert_processing_attempt :: "'d engine \<Rightarrow> processing_attempt \<Rightarrow> ('d, unit) io" where
  "insert_processing_attempt E attempt =
    bind_io (eg_run E (Insert ''reservation_request_processing_attempts'' [attempt_values attempt])) (\<lambda>_. ret ())"

definition mark_claimed_confirmed :: "'d engine \<Rightarrow> claimed_reservation_request \<Rightarrow> confirmed_attempt \<Rightarrow>
    ('d, reservation_request) io" where
  "mark_claimed_confirmed E c attempt =
    bind_io (update_claimed_request_status E c CONFIRMED False) (\<lambda>confirmedRequest.
    then_io (insert_processing_attempt E (Confirmed_Attempt attempt)) (ret confirmedRequest))"

definition pg_reject :: "'d engine \<Rightarrow> claimed_reservation_request \<Rightarrow> rejected_attempt \<Rightarrow> ('d, reservation_request) io" where
  "pg_reject E c attempt = transaction E
    (then_io (require_claimed_processing_request E c)
    (bind_io (update_claimed_request_status E c REJECTED False) (\<lambda>rejectedRequest.
     then_io (insert_processing_attempt E (Rejected_Attempt attempt)) (ret rejectedRequest))))"

definition pg_release :: "'d engine \<Rightarrow> claimed_reservation_request \<Rightarrow> failed_attempt \<Rightarrow> ('d, reservation_request) io" where
  "pg_release E c attempt = transaction E
    (then_io (require_claimed_processing_request E c)
    (bind_io (update_claimed_request_status E c REQUESTED True) (\<lambda>retryableRequest.
     then_io (insert_processing_attempt E (Failed_Attempt attempt)) (ret retryableRequest))))"

definition pg_fail :: "'d engine \<Rightarrow> claimed_reservation_request \<Rightarrow> failed_attempt \<Rightarrow> ('d, reservation_request) io" where
  "pg_fail E c attempt = transaction E
    (then_io (require_claimed_processing_request E c)
    (bind_io (update_claimed_request_status E c FAILED True) (\<lambda>failedRequest.
     then_io (insert_processing_attempt E (Failed_Attempt attempt)) (ret failedRequest))))"

definition pg_find_attempts :: "'d engine \<Rightarrow> id \<Rightarrow> ('d, processing_attempt list) io" where
  "pg_find_attempts E reservationRequestId =
    bind_io (eg_run E (Select ((from_table ''reservation_request_processing_attempts'')
      \<lparr>sq_where := where_object [(''reservation_request_id'', P_Text reservationRequestId)],
       sq_order := [col ''id'']\<rparr>))) (\<lambda>rows.
    lift (map_err to_processing_attempt rows))"

definition fail_expired_claim_after_budget :: "'d engine \<Rightarrow> row \<Rightarrow> string \<Rightarrow> ('d, unit) io" where
  "fail_expired_claim_after_budget E r failedAt =
    then_io (eg_run E (Update ''reservation_requests'' (where_object [(''id'', P_Text (as_text (r ''id'')))])
      ([(''status'', P_Text (status_str FAILED))] @ cleared_claim_columns @
       [(''processed_at'', P_Text failedAt), (''updated_at'', P_Text failedAt)])))
    (bind_io (lift (create_reservation_request_id (as_text (r ''id'')))) (\<lambda>i.
     bind_io (lift (to_reservation_request_sequence (r ''sequence''))) (\<lambda>n.
     insert_processing_attempt E (Failed_Attempt \<lparr>at_reservationRequestId = i, at_sequence = n, at_startedAt = failedAt,
       at_completedAt = failedAt, at_failureReason = Lease_Timeout\<rparr>))))"

section \<open>Claims and leases\<close>

definition claimable_condition :: "claim_input \<Rightarrow> cond" where
  "claimable_condition input =
    C_Or (C_And (C_Eq (col ''status'') (P_Text (status_str REQUESTED)))
                (C_Less (col ''transient_failure_count'') (P_Number (ci_maxTransientFailures input))))
         (C_And (C_Eq (col ''status'') (P_Text (status_str PROCESSING)))
                (C_Or (C_Null (col ''claim_expires_at''))
                      (C_Less_Eq (col ''claim_expires_at'') (P_Text (ci_claimedAt input)))))"

definition find_next_claimable_row :: "'d engine \<Rightarrow> claim_input \<Rightarrow> ('d, row option) io" where
  "find_next_claimable_row E input = run_first E ((from_table ''reservation_requests'')
     \<lparr>sq_where := [claimable_condition input], sq_order := [col ''sequence''], sq_lock := For_Update_Skip_Locked\<rparr>)"

definition claim_columns :: "claim_input \<Rightarrow> bool \<Rightarrow> (string \<times> param) list" where
  "claim_columns input incrementLeaseTimeoutCount =
    [(''status'', P_Text (status_str PROCESSING)), (''claimed_by'', P_Text (ci_workerId input)),
     (''claim_token'', P_Text (ci_claimToken input)), (''claimed_at'', P_Text (ci_claimedAt input)),
     (''claim_expires_at'', P_Text (ci_claimExpiresAt input)), (''last_heartbeat_at'', P_Text (ci_claimedAt input))] @
    (if incrementLeaseTimeoutCount then [(''lease_timeout_count'', P_Plus_One)] else []) @
    [(''updated_at'', P_Text (ci_claimedAt input))]"

definition claim_reservation_request_row :: "'d engine \<Rightarrow> row \<Rightarrow> claim_input \<Rightarrow> bool \<Rightarrow> ('d, row) io" where
  "claim_reservation_request_row E r input incrementLeaseTimeoutCount =
    bind_io (eg_run E (Update ''reservation_requests'' (where_object [(''id'', P_Text (as_text (r ''id'')))])
      (claim_columns input incrementLeaseTimeoutCount))) (\<lambda>updatedRows.
    lift (require_single_row updatedRows (''Reservation request '' @ as_text (r ''id'') @ '' was not claimed'')))"

text \<open>\<open>toIsoString(v ?? fallback)\<close>\<close>

definition iso_or :: "sql_value \<Rightarrow> string \<Rightarrow> js_error + string" where
  "iso_or v fallback = sql_iso_string (if v = SQL_Null then SQL_Text fallback else v)"

definition claimed_work_item_of :: "claim_input \<Rightarrow> row \<Rightarrow> id list \<Rightarrow> js_error + claimed_reservation_request" where
  "claimed_work_item_of input r seatIds =
    bind_err (to_reservation_request r seatIds) (\<lambda>q.
    bind_err (to_reservation_request_sequence (r ''sequence'')) (\<lambda>n.
    bind_err (iso_or (r ''claimed_at'') (ci_claimedAt input)) (\<lambda>a.
    bind_err (iso_or (r ''claim_expires_at'') (ci_claimExpiresAt input)) (\<lambda>x.
    Inr \<lparr>cl_reservationRequest = q, cl_observabilityContext = to_reservation_work_observability_context r,
      cl_sequence = n, cl_claimedBy = ci_workerId input, cl_claimToken = ci_claimToken input, cl_claimedAt = a,
      cl_claimExpiresAt = x, cl_leaseTimeoutCount = as_number (r ''lease_timeout_count''),
      cl_transientFailureCount = as_number (r ''transient_failure_count'')\<rparr>))))"

definition pg_claim_next :: "'d engine \<Rightarrow> claim_input \<Rightarrow> ('d, claimed_reservation_request option) io" where
  "pg_claim_next E input = transaction E
    (bind_io (find_next_claimable_row E input) (\<lambda>selected.
     case selected of
       None \<Rightarrow> ret None
     | Some r \<Rightarrow>
         (let isLeaseTimeoutReclaim = (r ''status'' = SQL_Text (status_str PROCESSING)) in
          if isLeaseTimeoutReclaim \<and> as_number (r ''lease_timeout_count'') \<ge> ci_maxLeaseTimeouts input
          then then_io (fail_expired_claim_after_budget E r (ci_claimedAt input)) (ret None)
          else
            bind_io (claim_reservation_request_row E r input isLeaseTimeoutReclaim) (\<lambda>updated.
            bind_io (find_reservation_request_seat_ids E (as_text (updated ''id''))) (\<lambda>seatIds.
            bind_io (lift (claimed_work_item_of input updated seatIds)) (\<lambda>c. ret (Some c)))))))"

definition pg_heartbeat :: "'d engine \<Rightarrow> heartbeat_input \<Rightarrow> ('d, bool) io" where
  "pg_heartbeat E input =
    bind_io (eg_run E (Update ''reservation_requests''
      (where_object [(''id'', P_Text (rr_id (cl_reservationRequest (hb_claimedWorkItem input)))),
         (''status'', P_Text (status_str PROCESSING)), (''claimed_by'', P_Text (cl_claimedBy (hb_claimedWorkItem input))),
         (''claim_token'', P_Text (cl_claimToken (hb_claimedWorkItem input)))])
      [(''claim_expires_at'', P_Text (hb_claimExpiresAt input)), (''last_heartbeat_at'', P_Text (hb_heartbeatAt input)),
       (''updated_at'', P_Text (hb_heartbeatAt input))])) (\<lambda>updatedRows.
    ret (length updatedRows = 1))"

section \<open>Confirmed reservations\<close>

definition pg_find_conflict :: "'d engine \<Rightarrow> id \<Rightarrow> id list \<Rightarrow> ('d, reservation option) io" where
  "pg_find_conflict E screeningId seatIds =
    bind_io (run_first E ((from_table ''reservation_seats'')
      \<lparr>sq_output := Columns [(''reservation_id'', col ''reservation_id'')],
       sq_where := [C_Eq (col ''screening_id'') (P_Text screeningId), C_In (col ''seat_id'') (List.map P_Text seatIds)],
       sq_order := [col ''reservation_id'']\<rparr>)) (\<lambda>seatRow.
    case seatRow of
      None \<Rightarrow> ret None
    | Some s \<Rightarrow>
        bind_io (run_first E ((from_table ''reservations'')
          \<lparr>sq_where := where_object [(''id'', P_Text (as_text (s ''reservation_id'')))]\<rparr>)) (\<lambda>found.
        case found of
          None \<Rightarrow> throw (Error (''Confirmed reservation '' @ as_text (s ''reservation_id'') @ '' was not found''))
        | Some r \<Rightarrow>
            bind_io (find_reservation_seat_ids E (as_text (r ''id''))) (\<lambda>ids.
            bind_io (lift (to_reservation r ids)) (\<lambda>v. ret (Some v)))))"

definition require_screening_row_for_provider :: "'d engine \<Rightarrow> id \<Rightarrow> id \<Rightarrow> ('d, row) io" where
  "require_screening_row_for_provider E movieProviderId screeningId =
    bind_io (run_first E ((from_table ''screenings'')
      \<lparr>sq_where := where_object [(''id'', P_Text screeningId), (''movie_provider_id'', P_Text movieProviderId)]\<rparr>)) (\<lambda>found.
    case found of None \<Rightarrow> throw (Error (''Screening '' @ screeningId @ '' was not found'')) | Some r \<Rightarrow> ret r)"

definition reservation_values :: "reservation \<Rightarrow> (string \<times> param) list" where
  "reservation_values v =
    [(''id'', P_Text (rv_id v)), (''movie_provider_id'', P_Text (rv_movieProviderId v)),
     (''reservation_request_id'', P_Text (rv_reservationRequestId v)), (''screening_id'', P_Text (rv_screeningId v)),
     (''reserved_by_user_id'', P_Text (rv_reservedByUserId v)), (''confirmed_at'', P_Text (rv_confirmedAt v))]"

definition reservation_seat_values :: "reservation \<Rightarrow> row \<Rightarrow> id \<Rightarrow> (string \<times> param) list" where
  "reservation_seat_values v screeningRow seatId =
    [(''reservation_id'', P_Text (rv_id v)), (''movie_provider_id'', P_Text (rv_movieProviderId v)),
     (''screening_id'', P_Text (rv_screeningId v)), (''auditorium_id'', P_Text (as_text (screeningRow ''auditorium_id''))),
     (''seat_id'', P_Text seatId)]"

definition insert_reservation :: "'d engine \<Rightarrow> reservation \<Rightarrow> ('d, unit) io" where
  "insert_reservation E v =
    bind_io (require_screening_row_for_provider E (rv_movieProviderId v) (rv_screeningId v)) (\<lambda>screeningRow.
    then_io (eg_run E (Insert ''reservations'' [reservation_values v]))
    (bind_io (eg_run E (Insert ''reservation_seats'' (List.map (reservation_seat_values v screeningRow) (rv_seatIds v))))
      (\<lambda>_. ret ())))"

section \<open>The facade\<close>

definition handle_confirm_error :: "'d engine \<Rightarrow> js_error \<Rightarrow> confirm_input \<Rightarrow> ('d, confirm_result) io" where
  "handle_confirm_error E error input =
    (if \<not> is_postgres_unique_violation E error ''reservation_seats_screening_id_seat_id_unique'' then throw error
     else bind_io (pg_find_conflict E (rv_screeningId (co_reservation input)) (rv_seatIds (co_reservation input))) (\<lambda>conflict.
       case conflict of
         None \<Rightarrow> throw error
       | Some v \<Rightarrow>
           (let c = co_claimedWorkItem input;
                rejectedAttempt = \<lparr>at_reservationRequestId = rr_id (cl_reservationRequest c), at_sequence = cl_sequence c,
                  at_startedAt = at_startedAt (co_attempt input), at_completedAt = at_completedAt (co_attempt input),
                  at_rejectionReason = Seat_Conflict, at_conflictingReservationId = rv_id v\<rparr> in
            bind_io (pg_reject E c rejectedAttempt) (\<lambda>rejectedRequest.
            ret (Confirm_Rejected rejectedRequest rejectedAttempt)))))"

definition pg_confirm :: "'d engine \<Rightarrow> confirm_input \<Rightarrow> ('d, confirm_result) io" where
  "pg_confirm E input =
    catch_io
      (bind_io (transaction E
        (then_io (require_claimed_processing_request E (co_claimedWorkItem input))
        (then_io (insert_reservation E (co_reservation input))
          (mark_claimed_confirmed E (co_claimedWorkItem input) (co_attempt input))))) (\<lambda>reservationRequest.
       ret (Confirm_Confirmed reservationRequest)))
      (\<lambda>error. handle_confirm_error E error input)"

definition postgres_work_repository :: "'d engine \<Rightarrow> 'd work_repository_ops" where
  "postgres_work_repository E = \<lparr>wr_claimNext = pg_claim_next E, wr_heartbeat = pg_heartbeat E,
     wr_findConflict = pg_find_conflict E, wr_confirm = pg_confirm E, wr_reject = pg_reject E,
     wr_release = pg_release E, wr_fail = pg_fail E, wr_findAttempts = pg_find_attempts E\<rparr>"

end
