(* ===== verification/Postgres_Ledger.thy ===== *)
theory Postgres_Ledger
  imports Postgres_Work Work_Contract
begin

text \<open>
  The tables seen as a ledger, the abstract state of the workflow that the in-memory store is
  an instance of too; what the declared constraints say of the rows; and that the mappers give
  the values of the ledger whenever they succeed.
\<close>

section \<open>Rows in order\<close>

text \<open>A list arranged by a total order has one arrangement only.\<close>

fun place :: "('a \<Rightarrow> 'a \<Rightarrow> bool) \<Rightarrow> 'a \<Rightarrow> 'a list \<Rightarrow> 'a list" where
  "place le x [] = [x]"
| "place le x (y # ys) = (if le x y then x # y # ys else y # place le x ys)"

definition arrange :: "('a \<Rightarrow> 'a \<Rightarrow> bool) \<Rightarrow> 'a list \<Rightarrow> 'a list" where
  "arrange le xs = foldr (place le) xs []"

lemma mset_place [simp]: "mset (place le x ys) = add_mset x (mset ys)"
  by (induction ys) auto

lemma mset_arrange [simp]: "mset (arrange le xs) = mset xs"
  unfolding arrange_def by (induction xs) auto

lemma set_arrange [simp]: "set (arrange le xs) = set xs"
  using mset_arrange by (rule mset_eq_setD)

lemma set_place [simp]: "set (place le x ys) = insert x (set ys)"
  by (induction ys) auto

lemma total_orderD:
  assumes "total_order le"
  shows "le a b \<or> le b a" "le a b \<Longrightarrow> le b a \<Longrightarrow> a = b" "le a b \<Longrightarrow> le b c \<Longrightarrow> le a c" "le a a"
  using assms unfolding total_order_def by blast+

lemma sorted_place:
  assumes "total_order le" "sorted_wrt le ys"
  shows "sorted_wrt le (place le x ys)"
  using assms(2)
proof (induction ys)
  case (Cons y ys)
  show ?case
  proof (cases "le x y")
    case True
    then show ?thesis using Cons.prems total_orderD(3) [OF assms(1) True] by auto
  next
    case False
    then have "le y x" using total_orderD(1) [OF assms(1)] by blast
    then show ?thesis using Cons False by auto
  qed
qed simp

lemma sorted_arrange: "total_order le \<Longrightarrow> sorted_wrt le (arrange le xs)"
  unfolding arrange_def by (induction xs) (auto intro: sorted_place)

lemma arrangement_unique:
  assumes "total_order le"
  shows "sorted_wrt le xs \<Longrightarrow> sorted_wrt le ys \<Longrightarrow> mset xs = mset ys \<Longrightarrow> xs = ys"
proof (induction xs arbitrary: ys)
  case (Cons x xs)
  then obtain y zs where ys: "ys = y # zs" by (cases ys) auto
  have "set (x # xs) = set (y # zs)" using Cons.prems(3) ys by (metis mset_eq_setD)
  then have "le x y \<and> le y x"
    using Cons.prems(1,2) total_orderD(4) [OF assms] unfolding ys by (metis insert_iff list.set(2) sorted_wrt.simps(2))
  then have "x = y" using total_orderD(2) [OF assms] by blast
  then show ?case using Cons ys by simp
qed simp

lemma arrange_eq: "total_order le \<Longrightarrow> sorted_wrt le ys \<Longrightarrow> mset ys = mset xs \<Longrightarrow> ys = arrange le xs"
  by (rule arrangement_unique) (auto intro: sorted_arrange)

lemma documented_convert:
  assumes "documented_conversions V"
  shows "total_order (cv_le V)" "uuid_text s \<Longrightarrow> cv_uuid V s = Some s"
    "cv_uuid V s' = Some u \<Longrightarrow> uuid_text u" "date_get_time s'' = Some n \<Longrightarrow> cv_timestamptz V s'' = Some n"
  using assms by (simp_all add: documented_conversions_def)

section \<open>What the constraints say\<close>

definition table_constraints :: "schema \<Rightarrow> string \<Rightarrow> table_constraint list" where
  "table_constraints S tab = (case List.find (\<lambda>s. ts_name s = tab) S of None \<Rightarrow> [] | Some s \<Rightarrow> ts_constraints s)"

lemma find_Some_mem: "List.find P xs = Some x \<Longrightarrow> x \<in> set xs \<and> P x"
  by (induction xs) (auto split: if_splits)

lemma schema_column:
  assumes "schema_ok S t" "find_column S tab c = Some k" "r \<in> set (t tab)"
  shows "has_type (cn_type k) (r c)" "cn_notNull k \<Longrightarrow> r c \<noteq> SQL_Null"
proof -
  obtain s where "List.find (\<lambda>s. ts_name s = tab) S = Some s" "List.find (\<lambda>k. cn_name k = c) (ts_columns s) = Some k"
    using assms(2) by (auto simp: find_column_def bind_eq_Some_conv)
  then have "s \<in> set S" "ts_name s = tab" "k \<in> set (ts_columns s)" "cn_name k = c"
    using find_Some_mem by fastforce+
  with assms show "has_type (cn_type k) (r c)" "cn_notNull k \<Longrightarrow> r c \<noteq> SQL_Null"
    by (auto simp: schema_ok_def table_ok_def list_all_iff)
qed

lemma schema_constraint:
  assumes "schema_ok S t" "k \<in> set (table_constraints S tab)"
  shows "constraint_holds t (t tab) k"
proof -
  obtain s where "List.find (\<lambda>s. ts_name s = tab) S = Some s" "k \<in> set (ts_constraints s)"
    using assms(2) by (cases "List.find (\<lambda>s. ts_name s = tab) S") (auto simp: table_constraints_def)
  then show ?thesis using find_Some_mem [of "\<lambda>s. ts_name s = tab" S s] assms(1)
    by (auto simp: schema_ok_def table_ok_def list_all_iff)
qed

lemma uuid_value:
  assumes "schema_ok S t" "find_column S tab c = Some k" "cn_type k = T_Uuid" "cn_notNull k" "r \<in> set (t tab)"
  obtains u where "r c = SQL_Text u" "uuid_text u"
  using schema_column [OF assms(1,2,5)] assms(3,4) that by (cases "r c") auto

lemma text_value:
  assumes "schema_ok S t" "find_column S tab c = Some k" "cn_type k = T_Text" "cn_notNull k" "r \<in> set (t tab)"
  obtains u where "r c = SQL_Text u"
  using schema_column [OF assms(1,2,5)] assms(3,4) that by (cases "r c") auto

lemma unique_column:
  assumes "schema_ok S t" "Unique n [c] \<in> set (table_constraints S tab)" "find_column S tab c = Some k" "cn_notNull k"
  shows "distinct (List.map (\<lambda>r. r c) (t tab))"
proof -
  have "distinct (filter no_null (List.map (key_of [c]) (t tab)))"
    using schema_constraint [OF assms(1,2)] by simp
  moreover have "filter no_null (List.map (key_of [c]) (t tab)) = List.map (key_of [c]) (t tab)"
    using schema_column(2) [OF assms(1,3) _ assms(4)] by (force simp: filter_id_conv key_of_def no_null_def)
  ultimately have "distinct (List.map (\<lambda>r. [r c]) (t tab))" by (simp add: key_of_def [abs_def])
  then have "distinct (List.map (\<lambda>x. [x]) (List.map (\<lambda>r. r c) (t tab)))" by (simp add: comp_def)
  then show ?thesis by (simp only: distinct_map)
qed

lemma unique_columns:
  assumes "schema_ok S t" "Unique n [a, b] \<in> set (table_constraints S tab)"
    "find_column S tab a = Some k" "cn_notNull k" "find_column S tab b = Some l" "cn_notNull l"
  shows "distinct (List.map (\<lambda>r. (r a, r b)) (t tab))"
proof -
  have "distinct (filter no_null (List.map (key_of [a, b]) (t tab)))"
    using schema_constraint [OF assms(1,2)] by simp
  moreover have "filter no_null (List.map (key_of [a, b]) (t tab)) = List.map (key_of [a, b]) (t tab)"
    using schema_column(2) [OF assms(1,3) _ assms(4)] schema_column(2) [OF assms(1,5) _ assms(6)]
    by (force simp: filter_id_conv key_of_def no_null_def)
  ultimately have "distinct (List.map (\<lambda>r. [r a, r b]) (t tab))" by (simp add: key_of_def [abs_def])
  then have "distinct (List.map (\<lambda>(x, y). [x, y]) (List.map (\<lambda>r. (r a, r b)) (t tab)))" by (simp add: comp_def)
  then show ?thesis by (simp only: distinct_map)
qed

text \<open>The columns the proofs speak of.\<close>

lemma service_columns:
  "find_column service_schema ''reservation_requests'' ''id'' = Some (uuid_column ''id'')"
  "find_column service_schema ''reservation_requests'' ''movie_provider_id'' = Some (uuid_column ''movie_provider_id'')"
  "find_column service_schema ''reservation_requests'' ''screening_id'' = Some (uuid_column ''screening_id'')"
  "find_column service_schema ''reservation_requests'' ''requested_by_user_id'' = Some (text_column ''requested_by_user_id'')"
  "find_column service_schema ''reservation_requests'' ''status'' = Some (text_column ''status'')"
  "find_column service_schema ''reservation_requests'' ''sequence'' = Some (generated_column ''sequence'')"
  "find_column service_schema ''reservation_request_seats'' ''reservation_request_id'' = Some (uuid_column ''reservation_request_id'')"
  "find_column service_schema ''reservation_request_seats'' ''seat_id'' = Some (uuid_column ''seat_id'')"
  "find_column service_schema ''reservations'' ''id'' = Some (uuid_column ''id'')"
  "find_column service_schema ''reservations'' ''movie_provider_id'' = Some (uuid_column ''movie_provider_id'')"
  "find_column service_schema ''reservations'' ''reservation_request_id'' = Some (uuid_column ''reservation_request_id'')"
  "find_column service_schema ''reservations'' ''screening_id'' = Some (uuid_column ''screening_id'')"
  "find_column service_schema ''reservations'' ''reserved_by_user_id'' = Some (text_column ''reserved_by_user_id'')"
  "find_column service_schema ''reservations'' ''confirmed_at'' = Some (timestamp_column ''confirmed_at'')"
  "find_column service_schema ''reservation_seats'' ''reservation_id'' = Some (uuid_column ''reservation_id'')"
  "find_column service_schema ''reservation_seats'' ''screening_id'' = Some (uuid_column ''screening_id'')"
  "find_column service_schema ''reservation_seats'' ''seat_id'' = Some (uuid_column ''seat_id'')"
  "find_column service_schema ''reservation_request_processing_attempts'' ''reservation_request_id'' =
     Some (uuid_column ''reservation_request_id'')"
  "find_column service_schema ''reservation_seats'' ''movie_provider_id'' = Some (uuid_column ''movie_provider_id'')"
  by code_simp+

text \<open>The keys that keep rows apart.\<close>

lemma service_keys:
  "Unique ''reservation_requests_pkey'' [''id''] \<in> set (table_constraints service_schema ''reservation_requests'')"
  "text_enum_constraint ''status'' reservation_request_statuses \<in> set (table_constraints service_schema ''reservation_requests'')"
  "Unique ''reservation_request_seats_pkey'' [''reservation_request_id'', ''seat_id'']
     \<in> set (table_constraints service_schema ''reservation_request_seats'')"
  "Unique ''reservations_pkey'' [''id''] \<in> set (table_constraints service_schema ''reservations'')"
  "Unique ''reservations_reservation_request_id_unique'' [''reservation_request_id'']
     \<in> set (table_constraints service_schema ''reservations'')"
  "Unique ''reservation_seats_pkey'' [''reservation_id'', ''seat_id''] \<in> set (table_constraints service_schema ''reservation_seats'')"
  "Unique ''reservation_seats_screening_id_seat_id_unique'' [''screening_id'', ''seat_id'']
     \<in> set (table_constraints service_schema ''reservation_seats'')"
  "Foreign_Key [''reservation_id'', ''movie_provider_id'', ''screening_id''] ''reservations''
     [''id'', ''movie_provider_id'', ''screening_id''] \<in> set (table_constraints service_schema ''reservation_seats'')"
  by (simp_all add: table_constraints_def service_schema_def add_observability_context_def alter_table_def
      create_movie_reservation_schema_def movie_providers_table_def movies_table_def auditoriums_table_def
      screenings_table_def seats_table_def reservation_requests_table_def reservation_request_seats_table_def
      reservations_table_def reservation_seats_table_def primary_key_def)

section \<open>The ledger of the tables\<close>

definition find_row :: "row list \<Rightarrow> id \<Rightarrow> row option" where
  "find_row rs i = List.find (\<lambda>r. r ''id'' = SQL_Text i) rs"

definition seat_ids_of :: "conversions \<Rightarrow> row list \<Rightarrow> string \<Rightarrow> id \<Rightarrow> id list" where
  "seat_ids_of V rs key i = List.map as_text (arrange (cv_le V)
     (List.map (\<lambda>r. r ''seat_id'') (filter (\<lambda>r. r key = SQL_Text i) rs)))"

definition iso_text :: "sql_value \<Rightarrow> string" where
  "iso_text v = (case sql_iso_string v of Inl e \<Rightarrow> [] | Inr s \<Rightarrow> s)"

definition optional_iso_text :: "sql_value \<Rightarrow> string option" where
  "optional_iso_text v = (if v = SQL_Null then None else Some (iso_text v))"

definition status_of :: "row \<Rightarrow> reservation_request_status" where
  "status_of r = (case parse_reservation_request_status (as_text (r ''status'')) of Inl e \<Rightarrow> REQUESTED | Inr st \<Rightarrow> st)"

definition request_of :: "conversions \<Rightarrow> tables \<Rightarrow> row \<Rightarrow> reservation_request" where
  "request_of V t r = \<lparr>rr_id = as_text (r ''id''), rr_movieProviderId = as_text (r ''movie_provider_id''),
     rr_screeningId = as_text (r ''screening_id''),
     rr_seatIds = seat_ids_of V (t ''reservation_request_seats'') ''reservation_request_id'' (as_text (r ''id'')),
     rr_requestedByUserId = js_trim (as_text (r ''requested_by_user_id'')), rr_status = status_of r\<rparr>"

definition metadata_of :: "row \<Rightarrow> work_metadata" where
  "metadata_of r = \<lparr>md_sequence = as_number (r ''sequence''),
     md_observabilityContext = to_reservation_work_observability_context r,
     md_leaseTimeoutCount = as_number (r ''lease_timeout_count''),
     md_transientFailureCount = as_number (r ''transient_failure_count''),
     md_claimedBy = as_optional_text (r ''claimed_by''), md_claimToken = as_optional_text (r ''claim_token''),
     md_claimedAt = optional_iso_text (r ''claimed_at''), md_claimExpiresAt = optional_iso_text (r ''claim_expires_at''),
     md_lastHeartbeatAt = optional_iso_text (r ''last_heartbeat_at'')\<rparr>"

definition reservation_of :: "conversions \<Rightarrow> tables \<Rightarrow> row \<Rightarrow> reservation" where
  "reservation_of V t r = \<lparr>rv_id = as_text (r ''id''), rv_movieProviderId = as_text (r ''movie_provider_id''),
     rv_reservationRequestId = as_text (r ''reservation_request_id''), rv_screeningId = as_text (r ''screening_id''),
     rv_seatIds = seat_ids_of V (t ''reservation_seats'') ''reservation_id'' (as_text (r ''id'')),
     rv_reservedByUserId = js_trim (as_text (r ''reserved_by_user_id'')), rv_confirmedAt = iso_text (r ''confirmed_at'')\<rparr>"

text \<open>The attempt in a row; none when the row is malformed.\<close>

definition attempt_of :: "row \<Rightarrow> processing_attempt option" where
  "attempt_of r =
    (let b = \<lparr>at_reservationRequestId = as_text (r ''reservation_request_id''),
           at_sequence = as_number (r ''reservation_request_sequence''), at_startedAt = iso_text (r ''started_at''),
           at_completedAt = iso_text (r ''completed_at'')\<rparr> in
     if r ''outcome'' = SQL_Text ''confirmed''
     then Some (Confirmed_Attempt (processing_attempt_base.extend b \<lparr>at_reservationId = as_text (r ''reservation_id''), \<dots> = ()\<rparr>))
     else if r ''outcome'' = SQL_Text ''rejected'' \<and> r ''reason'' = SQL_Text ''seat-conflict''
     then Some (Rejected_Attempt (processing_attempt_base.extend b \<lparr>at_rejectionReason = Seat_Conflict,
       at_conflictingReservationId = as_text (r ''conflicting_reservation_id''), \<dots> = ()\<rparr>))
     else if r ''outcome'' = SQL_Text ''failed'' \<and> r ''reason'' = SQL_Text ''unexpected-error''
     then Some (Failed_Attempt (processing_attempt_base.extend b \<lparr>at_failureReason = Unexpected_Error, \<dots> = ()\<rparr>))
     else if r ''outcome'' = SQL_Text ''failed'' \<and> r ''reason'' = SQL_Text ''lease-timeout''
     then Some (Failed_Attempt (processing_attempt_base.extend b \<lparr>at_failureReason = Lease_Timeout, \<dots> = ()\<rparr>))
     else None)"

definition attempts_of :: "row list \<Rightarrow> id \<Rightarrow> processing_attempt list" where
  "attempts_of rs i = List.map_filter attempt_of (filter (\<lambda>r. r ''reservation_request_id'' = SQL_Text i) rs)"

definition next_sequence :: "row list \<Rightarrow> int" where
  "next_sequence rs = foldr max (List.map (\<lambda>r. as_number (r ''sequence'')) rs) 0 + 1"

definition ledger_of :: "conversions \<Rightarrow> tables \<Rightarrow> ledger" where
  "ledger_of V t = \<lparr>lg_request = (\<lambda>i. map_option (request_of V t) (find_row (t ''reservation_requests'') i)),
     lg_metadata = (\<lambda>i. map_option metadata_of (find_row (t ''reservation_requests'') i)),
     lg_reservation = (\<lambda>i. map_option (reservation_of V t) (find_row (t ''reservations'') i)),
     lg_attempts = attempts_of (t ''reservation_request_processing_attempts''),
     lg_next = next_sequence (t ''reservation_requests'')\<rparr>"

section \<open>Rows by id\<close>

lemma find_row_Some: "find_row rs i = Some r \<Longrightarrow> r \<in> set rs \<and> r ''id'' = SQL_Text i"
  unfolding find_row_def by (rule find_Some_mem)

lemma find_row_None: "find_row rs i = None \<longleftrightarrow> (\<forall>r \<in> set rs. r ''id'' \<noteq> SQL_Text i)"
  unfolding find_row_def by (induction rs) auto

lemma find_row_unique:
  assumes "distinct (List.map (\<lambda>r. r ''id'') rs)" "r \<in> set rs" "r ''id'' = SQL_Text i"
  shows "find_row rs i = Some r"
proof -
  have "find_row rs i \<noteq> None" using assms(2,3) by (auto simp: find_row_None)
  then obtain q where q: "find_row rs i = Some q" by blast
  from find_row_Some [OF q] assms have "q = r" by (auto simp: distinct_map inj_on_def)
  then show ?thesis using q by simp
qed

lemma find_row_append: "find_row (xs @ ys) i = (case find_row xs i of None \<Rightarrow> find_row ys i | Some r \<Rightarrow> Some r)"
  unfolding find_row_def by (induction xs) auto

text \<open>Replacing the row with the id \<open>i\<close>.\<close>

definition put_row :: "id \<Rightarrow> row \<Rightarrow> row list \<Rightarrow> row list" where
  "put_row i r' rs = List.map (\<lambda>r. if r ''id'' = SQL_Text i then r' else r) rs"

lemma find_row_put:
  assumes "r' ''id'' = SQL_Text i"
  shows "find_row (put_row i r' rs) j = (if j = i \<and> find_row rs i \<noteq> None then Some r' else find_row rs j)"
  using assms unfolding put_row_def find_row_def by (induction rs) auto

lemma rows_with_id:
  assumes "distinct (List.map (\<lambda>r. r ''id'') rs)"
  shows "filter (\<lambda>r. r ''id'' = SQL_Text i) rs = (case find_row rs i of None \<Rightarrow> [] | Some r \<Rightarrow> [r])"
  using assms
proof (induction rs)
  case (Cons r rs)
  show ?case
  proof (cases "r ''id'' = SQL_Text i")
    case True
    then have "filter (\<lambda>r. r ''id'' = SQL_Text i) rs = []"
      using Cons.prems by (auto simp: filter_empty_conv image_iff)
    then show ?thesis using True by (simp add: find_row_def)
  qed (use Cons in \<open>simp add: find_row_def\<close>)
qed (simp add: find_row_def)

section \<open>The mappers give the values of the ledger\<close>

lemma uuid_text_fixed:
  assumes "uuid_text u"
  shows "js_trim u = u" "js_lower u = u"
proof -
  have c: "list_all (\<lambda>c. is_hex_lower c \<or> is_dash c) u"
    using assms unfolding uuid_text_def
    by (rule matches_classes_all) (auto simp: uuid_hex_pattern_def)
  then show "js_trim u = u" by (intro js_trim_id) (force simp: list_all_iff class_defs)
  show "js_lower u = u"
    unfolding js_lower_def using c hex_lower_fixed by (induction u) (auto simp: is_dash_def lower_char_def class_defs)
qed

lemma create_uuid_fixed: "uuid_text u \<Longrightarrow> create_uuid_id u n = Inr v \<Longrightarrow> v = u"
  by (simp add: create_uuid_id_Inr uuid_text_fixed)

lemmas create_id_defs = create_movie_provider_id_def create_screening_id_def create_seat_id_def
  create_reservation_id_def create_reservation_request_id_def

lemma create_user_fixed: "create_user_id s = Inr v \<Longrightarrow> v = js_trim s"
  by (auto simp: create_user_id_def Let_def split: if_splits)

lemma parse_status_of: "parse_reservation_request_status (as_text (r ''status'')) = Inr st \<Longrightarrow> st = status_of r"
  by (simp add: status_of_def)

lemma request_row_ids:
  assumes "schema_ok service_schema t" "r \<in> set (t ''reservation_requests'')"
  shows "r ''id'' = SQL_Text (as_text (r ''id''))" "uuid_text (as_text (r ''id''))"
    "uuid_text (as_text (r ''movie_provider_id''))" "uuid_text (as_text (r ''screening_id''))"
  by (rule uuid_value [OF assms(1) service_columns(1) _ _ assms(2)]
      uuid_value [OF assms(1) service_columns(2) _ _ assms(2)]
      uuid_value [OF assms(1) service_columns(3) _ _ assms(2)]; simp add: uuid_column_def)+

lemma reservation_row_ids:
  assumes "schema_ok service_schema t" "r \<in> set (t ''reservations'')"
  shows "r ''id'' = SQL_Text (as_text (r ''id''))" "uuid_text (as_text (r ''id''))"
    "uuid_text (as_text (r ''movie_provider_id''))" "uuid_text (as_text (r ''reservation_request_id''))"
    "uuid_text (as_text (r ''screening_id''))"
  by (rule uuid_value [OF assms(1) service_columns(9) _ _ assms(2)]
      uuid_value [OF assms(1) service_columns(10) _ _ assms(2)]
      uuid_value [OF assms(1) service_columns(11) _ _ assms(2)]
      uuid_value [OF assms(1) service_columns(12) _ _ assms(2)]; simp add: uuid_column_def)+

lemma to_reservation_request_value:
  assumes "schema_ok service_schema t" "r \<in> set (t ''reservation_requests'')"
    "to_reservation_request r (seat_ids_of V (t ''reservation_request_seats'') ''reservation_request_id'' (as_text (r ''id''))) = Inr q"
  shows "q = request_of V t r"
  using assms(3) request_row_ids [OF assms(1,2)] create_uuid_fixed
  by (auto simp: to_reservation_request_def bind_err_Inr create_id_defs request_of_def
      dest!: create_user_fixed parse_status_of)

lemma to_reservation_value:
  assumes "schema_ok service_schema t" "r \<in> set (t ''reservations'')"
    "to_reservation r (seat_ids_of V (t ''reservation_seats'') ''reservation_id'' (as_text (r ''id''))) = Inr v"
  shows "v = reservation_of V t r"
  using assms(3) reservation_row_ids [OF assms(1,2)] create_uuid_fixed
  by (auto simp: to_reservation_def bind_err_Inr create_id_defs reservation_of_def create_reservation_Inr iso_text_def
      dest!: create_user_fixed)

end
