(* ===== verification/Postgres_Effects.thy ===== *)
theory Postgres_Effects
  imports Postgres_Ledger
begin

text \<open>
  Rules for code that runs statements, in the order the code is composed, and the effect of each
  statement of the work repository on the rows and on the ledger.
\<close>

section \<open>Rules\<close>

text \<open>
  \<open>gives T K m t P\<close>: run on tables \<open>t\<close> inside a transaction, if \<open>m\<close> returns a value,
  \<open>P\<close> holds of it and of the tables it leaves. What the tables were when the transaction began is not
  touched.
\<close>

definition gives :: "('d \<Rightarrow> tables) \<Rightarrow> ('d \<Rightarrow> tables) \<Rightarrow> ('d, 'a) io \<Rightarrow> tables \<Rightarrow> ('a \<Rightarrow> tables \<Rightarrow> bool) \<Rightarrow> bool" where
  "gives T K m t P \<longleftrightarrow> (\<forall>d r d'. T d = t \<longrightarrow> m d = (r, d') \<longrightarrow> K d' = K d \<and> (\<forall>x. r = Inr x \<longrightarrow> P x (T d')))"

lemma givesD: "gives T K m t P \<Longrightarrow> T d = t \<Longrightarrow> m d = (r, d') \<Longrightarrow> K d' = K d \<and> (\<forall>x. r = Inr x \<longrightarrow> P x (T d'))"
  unfolding gives_def by blast

lemma gives_pure:
  "P x t \<Longrightarrow> gives T K (ret x) t P" "gives T K (throw e) t P" "(\<And>x. r = Inr x \<Longrightarrow> P x t) \<Longrightarrow> gives T K (lift r) t P"
  by (auto simp: gives_def)

lemma gives_mono: "gives T K m t P \<Longrightarrow> (\<And>x t'. P x t' \<Longrightarrow> Q x t') \<Longrightarrow> gives T K m t Q"
  unfolding gives_def by blast

lemma gives_bind:
  assumes "gives T K m t P" "\<And>x t'. P x t' \<Longrightarrow> gives T K (f x) t' Q"
  shows "gives T K (bind_io m f) t Q"
  unfolding gives_def
proof (intro allI impI)
  fix d r d' assume d: "T d = t" "bind_io m f d = (r, d')"
  from d(2) show "K d' = K d \<and> (\<forall>x. r = Inr x \<longrightarrow> Q x (T d'))"
  proof (cases rule: bind_io_cases)
    case (error e)
    then show ?thesis using givesD [OF assms(1) d(1) error(1)] by simp
  next
    case (ok x v)
    then have "K v = K d" "P x (T v)" using givesD [OF assms(1) d(1) ok(1)] by auto
    then show ?thesis using givesD [OF assms(2) refl ok(2)] by auto
  qed
qed

lemma gives_then: "gives T K m t P \<Longrightarrow> (\<And>x t'. P x t' \<Longrightarrow> gives T K k t' Q) \<Longrightarrow> gives T K (then_io m k) t Q"
  by (simp add: gives_bind)

lemma gives_lift_bind: "(\<And>x. r = Inr x \<Longrightarrow> gives T K (f x) t P) \<Longrightarrow> gives T K (bind_io (lift r) f) t P"
  by (rule gives_bind [where P = "\<lambda>x t'. r = Inr x \<and> t' = t"]) (auto intro: gives_pure)

lemma statement_runs:
  assumes "documented_sql V S E T K" "eg_run E st d = (r, d')"
  shows "K d' = K d" "case r of Inl e \<Rightarrow> T d' = T d
    | Inr rows \<Rightarrow> effect_of V S st (T d) rows (T d') \<and> (schema_ok S (T d) \<longrightarrow> schema_ok S (T d'))"
  using assms unfolding documented_sql_def by (metis fst_conv snd_conv)+

lemma gives_run:
  assumes "documented_sql V S E T K" "schema_ok S t"
    "\<And>rows t'. effect_of V S st t rows t' \<Longrightarrow> schema_ok S t' \<Longrightarrow> P rows t'"
  shows "gives T K (eg_run E st) t P"
  unfolding gives_def using assms(2,3) statement_runs [OF assms(1)] by fastforce

text \<open>A transaction leaves the tables alone unless it returns.\<close>

lemma transaction_gives:
  assumes doc: "documented_sql V S E T K" and "gives T K callback (T d) P"
    and run: "transaction E callback d = (r, d')"
  shows "case r of Inl e \<Rightarrow> T d' = T d | Inr x \<Rightarrow> P x (T d')"
proof -
  obtain b d1 where b: "eg_begin E d = (b, d1)" by fastforce
  have B: "T d1 = T d" "b = Inr () \<Longrightarrow> K d1 = T d"
    using doc b unfolding documented_sql_def by (metis fst_conv snd_conv)+
  show ?thesis
  proof (cases b)
    case (Inl e)
    then show ?thesis using run b B by (auto simp: transaction_def bind_io_def)
  next
    case (Inr u)
    obtain x d2 where c: "callback d1 = (x, d2)" by fastforce
    have C: "K d2 = T d" "\<And>y. x = Inr y \<Longrightarrow> P y (T d2)"
      using givesD [OF assms(2) B(1) c] B(2) Inr by auto
    show ?thesis
    proof (cases x)
      case (Inl e)
      obtain z d3 where z: "eg_rollback E d2 = (z, d3)" by fastforce
      then have "T d3 = T d" using doc C unfolding documented_sql_def by (metis snd_conv)
      then show ?thesis
        using run b c z Inl \<open>b = Inr u\<close> by (cases z) (auto simp: transaction_def bind_io_def catch_io_def)
    next
      case (Inr y)
      obtain z d3 where z: "eg_commit E d2 = (z, d3)" by fastforce
      have "T d3 = (if z = Inr () then T d2 else K d2)"
        using doc z unfolding documented_sql_def by (metis fst_conv snd_conv)
      then show ?thesis
        using run b c z Inr \<open>b = Inr u\<close> C by (cases z) (auto simp: transaction_def bind_io_def catch_io_def)
    qed
  qed
qed

section \<open>Plain queries\<close>

definition single :: "row \<Rightarrow> joined" where
  "single r = (\<lambda>_. null_row)('''' := r)"

lemma single_alias [simp]: "single r '''' = r"
  by (simp add: single_def)

definition columns_le :: "conversions \<Rightarrow> string list \<Rightarrow> row \<Rightarrow> row \<Rightarrow> bool" where
  "columns_le V cs a b \<longleftrightarrow> lex_le (cv_le V) (List.map a cs) (List.map b cs)"

lemma plain_result:
  assumes res: "is_result V S q t rows" and src: "sq_source q = From tab ''''" and ord: "sq_order q = List.map col cs"
  obtains rs where "sq_lock q \<noteq> For_Update_Skip_Locked \<Longrightarrow> mset rs = mset (filter (row_matches V S tab (sq_where q)) (t tab))"
    "set rs \<subseteq> {r \<in> set (t tab). row_matches V S tab (sq_where q) r}"
    "sorted_wrt (columns_le V cs) rs"
    "rows = List.map (\<lambda>r. project (sq_output q) (single r)) (if sq_first q then take 1 rs else rs)"
proof -
  let ?rs = "filter (row_matches V S tab (sq_where q)) (t tab)"
  have m: "matching V S q t = List.map single ?rs"
    by (simp add: matching_def src row_matches_def [abs_def] single_def [abs_def] filter_map comp_def)
  obtain js where js: "if sq_lock q = For_Update_Skip_Locked then mset js \<subseteq># mset (List.map single ?rs)
      else mset js = mset (List.map single ?rs)"
    "sorted_wrt (\<lambda>a b. lex_le (cv_le V) (order_keys (sq_order q) a) (order_keys (sq_order q) b)) js"
    "rows = List.map (project (sq_output q)) (if sq_first q then take 1 js else js)"
    using res unfolding is_result_def m by blast
  let ?qs = "List.map (\<lambda>j. j '''') js"
  have "set js \<subseteq> set (List.map single ?rs)"
    using js(1) by (metis (full_types) set_mset_mono set_mset_mset order_refl)
  then have all: "single (j '''') = j" if "j \<in> set js" for j using that by auto
  then have js_single: "js = List.map single ?qs" by (auto intro!: map_idI [symmetric] simp: comp_def)
  have "mset (List.map single ?rs) = image_mset single (mset ?rs)" by simp
  then have "image_mset (\<lambda>j. j '''') (mset (List.map single ?rs)) = mset ?rs"
    by (simp add: multiset.map_comp comp_def)
  then have 1: "sq_lock q \<noteq> For_Update_Skip_Locked \<Longrightarrow> mset ?qs = mset ?rs"
    using js(1) by (metis mset_map)
  have 2: "set ?qs \<subseteq> {r \<in> set (t tab). row_matches V S tab (sq_where q) r}"
    using \<open>set js \<subseteq> set (List.map single ?rs)\<close> by auto
  have "order_keys (sq_order q) (single r) = List.map r cs" for r
    by (simp add: order_keys_def ord col_def comp_def)
  then have "sorted_wrt (columns_le V cs) ?qs"
    using js(2) by (subst (asm) js_single) (simp add: sorted_wrt_map columns_le_def [abs_def])
  moreover have "rows = List.map (\<lambda>r. project (sq_output q) (single r)) (if sq_first q then take 1 ?qs else ?qs)"
    by (auto simp: js(3) take_map all dest: in_set_takeD)
  ultimately show ?thesis using 1 2 that by blast
qed

text \<open>Conditions on a row.\<close>

lemma row_matches_Nil [simp]: "row_matches V S tab [] r"
  by (simp add: row_matches_def)

lemma row_matches_uuid:
  assumes "documented_conversions V" "find_column S tab c = Some k" "cn_type k = T_Uuid" "uuid_text i"
  shows "row_matches V S tab (C_Eq (col c) (P_Text i) # cs) r \<longleftrightarrow> r c = SQL_Text i \<and> row_matches V S tab cs r"
  using documented_convert(2) [OF assms(1,4)] assms(2,3)
  by (auto simp: row_matches_def col_def ref_type_def column_type_def sql_eq_def)

lemma row_matches_text:
  assumes "find_column S tab c = Some k" "cn_type k = T_Text"
  shows "row_matches V S tab (C_Eq (col c) (P_Text s) # cs) r \<longleftrightarrow> r c = SQL_Text s \<and> row_matches V S tab cs r"
  using assms by (auto simp: row_matches_def col_def ref_type_def column_type_def sql_eq_def)

lemma row_matches_uuids:
  assumes "documented_conversions V" "find_column S tab c = Some k" "cn_type k = T_Uuid" "\<forall>i \<in> set is. uuid_text i"
  shows "row_matches V S tab (C_In (col c) (List.map P_Text is) # cs) r \<longleftrightarrow>
    r c \<in> SQL_Text ` set is \<and> row_matches V S tab cs r"
  using documented_convert(2) [OF assms(1)] assms(2-4)
  by (auto simp: row_matches_def col_def ref_type_def column_type_def sql_eq_def list_ex_iff)

lemma where_id: "where_object [(''id'', p)] = [C_Eq (col ''id'') p]"
  by simp

text \<open>The row with an id, in a table whose ids are unique.\<close>

definition id_table :: "string \<Rightarrow> bool" where
  "id_table tab \<longleftrightarrow> find_column service_schema tab ''id'' = Some (uuid_column ''id'') \<and>
     (\<exists>n. Unique n [''id''] \<in> set (table_constraints service_schema tab))"

lemma id_tables: "id_table ''reservation_requests''" "id_table ''reservations''"
  unfolding id_table_def using service_columns(1,9) service_keys(1,4) by blast+

lemma id_table_distinct: "id_table tab \<Longrightarrow> schema_ok service_schema t \<Longrightarrow> distinct (List.map (\<lambda>r. r ''id'') (t tab))"
  unfolding id_table_def using unique_column [of service_schema t _ "''id''" tab "uuid_column ''id''"]
  by (auto simp: uuid_column_def)

lemma id_table_find:
  assumes "id_table tab" "schema_ok service_schema t" "r \<in> set (t tab)" "r ''id'' = SQL_Text i"
  shows "find_row (t tab) i = Some r"
  by (rule find_row_unique [OF id_table_distinct [OF assms(1,2)] assms(3,4)])

lemma id_rows:
  assumes "documented_conversions V" "id_table tab" "schema_ok service_schema t" "uuid_text i"
  shows "row_matches V service_schema tab [C_Eq (col ''id'') (P_Text i)] = (\<lambda>r. r ''id'' = SQL_Text i)"
    "filter (row_matches V service_schema tab [C_Eq (col ''id'') (P_Text i)]) (t tab) =
       (case find_row (t tab) i of None \<Rightarrow> [] | Some r \<Rightarrow> [r])"
proof -
  show "row_matches V service_schema tab [C_Eq (col ''id'') (P_Text i)] = (\<lambda>r. r ''id'' = SQL_Text i)"
    using assms(2) by (simp add: fun_eq_iff row_matches_uuid [OF assms(1) _ _ assms(4)] id_table_def uuid_column_def)
  then show "filter (row_matches V service_schema tab [C_Eq (col ''id'') (P_Text i)]) (t tab) =
       (case find_row (t tab) i of None \<Rightarrow> [] | Some r \<Rightarrow> [r])"
    using rows_with_id [OF id_table_distinct [OF assms(2,3)]] by simp
qed

lemma gives_first_by_id:
  assumes doc: "documented_sql V service_schema E T K" and tab: "id_table tab" and ok: "schema_ok service_schema t"
    and i: "uuid_text i" and q: "sq_source q = From tab ''''" "sq_where q = where_object [(''id'', P_Text i)]"
      "sq_order q = []" "sq_output q = All_Of ''''" "sq_lock q \<noteq> For_Update_Skip_Locked"
  shows "gives T K (run_first E q) t (\<lambda>x t'. x = find_row (t tab) i \<and> t' = t)"
proof -
  have dc: "documented_conversions V" using doc by (simp add: documented_sql_def)
  let ?q = "q\<lparr>sq_first := True\<rparr>" and ?P = "\<lambda>rows. rows = (case find_row (t tab) i of None \<Rightarrow> [] | Some r \<Rightarrow> [r])"
  have res: "?P rows" if r: "is_result V service_schema ?q t rows" for rows
  proof -
    obtain rs where rs: "mset rs = mset (filter (row_matches V service_schema tab (sq_where ?q)) (t tab))"
      "rows = List.map (\<lambda>r. project (sq_output ?q) (single r)) (take 1 rs)"
      using plain_result [OF r, of tab "[]"] q by auto
    have "mset rs = mset (case find_row (t tab) i of None \<Rightarrow> [] | Some r \<Rightarrow> [r])"
      using rs(1) q id_rows(2) [OF dc tab ok i] by simp
    then have "rs = (case find_row (t tab) i of None \<Rightarrow> [] | Some r \<Rightarrow> [r])" by (cases "find_row (t tab) i") auto
    then show ?thesis using rs(2) q by (cases "find_row (t tab) i") auto
  qed
  show ?thesis
    unfolding run_first_def
    by (rule gives_bind [OF gives_run [OF doc ok, where P = "\<lambda>rows t'. ?P rows \<and> t' = t"]])
      (auto simp: res intro!: gives_pure split: option.split)
qed

section \<open>Seat lookups\<close>

lemma map_err_seats:
  assumes "map_err (\<lambda>r. create_seat_id (as_text (r ''seat_id''))) rows = Inr xs"
    "\<forall>r \<in> set rows. uuid_text (as_text (r ''seat_id''))"
  shows "xs = List.map (\<lambda>r. as_text (r ''seat_id'')) rows"
  using assms
proof (induction rows arbitrary: xs)
  case (Cons r rows)
  then show ?case by (auto simp: bind_err_Inr create_seat_id_def dest: create_uuid_fixed)
qed simp

lemma gives_seat_ids:
  assumes doc: "documented_sql V service_schema E T K" and ok: "schema_ok service_schema t" and i: "uuid_text i"
    and key: "find_column service_schema tab key = Some (uuid_column key)"
    and seat: "find_column service_schema tab ''seat_id'' = Some (uuid_column ''seat_id'')"
  shows "gives T K (bind_io (eg_run E (Select ((from_table tab)
      \<lparr>sq_output := Columns [(''seat_id'', col ''seat_id'')], sq_where := [C_Eq (col key) (P_Text i)],
       sq_order := [col ''seat_id'']\<rparr>))) (\<lambda>rows. lift (map_err (\<lambda>r. create_seat_id (as_text (r ''seat_id''))) rows)))
    t (\<lambda>x t'. x = seat_ids_of V (t tab) key i \<and> t' = t)"
proof -
  have dc: "documented_conversions V" using doc by (simp add: documented_sql_def)
  note le = documented_convert(1) [OF dc]
  let ?q = "(from_table tab)\<lparr>sq_output := Columns [(''seat_id'', col ''seat_id'')],
    sq_where := [C_Eq (col key) (P_Text i)], sq_order := [col ''seat_id'']\<rparr>"
  have res: "xs = seat_ids_of V (t tab) key i" if r: "is_result V service_schema ?q t rows"
    and xs: "map_err (\<lambda>r. create_seat_id (as_text (r ''seat_id''))) rows = Inr xs" for rows xs
  proof -
    obtain rs where rs: "mset rs = mset (filter (row_matches V service_schema tab (sq_where ?q)) (t tab))"
      "set rs \<subseteq> {r \<in> set (t tab). row_matches V service_schema tab (sq_where ?q) r}"
      "sorted_wrt (columns_le V [''seat_id'']) rs" "rows = List.map (\<lambda>r. project (sq_output ?q) (single r)) rs"
      using plain_result [OF r, of tab "[''seat_id'']"] by (auto simp: from_table_def)
    have m: "row_matches V service_schema tab (sq_where ?q) = (\<lambda>r. r key = SQL_Text i)"
      by (simp add: fun_eq_iff row_matches_uuid [OF dc key _ i] uuid_column_def)
    have p: "project (sq_output ?q) (single r) ''seat_id'' = r ''seat_id''" for r by (simp add: col_def)
    have u: "uuid_text (as_text (r ''seat_id''))" if "r \<in> set (t tab)" for r
      by (rule uuid_value [OF ok seat _ _ that]) (simp_all add: uuid_column_def)
    have "sorted_wrt (cv_le V) (List.map (\<lambda>r. r ''seat_id'') rs)"
      using rs(3) by (simp add: sorted_wrt_map columns_le_def [abs_def])
        (rule sorted_wrt_mono_rel, auto split: if_splits intro: total_orderD(4) [OF le])
    then have "List.map (\<lambda>r. r ''seat_id'') rs =
        arrange (cv_le V) (List.map (\<lambda>r. r ''seat_id'') (filter (\<lambda>r. r key = SQL_Text i) (t tab)))"
      by (rule arrange_eq [OF le]) (simp only: mset_map rs(1) m)
    moreover have "xs = List.map as_text (List.map (\<lambda>r. r ''seat_id'') rs)"
      using map_err_seats [OF xs] rs(2) u by (auto simp: rs(4) comp_def subset_iff col_def)
    ultimately show ?thesis by (simp add: seat_ids_of_def)
  qed
  show ?thesis
    by (rule gives_bind [OF gives_run [OF doc ok, where P = "\<lambda>rows t'. is_result V service_schema ?q t rows \<and> t' = t"]])
      (auto simp: res intro!: gives_pure)
qed

lemma gives_request_seat_ids:
  assumes "documented_sql V service_schema E T K" "schema_ok service_schema t" "uuid_text i"
  shows "gives T K (find_reservation_request_seat_ids E i) t
    (\<lambda>x t'. x = seat_ids_of V (t ''reservation_request_seats'') ''reservation_request_id'' i \<and> t' = t)"
  unfolding find_reservation_request_seat_ids_def by (rule gives_seat_ids [OF assms service_columns(7,8)])

lemma gives_reservation_seat_ids:
  assumes "documented_sql V service_schema E T K" "schema_ok service_schema t" "uuid_text i"
  shows "gives T K (find_reservation_seat_ids E i) t
    (\<lambda>x t'. x = seat_ids_of V (t ''reservation_seats'') ''reservation_id'' i \<and> t' = t)"
  unfolding find_reservation_seat_ids_def by (rule gives_seat_ids [OF assms service_columns(15,17)])

section \<open>Updates and inserts\<close>

text \<open>An update whose conditions name an id changes that row, if it meets the other conditions.\<close>

lemma update_by_id:
  assumes dc: "documented_conversions V" and tab: "id_table tab" and ok: "schema_ok service_schema t"
    and e: "effect_of V service_schema (Update tab (C_Eq (col ''id'') (P_Text s) # cs) sets) t rows t'"
  obtains (none) "rows = []" "t' = t" | (row) i r r' where "cv_uuid V s = Some i" "find_row (t tab) i = Some r"
    "row_matches V service_schema tab cs r" "rows = [r']" "is_updated V service_schema tab sets r r'"
    "t' = t(tab := put_row i r' (t tab))"
proof -
  have ty: "ref_type service_schema (From tab '''') (col ''id'') = T_Uuid"
    using tab by (simp add: ref_type_def col_def column_type_def id_table_def uuid_column_def)
  obtain i where i: "cv_uuid V s = Some i" using e by (auto simp: ty)
  let ?P = "\<lambda>r. r ''id'' = SQL_Text i \<and> row_matches V service_schema tab cs r"
  have m: "row_matches V service_schema tab (C_Eq (col ''id'') (P_Text s) # cs) = ?P"
    using i by (auto simp: fun_eq_iff row_matches_def sql_eq_def ty) (simp_all add: col_def)
  from e obtain f where f: "\<forall>r \<in> set (t tab). ?P r \<longrightarrow> is_updated V service_schema tab sets r (f r)"
    "t' = t(tab := List.map (\<lambda>r. if ?P r then f r else r) (t tab))" "rows = List.map f (filter ?P (t tab))"
    unfolding effect_of.simps m by blast
  have only: "find_row (t tab) i = Some q" if "q \<in> set (t tab)" "q ''id'' = SQL_Text i" for q
    by (rule id_table_find [OF tab ok that])
  show ?thesis
  proof (cases "\<exists>r. find_row (t tab) i = Some r \<and> row_matches V service_schema tab cs r")
    case False
    then have no: "\<not> ?P r" if "r \<in> set (t tab)" for r using only [OF that] by auto
    have "List.map (\<lambda>r. if ?P r then f r else r) (t tab) = t tab" by (rule map_idI) (use no in auto)
    moreover have "filter ?P (t tab) = []" using no by (simp add: filter_empty_conv)
    ultimately show ?thesis using f none by simp
  next
    case True
    then obtain r where r: "find_row (t tab) i = Some r" "row_matches V service_schema tab cs r" by blast
    then have q: "q = r" if "q \<in> set (t tab)" "q ''id'' = SQL_Text i" for q using only [OF that] by simp
    then have "List.map (\<lambda>q. if ?P q then f q else q) (t tab) = put_row i (f r) (t tab)"
      using r by (auto simp: put_row_def)
    moreover have "filter ?P (t tab) = filter (\<lambda>r. r ''id'' = SQL_Text i) (t tab)"
      using q r by (auto intro!: filter_cong)
    ultimately show ?thesis
      using f r i rows_with_id [OF id_table_distinct [OF tab ok], of i] find_row_Some [OF r(1)] row [of i r "f r"] by auto
  qed
qed

lemma gives_update_by_id:
  assumes doc: "documented_sql V service_schema E T K" and tab: "id_table tab" and ok: "schema_ok service_schema t"
    and i: "uuid_text i"
  shows "gives T K (eg_run E (Update tab (where_object [(''id'', P_Text i)]) sets)) t
    (\<lambda>rows t'. schema_ok service_schema t' \<and> (rows = [] \<and> t' = t \<or> (\<exists>r r'. find_row (t tab) i = Some r \<and>
       rows = [r'] \<and> is_updated V service_schema tab sets r r' \<and> t' = t(tab := put_row i r' (t tab)))))"
proof (rule gives_run [OF doc ok])
  fix rows t' assume e: "effect_of V service_schema (Update tab (where_object [(''id'', P_Text i)]) sets) t rows t'"
    and ok': "schema_ok service_schema t'"
  have dc: "documented_conversions V" using doc by (simp add: documented_sql_def)
  show "schema_ok service_schema t' \<and> (rows = [] \<and> t' = t \<or> (\<exists>r r'. find_row (t tab) i = Some r \<and>
       rows = [r'] \<and> is_updated V service_schema tab sets r r' \<and> t' = t(tab := put_row i r' (t tab))))"
    using ok' documented_convert(2) [OF dc i] update_by_id [OF dc tab ok e [unfolded where_id]] by fastforce
qed

lemma gives_insert:
  assumes "documented_sql V service_schema E T K" "schema_ok service_schema t"
  shows "gives T K (eg_run E (Insert tab vals)) t (\<lambda>_ t'. schema_ok service_schema t' \<and>
    (\<exists>new. list_all2 (is_inserted V service_schema tab) vals new \<and> t' = t(tab := t tab @ new)))"
  by (rule gives_run [OF assms]) simp

lemma is_updatedD:
  assumes "is_updated V S tab sets r r'"
  shows "map_of sets c = None \<Longrightarrow> r' c = r c"
    "map_of sets c = Some p \<Longrightarrow> assigns V (column_type S tab c) p (r c) (r' c)"
  using assms unfolding is_updated_def by (metis option.simps(4), metis option.simps(5))

lemma is_insertedD:
  assumes "is_inserted V S tab vals r"
  shows "map_of vals c = Some p \<Longrightarrow> assigns V (column_type S tab c) p SQL_Null (r c)"
  using assms unfolding is_inserted_def by (metis option.simps(5))

lemma assigns_null: "assigns V ty P_Null old new \<Longrightarrow> new = SQL_Null"
  by simp

lemma assigns_time: "assigns V ty (P_Text s) old new \<Longrightarrow> ty = T_Timestamptz \<Longrightarrow> new \<noteq> SQL_Null"
  by auto

section \<open>Effects on the ledger\<close>

lemma string_ne [simp]:
  "''reservation_request_seats'' \<noteq> ''reservation_requests''" "''reservations'' \<noteq> ''reservation_requests''"
  by simp_all

lemma request_of_other_tables:
  "request_of V (t(''reservation_requests'' := rs)) = request_of V t"
  "request_of V (t(''reservation_request_processing_attempts'' := rs)) = request_of V t"
  "request_of V (t(''reservations'' := rs)) = request_of V t"
  "request_of V (t(''reservation_seats'' := rs)) = request_of V t"
  "reservation_of V (t(''reservation_requests'' := rs)) = reservation_of V t"
  "reservation_of V (t(''reservation_request_processing_attempts'' := rs)) = reservation_of V t"
  "reservation_of V (t(''reservations'' := rs)) = reservation_of V t"
  by (simp_all add: fun_eq_iff request_of_def reservation_of_def)

lemma ledger_of_put_request:
  assumes ok: "schema_ok service_schema t" and r: "find_row (t ''reservation_requests'') i = Some r"
    and r': "r' ''id'' = SQL_Text i" "r' ''sequence'' = r ''sequence''"
  shows "ledger_of V (t(''reservation_requests'' := put_row i r' (t ''reservation_requests''))) =
    put_work (request_of V t r') (metadata_of r') (ledger_of V t)"
proof -
  let ?rs = "t ''reservation_requests''"
  have only: "q ''id'' = SQL_Text i \<Longrightarrow> q \<in> set ?rs \<Longrightarrow> q = r" for q
    using id_table_find [OF id_tables(1) ok, of q i] r by simp
  then have "List.map (\<lambda>r. as_number (r ''sequence'')) (put_row i r' ?rs) = List.map (\<lambda>r. as_number (r ''sequence'')) ?rs"
    using r'(2) by (auto simp: put_row_def)
  then have "next_sequence (put_row i r' ?rs) = next_sequence ?rs" by (simp add: next_sequence_def)
  moreover have "rr_id (request_of V t r') = i" using r'(1) by (simp add: request_of_def)
  ultimately show ?thesis
    using r r' by (simp add: ledger_of_def put_work_def request_of_other_tables find_row_put fun_eq_iff)
qed

lemma attempt_of_request: "attempt_of r = Some a \<Longrightarrow> attempt_request_id a = as_text (r ''reservation_request_id'')"
  by (auto simp: attempt_of_def Let_def processing_attempt_base.defs split: if_splits)

lemma ledger_of_insert_attempt:
  assumes "r ''reservation_request_id'' = SQL_Text i"
  shows "ledger_of V (t(''reservation_request_processing_attempts'' :=
      t ''reservation_request_processing_attempts'' @ [r])) =
    (case attempt_of r of None \<Rightarrow> ledger_of V t | Some a \<Rightarrow> add_attempt a (ledger_of V t))"
proof -
  have "attempts_of (rs @ [r]) = (case attempt_of r of None \<Rightarrow> attempts_of rs
      | Some a \<Rightarrow> (attempts_of rs)(i := attempts_of rs i @ [a]))" for rs
    using assms by (auto simp: attempts_of_def map_filter_def fun_eq_iff split: option.split)
  then show ?thesis
    using attempt_of_request [of r] assms
    by (cases "attempt_of r") (auto simp: ledger_of_def add_attempt_def request_of_other_tables)
qed

lemma seat_ids_of_append:
  "\<forall>r \<in> set srs. r key = SQL_Text i \<Longrightarrow> j \<noteq> i \<Longrightarrow> seat_ids_of V (rs @ srs) key j = seat_ids_of V rs key j"
  "\<forall>r \<in> set srs. r key = SQL_Text i \<Longrightarrow> \<forall>r \<in> set rs. r key \<noteq> SQL_Text i \<Longrightarrow>
    seat_ids_of V (rs @ srs) key i = List.map as_text (arrange (cv_le V) (List.map (\<lambda>r. r ''seat_id'') srs))"
proof -
  assume "\<forall>r \<in> set srs. r key = SQL_Text i" "j \<noteq> i"
  then have "filter (\<lambda>r. r key = SQL_Text j) srs = []" by (auto simp: filter_empty_conv)
  then show "seat_ids_of V (rs @ srs) key j = seat_ids_of V rs key j" by (simp add: seat_ids_of_def)
qed (simp add: seat_ids_of_def filter_True filter_False)

lemma ledger_of_insert_reservation:
  assumes new: "find_row (t ''reservations'') i = None" "r ''id'' = SQL_Text i"
    and srs: "\<forall>r \<in> set srs. r ''reservation_id'' = SQL_Text i"
    and t': "t' = t(''reservations'' := t ''reservations'' @ [r], ''reservation_seats'' := t ''reservation_seats'' @ srs)"
  shows "ledger_of V t' = put_reservation (reservation_of V t' r) (ledger_of V t)"
proof -
  have "map_option (reservation_of V t') (find_row (t' ''reservations'') j) =
      (if j = i then Some (reservation_of V t' r) else map_option (reservation_of V t) (find_row (t ''reservations'') j))" for j
  proof (cases "j = i")
    case True
    then show ?thesis using new by (simp add: t' find_row_append) (simp add: find_row_def)
  next
    case False
    have "reservation_of V t' q = reservation_of V t q" if "find_row (t ''reservations'') j = Some q" for q
      using find_row_Some [OF that] seat_ids_of_append(1) [OF srs False] by (simp add: t' reservation_of_def)
    moreover have "find_row (t' ''reservations'') j = find_row (t ''reservations'') j"
      using new False by (cases "find_row (t ''reservations'') j") (simp_all add: t' find_row_append, simp add: find_row_def)
    ultimately show ?thesis using False by (cases "find_row (t ''reservations'') j") auto
  qed
  moreover have "rv_id (reservation_of V t' r) = i" using new by (simp add: reservation_of_def)
  ultimately show ?thesis
    by (simp add: ledger_of_def put_reservation_def fun_eq_iff) (simp add: t' request_of_other_tables)
qed

section \<open>The updates of a request\<close>

lemma status_text: "parse_reservation_request_status (status_str st) = Inr st"
  by (cases st) (simp_all add: parse_reservation_request_status_def)

lemma status_of_text: "r ''status'' = SQL_Text (status_str st) \<Longrightarrow> status_of r = st"
  by (simp add: status_of_def status_text)

lemma same_columns:
  assumes "\<And>c. c \<in> {''id'', ''movie_provider_id'', ''screening_id'', ''requested_by_user_id''} \<Longrightarrow> r' c = r c"
    "r' ''status'' = SQL_Text (status_str st)"
  shows "request_of V t r' = (request_of V t r)\<lparr>rr_status := st\<rparr>"
  using assms by (simp add: request_of_def status_of_text)

lemma service_column_types:
  "column_type service_schema ''reservation_requests'' ''status'' = T_Text"
  "column_type service_schema ''reservation_requests'' ''claimed_by'' = T_Text"
  "column_type service_schema ''reservation_requests'' ''claim_token'' = T_Text"
  "column_type service_schema ''reservation_requests'' ''claimed_at'' = T_Timestamptz"
  "column_type service_schema ''reservation_requests'' ''claim_expires_at'' = T_Timestamptz"
  "column_type service_schema ''reservation_requests'' ''last_heartbeat_at'' = T_Timestamptz"
  by code_simp+

lemma same_context:
  assumes "r' ''correlation_id'' = r ''correlation_id''" "r' ''request_id'' = r ''request_id''"
    "r' ''traceparent'' = r ''traceparent''" "r' ''tracestate'' = r ''tracestate''"
  shows "to_reservation_work_observability_context r' = to_reservation_work_observability_context r"
  unfolding to_reservation_work_observability_context_def assms ..

lemma status_update:
  assumes u: "is_updated V service_schema ''reservation_requests'' ([(''status'', P_Text (status_str st))] @
      cleared_claim_columns @ (if b then [(''transient_failure_count'', P_Plus_One)] else []) @
      [(''processed_at'', p), (''updated_at'', q)]) r r'"
  shows "r' ''id'' = r ''id''" "r' ''sequence'' = r ''sequence''"
    "request_of V t r' = (request_of V t r)\<lparr>rr_status := st\<rparr>"
    "metadata_of r' = cleared_metadata (if b then bump_failures (metadata_of r) else metadata_of r)"
proof -
  note same = is_updatedD(1) [OF u] and set = is_updatedD(2) [OF u]
  show 1: "r' ''id'' = r ''id''" "r' ''sequence'' = r ''sequence''"
    by (rule same; simp add: cleared_claim_columns_def)+
  have "r' ''status'' = SQL_Text (status_str st)"
    using set [of "''status''"] by (simp add: cleared_claim_columns_def service_column_types)
  moreover have "r' c = r c" if "c \<in> {''id'', ''movie_provider_id'', ''screening_id'', ''requested_by_user_id''}" for c
    using that same [of c] by (auto simp: cleared_claim_columns_def)
  ultimately show "request_of V t r' = (request_of V t r)\<lparr>rr_status := st\<rparr>" by (intro same_columns)
  have cleared: "r' ''claimed_by'' = SQL_Null" "r' ''claim_token'' = SQL_Null" "r' ''claimed_at'' = SQL_Null"
    "r' ''claim_expires_at'' = SQL_Null" "r' ''last_heartbeat_at'' = SQL_Null"
    by (rule assigns_null [OF set]; simp add: cleared_claim_columns_def)+
  have kept: "r' ''lease_timeout_count'' = r ''lease_timeout_count''" "r' ''correlation_id'' = r ''correlation_id''"
    "r' ''request_id'' = r ''request_id''" "r' ''traceparent'' = r ''traceparent''" "r' ''tracestate'' = r ''tracestate''"
    by (rule same; simp add: cleared_claim_columns_def)+
  have "as_number (r' ''transient_failure_count'') = as_number (r ''transient_failure_count'') + (if b then 1 else 0)"
    using same [of "''transient_failure_count''"] set [of "''transient_failure_count''"]
    by (cases b) (auto simp: cleared_claim_columns_def)
  with 1 cleared kept show "metadata_of r' = cleared_metadata (if b then bump_failures (metadata_of r) else metadata_of r)"
    by (simp add: metadata_of_def cleared_metadata_def bump_failures_def optional_iso_text_def same_context [of r' r])
qed

lemma claim_update:
  assumes u: "is_updated V service_schema ''reservation_requests'' (claim_columns input b) r r'"
  shows "r' ''id'' = r ''id''" "r' ''sequence'' = r ''sequence''"
    "request_of V t r' = (request_of V t r)\<lparr>rr_status := PROCESSING\<rparr>"
    "metadata_evolves (metadata_of r) (metadata_of r')" "claim_fields_present (metadata_of r')"
    "md_claimedBy (metadata_of r') = Some (ci_workerId input)" "md_claimToken (metadata_of r') = Some (ci_claimToken input)"
proof -
  note same = is_updatedD(1) [OF u] and set = is_updatedD(2) [OF u]
  show 1: "r' ''id'' = r ''id''" "r' ''sequence'' = r ''sequence''" by (rule same; simp add: claim_columns_def)+
  have "r' ''status'' = SQL_Text (status_str PROCESSING)"
    using set [of "''status''"] by (simp add: claim_columns_def service_column_types)
  moreover have "r' c = r c" if "c \<in> {''id'', ''movie_provider_id'', ''screening_id'', ''requested_by_user_id''}" for c
    using that same [of c] by (auto simp: claim_columns_def)
  ultimately show "request_of V t r' = (request_of V t r)\<lparr>rr_status := PROCESSING\<rparr>" by (intro same_columns)
  have kept: "r' ''transient_failure_count'' = r ''transient_failure_count''" "r' ''correlation_id'' = r ''correlation_id''"
    "r' ''request_id'' = r ''request_id''" "r' ''traceparent'' = r ''traceparent''" "r' ''tracestate'' = r ''tracestate''"
    by (rule same; simp add: claim_columns_def)+
  have owner: "r' ''claimed_by'' = SQL_Text (ci_workerId input)" "r' ''claim_token'' = SQL_Text (ci_claimToken input)"
    using set [of "''claimed_by''"] set [of "''claim_token''"] by (simp_all add: claim_columns_def service_column_types)
  have times: "r' ''claimed_at'' \<noteq> SQL_Null" "r' ''claim_expires_at'' \<noteq> SQL_Null" "r' ''last_heartbeat_at'' \<noteq> SQL_Null"
    by (rule assigns_time [OF set]; simp add: claim_columns_def service_column_types)+
  have "as_number (r ''lease_timeout_count'') \<le> as_number (r' ''lease_timeout_count'')"
    using same [of "''lease_timeout_count''"] set [of "''lease_timeout_count''"]
    by (cases b) (auto simp: claim_columns_def)
  with 1 kept show "metadata_evolves (metadata_of r) (metadata_of r')"
    by (simp add: metadata_evolves_def metadata_of_def same_context [of r' r])
  show "claim_fields_present (metadata_of r')" "md_claimedBy (metadata_of r') = Some (ci_workerId input)"
    "md_claimToken (metadata_of r') = Some (ci_claimToken input)"
    using owner times by (simp_all add: claim_fields_present_def metadata_of_def optional_iso_text_def)
qed

section \<open>Recording an attempt\<close>

text \<open>The texts that the database gives back unchanged: canonical timestamps.\<close>

definition stored_time :: "string \<Rightarrow> bool" where
  "stored_time s \<longleftrightarrow> (\<exists>n. date_get_time s = Some n \<and> to_iso_string n = Inr s)"

fun attempt_storable :: "processing_attempt \<Rightarrow> bool" where
  "attempt_storable (Confirmed_Attempt a) = (uuid_text (at_reservationRequestId a) \<and> stored_time (at_startedAt a) \<and>
     stored_time (at_completedAt a) \<and> uuid_text (at_reservationId a))"
| "attempt_storable (Rejected_Attempt a) = (uuid_text (at_reservationRequestId a) \<and> stored_time (at_startedAt a) \<and>
     stored_time (at_completedAt a) \<and> uuid_text (at_conflictingReservationId a))"
| "attempt_storable (Failed_Attempt a) = (uuid_text (at_reservationRequestId a) \<and> stored_time (at_startedAt a) \<and>
     stored_time (at_completedAt a))"

lemma attempt_column_types:
  "column_type service_schema ''reservation_request_processing_attempts'' ''reservation_request_id'' = T_Uuid"
  "column_type service_schema ''reservation_request_processing_attempts'' ''reservation_request_sequence'' = T_Bigint"
  "column_type service_schema ''reservation_request_processing_attempts'' ''started_at'' = T_Timestamptz"
  "column_type service_schema ''reservation_request_processing_attempts'' ''completed_at'' = T_Timestamptz"
  "column_type service_schema ''reservation_request_processing_attempts'' ''outcome'' = T_Text"
  "column_type service_schema ''reservation_request_processing_attempts'' ''reason'' = T_Text"
  "column_type service_schema ''reservation_request_processing_attempts'' ''reservation_id'' = T_Uuid"
  "column_type service_schema ''reservation_request_processing_attempts'' ''conflicting_reservation_id'' = T_Uuid"
  by code_simp+

lemma stored_time_value:
  assumes "documented_conversions V" "stored_time s" "assigns V T_Timestamptz (P_Text s) old new"
  shows "iso_text new = s"
  using assms documented_convert(4) [OF assms(1), of s] by (auto simp: stored_time_def iso_text_def)

lemma stored_uuid_value:
  assumes "documented_conversions V" "uuid_text u" "assigns V T_Uuid (P_Text u) old new"
  shows "new = SQL_Text u"
  using assms documented_convert(2) [OF assms(1,2)] by simp

lemma attempt_inserted:
  assumes dc: "documented_conversions V" and a: "attempt_storable a"
    and r: "is_inserted V service_schema ''reservation_request_processing_attempts'' (attempt_values a) r"
  shows "attempt_of r = Some a" "r ''reservation_request_id'' = SQL_Text (attempt_request_id a)"
proof -
  note set = is_insertedD [OF r]
  note vals = attempt_values_def attempt_column_types
  have base: "r ''reservation_request_sequence'' = SQL_Number (at_sequence (attempt_base a))"
    "r ''outcome'' = SQL_Text (attempt_outcome a)"
    using set [of "''reservation_request_sequence''"] set [of "''outcome''"] by (simp_all add: vals)
  have b: "uuid_text (at_reservationRequestId (attempt_base a))" "stored_time (at_startedAt (attempt_base a))"
    "stored_time (at_completedAt (attempt_base a))" "attempt_request_id a = at_reservationRequestId (attempt_base a)"
    using a by (cases a; simp add: processing_attempt_base.defs)+
  have i: "r ''reservation_request_id'' = SQL_Text (at_reservationRequestId (attempt_base a))"
    by (rule stored_uuid_value [OF dc b(1)]) (use set [of "''reservation_request_id''"] in \<open>simp add: vals\<close>)
  then show "r ''reservation_request_id'' = SQL_Text (attempt_request_id a)" by (simp add: b(4))
  have times: "iso_text (r ''started_at'') = at_startedAt (attempt_base a)"
    "iso_text (r ''completed_at'') = at_completedAt (attempt_base a)"
    by (rule stored_time_value [OF dc b(2)] stored_time_value [OF dc b(3)];
        use set [of "''started_at''"] set [of "''completed_at''"] in \<open>simp add: vals\<close>)+
  have reason: "r ''reason'' = (case read_attempt_reason a of P_Text s \<Rightarrow> SQL_Text s | _ \<Rightarrow> SQL_Null)"
    using set [of "''reason''"] by (cases a) (auto simp: vals split: failure_reason.splits)
  show "attempt_of r = Some a"
  proof (cases a)
    case (Confirmed_Attempt x)
    have "r ''reservation_id'' = SQL_Text (at_reservationId x)"
      by (rule stored_uuid_value [OF dc]) (use a set [of "''reservation_id''"] Confirmed_Attempt in \<open>simp_all add: vals\<close>)
    then show ?thesis
      using base i times Confirmed_Attempt by (cases x) (simp add: attempt_of_def processing_attempt_base.defs)
  next
    case (Rejected_Attempt x)
    have "r ''conflicting_reservation_id'' = SQL_Text (at_conflictingReservationId x)"
      by (rule stored_uuid_value [OF dc])
        (use a set [of "''conflicting_reservation_id''"] Rejected_Attempt in \<open>simp_all add: vals\<close>)
    then show ?thesis
      using base i times reason Rejected_Attempt
      by (cases x; cases "at_rejectionReason x") (simp add: attempt_of_def processing_attempt_base.defs)
  next
    case (Failed_Attempt x)
    then show ?thesis
      using base i times reason
      by (cases x; cases "at_failureReason x") (simp_all add: attempt_of_def processing_attempt_base.defs)
  qed
qed

end
