(* ===== verification/Postgres_Contract.thy ===== *)
theory Postgres_Contract
  imports Postgres_Effects
begin

text \<open>
  The Postgres work repository meets the contract of the work repository port, for any engine
  that does what is documented. So everything proved of the processor from the contract holds of
  it too, and the unique key of the seats rules out double bookings for any number of workers.
\<close>

section \<open>What is sound\<close>


definition tables_sound :: "conversions \<Rightarrow> tables \<Rightarrow> bool" where
  "tables_sound V t \<longleftrightarrow> schema_ok service_schema t \<and> ledger_inv (ledger_of V t)"


lemma ledger_of_simps [simp]:
  "lg_request (ledger_of V t) i = map_option (request_of V t) (find_row (t ''reservation_requests'') i)"
  "lg_metadata (ledger_of V t) i = map_option metadata_of (find_row (t ''reservation_requests'') i)"
  "lg_reservation (ledger_of V t) i = map_option (reservation_of V t) (find_row (t ''reservations'') i)"
  by (simp_all add: ledger_of_def)

lemma request_id_uuid:
  assumes "schema_ok service_schema t" "lg_request (ledger_of V t) i = Some q"
  shows "uuid_text i"
proof -
  from assms(2) obtain r where r: "find_row (t ''reservation_requests'') i = Some r" by auto
  then show ?thesis using request_row_ids(2) [OF assms(1), of r] find_row_Some [OF r] by simp
qed

lemma reservation_id_uuid:
  assumes "schema_ok service_schema t" "lg_reservation (ledger_of V t) i \<noteq> None"
  shows "uuid_text i"
proof -
  from assms(2) obtain r where r: "find_row (t ''reservations'') i = Some r" by auto
  then show ?thesis using reservation_row_ids(2) [OF assms(1), of r] find_row_Some [OF r] by simp
qed

lemma claim_of_uuid: "schema_ok service_schema t \<Longrightarrow> claim_of (ledger_of V t) c \<Longrightarrow> uuid_text (rr_id (cl_reservationRequest c))"
  unfolding claim_of_def using request_id_uuid by blast

section \<open>Ending a claim\<close>

lemma check_claimed_owned:
  assumes "check_claimed_row c r = Inr r'" "find_row (t ''reservation_requests'') (rr_id (cl_reservationRequest c)) = Some r"
  shows "r' = r \<and> owned (ledger_of V t) c (request_of V t r) (metadata_of r)"
proof -
  from assms(1) have "as_number (r ''sequence'') = cl_sequence c" "r ''status'' = SQL_Text (status_str PROCESSING)"
    "r ''claimed_by'' = SQL_Text (cl_claimedBy c)" "r ''claim_token'' = SQL_Text (cl_claimToken c)" "r' = r"
    by (auto simp: check_claimed_row_def bind_err_Inr to_reservation_request_sequence_def
        create_reservation_request_sequence_def split: if_splits)
  then show ?thesis
    using assms(2) by (simp add: owned_def metadata_of_def request_of_def status_of_text)
qed

lemma gives_require_claimed:
  assumes doc: "documented_sql V service_schema E T K" and ok: "schema_ok service_schema t"
    and i: "uuid_text (rr_id (cl_reservationRequest c))"
  shows "gives T K (require_claimed_processing_request E c) t (\<lambda>r t'. t' = t \<and>
    find_row (t ''reservation_requests'') (rr_id (cl_reservationRequest c)) = Some r \<and>
    owned (ledger_of V t) c (request_of V t r) (metadata_of r))"
  unfolding require_claimed_processing_request_def
  by (rule gives_bind [OF gives_first_by_id [OF doc id_tables(1) ok i]])
    (auto simp: from_table_def intro!: gives_pure dest: check_claimed_owned split: option.split)

lemma gives_update_status:
  assumes doc: "documented_sql V service_schema E T K" and ok: "schema_ok service_schema t"
    and i: "uuid_text (rr_id (cl_reservationRequest c))"
  shows "gives T K (update_claimed_request_status E c st b) t (\<lambda>q t'. schema_ok service_schema t' \<and>
    (\<exists>r. find_row (t ''reservation_requests'') (rr_id (cl_reservationRequest c)) = Some r \<and>
       q = (request_of V t r)\<lparr>rr_status := st\<rparr> \<and>
       ledger_of V t' = put_work q (cleared_metadata (if b then bump_failures (metadata_of r) else metadata_of r)) (ledger_of V t)))"
  unfolding update_claimed_request_status_def
proof (rule gives_bind [OF gives_update_by_id [OF doc id_tables(1) ok i]], rule gives_lift_bind, goal_cases)
  case (1 rows t' r')
  let ?i = "rr_id (cl_reservationRequest c)"
  from 1 obtain r where ok': "schema_ok service_schema t'" and r: "find_row (t ''reservation_requests'') ?i = Some r"
    and u: "is_updated V service_schema ''reservation_requests'' ([(''status'', P_Text (status_str st))] @ cleared_claim_columns @
       (if b then [(''transient_failure_count'', P_Plus_One)] else []) @
       [(''processed_at'', if st = REQUESTED then P_Null else P_Now), (''updated_at'', P_Now)]) r r'"
    and t': "t' = t(''reservation_requests'' := put_row ?i r' (t ''reservation_requests''))"
    by (auto simp: require_single_row_def)
  note up = status_update [OF u]
  have r'i: "r' ''id'' = SQL_Text ?i" using up(1) find_row_Some [OF r] by simp
  have mem: "r' \<in> set (t' ''reservation_requests'')"
    using find_row_put [of r' ?i "t ''reservation_requests''" ?i, OF r'i] r
      find_row_Some [of "put_row ?i r' (t ''reservation_requests'')" ?i r'] by (simp add: t')
  have q: "request_of V t' r' = (request_of V t r)\<lparr>rr_status := st\<rparr>"
    using up(3) by (simp add: t' request_of_other_tables)
  have L: "ledger_of V t' = put_work ((request_of V t r)\<lparr>rr_status := st\<rparr>)
      (cleared_metadata (if b then bump_failures (metadata_of r) else metadata_of r)) (ledger_of V t)"
    unfolding t' ledger_of_put_request [where r' = r', OF ok r r'i up(2)] up(3,4) ..
  have seats: "as_text (r' ''id'') = ?i" using r'i by simp
  show ?case
    unfolding seats
  proof (rule gives_bind [OF gives_request_seat_ids [OF doc ok' i]], rule gives_pure(3), goal_cases)
    case (1 seatIds t'' y)
    then have "y = request_of V t' r'"
      using to_reservation_request_value [OF ok' mem, of V y] seats by simp
    then show ?case using 1 q L ok' r by auto
  qed
qed

lemma gives_insert_attempt:
  assumes doc: "documented_sql V service_schema E T K" and ok: "schema_ok service_schema t" and a: "attempt_storable a"
  shows "gives T K (insert_processing_attempt E a) t
    (\<lambda>_ t'. schema_ok service_schema t' \<and> ledger_of V t' = add_attempt a (ledger_of V t))"
  unfolding insert_processing_attempt_def
proof (rule gives_bind [OF gives_insert [OF doc ok]], rule gives_pure(1), goal_cases)
  case (1 rows t')
  have dc: "documented_conversions V" using doc by (simp add: documented_sql_def)
  from 1 obtain r where r: "is_inserted V service_schema ''reservation_request_processing_attempts'' (attempt_values a) r"
    "t' = t(''reservation_request_processing_attempts'' := t ''reservation_request_processing_attempts'' @ [r])"
    by (auto simp: list_all2_Cons1)
  note ins = attempt_inserted [OF dc a r(1)]
  show ?case using 1 ledger_of_insert_attempt [of r, OF ins(2), of V t] ins(1) by (simp add: r(2))
qed

text \<open>Rejecting, releasing and failing are one transaction with another status and attempt.\<close>

lemma gives_settle:
  assumes doc: "documented_sql V service_schema E T K" and ok: "schema_ok service_schema t"
    and i: "uuid_text (rr_id (cl_reservationRequest c))" and a: "attempt_storable a"
  shows "gives T K (then_io (require_claimed_processing_request E c) (bind_io (update_claimed_request_status E c st b)
      (\<lambda>q. then_io (insert_processing_attempt E a) (ret q)))) t (\<lambda>q t'. schema_ok service_schema t' \<and>
    (\<exists>r m. did c r m (if b then bump_failures m else m) st a (ledger_of V t) (ledger_of V t') \<and> q = r\<lparr>rr_status := st\<rparr>))"
proof (rule gives_then [OF gives_require_claimed [OF doc ok i]], elim conjE, hypsubst,
    rule gives_bind [OF gives_update_status [OF doc ok i]], elim conjE exE, goal_cases)
  case (1 r t1 q t2 r2)
  then have "r2 = r" by simp
  show ?case
    by (rule gives_then [OF gives_insert_attempt [OF doc 1(3) a]], rule gives_pure(1))
      (use 1 \<open>r2 = r\<close> in \<open>auto simp: did_def\<close>)
qed

lemma settle_law:
  assumes doc: "documented_sql V service_schema E T K" and s: "tables_sound V (T d)"
    and c: "claim_of (ledger_of V (T d)) c" and a: "attempt_storable a" and st: "st \<noteq> CONFIRMED" "st \<noteq> PROCESSING"
    and run: "transaction E (then_io (require_claimed_processing_request E c)
      (bind_io (update_claimed_request_status E c st b) (\<lambda>q. then_io (insert_processing_attempt E a) (ret q)))) d = (res, d')"
  shows "tables_sound V (T d') \<and> (case res of Inl e \<Rightarrow> T d' = T d
    | Inr q \<Rightarrow> \<exists>r m. did c r m (if b then bump_failures m else m) st a (ledger_of V (T d)) (ledger_of V (T d')) \<and>
        q = r\<lparr>rr_status := st\<rparr>)"
proof -
  have ok: "schema_ok service_schema (T d)" and inv: "ledger_inv (ledger_of V (T d))"
    using s by (simp_all add: tables_sound_def)
  note t = transaction_gives [OF doc gives_settle [OF doc ok claim_of_uuid [OF ok c] a] run]
  show ?thesis
  proof (cases res)
    case (Inl e)
    then show ?thesis using t s by simp
  next
    case (Inr q)
    with t obtain r m where d: "did c r m (if b then bump_failures m else m) st a (ledger_of V (T d)) (ledger_of V (T d'))"
      "q = r\<lparr>rr_status := st\<rparr>" and ok': "schema_ok service_schema (T d')" by auto
    from did_inv [OF inv d(1) _ st] have inv': "ledger_inv (ledger_of V (T d'))" by simp
    show ?thesis unfolding Inr sum.case tables_sound_def using d ok' inv' by blast
  qed
qed

lemma attempt_for_storable:
  assumes "schema_ok service_schema t" "claim_of (ledger_of V t) c"
  shows "attempt_for stored_time c fa \<Longrightarrow> attempt_storable (Failed_Attempt fa)"
    "attempt_for stored_time c ra \<Longrightarrow> lg_reservation (ledger_of V t) (at_conflictingReservationId ra) \<noteq> None \<Longrightarrow>
      attempt_storable (Rejected_Attempt ra)"
    "attempt_for stored_time c ca \<Longrightarrow> uuid_text (at_reservationId ca) \<Longrightarrow> attempt_storable (Confirmed_Attempt ca)"
  using claim_of_uuid [OF assms] reservation_id_uuid [OF assms(1)] by (simp_all add: attempt_for_def)

section \<open>Claiming\<close>

lemma claimable_row:
  assumes "row_matches V service_schema ''reservation_requests'' [claimable_condition input] r"
  shows "status_of r = REQUESTED \<or> status_of r = PROCESSING"
proof -
  have ty: "column_type service_schema ''reservation_requests'' ''status'' = T_Text" by (rule service_column_types)
  have "r ''status'' = SQL_Text (status_str REQUESTED) \<or> r ''status'' = SQL_Text (status_str PROCESSING)"
    using assms by (auto simp: row_matches_def claimable_condition_def col_def ref_type_def ty sql_eq_def)
  then show ?thesis using status_of_text by blast
qed

lemma gives_find_claimable:
  assumes doc: "documented_sql V service_schema E T K" and ok: "schema_ok service_schema t"
  shows "gives T K (find_next_claimable_row E input) t (\<lambda>x t'. t' = t \<and> (\<forall>r. x = Some r \<longrightarrow>
    r \<in> set (t ''reservation_requests'') \<and>
    row_matches V service_schema ''reservation_requests'' [claimable_condition input] r))"
proof -
  let ?q = "(from_table ''reservation_requests'')\<lparr>sq_where := [claimable_condition input], sq_order := [col ''sequence''],
    sq_lock := For_Update_Skip_Locked, sq_first := True\<rparr>"
  have res: "\<forall>r \<in> set rows. r \<in> set (t ''reservation_requests'') \<and>
      row_matches V service_schema ''reservation_requests'' [claimable_condition input] r"
    if res: "is_result V service_schema ?q t rows" for rows
  proof -
    obtain rs where "set rs \<subseteq> {r \<in> set (t ''reservation_requests''). row_matches V service_schema ''reservation_requests'' (sq_where ?q) r}"
      "rows = List.map (\<lambda>r. project (sq_output ?q) (single r)) (take 1 rs)"
      using plain_result [OF res, of "''reservation_requests''" "[''sequence'']"] by (auto simp: from_table_def)
    then show ?thesis by (auto simp: from_table_def dest: in_set_takeD)
  qed
  show ?thesis
    unfolding find_next_claimable_row_def run_first_def
    by (rule gives_bind [OF gives_run [OF doc ok, where P = "\<lambda>rows t'. is_result V service_schema ?q t rows \<and> t' = t"]])
      (auto intro!: gives_pure dest!: res split: list.splits)
qed

lemma processing_metadata: "claim_fields_present m \<Longrightarrow> claim_state_ok r k \<Longrightarrow> metadata_evolves k m \<Longrightarrow>
    rr_status q = PROCESSING \<Longrightarrow> claim_state_ok q m"
  by (simp add: claim_state_ok_def metadata_evolves_def)

text \<open>Changing a request that is not settled, to a status other than confirmed.\<close>

lemma put_open_request:
  assumes inv: "ledger_inv L" and r: "lg_request L i = Some r" "lg_metadata L i = Some m"
    and st: "rr_status r = REQUESTED \<or> rr_status r = PROCESSING" "st \<noteq> CONFIRMED"
    and m': "metadata_evolves m m'" "claim_state_ok (r\<lparr>rr_status := st\<rparr>) m'"
  shows "ledger_inv (put_work (r\<lparr>rr_status := st\<rparr>) m' L)" "advances L (put_work (r\<lparr>rr_status := st\<rparr>) m' L)"
proof -
  show "ledger_inv (put_work (r\<lparr>rr_status := st\<rparr>) m' L)"
    by (rule ledger_inv_status [OF inv r]) (use st m' in \<open>auto simp: metadata_evolves_def\<close>)
  have "rr_id r = i" using inv_request_id [OF inv r(1)] .
  then show "advances L (put_work (r\<lparr>rr_status := st\<rparr>) m' L)"
    by (intro advances_put_work [where m = m]) (use st m' r in \<open>auto simp: terminal_status_def\<close>)
qed

text \<open>What claiming may leave behind.\<close>

definition claim_post :: "claim_input \<Rightarrow> conversions \<Rightarrow> tables \<Rightarrow> claimed_reservation_request option \<Rightarrow> tables \<Rightarrow> bool" where
  "claim_post input V t x t' \<longleftrightarrow> tables_sound V t' \<and> advances (ledger_of V t) (ledger_of V t') \<and>
     (\<forall>c. x = Some c \<longrightarrow> cl_claimToken c = ci_claimToken input \<and> cl_claimedBy c = ci_workerId input \<and>
        (\<exists>m. owned (ledger_of V t') c (cl_reservationRequest c) m \<and>
             md_transientFailureCount m = cl_transientFailureCount c))"

definition open_row :: "conversions \<Rightarrow> tables \<Rightarrow> row \<Rightarrow> id \<Rightarrow> bool" where
  "open_row V t r i \<longleftrightarrow> tables_sound V t \<and> find_row (t ''reservation_requests'') i = Some r \<and>
     (status_of r = REQUESTED \<or> status_of r = PROCESSING)"

lemma open_row_facts:
  assumes "open_row V t r i"
  shows "schema_ok service_schema t" "ledger_inv (ledger_of V t)" "uuid_text i" "r ''id'' = SQL_Text i"
    "lg_request (ledger_of V t) i = Some (request_of V t r)" "lg_metadata (ledger_of V t) i = Some (metadata_of r)"
    "rr_status (request_of V t r) = REQUESTED \<or> rr_status (request_of V t r) = PROCESSING"
    "claim_state_ok (request_of V t r) (metadata_of r)"
proof -
  have r: "find_row (t ''reservation_requests'') i = Some r" using assms by (simp add: open_row_def)
  show ok: "schema_ok service_schema t" and inv: "ledger_inv (ledger_of V t)"
    using assms by (simp_all add: open_row_def tables_sound_def)
  show 1: "lg_request (ledger_of V t) i = Some (request_of V t r)" "lg_metadata (ledger_of V t) i = Some (metadata_of r)"
    "rr_status (request_of V t r) = REQUESTED \<or> rr_status (request_of V t r) = PROCESSING"
    using r assms by (simp_all add: request_of_def open_row_def)
  show "uuid_text i" by (rule request_id_uuid [OF ok 1(1)])
  show "r ''id'' = SQL_Text i" using find_row_Some [OF r] by simp
  show "claim_state_ok (request_of V t r) (metadata_of r)" by (rule inv_requestD [OF inv 1(1)]) (use r in simp)
qed

lemma put_open_row:
  assumes o: "open_row V t r i" and r': "r' ''id'' = r ''id''" "r' ''sequence'' = r ''sequence''"
    "request_of V t r' = (request_of V t r)\<lparr>rr_status := st\<rparr>" "metadata_evolves (metadata_of r) (metadata_of r')"
    "claim_state_ok ((request_of V t r)\<lparr>rr_status := st\<rparr>) (metadata_of r')" "st \<noteq> CONFIRMED"
    and t': "t' = t(''reservation_requests'' := put_row i r' (t ''reservation_requests''))"
  shows "ledger_inv (ledger_of V t')" "advances (ledger_of V t) (ledger_of V t')"
    "find_row (t' ''reservation_requests'') i = Some r'"
proof -
  note f = open_row_facts [OF o]
  have r: "find_row (t ''reservation_requests'') i = Some r" using o by (simp add: open_row_def)
  have i: "r' ''id'' = SQL_Text i" using r' f(4) by simp
  have L: "ledger_of V t' = put_work ((request_of V t r)\<lparr>rr_status := st\<rparr>) (metadata_of r') (ledger_of V t)"
    unfolding t' ledger_of_put_request [where r' = r', OF f(1) r i r'(2)] r'(3) ..
  show "ledger_inv (ledger_of V t')" "advances (ledger_of V t) (ledger_of V t')"
    unfolding L by (rule put_open_request [OF f(2,5,6,7) r'(6,4,5)])+
  show "find_row (t' ''reservation_requests'') i = Some r'" using find_row_put [of r' i, OF i] r by (simp add: t')
qed

lemma gives_fail_expired:
  assumes doc: "documented_sql V service_schema E T K" and o: "open_row V t r i"
  shows "gives T K (fail_expired_claim_after_budget E r failedAt) t (\<lambda>_ t'. tables_sound V t' \<and>
     advances (ledger_of V t) (ledger_of V t'))"
proof -
  note f = open_row_facts [OF o]
  have dc: "documented_conversions V" using doc by (simp add: documented_sql_def)
  have i: "as_text (r ''id'') = i" using f(4) by simp
  show ?thesis
    unfolding fail_expired_claim_after_budget_def i
  proof (rule gives_then [OF gives_update_by_id [OF doc id_tables(1) f(1,3)]], rule gives_lift_bind, rule gives_lift_bind,
      unfold insert_processing_attempt_def, goal_cases)
    case (1 rows t1 q n)
    let ?sets = "[(''status'', P_Text (status_str FAILED))] @ cleared_claim_columns @
      (if False then [(''transient_failure_count'', P_Plus_One)] else []) @
      [(''processed_at'', P_Text failedAt), (''updated_at'', P_Text failedAt)]"
    from 1(1) o have ok1: "schema_ok service_schema t1" and cases: "t1 = t \<or> (\<exists>r'. is_updated V service_schema
        ''reservation_requests'' ?sets r r' \<and> t1 = t(''reservation_requests'' := put_row i r' (t ''reservation_requests'')))"
      by (auto simp: open_row_def)
    have L1: "ledger_inv (ledger_of V t1) \<and> advances (ledger_of V t) (ledger_of V t1)"
      using cases
    proof
      assume "\<exists>r'. is_updated V service_schema ''reservation_requests'' ?sets r r' \<and>
        t1 = t(''reservation_requests'' := put_row i r' (t ''reservation_requests''))"
      then obtain r' where u: "is_updated V service_schema ''reservation_requests'' ?sets r r'"
        and t1: "t1 = t(''reservation_requests'' := put_row i r' (t ''reservation_requests''))" by blast
      note up = status_update [OF u]
      show ?thesis
        using put_open_row(1,2) [OF o up(1,2,3) _ _ _ t1] up(4) f(8) by (simp add: claim_state_ok_changes)
    qed (simp add: f)
    show ?case
    proof (rule gives_bind [OF gives_insert [OF doc ok1]], rule gives_pure(1), goal_cases)
      case (1 rows2 t2)
      then obtain a where ok2: "schema_ok service_schema t2" and a: "t2 = t1(''reservation_request_processing_attempts'' :=
          t1 ''reservation_request_processing_attempts'' @ [a])" by (auto simp: list_all2_Cons1)
      have mem: "a \<in> set (t2 ''reservation_request_processing_attempts'')" by (simp add: a)
      obtain j where "a ''reservation_request_id'' = SQL_Text j"
        by (rule uuid_value [OF ok2 service_columns(18) _ _ mem]) (simp_all add: uuid_column_def)
      note L2 = ledger_of_insert_attempt [of a, OF this, of V t1, folded a]
      show ?case
        using L1 L2 ok2 by (auto simp: tables_sound_def intro: advances_add_attempt split: option.splits)
    qed
  qed
qed

lemma require_single_Inr: "require_single_row rows msg = Inr r \<longleftrightarrow> (\<exists>rs. rows = r # rs)"
  by (cases rows) (auto simp: require_single_row_def)

lemma claimed_work_item_fields:
  assumes "claimed_work_item_of input r ids = Inr c"
  shows "to_reservation_request r ids = Inr (cl_reservationRequest c)" "cl_sequence c = as_number (r ''sequence'')"
    "cl_claimedBy c = ci_workerId input" "cl_claimToken c = ci_claimToken input"
    "cl_transientFailureCount c = as_number (r ''transient_failure_count'')"
  using assms by (auto simp: claimed_work_item_of_def bind_err_Inr to_reservation_request_sequence_def
      create_reservation_request_sequence_def split: if_splits)

lemma gives_claim_row:
  assumes doc: "documented_sql V service_schema E T K" and o: "open_row V t r i"
  shows "gives T K (bind_io (claim_reservation_request_row E r input b) (\<lambda>updated.
      bind_io (find_reservation_request_seat_ids E (as_text (updated ''id''))) (\<lambda>seatIds.
      bind_io (lift (claimed_work_item_of input updated seatIds)) (\<lambda>c. ret (Some c))))) t (claim_post input V t)"
proof -
  note f = open_row_facts [OF o]
  have i: "as_text (r ''id'') = i" using f(4) by simp
  show ?thesis
    unfolding claim_reservation_request_row_def i
  proof (rule gives_bind [where P = "\<lambda>r' t'. schema_ok service_schema t' \<and>
      is_updated V service_schema ''reservation_requests'' (claim_columns input b) r r' \<and>
      t' = t(''reservation_requests'' := put_row i r' (t ''reservation_requests''))"],
      rule gives_bind [OF gives_update_by_id [OF doc id_tables(1) f(1,3)]], rule gives_pure(3), goal_cases)
    case (1 rows t' r')
    then show ?case using o by (auto simp: require_single_Inr open_row_def)
  next
    case (2 r' t')
    then have ok': "schema_ok service_schema t'"
      and u: "is_updated V service_schema ''reservation_requests'' (claim_columns input b) r r'"
      and t': "t' = t(''reservation_requests'' := put_row i r' (t ''reservation_requests''))" by blast+
    note up = claim_update [OF u]
    have st: "claim_state_ok ((request_of V t r)\<lparr>rr_status := PROCESSING\<rparr>) (metadata_of r')"
      by (rule processing_metadata [OF up(5) f(8) up(4)]) simp
    note put = put_open_row [OF o up(1,2,3,4) st _ t']
    have find': "find_row (t' ''reservation_requests'') i = Some r'" by (rule put(3)) simp
    have mem: "r' \<in> set (t' ''reservation_requests'')" and id': "as_text (r' ''id'') = i"
      using find_row_Some [OF find'] by simp_all
    have q: "request_of V t' r' = (request_of V t r)\<lparr>rr_status := PROCESSING\<rparr>"
      using up(3) by (simp add: t' request_of_other_tables)
    show ?case
      unfolding id'
    proof (rule gives_bind [OF gives_request_seat_ids [OF doc ok' f(3)]], rule gives_lift_bind, rule gives_pure(1), goal_cases)
      case (1 ids t'' c)
      then have t'': "t'' = t'" and ids: "ids = seat_ids_of V (t' ''reservation_request_seats'') ''reservation_request_id'' (as_text (r' ''id''))"
        and c: "claimed_work_item_of input r' ids = Inr c" by (simp_all add: id')
      note w = claimed_work_item_fields [OF c]
      have qc: "cl_reservationRequest c = request_of V t' r'"
        using to_reservation_request_value [OF ok' mem] w(1) ids by blast
      have id: "rr_id (request_of V t' r') = i" using id' by (simp add: request_of_def)
      have "owned (ledger_of V t') c (cl_reservationRequest c) (metadata_of r')"
        using find' id w(2-4) up(6,7) q by (simp add: owned_def qc metadata_of_def)
      moreover have "md_transientFailureCount (metadata_of r') = cl_transientFailureCount c"
        using w(5) by (simp add: metadata_of_def)
      ultimately show ?case
        using put(1,2) ok' w(3,4) by (auto simp: claim_post_def tables_sound_def t'')
    qed
  qed
qed

lemma pg_claim_law:
  assumes doc: "documented_sql V service_schema E T K" and s: "tables_sound V (T d)"
    and run: "pg_claim_next E input d = (res, d')"
  shows "tables_sound V (T d') \<and> advances (ledger_of V (T d)) (ledger_of V (T d')) \<and>
    (\<forall>c. res = Inr (Some c) \<longrightarrow> cl_claimToken c = ci_claimToken input \<and> cl_claimedBy c = ci_workerId input \<and>
       (\<exists>m. owned (ledger_of V (T d')) c (cl_reservationRequest c) m \<and>
            md_transientFailureCount m = cl_transientFailureCount c))"
proof -
  have ok: "schema_ok service_schema (T d)" using s by (simp add: tables_sound_def)
  have none: "claim_post input V (T d) None (T d)" using s by (simp add: claim_post_def)
  have "case res of Inl e \<Rightarrow> T d' = T d | Inr x \<Rightarrow> claim_post input V (T d) x (T d')"
  proof (rule transaction_gives [OF doc _ run [unfolded pg_claim_next_def]],
      rule gives_bind [OF gives_find_claimable [OF doc ok]], goal_cases)
    case (1 selected t')
    show ?case
    proof (cases selected)
      case None
      then show ?thesis using 1 none by (auto intro: gives_pure)
    next
      case (Some r)
      let ?i = "as_text (r ''id'')"
      have r: "r \<in> set (T d ''reservation_requests'')" "status_of r = REQUESTED \<or> status_of r = PROCESSING"
        using 1 Some claimable_row by auto
      have "find_row (T d ''reservation_requests'') ?i = Some r"
        by (rule id_table_find [OF id_tables(1) ok r(1) request_row_ids(1) [OF ok r(1)]])
      then have o: "open_row V (T d) r ?i" using s r by (simp add: open_row_def)
      have fail: "gives T K (then_io (fail_expired_claim_after_budget E r x) (ret None)) (T d) (claim_post input V (T d))" for x
        by (rule gives_then [OF gives_fail_expired [OF doc o]], rule gives_pure(1)) (simp add: claim_post_def)
      show ?thesis
        using 1 Some fail gives_claim_row [OF doc o] by (simp add: Let_def)
    qed
  qed
  then show ?thesis using s by (auto simp: claim_post_def split: sum.splits)
qed

section \<open>Heartbeats\<close>

lemma heartbeat_update:
  assumes u: "is_updated V service_schema ''reservation_requests'' [(''claim_expires_at'', P_Text x),
      (''last_heartbeat_at'', P_Text h), (''updated_at'', P_Text h)] r r'"
  shows "r' ''id'' = r ''id''" "r' ''sequence'' = r ''sequence''" "r' ''status'' = r ''status''"
    "request_of V t r' = request_of V t r" "metadata_evolves (metadata_of r) (metadata_of r')"
    "claim_fields_present (metadata_of r) \<Longrightarrow> claim_fields_present (metadata_of r')"
proof -
  note same = is_updatedD(1) [OF u] and set = is_updatedD(2) [OF u]
  show 1: "r' ''id'' = r ''id''" "r' ''sequence'' = r ''sequence''" "r' ''status'' = r ''status''" by (rule same; simp)+
  have kept: "r' ''movie_provider_id'' = r ''movie_provider_id''" "r' ''screening_id'' = r ''screening_id''"
    "r' ''requested_by_user_id'' = r ''requested_by_user_id''" "r' ''lease_timeout_count'' = r ''lease_timeout_count''"
    "r' ''transient_failure_count'' = r ''transient_failure_count''" "r' ''claimed_by'' = r ''claimed_by''"
    "r' ''claim_token'' = r ''claim_token''" "r' ''claimed_at'' = r ''claimed_at''"
    by (rule same; simp)+
  have obs: "to_reservation_work_observability_context r' = to_reservation_work_observability_context r"
    by (rule same_context; rule same; simp)
  show "request_of V t r' = request_of V t r" using 1 kept by (simp add: request_of_def status_of_def)
  show "metadata_evolves (metadata_of r) (metadata_of r')"
    using 1 kept obs by (simp add: metadata_evolves_def metadata_of_def)
  have "r' ''claim_expires_at'' \<noteq> SQL_Null" "r' ''last_heartbeat_at'' \<noteq> SQL_Null"
    by (rule assigns_time [OF set]; simp add: service_column_types)+
  then show "claim_fields_present (metadata_of r) \<Longrightarrow> claim_fields_present (metadata_of r')"
    using kept by (simp add: claim_fields_present_def metadata_of_def optional_iso_text_def)
qed

lemma pg_heartbeat_law:
  assumes doc: "documented_sql V service_schema E T K" and s: "tables_sound V (T d)"
    and run: "pg_heartbeat E hb d = (res, d')"
  shows "tables_sound V (T d') \<and> advances (ledger_of V (T d)) (ledger_of V (T d'))"
proof -
  have dc: "documented_conversions V" using doc by (simp add: documented_sql_def)
  have ok: "schema_ok service_schema (T d)" using s by (simp add: tables_sound_def)
  let ?c = "hb_claimedWorkItem hb"
  let ?sets = "[(''claim_expires_at'', P_Text (hb_claimExpiresAt hb)), (''last_heartbeat_at'', P_Text (hb_heartbeatAt hb)),
       (''updated_at'', P_Text (hb_heartbeatAt hb))]"
  let ?st = "Update ''reservation_requests'' (where_object [(''id'', P_Text (rr_id (cl_reservationRequest ?c))),
      (''status'', P_Text (status_str PROCESSING)), (''claimed_by'', P_Text (cl_claimedBy ?c)),
      (''claim_token'', P_Text (cl_claimToken ?c))]) ?sets"
  obtain x d1 where x: "eg_run E ?st d = (x, d1)" by fastforce
  have "d' = d1" using run x by (cases x) (auto simp: pg_heartbeat_def bind_io_def)
  note law = statement_runs(2) [OF doc x, folded this]
  show ?thesis
  proof (cases x)
    case (Inl e)
    then show ?thesis using law s by simp
  next
    case (Inr rows)
    with law ok have e: "effect_of V service_schema ?st (T d) rows (T d')" and ok': "schema_ok service_schema (T d')" by simp_all
    from dc id_tables(1) ok e [unfolded where_object.simps] show ?thesis
    proof (cases rule: update_by_id)
      case none
      then show ?thesis using s by simp
    next
      case (row i r r')
      have st: "r ''status'' = SQL_Text (status_str PROCESSING)"
        using row(3) by (subst (asm) row_matches_text [OF service_columns(5)]) (simp_all add: text_column_def)
      have o: "open_row V (T d) r i" using s row(2) status_of_text [of r, OF st] by (simp add: open_row_def)
      note up = heartbeat_update [OF row(5)] and f = open_row_facts [OF o]
      have p: "rr_status (request_of V (T d) r) = PROCESSING" using status_of_text [of r, OF st] by (simp add: request_of_def)
      have req: "request_of V (T d) r' = (request_of V (T d) r)\<lparr>rr_status := PROCESSING\<rparr>"
        by (simp add: up(4) update_same_status [OF p])
      have "claim_fields_present (metadata_of r)" using f(8) p by (simp add: claim_state_ok_def)
      then have cs: "claim_state_ok ((request_of V (T d) r)\<lparr>rr_status := PROCESSING\<rparr>) (metadata_of r')"
        by (intro processing_metadata [OF up(6) f(8) up(5)]) simp_all
      show ?thesis
        using put_open_row(1,2) [OF o up(1,2) req up(5) cs _ row(6)] ok' by (simp add: tables_sound_def)
    qed
  qed
qed

section \<open>Seats of reservations\<close>

lemma in_seat_ids: "x \<in> set (seat_ids_of V rs key i) \<longleftrightarrow> (\<exists>q \<in> set rs. q key = SQL_Text i \<and> x = as_text (q ''seat_id''))"
  by (auto simp: seat_ids_of_def)

lemma request_seats_uuid:
  assumes "schema_ok service_schema t" "x \<in> set (seat_ids_of V (t ''reservation_request_seats'') key i)"
  shows "uuid_text x"
proof -
  obtain q where q: "q \<in> set (t ''reservation_request_seats'')" "x = as_text (q ''seat_id'')"
    using assms(2) by (auto simp: in_seat_ids)
  show ?thesis by (rule uuid_value [OF assms(1) service_columns(8) _ _ q(1)]) (simp_all add: uuid_column_def q)
qed

text \<open>A seat row belongs to a reservation of the same screening.\<close>

lemma reservation_seat_row:
  assumes ok: "schema_ok service_schema t" and q: "q \<in> set (t ''reservation_seats'')"
  obtains j x p where "q ''reservation_id'' = SQL_Text j" "uuid_text j" "q ''seat_id'' = SQL_Text x" "uuid_text x"
    "find_row (t ''reservations'') j = Some p" "p ''screening_id'' = q ''screening_id''"
proof -
  obtain j where j: "q ''reservation_id'' = SQL_Text j" "uuid_text j"
    by (rule uuid_value [OF ok service_columns(15) _ _ q]) (simp_all add: uuid_column_def)
  obtain x where x: "q ''seat_id'' = SQL_Text x" "uuid_text x"
    by (rule uuid_value [OF ok service_columns(17) _ _ q]) (simp_all add: uuid_column_def)
  obtain s where sc: "q ''screening_id'' = SQL_Text s"
    by (rule uuid_value [OF ok service_columns(16) _ _ q]) (simp_all add: uuid_column_def)
  obtain m where m: "q ''movie_provider_id'' = SQL_Text m"
    by (rule uuid_value [OF ok service_columns(19) _ _ q]) (simp_all add: uuid_column_def)
  let ?k = "key_of [''reservation_id'', ''movie_provider_id'', ''screening_id''] q"
  have "\<not> no_null ?k \<or> ?k \<in> set (List.map (key_of [''id'', ''movie_provider_id'', ''screening_id'']) (t ''reservations''))"
    using schema_constraint [OF ok service_keys(8)] q by (simp add: list_all_iff)
  moreover have "no_null ?k" using j sc m by (simp add: key_of_def no_null_def)
  ultimately obtain p where p: "p \<in> set (t ''reservations'')" "p ''id'' = q ''reservation_id''"
    "p ''screening_id'' = q ''screening_id''" by (auto simp: key_of_def)
  have "find_row (t ''reservations'') j = Some p" by (rule id_table_find [OF id_tables(2) ok p(1)]) (simp add: p j)
  then show ?thesis using that j x p by blast
qed

lemma reservation_screening:
  assumes ok: "schema_ok service_schema t" and p: "find_row (t ''reservations'') j = Some p"
  shows "p ''screening_id'' = SQL_Text (rv_screeningId (reservation_of V t p))"
proof -
  have mem: "p \<in> set (t ''reservations'')" using find_row_Some [OF p] by blast
  show ?thesis
    by (rule uuid_value [OF ok service_columns(12) _ _ mem]) (simp_all add: uuid_column_def reservation_of_def)
qed

text \<open>The unique key of the seats rules out double bookings.\<close>

lemma schema_no_double_booking:
  assumes ok: "schema_ok service_schema t"
  shows "no_double_booking (ledger_of V t)"
  unfolding no_double_booking_def
proof (intro allI impI)
  fix i j v w assume v: "lg_reservation (ledger_of V t) i = Some v" and w: "lg_reservation (ledger_of V t) j = Some w"
    and ij: "i \<noteq> j"
  obtain p where p: "find_row (t ''reservations'') i = Some p" "v = reservation_of V t p" using v by auto
  obtain r where r: "find_row (t ''reservations'') j = Some r" "w = reservation_of V t r" using w by auto
  have False if sc: "rv_screeningId v = rv_screeningId w" and x: "x \<in> set (rv_seatIds v)" "x \<in> set (rv_seatIds w)" for x
  proof -
    have ids: "as_text (p ''id'') = i" "as_text (r ''id'') = j" using find_row_Some p r by fastforce+
    obtain a where a: "a \<in> set (t ''reservation_seats'')" "a ''reservation_id'' = SQL_Text i" "x = as_text (a ''seat_id'')"
      using x(1) ids by (auto simp: p(2) reservation_of_def in_seat_ids)
    obtain b where b: "b \<in> set (t ''reservation_seats'')" "b ''reservation_id'' = SQL_Text j" "x = as_text (b ''seat_id'')"
      using x(2) ids by (auto simp: r(2) reservation_of_def in_seat_ids)
    have seat: "a ''seat_id'' = b ''seat_id''"
      by (rule reservation_seat_row [OF ok a(1)], rule reservation_seat_row [OF ok b(1)]) (use a b in simp)
    have "a ''screening_id'' = p ''screening_id''"
      by (rule reservation_seat_row [OF ok a(1)]) (use a p in auto)
    moreover have "b ''screening_id'' = r ''screening_id''"
      by (rule reservation_seat_row [OF ok b(1)]) (use b r in auto)
    moreover have "p ''screening_id'' = r ''screening_id''"
      using reservation_screening [OF ok p(1), of V] reservation_screening [OF ok r(1), of V] sc p(2) r(2) by simp
    ultimately have "(a ''screening_id'', a ''seat_id'') = (b ''screening_id'', b ''seat_id'')" using seat by simp
    moreover have "distinct (List.map (\<lambda>r. (r ''screening_id'', r ''seat_id'')) (t ''reservation_seats''))"
      by (rule unique_columns [OF ok service_keys(7) service_columns(16) _ service_columns(17)]) (simp_all add: uuid_column_def)
    ultimately have "a = b" using a(1) b(1) by (auto simp: distinct_map inj_on_def)
    then show False using a(2) b(2) ij by simp
  qed
  then show "seats_disjoint v w" by (auto simp: seats_disjoint_def)
qed

section \<open>Searching for a conflict\<close>

lemma keeps_select:
  assumes "documented_sql V S E T K"
  shows "keeps (\<lambda>d. T d = t) (eg_run E (Select q))"
proof (rule keepsI)
  fix d assume d: "T d = t"
  obtain r d' where r: "eg_run E (Select q) d = (r, d')" by fastforce
  show "T (snd (eg_run E (Select q) d)) = t"
    using statement_runs(2) [OF assms r] d r by (cases r) auto
qed

lemma pg_find_conflict_keeps:
  assumes "documented_sql V S E T K"
  shows "keeps (\<lambda>d. T d = t) (pg_find_conflict E sc seats)"
  unfolding pg_find_conflict_def run_first_def find_reservation_seat_ids_def
  by (intro keeps_bind keeps_select [OF assms] keeps_pure; (split option.split)?; intro allI impI conjI keeps_bind
      keeps_select [OF assms] keeps_pure; (split option.split)?; intro allI impI conjI keeps_bind keeps_select [OF assms] keeps_pure)

lemma gives_find_seat_row:
  assumes doc: "documented_sql V service_schema E T K" and ok: "schema_ok service_schema t"
    and sc: "uuid_text sc" and seats: "\<forall>x \<in> set seats. uuid_text x"
  shows "gives T K (run_first E ((from_table ''reservation_seats'')
      \<lparr>sq_output := Columns [(''reservation_id'', col ''reservation_id'')],
       sq_where := [C_Eq (col ''screening_id'') (P_Text sc), C_In (col ''seat_id'') (List.map P_Text seats)],
       sq_order := [col ''reservation_id'']\<rparr>)) t
    (\<lambda>x t'. t' = t \<and> (case x of
        None \<Rightarrow> \<forall>q \<in> set (t ''reservation_seats''). q ''screening_id'' = SQL_Text sc \<longrightarrow> q ''seat_id'' \<notin> SQL_Text ` set seats
      | Some s \<Rightarrow> \<exists>q \<in> set (t ''reservation_seats''). q ''screening_id'' = SQL_Text sc \<and> q ''seat_id'' \<in> SQL_Text ` set seats \<and>
          s ''reservation_id'' = q ''reservation_id''))"
    (is "gives T K (run_first E ?q) t ?P")
proof -
  have dc: "documented_conversions V" using doc by (simp add: documented_sql_def)
  let ?f = "?q\<lparr>sq_first := True\<rparr>"
  let ?m = "\<lambda>r. r ''screening_id'' = SQL_Text sc \<and> r ''seat_id'' \<in> SQL_Text ` set seats"
  have m: "row_matches V service_schema ''reservation_seats'' (sq_where ?f) = ?m"
    using row_matches_uuid [OF dc service_columns(16) _ sc] row_matches_uuids [OF dc service_columns(17) _ seats]
    by (simp add: fun_eq_iff uuid_column_def)
  have res: "?P (case rows of [] \<Rightarrow> None | r # _ \<Rightarrow> Some r) t" if r: "is_result V service_schema ?f t rows" for rows
  proof -
    obtain rs where rs: "mset rs = mset (filter ?m (t ''reservation_seats''))"
      "rows = List.map (\<lambda>r. project (sq_output ?f) (single r)) (take 1 rs)"
      using plain_result [OF r, of "''reservation_seats''" "[''reservation_id'']"] m by (auto simp: from_table_def)
    have s: "set rs = {r \<in> set (t ''reservation_seats''). ?m r}" using mset_eq_setD [OF rs(1)] by simp
    show ?thesis
    proof (cases rs)
      case Nil
      then show ?thesis using s rs(2) by auto
    next
      case (Cons r rs')
      then have "r \<in> set (t ''reservation_seats'') \<and> ?m r" using s by auto
      then show ?thesis using rs(2) Cons by (auto simp: col_def)
    qed
  qed
  show ?thesis
    unfolding run_first_def
    by (rule gives_bind [OF gives_run [OF doc ok, where P = "\<lambda>rows t'. is_result V service_schema ?f t rows \<and> t' = t"]])
      (auto intro!: gives_pure(1) dest: res)
qed

lemma gives_find_conflict:
  assumes doc: "documented_sql V service_schema E T K" and ok: "schema_ok service_schema t"
    and sc: "uuid_text sc" and seats: "\<forall>x \<in> set seats. uuid_text x"
  shows "gives T K (pg_find_conflict E sc seats) t (\<lambda>x t'.
    (x = None \<longrightarrow> (\<forall>j w. lg_reservation (ledger_of V t) j = Some w \<longrightarrow> \<not> seats_conflict sc seats w)) \<and>
    (\<forall>w. x = Some w \<longrightarrow> (\<exists>j. lg_reservation (ledger_of V t) j = Some w) \<and> seats_conflict sc seats w))"
  unfolding pg_find_conflict_def
proof (rule gives_bind [OF gives_find_seat_row [OF assms]], goal_cases)
  case (1 x t')
  then have t': "t' = t" by blast
  show ?case
  proof (cases x)
    case None
    then have free: "\<forall>q \<in> set (t ''reservation_seats''). q ''screening_id'' = SQL_Text sc \<longrightarrow> q ''seat_id'' \<notin> SQL_Text ` set seats"
      using 1 by simp
    have "\<not> seats_conflict sc seats w" if w: "lg_reservation (ledger_of V t) j = Some w" for j w
    proof
      assume c: "seats_conflict sc seats w"
      obtain p where p: "find_row (t ''reservations'') j = Some p" "w = reservation_of V t p" using w by auto
      have id: "as_text (p ''id'') = j" using find_row_Some [OF p(1)] by simp
      obtain q where q: "q \<in> set (t ''reservation_seats'')" "q ''reservation_id'' = SQL_Text j" "as_text (q ''seat_id'') \<in> set seats"
        using c id by (auto simp: seats_conflict_def list_ex_iff p(2) reservation_of_def in_seat_ids)
      have "q ''seat_id'' \<in> SQL_Text ` set seats"
        by (rule reservation_seat_row [OF ok q(1)]) (use q in auto)
      moreover have "q ''screening_id'' = p ''screening_id''"
        by (rule reservation_seat_row [OF ok q(1)]) (use q p in auto)
      then have "q ''screening_id'' = SQL_Text sc"
        using reservation_screening [OF ok p(1), of V] c p(2) by (simp add: seats_conflict_def)
      ultimately show False using free q(1) by blast
    qed
    then show ?thesis using None by (auto intro: gives_pure(1))
  next
    case (Some s)
    then obtain q where q: "q \<in> set (t ''reservation_seats'')" "q ''screening_id'' = SQL_Text sc"
      "q ''seat_id'' \<in> SQL_Text ` set seats" "s ''reservation_id'' = q ''reservation_id''" using 1 by auto
    obtain j x p where j: "q ''reservation_id'' = SQL_Text j" "uuid_text j" "q ''seat_id'' = SQL_Text x"
      "find_row (t ''reservations'') j = Some p" "p ''screening_id'' = q ''screening_id''"
      by (rule reservation_seat_row [OF ok q(1)])
    have sj: "as_text (s ''reservation_id'') = j" using q(4) j(1) by simp
    have mem: "p \<in> set (t ''reservations'')" and id: "as_text (p ''id'') = j" using find_row_Some [OF j(4)] by simp_all
    show ?thesis
      unfolding Some option.case sj t'
    proof (rule gives_bind [OF gives_first_by_id [OF doc id_tables(2) ok j(2)]], goal_cases)
      case (6 y t2)
      then have y: "y = Some p" "t2 = t" using j(4) by simp_all
      show ?case
        unfolding y option.case id
      proof (rule gives_bind [OF gives_reservation_seat_ids [OF doc ok j(2)]], rule gives_lift_bind, rule gives_pure(1), goal_cases)
        case (1 ids t3 v)
        then have v: "v = reservation_of V t p" using to_reservation_value [OF ok mem, of V v] id by simp
        have "rv_screeningId v = sc" using j(5) q(2) by (simp add: v reservation_of_def)
        moreover have "x \<in> set (rv_seatIds v)" using q(1) j(1,3) id by (auto simp: v reservation_of_def in_seat_ids intro!: bexI [of _ q])
        moreover have "x \<in> set seats" using q(3) j(3) by auto
        ultimately have "seats_conflict sc seats v" by (auto simp: seats_conflict_def list_ex_iff)
        moreover have "lg_reservation (ledger_of V t) j = Some v" using j(4) by (simp add: v)
        ultimately show ?case by blast
      qed
    qed (simp_all add: from_table_def)
  qed
qed

lemma pg_find_law:
  assumes doc: "documented_sql V service_schema E T K" and ok: "schema_ok service_schema (T d)"
    and sc: "uuid_text sc" and seats: "\<forall>x \<in> set seats. uuid_text x"
    and run: "pg_find_conflict E sc seats d = (res, d')"
  shows "T d' = T d \<and>
    (res = Inr None \<longrightarrow> (\<forall>j w. lg_reservation (ledger_of V (T d)) j = Some w \<longrightarrow> \<not> seats_conflict sc seats w)) \<and>
    (\<forall>w. res = Inr (Some w) \<longrightarrow> (\<exists>j. lg_reservation (ledger_of V (T d)) j = Some w) \<and> seats_conflict sc seats w)"
proof -
  have "T (snd (pg_find_conflict E sc seats d)) = T d"
    using keepsD [OF pg_find_conflict_keeps [OF doc], of d "T d"] by simp
  then show ?thesis
    using givesD [OF gives_find_conflict [OF doc ok sc seats] refl run] run by auto
qed

section \<open>Confirming\<close>

lemma reservation_column_types:
  "column_type service_schema ''reservations'' ''id'' = T_Uuid"
  "column_type service_schema ''reservations'' ''movie_provider_id'' = T_Uuid"
  "column_type service_schema ''reservations'' ''reservation_request_id'' = T_Uuid"
  "column_type service_schema ''reservations'' ''screening_id'' = T_Uuid"
  "column_type service_schema ''reservations'' ''reserved_by_user_id'' = T_Text"
  "column_type service_schema ''reservations'' ''confirmed_at'' = T_Timestamptz"
  "column_type service_schema ''reservation_seats'' ''reservation_id'' = T_Uuid"
  "column_type service_schema ''reservation_seats'' ''seat_id'' = T_Uuid"
  by code_simp+

text \<open>A reservation that the database gives back as it was stored.\<close>

definition reservation_storable :: "conversions \<Rightarrow> reservation \<Rightarrow> bool" where
  "reservation_storable V v \<longleftrightarrow> uuid_text (rv_id v) \<and> uuid_text (rv_movieProviderId v) \<and>
     uuid_text (rv_reservationRequestId v) \<and> uuid_text (rv_screeningId v) \<and> js_trim (rv_reservedByUserId v) = rv_reservedByUserId v \<and>
     stored_time (rv_confirmedAt v) \<and> (\<forall>x \<in> set (rv_seatIds v). uuid_text x) \<and>
     arrange (cv_le V) (List.map SQL_Text (rv_seatIds v)) = List.map SQL_Text (rv_seatIds v)"

lemma arrange_arranged: "total_order le \<Longrightarrow> arrange le (arrange le xs) = arrange le xs"
  by (rule arrange_eq [symmetric]) (auto intro: sorted_arrange)

lemma reservation_for_storable:
  assumes dc: "documented_conversions V" and ok: "schema_ok service_schema t"
    and q: "lg_request (ledger_of V t) i = Some q" and v: "reservation_for q v" and id: "uuid_text (rv_id v)" "stored_time (rv_confirmedAt v)"
  shows "reservation_storable V v"
proof -
  obtain r where r: "find_row (t ''reservation_requests'') i = Some r" "q = request_of V t r" using q by auto
  have mem: "r \<in> set (t ''reservation_requests'')" using find_row_Some [OF r(1)] by blast
  let ?vs = "List.map (\<lambda>r. r ''seat_id'') (filter (\<lambda>s. s ''reservation_request_id'' = SQL_Text (as_text (r ''id''))) (t ''reservation_request_seats''))"
  have seats: "rv_seatIds v = List.map as_text (arrange (cv_le V) ?vs)"
    using v by (simp add: reservation_for_def r(2) request_of_def seat_ids_of_def)
  have txt_w: "w = SQL_Text (as_text w)" if "w \<in> set (arrange (cv_le V) ?vs)" for w
  proof -
    from that obtain s where s: "s \<in> set (t ''reservation_request_seats'')" "w = s ''seat_id''" by auto
    show ?thesis by (rule uuid_value [OF ok service_columns(8) _ _ s(1)]) (simp_all add: uuid_column_def s)
  qed
  have "List.map SQL_Text (rv_seatIds v) = arrange (cv_le V) ?vs"
    unfolding seats map_map by (rule map_idI) (simp only: comp_apply, rule txt_w [symmetric])
  then have "arrange (cv_le V) (List.map SQL_Text (rv_seatIds v)) = List.map SQL_Text (rv_seatIds v)"
    by (simp add: arrange_arranged [OF documented_convert(1) [OF dc]])
  moreover have "\<forall>x \<in> set (rv_seatIds v). uuid_text x"
    using request_seats_uuid [OF ok] v by (auto simp: reservation_for_def r(2) request_of_def)
  ultimately show ?thesis
    using request_row_ids [OF ok mem] v id by (simp add: reservation_storable_def reservation_for_def r(2) request_of_def)
qed

lemma reservation_inserted:
  assumes dc: "documented_conversions V" and v: "reservation_storable V v"
    and r: "is_inserted V service_schema ''reservations'' (reservation_values v) r"
  shows "r ''id'' = SQL_Text (rv_id v)" "as_text (r ''movie_provider_id'') = rv_movieProviderId v"
    "as_text (r ''reservation_request_id'') = rv_reservationRequestId v" "as_text (r ''screening_id'') = rv_screeningId v"
    "as_text (r ''reserved_by_user_id'') = rv_reservedByUserId v" "iso_text (r ''confirmed_at'') = rv_confirmedAt v"
proof -
  note set = is_insertedD [OF r] and vals = reservation_values_def reservation_column_types
  have u: "uuid_text (rv_id v)" "uuid_text (rv_movieProviderId v)" "uuid_text (rv_reservationRequestId v)"
    "uuid_text (rv_screeningId v)" "stored_time (rv_confirmedAt v)" using v by (simp_all add: reservation_storable_def)
  note c = documented_convert(2) [OF dc]
  show "r ''id'' = SQL_Text (rv_id v)" "as_text (r ''movie_provider_id'') = rv_movieProviderId v"
    "as_text (r ''reservation_request_id'') = rv_reservationRequestId v" "as_text (r ''screening_id'') = rv_screeningId v"
    "as_text (r ''reserved_by_user_id'') = rv_reservedByUserId v"
    using set [of "''id''"] set [of "''movie_provider_id''"] set [of "''reservation_request_id''"] set [of "''screening_id''"]
      set [of "''reserved_by_user_id''"] by (auto simp: vals c u dest: sym)
  show "iso_text (r ''confirmed_at'') = rv_confirmedAt v"
    by (rule stored_time_value [OF dc u(5)]) (use set [of "''confirmed_at''"] in \<open>simp add: vals\<close>)
qed

lemma seats_inserted:
  assumes dc: "documented_conversions V" and v: "uuid_text (rv_id v)" "\<forall>x \<in> set xs. uuid_text x"
    and rs: "list_all2 (is_inserted V service_schema ''reservation_seats'') (List.map (reservation_seat_values v s) xs) rs"
  shows "(\<forall>r \<in> set rs. r ''reservation_id'' = SQL_Text (rv_id v)) \<and> List.map (\<lambda>r. r ''seat_id'') rs = List.map SQL_Text xs"
  using rs v(2)
proof (induction xs arbitrary: rs)
  case (Cons x xs)
  then obtain r rs' where r: "rs = r # rs'" "is_inserted V service_schema ''reservation_seats'' (reservation_seat_values v s x) r"
    "list_all2 (is_inserted V service_schema ''reservation_seats'') (List.map (reservation_seat_values v s) xs) rs'"
    by (auto simp: list_all2_Cons1)
  note set = is_insertedD [OF r(2)]
  have "r ''reservation_id'' = SQL_Text (rv_id v)" "r ''seat_id'' = SQL_Text x"
    using set [of "''reservation_id''"] set [of "''seat_id''"] documented_convert(2) [OF dc] v(1) Cons.prems(2)
    by (simp_all add: reservation_seat_values_def reservation_column_types)
  then show ?case using Cons r by simp
qed simp

lemma gives_run_first:
  assumes "documented_sql V service_schema E T K" "schema_ok service_schema t"
  shows "gives T K (run_first E q) t (\<lambda>_ t'. t' = t)"
  unfolding run_first_def
  by (rule gives_bind [OF gives_run [OF assms, where P = "\<lambda>_ t'. t' = t"]]) (auto intro: gives_pure(1))

lemma gives_insert_reservation:
  assumes doc: "documented_sql V service_schema E T K" and ok: "schema_ok service_schema t" and v: "reservation_storable V v"
  shows "gives T K (insert_reservation E v) t (\<lambda>_ t'. schema_ok service_schema t' \<and>
    lg_reservation (ledger_of V t) (rv_id v) = None \<and> ledger_of V t' = put_reservation v (ledger_of V t) \<and>
    t' ''reservation_requests'' = t ''reservation_requests'' \<and> request_of V t' = request_of V t)"
  unfolding insert_reservation_def
proof (rule gives_bind [where P = "\<lambda>_ t'. t' = t"], goal_cases)
  case 1
  show ?case
    unfolding require_screening_row_for_provider_def
    by (rule gives_bind [OF gives_run_first [OF doc ok]]) (auto intro: gives_pure split: option.split)
next
  case (2 s t0)
  then have t0: "t0 = t" .
  have dc: "documented_conversions V" using doc by (simp add: documented_sql_def)
  show ?case
    unfolding t0
  proof (rule gives_then [OF gives_insert [OF doc ok]], elim conjE exE, goal_cases)
    case (1 x t1 new)
    then obtain r where new: "new = [r]" and ins: "is_inserted V service_schema ''reservations'' (reservation_values v) r"
      by (auto simp: list_all2_Cons1)
    have t1: "t1 = t(''reservations'' := t ''reservations'' @ [r])" using 1 new by simp
    note r = reservation_inserted [OF dc v ins]
    have none: "find_row (t ''reservations'') (rv_id v) = None"
    proof -
      have "r ''id'' \<notin> (\<lambda>r. r ''id'') ` set (t ''reservations'')"
        using id_table_distinct [OF id_tables(2) 1(1)] by (simp add: t1)
      then show ?thesis unfolding find_row_None r(1) by (metis imageI)
    qed
    have old: "\<forall>q \<in> set (t ''reservation_seats''). q ''reservation_id'' \<noteq> SQL_Text (rv_id v)"
    proof
      fix q assume "q \<in> set (t ''reservation_seats'')"
      then show "q ''reservation_id'' \<noteq> SQL_Text (rv_id v)"
        by (rule reservation_seat_row [OF ok]) (use none in auto)
    qed
    show ?case
    proof (rule gives_bind [OF gives_insert [OF doc 1(1)]], rule gives_pure(1), elim conjE exE, goal_cases)
      case (1 y t2 srs)
      have vs: "uuid_text (rv_id v)" "\<forall>x \<in> set (rv_seatIds v). uuid_text x"
        "arrange (cv_le V) (List.map SQL_Text (rv_seatIds v)) = List.map SQL_Text (rv_seatIds v)"
        "js_trim (rv_reservedByUserId v) = rv_reservedByUserId v"
        using v by (simp_all add: reservation_storable_def)
      note seats = seats_inserted [OF dc vs(1,2) 1(2)]
      have t2: "t2 = t(''reservations'' := t ''reservations'' @ [r], ''reservation_seats'' := t ''reservation_seats'' @ srs)"
        using 1(3) by (simp add: t1)
      have "seat_ids_of V (t ''reservation_seats'' @ srs) ''reservation_id'' (rv_id v) = rv_seatIds v"
        using seat_ids_of_append(2) [of srs "''reservation_id''" "rv_id v" "t ''reservation_seats''" V] seats old vs(3)
        by (simp add: comp_def)
      then have "reservation_of V t2 r = v"
        using r vs(4) by (simp add: reservation_of_def t2)
      then have "ledger_of V t2 = put_reservation v (ledger_of V t)"
        using ledger_of_insert_reservation [of t "rv_id v" r srs t2 V] none r(1) seats t2 by simp
      moreover have "request_of V t2 = request_of V t" by (simp add: t2 request_of_other_tables)
      ultimately show ?case using 1(1) none by (simp add: t2)
    qed
  qed
qed

lemma gives_confirm:
  assumes doc: "documented_sql V service_schema E T K" and ok: "schema_ok service_schema t"
    and i: "uuid_text (rr_id (cl_reservationRequest c))" and v: "reservation_storable V v"
    and a: "attempt_storable (Confirmed_Attempt a)"
  shows "gives T K (then_io (require_claimed_processing_request E c) (then_io (insert_reservation E v)
      (mark_claimed_confirmed E c a))) t (\<lambda>q t'. schema_ok service_schema t' \<and>
    (\<exists>r m. owned (ledger_of V t) c r m \<and> lg_reservation (ledger_of V t) (rv_id v) = None \<and>
       (\<forall>j w. lg_reservation (ledger_of V t) j = Some w \<longrightarrow> seats_disjoint v w) \<and> q = r\<lparr>rr_status := CONFIRMED\<rparr> \<and>
       ledger_of V t' = add_attempt (Confirmed_Attempt a) (put_work q (cleared_metadata m) (put_reservation v (ledger_of V t)))))"
proof (rule gives_then [OF gives_require_claimed [OF doc ok i]], elim conjE, hypsubst,
    rule gives_then [OF gives_insert_reservation [OF doc ok v]], elim conjE, goal_cases)
  case (1 r t1 x t2)
  have free: "seats_disjoint v w" if "lg_reservation (ledger_of V t) j = Some w" for j w
  proof -
    have "j \<noteq> rv_id v" using that 1(4) by auto
    then have "lg_reservation (ledger_of V t2) (rv_id v) = Some v" "lg_reservation (ledger_of V t2) j = Some w" "rv_id v \<noteq> j"
      using that unfolding 1(5) by (auto simp: put_reservation_def)
    then show ?thesis using schema_no_double_booking [OF 1(3), of V] unfolding no_double_booking_def by blast
  qed
  show ?case
    unfolding mark_claimed_confirmed_def
  proof (rule gives_bind [OF gives_update_status [OF doc 1(3) i]], elim conjE exE, goal_cases)
    case (1 q t3 r3)
    then have "r3 = r" using \<open>t2 ''reservation_requests'' = t ''reservation_requests''\<close> \<open>find_row (t ''reservation_requests'') (rr_id (cl_reservationRequest c)) = Some r\<close>
      by simp
    show ?case
      by (rule gives_then [OF gives_insert_attempt [OF doc 1(1) a]], rule gives_pure(1))
        (use 1 \<open>r3 = r\<close> free \<open>owned (ledger_of V t) c (request_of V t r) (metadata_of r)\<close> \<open>ledger_of V t2 = put_reservation v (ledger_of V t)\<close>
          \<open>lg_reservation (ledger_of V t) (rv_id v) = None\<close> \<open>request_of V t2 = request_of V t\<close> in \<open>simp, blast\<close>)
  qed
qed

lemma pg_reject_law:
  assumes doc: "documented_sql V service_schema E T K" and s: "tables_sound V (T d)"
    and c: "claim_of (ledger_of V (T d)) c" "attempt_for stored_time c ra"
      "lg_reservation (ledger_of V (T d)) (at_conflictingReservationId ra) \<noteq> None"
    and run: "pg_reject E c ra d = (res, d')"
  shows "tables_sound V (T d') \<and> (case res of Inl e \<Rightarrow> T d' = T d
    | Inr q \<Rightarrow> \<exists>r m. did c r m m REJECTED (Rejected_Attempt ra) (ledger_of V (T d)) (ledger_of V (T d')) \<and>
        q = r\<lparr>rr_status := REJECTED\<rparr>)"
proof -
  have "schema_ok service_schema (T d)" using s by (simp add: tables_sound_def)
  from settle_law [OF doc s c(1) attempt_for_storable(2) [OF this c] _ _ run [unfolded pg_reject_def], unfolded if_False]
  show ?thesis by simp
qed

lemma pg_release_law:
  assumes doc: "documented_sql V service_schema E T K" and s: "tables_sound V (T d)"
    and c: "claim_of (ledger_of V (T d)) c" "attempt_for stored_time c fa" and run: "pg_release E c fa d = (res, d')"
  shows "tables_sound V (T d') \<and> (case res of Inl e \<Rightarrow> T d' = T d
    | Inr q \<Rightarrow> \<exists>r m. did c r m (bump_failures m) REQUESTED (Failed_Attempt fa) (ledger_of V (T d)) (ledger_of V (T d')) \<and>
        q = r\<lparr>rr_status := REQUESTED\<rparr>)"
proof -
  have "schema_ok service_schema (T d)" using s by (simp add: tables_sound_def)
  from settle_law [OF doc s c(1) attempt_for_storable(1) [OF this c] _ _ run [unfolded pg_release_def], unfolded if_True]
  show ?thesis by simp
qed

lemma pg_fail_law:
  assumes doc: "documented_sql V service_schema E T K" and s: "tables_sound V (T d)"
    and c: "claim_of (ledger_of V (T d)) c" "attempt_for stored_time c fa" and run: "pg_fail E c fa d = (res, d')"
  shows "tables_sound V (T d') \<and> (case res of Inl e \<Rightarrow> T d' = T d
    | Inr q \<Rightarrow> \<exists>r m. did c r m (bump_failures m) FAILED (Failed_Attempt fa) (ledger_of V (T d)) (ledger_of V (T d')) \<and>
        q = r\<lparr>rr_status := FAILED\<rparr>)"
proof -
  have "schema_ok service_schema (T d)" using s by (simp add: tables_sound_def)
  from settle_law [OF doc s c(1) attempt_for_storable(1) [OF this c] _ _ run [unfolded pg_fail_def], unfolded if_True]
  show ?thesis by simp
qed

lemma confirm_ok_storable:
  assumes dc: "documented_conversions V" and ok: "schema_ok service_schema t"
    and c: "confirm_ok stored_time uuid_text (ledger_of V t) ci"
  shows "reservation_storable V (co_reservation ci)" "attempt_storable (Confirmed_Attempt (co_attempt ci))"
    "\<exists>q. lg_request (ledger_of V t) (rr_id (cl_reservationRequest (co_claimedWorkItem ci))) = Some q \<and>
       reservation_for q (co_reservation ci)"
proof -
  from c obtain q where q: "lg_request (ledger_of V t) (rr_id (cl_reservationRequest (co_claimedWorkItem ci))) = Some q"
    "same_request (cl_reservationRequest (co_claimedWorkItem ci)) q" by (auto simp: confirm_ok_def claim_of_def)
  have v: "reservation_for q (co_reservation ci)"
    using c same_request_fields [OF q(2)] by (simp add: confirm_ok_def reservation_for_def)
  show "\<exists>q. lg_request (ledger_of V t) (rr_id (cl_reservationRequest (co_claimedWorkItem ci))) = Some q \<and>
       reservation_for q (co_reservation ci)" using q v by blast
  show "reservation_storable V (co_reservation ci)"
    by (rule reservation_for_storable [OF dc ok q(1) v]) (use c in \<open>simp_all add: confirm_ok_def\<close>)
  show "attempt_storable (Confirmed_Attempt (co_attempt ci))"
    by (rule attempt_for_storable(3) [OF ok, of V "co_claimedWorkItem ci"]) (use c in \<open>simp_all add: confirm_ok_def\<close>)
qed

lemma pg_confirm_confirmed:
  assumes doc: "documented_sql V service_schema E T K" and s: "tables_sound V (T d)"
    and c: "confirm_ok stored_time uuid_text (ledger_of V (T d)) ci"
    and run: "transaction E (then_io (require_claimed_processing_request E (co_claimedWorkItem ci))
      (then_io (insert_reservation E (co_reservation ci)) (mark_claimed_confirmed E (co_claimedWorkItem ci) (co_attempt ci)))) d = (x, d')"
  shows "case x of Inl e \<Rightarrow> T d' = T d
    | Inr q \<Rightarrow> tables_sound V (T d') \<and> confirm_outcome ci (ledger_of V (T d)) (Inr (Confirm_Confirmed q)) (ledger_of V (T d'))"
proof -
  have dc: "documented_conversions V" using doc by (simp add: documented_sql_def)
  have ok: "schema_ok service_schema (T d)" and inv: "ledger_inv (ledger_of V (T d))" using s by (simp_all add: tables_sound_def)
  note st = confirm_ok_storable [OF dc ok c]
  have co: "claim_of (ledger_of V (T d)) (co_claimedWorkItem ci)" using c by (simp add: confirm_ok_def)
  note t = transaction_gives [OF doc gives_confirm [OF doc ok claim_of_uuid [OF ok co] st(1,2)] run]
  show ?thesis
  proof (cases x)
    case (Inl e)
    then show ?thesis using t by simp
  next
    case (Inr q)
    let ?L = "ledger_of V (T d)" and ?v = "co_reservation ci"
    from t Inr obtain r m where r: "owned ?L (co_claimedWorkItem ci) r m" "lg_reservation ?L (rv_id ?v) = None"
      "\<forall>j w. lg_reservation ?L j = Some w \<longrightarrow> seats_disjoint ?v w" "q = r\<lparr>rr_status := CONFIRMED\<rparr>"
      "ledger_of V (T d') = add_attempt (Confirmed_Attempt (co_attempt ci)) (put_work q (cleared_metadata m) (put_reservation ?v ?L))"
      and ok': "schema_ok service_schema (T d')" by auto
    note f = owned_facts [OF inv r(1)]
    obtain p where p: "lg_request ?L (rr_id (cl_reservationRequest (co_claimedWorkItem ci))) = Some p" "reservation_for p ?v"
      using st(3) by blast
    have "p = r" using p(1) r(1) unfolding owned_def by (metis option.inject)
    have "ledger_inv (put_work (r\<lparr>rr_status := CONFIRMED\<rparr>) (cleared_metadata m) (put_reservation ?v ?L))"
      by (rule ledger_inv_confirm [OF inv f(3,4) _ _ r(2)])
        (use f r(3) p(2) \<open>p = r\<close> claim_state_ok_changes(1) [OF f(5)] in auto)
    then have "ledger_inv (ledger_of V (T d'))" by (simp add: r(4,5))
    then show ?thesis using Inr r ok' unfolding confirm_outcome_def Let_def tables_sound_def by auto
  qed
qed

lemma handle_confirm_error_law:
  assumes doc: "documented_sql V service_schema E T K" and s: "tables_sound V (T d)"
    and c: "confirm_ok stored_time uuid_text (ledger_of V (T d)) ci"
    and run: "handle_confirm_error E e ci d = (res, d')"
  shows "tables_sound V (T d') \<and> confirm_outcome ci (ledger_of V (T d)) res (ledger_of V (T d'))"
proof -
  let ?L = "ledger_of V (T d)" and ?v = "co_reservation ci" and ?c = "co_claimedWorkItem ci"
  have dc: "documented_conversions V" using doc by (simp add: documented_sql_def)
  have ok: "schema_ok service_schema (T d)" and inv: "ledger_inv ?L" using s by (simp_all add: tables_sound_def)
  have co: "claim_of ?L ?c" and af: "attempt_for stored_time ?c (co_attempt ci)" using c by (simp_all add: confirm_ok_def)
  have v: "uuid_text (rv_screeningId ?v)" "\<forall>x \<in> set (rv_seatIds ?v). uuid_text x"
    using confirm_ok_storable(1) [OF dc ok c] by (simp_all add: reservation_storable_def)
  have thrown: "tables_sound V (T d') \<and> confirm_outcome ci ?L res (ledger_of V (T d'))"
    if "T d' = T d" "\<exists>x. res = Inl x" using that s by (auto simp: confirm_outcome_def Let_def)
  show ?thesis
  proof (cases "is_postgres_unique_violation E e ''reservation_seats_screening_id_seat_id_unique''")
    case False
    then show ?thesis using run thrown by (auto simp: handle_confirm_error_def)
  next
    case True
    obtain y d1 where y: "pg_find_conflict E (rv_screeningId ?v) (rv_seatIds ?v) d = (y, d1)" by fastforce
    note law = pg_find_law [OF doc ok v y]
    show ?thesis
    proof (cases "\<exists>w. y = Inr (Some w)")
      case False
      then have "d' = d1 \<and> (\<exists>x. res = Inl x)"
        using run True y by (cases y) (auto simp: handle_confirm_error_def bind_io_def split: option.splits)
      then show ?thesis using law thrown by simp
    next
      case True': True
      then obtain w where w: "y = Inr (Some w)" by blast
      then obtain j where j: "lg_reservation ?L j = Some w" "seats_conflict (rv_screeningId ?v) (rv_seatIds ?v) w"
        using law by blast
      have wj: "lg_reservation ?L (rv_id w) \<noteq> None" using inv_reservationD [OF inv j(1)] j(1) by (metis option.distinct(1))
      define a where "a = \<lparr>at_reservationRequestId = rr_id (cl_reservationRequest ?c), at_sequence = cl_sequence ?c,
        at_startedAt = at_startedAt (co_attempt ci), at_completedAt = at_completedAt (co_attempt ci),
        at_rejectionReason = Seat_Conflict, at_conflictingReservationId = rv_id w\<rparr>"
      obtain z d2 where z: "pg_reject E ?c a d1 = (z, d2)" by fastforce
      have d': "d' = d2" "res = (case z of Inl x \<Rightarrow> Inl x | Inr q \<Rightarrow> Inr (Confirm_Rejected q a))"
        using run True y w z
        by (auto simp: handle_confirm_error_def bind_io_def Let_def a_def [symmetric] split: sum.splits)
      have T1: "T d1 = T d" using law by blast
      have "attempt_for stored_time ?c a" using af by (simp add: attempt_for_def a_def)
      moreover have "lg_reservation ?L (at_conflictingReservationId a) \<noteq> None" using wj by (simp add: a_def)
      ultimately have rej: "tables_sound V (T d2) \<and> (case z of Inl e \<Rightarrow> T d2 = T d
        | Inr q \<Rightarrow> \<exists>r m. did ?c r m m REJECTED (Rejected_Attempt a) ?L (ledger_of V (T d2)) \<and> q = r\<lparr>rr_status := REJECTED\<rparr>)"
        using pg_reject_law [OF doc _ _ _ _ z] s co unfolding T1 by blast
      show ?thesis
      proof (cases z)
        case (Inl x)
        then show ?thesis using rej d' thrown by simp
      next
        case (Inr q)
        with rej obtain r m where r: "did ?c r m m REJECTED (Rejected_Attempt a) ?L (ledger_of V (T d2))"
          "q = r\<lparr>rr_status := REJECTED\<rparr>" by auto
        have "rr_id r = rr_id (cl_reservationRequest ?c)" using owned_facts(1) [OF inv, of ?c r m] r(1) by (simp add: did_def)
        then have "a = rejected_attempt_of ci r w" by (simp add: a_def rejected_attempt_of_def)
        moreover have "\<not> seats_disjoint ?v w" using j(2) seats_conflict_disjoint by blast
        ultimately have "confirm_outcome ci ?L (Inr (Confirm_Rejected q a)) (ledger_of V (T d2))"
          using r j(1) unfolding confirm_outcome_def Let_def sum.case confirm_result.case by blast
        then show ?thesis using rej d' Inr by simp
      qed
    qed
  qed
qed

lemma pg_confirm_law:
  assumes doc: "documented_sql V service_schema E T K" and s: "tables_sound V (T d)"
    and c: "confirm_ok stored_time uuid_text (ledger_of V (T d)) ci" and run: "pg_confirm E ci d = (res, d')"
  shows "tables_sound V (T d') \<and> confirm_outcome ci (ledger_of V (T d)) res (ledger_of V (T d'))"
proof -
  obtain x d1 where x: "transaction E (then_io (require_claimed_processing_request E (co_claimedWorkItem ci))
      (then_io (insert_reservation E (co_reservation ci))
        (mark_claimed_confirmed E (co_claimedWorkItem ci) (co_attempt ci)))) d = (x, d1)" by fastforce
  note law = pg_confirm_confirmed [OF doc s c x]
  show ?thesis
  proof (cases x)
    case (Inl e)
    then have T1: "T d1 = T d" using law by simp
    have "handle_confirm_error E e ci d1 = (res, d')"
      using run x Inl by (simp add: pg_confirm_def catch_io_def bind_io_def)
    from handle_confirm_error_law [OF doc _ _ this] s c show ?thesis unfolding T1 by blast
  next
    case (Inr q)
    then have "res = Inr (Confirm_Confirmed q)" "d' = d1"
      using run x by (simp_all add: pg_confirm_def catch_io_def bind_io_def)
    then show ?thesis using law Inr by simp
  qed
qed

section \<open>The contract\<close>

lemma postgres_meets_contract:
  assumes doc: "documented_sql V service_schema E T K"
  shows "work_repository (postgres_work_repository E) (\<lambda>d. tables_sound V (T d)) (\<lambda>d. ledger_of V (T d))
    stored_time uuid_text"
proof (unfold_locales, goal_cases)
  case (1 d)
  then show ?case by (simp add: tables_sound_def)
next
  case (2 d input res d')
  then show ?case using pg_claim_law [OF doc, of d input res d'] by (simp add: postgres_work_repository_def)
next
  case (3 d hb res d')
  then show ?case using pg_heartbeat_law [OF doc, of d hb res d'] by (simp add: postgres_work_repository_def)
next
  case (4 d i q res d')
  then have ok: "schema_ok service_schema (T d)" by (simp add: tables_sound_def)
  obtain r where r: "find_row (T d ''reservation_requests'') i = Some r" "q = request_of V (T d) r" using 4(2) by auto
  have "r \<in> set (T d ''reservation_requests'')" using find_row_Some [OF r(1)] by blast
  then have "uuid_text (rr_screeningId q)" "\<forall>x \<in> set (rr_seatIds q). uuid_text x"
    using request_row_ids(4) [OF ok] request_seats_uuid [OF ok] by (auto simp: r(2) request_of_def)
  from pg_find_law [OF doc ok this] 4 show ?case by (simp add: postgres_work_repository_def)
next
  case (5 d c ra res d')
  then have "pg_reject E c ra d = (res, d')" by (simp add: postgres_work_repository_def)
  from pg_reject_law [OF doc 5(1,2,3,4) this] show ?case by (auto split: sum.splits)
next
  case (6 d c fa res d')
  then have "pg_release E c fa d = (res, d')" by (simp add: postgres_work_repository_def)
  from pg_release_law [OF doc 6(1,2,3) this] show ?case by (auto split: sum.splits)
next
  case (7 d c fa res d')
  then have "pg_fail E c fa d = (res, d')" by (simp add: postgres_work_repository_def)
  from pg_fail_law [OF doc 7(1,2,3) this] show ?case by (auto split: sum.splits)
next
  case (8 d ci res d')
  then show ?case using pg_confirm_law [OF doc, of d ci res d'] by (simp add: postgres_work_repository_def)
qed

end
