(* ===== verification/Postgres_Availability.thy ===== *)
theory Postgres_Availability
  imports Postgres_Movie Postgres_Contract
begin

text \<open>
  The availability query: two left joins give one row for each seat of the auditorium, with the
  seat of a reservation beside it if there is one, or a single empty row if the auditorium has no seats, or
  none if the provider has no such screening.
\<close>

section \<open>The facts of the schema it rests on\<close>

lemma availability_columns:
  "find_column service_schema ''screenings'' ''id'' = Some (uuid_column ''id'')"
  "find_column service_schema ''screenings'' ''movie_provider_id'' = Some (uuid_column ''movie_provider_id'')"
  "find_column service_schema ''screenings'' ''auditorium_id'' = Some (uuid_column ''auditorium_id'')"
  "find_column service_schema ''seats'' ''id'' = Some (uuid_column ''id'')"
  "find_column service_schema ''reservation_seats'' ''auditorium_id'' = Some (uuid_column ''auditorium_id'')"
  by code_simp+

lemma availability_keys:
  "Unique ''screenings_pkey'' [''id''] \<in> set (table_constraints service_schema ''screenings'')"
  "Foreign_Key [''screening_id'', ''movie_provider_id'', ''auditorium_id''] ''screenings''
     [''id'', ''movie_provider_id'', ''auditorium_id''] \<in> set (table_constraints service_schema ''reservation_seats'')"
  by (simp_all add: table_constraints_def service_schema_def add_observability_context_def alter_table_def
      create_movie_reservation_schema_def movie_providers_table_def movies_table_def auditoriums_table_def
      screenings_table_def seats_table_def reservation_requests_table_def reservation_request_seats_table_def
      reservations_table_def reservation_seats_table_def primary_key_def)

lemma screenings_by_id: "id_table ''screenings''"
  unfolding id_table_def using availability_columns(1) availability_keys(1) by blast

lemma reservation_seat_screening:
  assumes ok: "schema_ok service_schema t" and q: "q \<in> set (t ''reservation_seats'')"
    and s: "find_row (t ''screenings'') i = Some s" "q ''screening_id'' = SQL_Text i"
  shows "q ''movie_provider_id'' = s ''movie_provider_id''"
proof -
  obtain m where m: "q ''movie_provider_id'' = SQL_Text m"
    by (rule uuid_value [OF ok service_columns(19) _ _ q]) (simp_all add: uuid_column_def)
  obtain a where a: "q ''auditorium_id'' = SQL_Text a"
    by (rule uuid_value [OF ok availability_columns(5) _ _ q]) (simp_all add: uuid_column_def)
  let ?k = "key_of [''screening_id'', ''movie_provider_id'', ''auditorium_id''] q"
  have "\<not> no_null ?k \<or> ?k \<in> set (List.map (key_of [''id'', ''movie_provider_id'', ''auditorium_id'']) (t ''screenings''))"
    using schema_constraint [OF ok availability_keys(2)] q by (simp add: list_all_iff)
  moreover have "no_null ?k" using s(2) m a by (simp add: key_of_def no_null_def)
  ultimately obtain p where p: "p \<in> set (t ''screenings'')" "p ''id'' = SQL_Text i"
    "p ''movie_provider_id'' = q ''movie_provider_id''" using s(2) by (auto simp: key_of_def)
  have "find_row (t ''screenings'') i = Some p" by (rule id_table_find [OF screenings_by_id ok p(1,2)])
  then show ?thesis using s(1) p(3) by simp
qed

section \<open>The result of the joins\<close>

definition auditorium_seats :: "tables \<Rightarrow> row \<Rightarrow> row list" where
  "auditorium_seats t s = filter (\<lambda>r. r ''movie_provider_id'' = s ''movie_provider_id'' \<and>
     r ''auditorium_id'' = s ''auditorium_id'') (t ''seats'')"

definition booked :: "ledger \<Rightarrow> id \<Rightarrow> id \<Rightarrow> bool" where
  "booked L screening seat \<longleftrightarrow> (\<exists>j v. lg_reservation L j = Some v \<and> rv_screeningId v = screening \<and> seat \<in> set (rv_seatIds v))"

definition taken_rows :: "tables \<Rightarrow> row \<Rightarrow> row \<Rightarrow> row list" where
  "taken_rows t s r = filter (\<lambda>q. q ''movie_provider_id'' = s ''movie_provider_id'' \<and> q ''screening_id'' = s ''id'' \<and>
     q ''seat_id'' = r ''id'') (t ''reservation_seats'')"

lemma taken_booked:
  assumes ok: "schema_ok service_schema t" and s: "find_row (t ''screenings'') i = Some s" and r: "r ''id'' = SQL_Text x"
  shows "taken_rows t s r \<noteq> [] \<longleftrightarrow> booked (ledger_of V t) i x"
proof
  have si: "s ''id'' = SQL_Text i" using find_row_Some [OF s] by simp
  assume "taken_rows t s r \<noteq> []"
  then obtain q where q: "q \<in> set (t ''reservation_seats'')" "q ''screening_id'' = SQL_Text i" "q ''seat_id'' = SQL_Text x"
    using r si by (auto simp: taken_rows_def filter_empty_conv)
  obtain j p where j: "q ''reservation_id'' = SQL_Text j" "find_row (t ''reservations'') j = Some p"
    "p ''screening_id'' = q ''screening_id''" by (rule reservation_seat_row [OF ok q(1)])
  have id: "as_text (p ''id'') = j" using find_row_Some [OF j(2)] by simp
  have "rv_screeningId (reservation_of V t p) = i" using j(3) q(2) by (simp add: reservation_of_def)
  moreover have "x \<in> set (rv_seatIds (reservation_of V t p))"
    using q j(1) id by (auto simp: reservation_of_def in_seat_ids intro!: bexI [of _ q])
  moreover have "lg_reservation (ledger_of V t) j = Some (reservation_of V t p)" using j(2) by simp
  ultimately show "booked (ledger_of V t) i x" unfolding booked_def by blast
next
  have si: "s ''id'' = SQL_Text i" using find_row_Some [OF s] by simp
  assume "booked (ledger_of V t) i x"
  then obtain j p where j: "find_row (t ''reservations'') j = Some p" "rv_screeningId (reservation_of V t p) = i"
    "x \<in> set (rv_seatIds (reservation_of V t p))" by (auto simp: booked_def)
  have id: "as_text (p ''id'') = j" using find_row_Some [OF j(1)] by simp
  obtain q where q: "q \<in> set (t ''reservation_seats'')" "q ''reservation_id'' = SQL_Text j" "as_text (q ''seat_id'') = x"
    using j(3) id by (auto simp: reservation_of_def in_seat_ids)
  have "q ''seat_id'' = SQL_Text x" by (rule reservation_seat_row [OF ok q(1)]) (use q in auto)
  moreover have "q ''screening_id'' = p ''screening_id''" by (rule reservation_seat_row [OF ok q(1)]) (use q j in auto)
  then have sc: "q ''screening_id'' = SQL_Text i" using reservation_screening [OF ok j(1), of V] j(2) by simp
  moreover have "q ''movie_provider_id'' = s ''movie_provider_id''"
    by (rule reservation_seat_screening [OF ok q(1) s sc])
  ultimately show "taken_rows t s r \<noteq> []" using q(1) r si by (auto simp: taken_rows_def filter_empty_conv)
qed

lemma taken_once:
  assumes ok: "schema_ok service_schema t"
  shows "length (taken_rows t s r) \<le> 1"
proof (rule ccontr)
  assume "\<not> length (taken_rows t s r) \<le> 1"
  then obtain a b rest where ab: "taken_rows t s r = a # b # rest" by (cases "taken_rows t s r" rule: remdups_adj.cases) auto
  have "distinct (List.map (\<lambda>r. (r ''screening_id'', r ''seat_id'')) (t ''reservation_seats''))"
    by (rule unique_columns [OF ok service_keys(7) service_columns(16) _ service_columns(17)]) (simp_all add: uuid_column_def)
  then have "distinct (List.map (\<lambda>r. (r ''screening_id'', r ''seat_id'')) (taken_rows t s r))"
    unfolding taken_rows_def by (rule distinct_map_filter)
  moreover have "\<forall>q \<in> set (taken_rows t s r). q ''screening_id'' = s ''id'' \<and> q ''seat_id'' = r ''id''"
    by (simp add: taken_rows_def)
  ultimately show False by (simp add: ab)
qed

lemma filter_concat_map:
  assumes "\<And>x y. x \<in> set xs \<Longrightarrow> y \<in> set (f x) \<Longrightarrow> P y \<longleftrightarrow> Q x"
  shows "filter P (concat (List.map f xs)) = concat (List.map f (filter Q xs))"
  using assms
proof (induction xs)
  case (Cons x xs)
  have "filter P (f x) = (if Q x then f x else [])" using Cons.prems by (auto simp: filter_empty_conv filter_id_conv)
  moreover have "filter P (concat (List.map f xs)) = concat (List.map f (filter Q xs))" using Cons by simp
  ultimately show ?case by simp
qed simp

lemma filter_one:
  assumes "distinct (List.map f xs)"
  shows "filter (\<lambda>r. P r \<and> f r = v) xs = (case List.find (\<lambda>r. f r = v) xs of None \<Rightarrow> [] | Some s \<Rightarrow> if P s then [s] else [])"
  using assms
proof (induction xs)
  case (Cons x xs)
  have "f x = v \<Longrightarrow> filter (\<lambda>r. P r \<and> f r = v) xs = []"
    using Cons.prems by (fastforce simp: filter_empty_conv image_iff)
  then show ?case using Cons by simp
qed simp

definition seat_pair :: "sql_value \<Rightarrow> sql_value \<Rightarrow> row" where
  "seat_pair a b = (\<lambda>n. if n = ''seat_id'' then a else if n = ''reserved_seat_id'' then b else SQL_Null)"

definition screening_join :: "row \<Rightarrow> joined" where
  "screening_join s = (\<lambda>_. null_row)(''sc'' := s)"

abbreviation (input) seat_join :: "tables \<Rightarrow> joined \<Rightarrow> joined list" where
  "seat_join t j \<equiv> (let ks = filter (\<lambda>k. join_matches k [((''s'', ''movie_provider_id''), (''sc'', ''movie_provider_id'')),
     ((''s'', ''auditorium_id''), (''sc'', ''auditorium_id''))]) (List.map (\<lambda>r. j(''s'' := r)) (t ''seats''))
   in if ks = [] then [j(''s'' := null_row)] else ks)"

abbreviation (input) taken_join :: "tables \<Rightarrow> joined \<Rightarrow> joined list" where
  "taken_join t j \<equiv> (let ks = filter (\<lambda>k. join_matches k [((''rs'', ''movie_provider_id''), (''sc'', ''movie_provider_id'')),
     ((''rs'', ''screening_id''), (''sc'', ''id'')), ((''rs'', ''seat_id''), (''s'', ''id''))])
     (List.map (\<lambda>r. j(''rs'' := r)) (t ''reservation_seats''))
   in if ks = [] then [j(''rs'' := null_row)] else ks)"

lemma seat_join_sc: "k \<in> set (seat_join t j) \<Longrightarrow> k ''sc'' = j ''sc''"
  by (auto simp: Let_def split: if_splits)

lemma taken_join_sc: "k \<in> set (taken_join t j) \<Longrightarrow> k ''sc'' = j ''sc''"
  by (auto simp: Let_def split: if_splits)

text \<open>The condition on the screening goes through both joins.\<close>

lemma availability_matching:
  assumes V: "documented_conversions V" and p: "uuid_text p" "uuid_text i"
  shows "matching V service_schema (availability_query p i) t =
    concat (List.map (taken_join t) (concat (List.map (seat_join t) (List.map screening_join
      (filter (\<lambda>r. r ''movie_provider_id'' = SQL_Text p \<and> r ''id'' = SQL_Text i) (t ''screenings''))))))"
proof -
  let ?Q = "\<lambda>j :: joined. j ''sc'' ''movie_provider_id'' = SQL_Text p \<and> j ''sc'' ''id'' = SQL_Text i"
  have ty: "column_type service_schema ''screenings'' ''movie_provider_id'' = T_Uuid"
    "column_type service_schema ''screenings'' ''id'' = T_Uuid"
    using availability_columns by (simp_all add: column_type_def uuid_column_def)
  have u: "cv_uuid V p = Some p" "cv_uuid V i = Some i" using V p documented_convert(2) by blast+
  have h: "list_all (holds V (ref_type service_schema (sq_source (availability_query p i))) j) (sq_where (availability_query p i))
      \<longleftrightarrow> ?Q j" for j
    by (auto simp: availability_query_def ref_type_def ty u sql_eq_def)
  have src: "source_rows t (sq_source (availability_query p i)) =
      concat (List.map (taken_join t) (concat (List.map (seat_join t) (List.map screening_join (t ''screenings'')))))"
    unfolding screening_join_def by (simp add: availability_query_def)
  have "matching V service_schema (availability_query p i) t = filter ?Q
      (concat (List.map (taken_join t) (concat (List.map (seat_join t) (List.map screening_join (t ''screenings''))))))"
    unfolding matching_def src h ..
  also have "\<dots> = concat (List.map (taken_join t) (filter ?Q (concat (List.map (seat_join t)
      (List.map screening_join (t ''screenings''))))))"
    by (rule filter_concat_map) (simp only: taken_join_sc)
  also have "filter ?Q (concat (List.map (seat_join t) (List.map screening_join (t ''screenings'')))) =
      concat (List.map (seat_join t) (filter ?Q (List.map screening_join (t ''screenings''))))"
    by (rule filter_concat_map) (simp only: seat_join_sc)
  also have "filter ?Q (List.map screening_join (t ''screenings'')) = List.map screening_join
      (filter (\<lambda>r. r ''movie_provider_id'' = SQL_Text p \<and> r ''id'' = SQL_Text i) (t ''screenings''))"
    by (simp add: filter_map comp_def screening_join_def)
  finally show ?thesis .
qed

text \<open>The seats of the auditorium, each with the seat taken beside it.\<close>

lemma seat_join_rows:
  assumes "s ''movie_provider_id'' \<noteq> SQL_Null" "s ''auditorium_id'' \<noteq> SQL_Null"
  shows "seat_join t (screening_join s) = (if auditorium_seats t s = [] then [(screening_join s)(''s'' := null_row)]
    else List.map (\<lambda>r. (screening_join s)(''s'' := r)) (auditorium_seats t s))"
proof -
  have "filter (\<lambda>k. join_matches k [((''s'', ''movie_provider_id''), (''sc'', ''movie_provider_id'')),
      ((''s'', ''auditorium_id''), (''sc'', ''auditorium_id''))]) (List.map (\<lambda>r. (screening_join s)(''s'' := r)) (t ''seats''))
    = List.map (\<lambda>r. (screening_join s)(''s'' := r)) (auditorium_seats t s)"
    unfolding auditorium_seats_def using assms
    by (auto simp: filter_map comp_def join_matches_def screening_join_def intro!: arg_cong [where f = "List.map _"] filter_cong)
  then show ?thesis by (simp add: Let_def)
qed

lemma taken_join_rows:
  assumes "s ''movie_provider_id'' \<noteq> SQL_Null" "s ''id'' \<noteq> SQL_Null"
  defines "j \<equiv> \<lambda>r. (screening_join s)(''s'' := r)"
  shows "taken_join t (j r) = (if r ''id'' = SQL_Null \<or> taken_rows t s r = [] then [(j r)(''rs'' := null_row)]
    else List.map (\<lambda>q. (j r)(''rs'' := q)) (taken_rows t s r))"
proof -
  have "filter (\<lambda>k. join_matches k [((''rs'', ''movie_provider_id''), (''sc'', ''movie_provider_id'')),
      ((''rs'', ''screening_id''), (''sc'', ''id'')), ((''rs'', ''seat_id''), (''s'', ''id''))])
      (List.map (\<lambda>q. (j r)(''rs'' := q)) (t ''reservation_seats''))
    = (if r ''id'' = SQL_Null then [] else List.map (\<lambda>q. (j r)(''rs'' := q)) (taken_rows t s r))"
    unfolding taken_rows_def using assms
    by (auto simp: filter_map comp_def join_matches_def screening_join_def filter_empty_conv
        intro!: arg_cong [where f = "List.map _"] filter_cong)
  then show ?thesis by (simp add: Let_def)
qed

abbreviation (input) projected :: "joined \<Rightarrow> row" where
  "projected \<equiv> project (Columns [(''seat_id'', (''s'', ''id'')), (''reserved_seat_id'', (''rs'', ''seat_id''))])"

lemma projected_row: "projected j = seat_pair (j ''s'' ''id'') (j ''rs'' ''seat_id'')"
  by (auto simp: seat_pair_def fun_eq_iff)

definition seat_state :: "tables \<Rightarrow> row \<Rightarrow> row \<Rightarrow> row" where
  "seat_state t s r = seat_pair (r ''id'') (if r ''id'' = SQL_Null \<or> taken_rows t s r = [] then SQL_Null else r ''id'')"

lemma taken_join_projected:
  assumes ok: "schema_ok service_schema t" and s: "s ''movie_provider_id'' \<noteq> SQL_Null" "s ''id'' \<noteq> SQL_Null"
  shows "List.map projected (taken_join t ((screening_join s)(''s'' := r))) = [seat_state t s r]"
proof (cases "r ''id'' = SQL_Null \<or> taken_rows t s r = []")
  case True
  then show ?thesis unfolding taken_join_rows [OF s] by (simp add: projected_row seat_state_def null_row_def del: project.simps)
next
  case False
  then obtain q where q: "taken_rows t s r = [q]" using taken_once [OF ok, of s r] by (cases "taken_rows t s r") auto
  then have "q \<in> set (taken_rows t s r)" by simp
  then have "q ''seat_id'' = r ''id''" by (simp add: taken_rows_def)
  then show ?thesis unfolding taken_join_rows [OF s] using False q
    by (simp add: projected_row seat_state_def del: project.simps)
qed

definition seat_states :: "tables \<Rightarrow> row \<Rightarrow> row list" where
  "seat_states t s = (if auditorium_seats t s = [] then [seat_pair SQL_Null SQL_Null]
    else List.map (seat_state t s) (auditorium_seats t s))"

lemma availability_projected:
  assumes ok: "schema_ok service_schema t" and V: "documented_conversions V" and p: "uuid_text p" "uuid_text i"
  shows "List.map projected (matching V service_schema (availability_query p i) t) =
    (case find_row (t ''screenings'') i of None \<Rightarrow> []
     | Some s \<Rightarrow> if s ''movie_provider_id'' = SQL_Text p then seat_states t s else [])"
proof -
  have rows: "filter (\<lambda>r. r ''movie_provider_id'' = SQL_Text p \<and> r ''id'' = SQL_Text i) (t ''screenings'') =
      (case find_row (t ''screenings'') i of None \<Rightarrow> [] | Some s \<Rightarrow> if s ''movie_provider_id'' = SQL_Text p then [s] else [])"
    unfolding find_row_def by (rule filter_one [OF id_table_distinct [OF screenings_by_id ok]])
  show ?thesis
  proof (cases "find_row (t ''screenings'') i")
    case None
    then show ?thesis unfolding availability_matching [OF V p] rows by simp
  next
    case (Some s)
    note s = find_row_Some [OF Some]
    obtain a where a: "s ''auditorium_id'' = SQL_Text a"
      by (rule uuid_value [OF ok availability_columns(3) _ _ conjunct1 [OF s]]) (simp_all add: uuid_column_def)
    show ?thesis
    proof (cases "s ''movie_provider_id'' = SQL_Text p")
      case False
      then show ?thesis unfolding availability_matching [OF V p] rows Some by simp
    next
      case True
      then have n: "s ''movie_provider_id'' \<noteq> SQL_Null" "s ''id'' \<noteq> SQL_Null" "s ''auditorium_id'' \<noteq> SQL_Null" using s a by auto
      have one: "concat (List.map (\<lambda>r. List.map projected (taken_join t ((screening_join s)(''s'' := r)))) rs) =
          List.map (seat_state t s) rs" for rs
        unfolding taken_join_projected [OF ok n(1,2)] by (induction rs) simp_all
      have "seat_state t s null_row = seat_pair SQL_Null SQL_Null" by (simp add: seat_state_def null_row_def)
      then have "List.map projected (concat (List.map (taken_join t) (seat_join t (screening_join s)))) = seat_states t s"
        unfolding seat_join_rows [OF n(1,3)] seat_states_def
        using one [of "[null_row]"] one [of "auditorium_seats t s"]
        by (simp add: map_concat comp_def del: project.simps)
      then show ?thesis unfolding availability_matching [OF V p] rows Some using True by (simp del: project.simps)
    qed
  qed
qed

section \<open>What the reader makes of the rows\<close>

definition state_of_row :: "row \<Rightarrow> seat_availability" where
  "state_of_row r = \<lparr>sa_seatId = as_text (r ''seat_id''), sa_available = (r ''reserved_seat_id'' = SQL_Null)\<rparr>"

lemma availability_seats_rows:
  assumes "availability_seats rows = Inr xs" "\<And>r. r \<in> set rows \<Longrightarrow> has_type T_Uuid (r ''seat_id'')"
  shows "xs = List.map state_of_row (filter (\<lambda>r. r ''seat_id'' \<noteq> SQL_Null) rows)"
  using assms
proof (induction rows arbitrary: xs)
  case (Cons r rows)
  have t: "has_type T_Uuid (r ''seat_id'')" using Cons.prems(2) by simp
  show ?case
  proof (cases "r ''seat_id'' = SQL_Null")
    case True
    then show ?thesis using Cons by simp
  next
    case False
    then obtain i ys where i: "create_seat_id (as_text (r ''seat_id'')) = Inr i" "availability_seats rows = Inr ys"
      "xs = \<lparr>sa_seatId = i, sa_available = (r ''reserved_seat_id'' = SQL_Null)\<rparr> # ys"
      using Cons.prems(1) by (auto simp: bind_err_Inr)
    have "uuid_text (as_text (r ''seat_id''))" using t False by (cases "r ''seat_id''") auto
    then have "i = as_text (r ''seat_id'')" using i(1) create_uuid_fixed by (auto simp: create_seat_id_def)
    then show ?thesis using Cons.IH [OF i(2)] Cons.prems(2) i(3) False by (simp add: state_of_row_def)
  qed
qed simp

text \<open>What the caller is to be told of the seat in the row \<open>r\<close>.\<close>

definition documented_state :: "ledger \<Rightarrow> id \<Rightarrow> row \<Rightarrow> seat_availability" where
  "documented_state L screening r =
    \<lparr>sa_seatId = as_text (r ''id''), sa_available = (\<not> booked L screening (as_text (r ''id'')))\<rparr>"

lemma seat_states_told:
  assumes ok: "schema_ok service_schema t" and s: "find_row (t ''screenings'') i = Some s"
  shows "List.map state_of_row (filter (\<lambda>r. r ''seat_id'' \<noteq> SQL_Null) (seat_states t s)) =
      List.map (documented_state (ledger_of V t) i) (auditorium_seats t s)"
    "r \<in> set (seat_states t s) \<Longrightarrow> has_type T_Uuid (r ''seat_id'')"
proof -
  have id: "\<exists>u. r ''id'' = SQL_Text u \<and> uuid_text u" if "r \<in> set (auditorium_seats t s)" for r
  proof -
    have "r \<in> set (t ''seats'')" using that by (simp add: auditorium_seats_def)
    then show ?thesis by (rule uuid_value [OF ok availability_columns(4), rotated 2]) (auto simp: uuid_column_def)
  qed
  have told: "seat_state t s r ''seat_id'' \<noteq> SQL_Null \<and> state_of_row (seat_state t s r) = documented_state (ledger_of V t) i r"
    if r: "r \<in> set (auditorium_seats t s)" for r
  proof -
    obtain u where u: "r ''id'' = SQL_Text u" using id [OF r] by blast
    show ?thesis using taken_booked [of t i s r u V, OF ok s u] u
      by (auto simp: seat_state_def seat_pair_def state_of_row_def documented_state_def)
  qed
  have "filter (\<lambda>r. r ''seat_id'' \<noteq> SQL_Null) (List.map (seat_state t s) (auditorium_seats t s)) =
      List.map (seat_state t s) (auditorium_seats t s)" using told by (simp add: filter_id_conv)
  then show "List.map state_of_row (filter (\<lambda>r. r ''seat_id'' \<noteq> SQL_Null) (seat_states t s)) =
      List.map (documented_state (ledger_of V t) i) (auditorium_seats t s)"
    using told by (simp add: seat_states_def seat_pair_def)
  show "r \<in> set (seat_states t s) \<Longrightarrow> has_type T_Uuid (r ''seat_id'')"
    using id by (fastforce simp: seat_states_def seat_state_def seat_pair_def split: if_splits)
qed

lemma availability_rows:
  assumes "is_result V service_schema (availability_query p i) t rows"
  shows "mset rows = mset (List.map projected (matching V service_schema (availability_query p i) t))"
proof -
  obtain js where "mset js = mset (matching V service_schema (availability_query p i) t)" "rows = List.map projected js"
    using assms by (auto simp: is_result_def availability_query_def)
  then show ?thesis by simp
qed

lemma availability_told:
  assumes ok: "schema_ok service_schema t" and V: "documented_conversions V" and p: "uuid_text p" "uuid_text i"
    and rows: "is_result V service_schema (availability_query p i) t rows"
  shows "rows = [] \<longleftrightarrow> \<not> (\<exists>s. find_row (t ''screenings'') i = Some s \<and> s ''movie_provider_id'' = SQL_Text p)"
    and "find_row (t ''screenings'') i = Some s \<Longrightarrow> rows \<noteq> [] \<Longrightarrow> availability_seats rows = Inr xs \<Longrightarrow>
      mset xs = mset (List.map (documented_state (ledger_of V t) i) (auditorium_seats t s))"
proof -
  have m: "mset rows = mset (case find_row (t ''screenings'') i of None \<Rightarrow> []
      | Some s \<Rightarrow> if s ''movie_provider_id'' = SQL_Text p then seat_states t s else [])"
    using availability_rows [OF rows] unfolding availability_projected [OF ok V p] .
  have "rows = [] \<longleftrightarrow> mset rows = {#}" by simp
  then show e: "rows = [] \<longleftrightarrow> \<not> (\<exists>s. find_row (t ''screenings'') i = Some s \<and> s ''movie_provider_id'' = SQL_Text p)"
    unfolding m by (auto simp: seat_states_def split: option.splits if_splits)
  assume s: "find_row (t ''screenings'') i = Some s" and ne: "rows \<noteq> []" and xs: "availability_seats rows = Inr xs"
  have "s ''movie_provider_id'' = SQL_Text p" using e ne s by simp
  then have m: "mset rows = mset (seat_states t s)" using m s by simp
  have "xs = List.map state_of_row (filter (\<lambda>r. r ''seat_id'' \<noteq> SQL_Null) rows)"
    by (rule availability_seats_rows [OF xs]) (use mset_eq_setD [OF m] seat_states_told(2) [OF ok s] in blast)
  then have "mset xs = mset (List.map state_of_row (filter (\<lambda>r. r ''seat_id'' \<noteq> SQL_Null) (seat_states t s)))"
    using m by (simp add: mset_filter)
  then show "mset xs = mset (List.map (documented_state (ledger_of V t) i) (auditorium_seats t s))"
    unfolding seat_states_told(1) [OF ok s, of V] .
qed

text \<open>The whole reader: it only reads, and what it answers is right.\<close>

definition right_answer :: "conversions \<Rightarrow> tables \<Rightarrow> id \<Rightarrow> id \<Rightarrow> screening_availability option \<Rightarrow> bool" where
  "right_answer V t movieProviderId screeningId answer \<longleftrightarrow> (case answer of
     None \<Rightarrow> \<not> (\<exists>s. find_row (t ''screenings'') screeningId = Some s \<and> s ''movie_provider_id'' = SQL_Text movieProviderId)
   | Some a \<Rightarrow> \<exists>s. find_row (t ''screenings'') screeningId = Some s \<and> s ''movie_provider_id'' = SQL_Text movieProviderId \<and>
       av_screeningId a = screeningId \<and>
       mset (av_seats a) = mset (List.map (documented_state (ledger_of V t) screeningId) (auditorium_seats t s)))"

lemma gives_availability:
  assumes doc: "documented_sql V service_schema E T K" and ok: "schema_ok service_schema t" and p: "uuid_text p" "uuid_text i"
  shows "gives T K (pg_read_availability E zodError p i) t (\<lambda>a t'. t' = t \<and> right_answer V t p i a)"
  unfolding pg_read_availability_def
proof (rule gives_bind [OF gives_run [OF doc ok, where P = "\<lambda>rows t'. is_result V service_schema (availability_query p i) t rows \<and> t' = t"]])
  fix rows t' assume "is_result V service_schema (availability_query p i) t rows \<and> t' = t"
  then have rows: "is_result V service_schema (availability_query p i) t rows" and t': "t' = t" by blast+
  have V: "documented_conversions V" using doc by (simp add: documented_sql_def)
  note told = availability_told [OF ok V p rows]
  show "gives T K (if \<not> list_all (\<lambda>r. nullable_text (r ''seat_id'') \<and> nullable_text (r ''reserved_seat_id'')) rows
      then throw zodError
      else if length rows = 0 then ret None
      else bind_io (lift (availability_seats rows)) (\<lambda>xs. ret (Some \<lparr>av_screeningId = i, av_seats = xs\<rparr>))) t'
    (\<lambda>a t'. t' = t \<and> right_answer V t p i a)"
  proof (cases "rows = []")
    case True
    then show ?thesis using told(1) t' by (auto simp: right_answer_def intro: gives_pure)
  next
    case False
    then obtain s where s: "find_row (t ''screenings'') i = Some s" "s ''movie_provider_id'' = SQL_Text p" using told(1) by blast
    show ?thesis unfolding t' using False
      by (auto intro!: gives_pure gives_lift_bind simp: right_answer_def s told(2) [OF s(1) False])
  qed
qed auto

end
