(* ===== verification/Reference_Engine.thy ===== *)
theory Reference_Engine
  imports Sql Postgres_Ledger
begin

text \<open>
  An engine that does what is documented of a database, small enough to be evaluated: it runs
  each statement on the tables, refuses one whose result breaks a constraint, and keeps a copy of
  the tables for the transaction in progress. It shows that the hypothesis
  \<open>documented_sql\<close> can hold of an engine that does something, and runs the examples.
\<close>

section \<open>Queries\<close>

definition in_order :: "conversions \<Rightarrow> col_ref list \<Rightarrow> joined \<Rightarrow> joined \<Rightarrow> bool" where
  "in_order V cols a b \<longleftrightarrow> lex_le (cv_le V) (order_keys cols a) (order_keys cols b)"

definition select_rows :: "conversions \<Rightarrow> schema \<Rightarrow> select_query \<Rightarrow> tables \<Rightarrow> row list" where
  "select_rows V S q t = (let js = arrange (in_order V (sq_order q)) (matching V S q t)
     in List.map (project (sq_output q)) (if sq_first q then take 1 js else js))"

lemma lex_le_total: "total_order le \<Longrightarrow> lex_le le xs ys \<or> lex_le le ys xs"
  by (induction le xs ys rule: lex_le.induct) (auto dest: total_orderD)

lemma lex_le_trans:
  "total_order le \<Longrightarrow> length xs = length ys \<Longrightarrow> length ys = length zs \<Longrightarrow> lex_le le xs ys \<Longrightarrow> lex_le le ys zs \<Longrightarrow> lex_le le xs zs"
proof (induction xs arbitrary: ys zs)
  case (Cons x xs)
  then obtain y ys' z zs' where yz: "ys = y # ys'" "zs = z # zs'" by (metis Suc_length_conv)
  show ?case
    using Cons.prems Cons.IH [of ys' zs'] total_orderD(2,3) [OF Cons.prems(1)]
    by (auto simp: yz split: if_splits)
qed simp

lemma sorted_place_preorder:
  assumes "\<And>a b. le a b \<or> le b a" "\<And>a b c. le a b \<Longrightarrow> le b c \<Longrightarrow> le a c" "sorted_wrt le ys"
  shows "sorted_wrt le (place le x ys)"
  using assms(3)
proof (induction ys)
  case (Cons y ys)
  then show ?case using assms(1) [of x y] by (auto intro: assms(2))
qed simp

lemma sorted_arrange_preorder:
  assumes "\<And>a b. le a b \<or> le b a" "\<And>a b c. le a b \<Longrightarrow> le b c \<Longrightarrow> le a c"
  shows "sorted_wrt le (arrange le xs)"
  unfolding arrange_def by (induction xs) (simp_all add: sorted_place_preorder [of le, OF assms])

lemma sorted_in_order: "total_order (cv_le V) \<Longrightarrow> sorted_wrt (in_order V cols) (arrange (in_order V cols) js)"
proof (rule sorted_arrange_preorder)
  fix a b c assume V: "total_order (cv_le V)" and "in_order V cols a b" "in_order V cols b c"
  then show "in_order V cols a c"
    using lex_le_trans [OF V, of "order_keys cols a" "order_keys cols b" "order_keys cols c"]
    by (simp add: in_order_def order_keys_def)
qed (simp add: in_order_def lex_le_total)

section \<open>Changes\<close>

fun assigned :: "conversions \<Rightarrow> int \<Rightarrow> sql_type \<Rightarrow> param \<Rightarrow> sql_value \<Rightarrow> sql_value option" where
  "assigned V now ty P_Now old = Some (SQL_Time now)"
| "assigned V now ty P_Plus_One old = (case old of SQL_Number n \<Rightarrow> Some (SQL_Number (n + 1)) | _ \<Rightarrow> None)"
| "assigned V now ty p old = convert V ty p"

definition accepted :: "conversions \<Rightarrow> schema \<Rightarrow> int \<Rightarrow> string \<Rightarrow> (string \<times> param) list \<Rightarrow> row \<Rightarrow> bool" where
  "accepted V S now tab vals r \<longleftrightarrow> list_all (\<lambda>(c, p). assigned V now (column_type S tab c) p (r c) \<noteq> None) vals"

definition updated_row :: "conversions \<Rightarrow> schema \<Rightarrow> int \<Rightarrow> string \<Rightarrow> (string \<times> param) list \<Rightarrow> row \<Rightarrow> row" where
  "updated_row V S now tab sets r =
    (let vs = List.map (\<lambda>(c, p). (c, the (assigned V now (column_type S tab c) p (r c)))) sets
     in (\<lambda>c. case map_of vs c of None \<Rightarrow> r c | Some v \<Rightarrow> v))"

definition default_value :: "int \<Rightarrow> column_default \<Rightarrow> sql_value" where
  "default_value n d = (case d of D_Null \<Rightarrow> SQL_Null | D_Number m \<Rightarrow> SQL_Number m | D_Generated \<Rightarrow> SQL_Number n)"

definition inserted_row :: "conversions \<Rightarrow> schema \<Rightarrow> int \<Rightarrow> nat \<Rightarrow> string \<Rightarrow> (string \<times> param) list \<Rightarrow> row" where
  "inserted_row V S now n tab vals = (\<lambda>c. case map_of vals c of
       None \<Rightarrow> default_value (int n + 1) (default_of S tab c)
     | Some p \<Rightarrow> the (assigned V now (column_type S tab c) p SQL_Null))"

lemma assigned_assigns: "assigned V now ty p old = Some new \<Longrightarrow> assigns V ty p old new"
  by (cases p) (auto split: sql_value.splits)

lemma accepted_assigned:
  assumes "accepted V S now tab vals r" "map_of vals c = Some p"
  shows "assigns V (column_type S tab c) p (r c) (the (assigned V now (column_type S tab c) p (r c)))"
proof -
  have "(c, p) \<in> set vals" using assms(2) by (rule map_of_SomeD)
  then have "assigned V now (column_type S tab c) p (r c) \<noteq> None" using assms(1) by (auto simp: accepted_def list_all_iff)
  then show ?thesis by (auto intro: assigned_assigns)
qed

lemma map_of_assigned: "map_of (List.map (\<lambda>(c, p). (c, f c p)) xs) c = map_option (f c) (map_of xs c)"
  by (induction xs) auto

lemma updated_row: "accepted V S now tab sets r \<Longrightarrow> is_updated V S tab sets r (updated_row V S now tab sets r)"
  by (auto simp: is_updated_def updated_row_def Let_def accepted_assigned map_of_assigned split: option.split)

lemma inserted_row: "accepted V S now tab vals null_row \<Longrightarrow> is_inserted V S tab vals (inserted_row V S now n tab vals)"
  using accepted_assigned [of V S now tab vals null_row]
  by (auto simp: is_inserted_def inserted_row_def null_row_def default_value_def
      split: option.split column_default.split)

fun run_statement :: "conversions \<Rightarrow> schema \<Rightarrow> int \<Rightarrow> statement \<Rightarrow> tables \<Rightarrow> (row list \<times> tables) option" where
  "run_statement V S now (Select q) t =
     (if list_all (cond_binds V (ref_type S (sq_source q))) (sq_where q) then Some (select_rows V S q t, t) else None)"
| "run_statement V S now (Update tab cs sets) t =
     (let rs = filter (row_matches V S tab cs) (t tab) in
      if list_all (cond_binds V (ref_type S (From tab ''''))) cs \<and> list_all (accepted V S now tab sets) rs
      then Some (List.map (updated_row V S now tab sets) rs,
        t(tab := List.map (\<lambda>r. if row_matches V S tab cs r then updated_row V S now tab sets r else r) (t tab)))
      else None)"
| "run_statement V S now (Insert tab vals) t =
     (if list_all (\<lambda>v. accepted V S now tab v null_row) vals
      then Some ([], t(tab := t tab @ List.map (\<lambda>(i, v). inserted_row V S now (length (t tab) + i) tab v) (enumerate 0 vals)))
      else None)"

lemma run_statement_effect:
  assumes V: "total_order (cv_le V)" and run: "run_statement V S now st t = Some (rows, t')"
  shows "effect_of V S st t rows t'"
proof (cases st)
  case (Select q)
  let ?js = "arrange (in_order V (sq_order q)) (matching V S q t)"
  have "is_result V S q t (select_rows V S q t)" if "list_all (cond_binds V (ref_type S (sq_source q))) (sq_where q)"
    unfolding is_result_def
    by (intro conjI that exI [of _ ?js])
      (use sorted_in_order [OF V, of "sq_order q" "matching V S q t"] in
        \<open>simp_all add: select_rows_def Let_def in_order_def [abs_def]\<close>)
  then show ?thesis using run Select by (auto split: if_splits)
next
  case (Update tab cs sets)
  let ?f = "updated_row V S now tab sets"
  have "\<forall>r \<in> set (t tab). row_matches V S tab cs r \<longrightarrow> is_updated V S tab sets r (?f r)"
    using run Update updated_row by (auto simp: Let_def list_all_iff split: if_splits)
  then show ?thesis
    using run Update by (auto simp: Let_def split: if_splits intro!: exI [of _ ?f])
next
  case (Insert tab vals)
  let ?new = "List.map (\<lambda>(i, v). inserted_row V S now (length (t tab) + i) tab v) (enumerate 0 vals)"
  have "list_all2 (is_inserted V S tab) vals ?new"
    using run Insert by (auto simp: list_all2_conv_all_nth list_all_length nth_enumerate_eq split: if_splits intro!: inserted_row)
  then show ?thesis using run Insert by (auto split: if_splits)
qed

section \<open>The engine\<close>

text \<open>The unique key that the tables break, if any.\<close>

definition broken_keys :: "schema \<Rightarrow> tables \<Rightarrow> string list" where
  "broken_keys S t = concat (List.map (\<lambda>s. concat (List.map (\<lambda>c. case c of
       Unique n cols \<Rightarrow> if constraint_holds t (t (ts_name s)) c then [] else [n] | _ \<Rightarrow> []) (ts_constraints s))) S)"

definition refused :: "schema \<Rightarrow> tables \<Rightarrow> js_error" where
  "refused S t = (case broken_keys S t of [] \<Rightarrow> Error ''constraint'' | n # _ \<Rightarrow> Foreign n)"

definition reference_run :: "conversions \<Rightarrow> schema \<Rightarrow> int \<Rightarrow> statement \<Rightarrow> (tables \<times> tables, row list) io" where
  "reference_run V S now st = (\<lambda>(t, k). case run_statement V S now st t of
       None \<Rightarrow> (Inl (Error ''input''), (t, k))
     | Some (rows, t') \<Rightarrow>
         (case st of Select q \<Rightarrow> (Inr rows, (t, k))
          | _ \<Rightarrow> if schema_ok S t' then (Inr rows, (t', k)) else (Inl (refused S t'), (t, k))))"

fun unique_violation :: "js_error \<Rightarrow> string option" where
  "unique_violation (Foreign n) = Some n"
| "unique_violation _ = None"

definition reference_engine :: "conversions \<Rightarrow> schema \<Rightarrow> int \<Rightarrow> (tables \<times> tables) engine" where
  "reference_engine V S now = \<lparr>eg_run = reference_run V S now, eg_begin = modify (\<lambda>(t, k). (t, t)), eg_commit = ret (),
     eg_rollback = modify (\<lambda>(t, k). (k, k)), eg_errorCode = (\<lambda>e. map_option (\<lambda>_. ''23505'') (unique_violation e)),
     eg_errorConstraint = unique_violation\<rparr>"

lemma reference_engine_documented:
  assumes V: "documented_conversions V"
  shows "documented_sql V S (reference_engine V S now) fst snd"
proof -
  have le: "total_order (cv_le V)" using V by (rule documented_convert)
  have run: "snd (snd (reference_run V S now st d)) = snd d \<and> (case fst (reference_run V S now st d) of
      Inl e \<Rightarrow> fst (snd (reference_run V S now st d)) = fst d
    | Inr rows \<Rightarrow> effect_of V S st (fst d) rows (fst (snd (reference_run V S now st d))) \<and>
        (schema_ok S (fst d) \<longrightarrow> schema_ok S (fst (snd (reference_run V S now st d)))))" for st d
  proof -
    obtain t k where d: "d = (t, k)" by fastforce
    show ?thesis
    proof (cases "run_statement V S now st t")
      case None
      then show ?thesis by (simp add: reference_run_def d)
    next
      case (Some y)
      obtain rows t' where y: "y = (rows, t')" by fastforce
      note eff = run_statement_effect [OF le Some [unfolded y]]
      show ?thesis
      proof (cases st)
        case (Select q)
        then have "t' = t" using eff by simp
        then show ?thesis using Some y eff Select by (simp add: reference_run_def d)
      qed (use Some y eff in \<open>simp_all add: reference_run_def d\<close>)
    qed
  qed
  have E: "eg_run (reference_engine V S now) = reference_run V S now"
    "eg_begin (reference_engine V S now) = modify (\<lambda>(t, k). (t, t))" "eg_commit (reference_engine V S now) = ret ()"
    "eg_rollback (reference_engine V S now) = modify (\<lambda>(t, k). (k, k))"
    by (simp_all add: reference_engine_def)
  show ?thesis unfolding documented_sql_def E using V run by (simp add: case_prod_unfold)
qed

section \<open>Conversions\<close>

fun text_le :: "string \<Rightarrow> string \<Rightarrow> bool" where
  "text_le [] ys = True"
| "text_le (x # xs) [] = False"
| "text_le (x # xs) (y # ys) = (if x = y then text_le xs ys else (of_char x :: nat) < of_char y)"

fun value_rank :: "sql_value \<Rightarrow> nat" where
  "value_rank (SQL_Text s) = 0"
| "value_rank (SQL_Number n) = 1"
| "value_rank (SQL_Time t) = 2"
| "value_rank SQL_Null = 3"

fun value_le :: "sql_value \<Rightarrow> sql_value \<Rightarrow> bool" where
  "value_le (SQL_Text s) (SQL_Text u) = text_le s u"
| "value_le (SQL_Number m) (SQL_Number n) = (m \<le> n)"
| "value_le (SQL_Time m) (SQL_Time n) = (m \<le> n)"
| "value_le v w = (value_rank v \<le> value_rank w)"

definition reference_conversions :: conversions where
  "reference_conversions = \<lparr>cv_uuid = (\<lambda>s. if uuid_text s then Some s else None), cv_timestamptz = date_get_time,
     cv_le = value_le\<rparr>"

lemma text_le_order:
  "text_le xs ys \<or> text_le ys xs" "text_le xs ys \<Longrightarrow> text_le ys xs \<Longrightarrow> xs = ys"
proof -
  have "x \<noteq> y \<Longrightarrow> (of_char x :: nat) \<noteq> of_char y" for x y by simp
  then show "text_le xs ys \<or> text_le ys xs"
    by (induction xs ys rule: text_le.induct) (auto simp: not_less le_less split: if_splits)
  show "text_le xs ys \<Longrightarrow> text_le ys xs \<Longrightarrow> xs = ys"
    by (induction xs arbitrary: ys; case_tac ys) (auto split: if_splits)
qed

lemma text_le_trans: "text_le xs ys \<Longrightarrow> text_le ys zs \<Longrightarrow> text_le xs zs"
proof (induction xs arbitrary: ys zs)
  case (Cons x xs)
  then obtain y ys' z zs' where yz: "ys = y # ys'" "zs = z # zs'" by (cases ys; cases zs) auto
  show ?case using Cons.prems Cons.IH [of ys' zs'] by (auto simp: yz split: if_splits)
qed simp

lemma value_le_order: "total_order value_le"
  unfolding total_order_def
proof (intro conjI allI impI)
  fix a b c
  show "value_le a b \<or> value_le b a" by (cases a; cases b) (use text_le_order(1) in auto)
  show "value_le a b \<Longrightarrow> value_le b a \<Longrightarrow> a = b" by (cases a; cases b) (use text_le_order(2) in auto)
  show "value_le a b \<Longrightarrow> value_le b c \<Longrightarrow> value_le a c" by (cases a; cases b; cases c) (use text_le_trans in auto)
qed

lemma reference_conversions_documented: "documented_conversions reference_conversions"
  by (simp add: documented_conversions_def reference_conversions_def value_le_order)

section \<open>Example tables\<close>

definition sample_id :: "string \<Rightarrow> string" where
  "sample_id d = ''00000000-0000-4000-8000-00000000000'' @ d"

definition row_of :: "(string \<times> sql_value) list \<Rightarrow> row" where
  "row_of xs = (\<lambda>c. case map_of xs c of None \<Rightarrow> SQL_Null | Some v \<Rightarrow> v)"

definition sample_request :: row where
  "sample_request = row_of [(''id'', SQL_Text (sample_id ''5'')), (''sequence'', SQL_Number 1),
     (''movie_provider_id'', SQL_Text (sample_id ''0'')), (''screening_id'', SQL_Text (sample_id ''3'')),
     (''requested_by_user_id'', SQL_Text ''ann''), (''status'', SQL_Text ''REQUESTED''), (''requested_at'', SQL_Time 0),
     (''lease_timeout_count'', SQL_Number 0), (''transient_failure_count'', SQL_Number 0), (''updated_at'', SQL_Time 0)]"

definition sample_request_seat :: row where
  "sample_request_seat = row_of [(''reservation_request_id'', SQL_Text (sample_id ''5'')),
     (''movie_provider_id'', SQL_Text (sample_id ''0'')), (''screening_id'', SQL_Text (sample_id ''3'')),
     (''auditorium_id'', SQL_Text (sample_id ''2'')), (''seat_id'', SQL_Text (sample_id ''4''))]"

definition sample_tables :: tables where
  "sample_tables = (\<lambda>_. [])
     (''movie_providers'' := [row_of [(''id'', SQL_Text (sample_id ''0'')), (''code'', SQL_Text ''odeon''), (''name'', SQL_Text ''Odeon'')]],
      ''movies'' := [row_of [(''id'', SQL_Text (sample_id ''1'')), (''movie_provider_id'', SQL_Text (sample_id ''0'')),
        (''title'', SQL_Text ''Solaris''), (''rating'', SQL_Text ''PG''), (''duration_minutes'', SQL_Number 167)]],
      ''auditoriums'' := [row_of [(''id'', SQL_Text (sample_id ''2'')), (''movie_provider_id'', SQL_Text (sample_id ''0'')),
        (''name'', SQL_Text ''One'')]],
      ''screenings'' := [row_of [(''id'', SQL_Text (sample_id ''3'')), (''movie_provider_id'', SQL_Text (sample_id ''0'')),
        (''movie_id'', SQL_Text (sample_id ''1'')), (''auditorium_id'', SQL_Text (sample_id ''2'')),
        (''starts_at'', SQL_Time 0), (''ends_at'', SQL_Time 1)]],
      ''seats'' := [row_of [(''id'', SQL_Text (sample_id ''4'')), (''movie_provider_id'', SQL_Text (sample_id ''0'')),
        (''auditorium_id'', SQL_Text (sample_id ''2'')), (''row_label'', SQL_Text ''A''), (''seat_number'', SQL_Number 1)]],
      ''reservation_requests'' := [sample_request], ''reservation_request_seats'' := [sample_request_seat])"

lemma sample_tables_schema: "schema_ok service_schema sample_tables"
  by code_simp

section \<open>A gap in the shape check\<close>

text \<open>
  The check on the shape of an attempt row lets a rejected row without a reason pass (the
  comparison is null there, not false), and the mapper does not read such a row back.
\<close>

definition null_reason_row :: row where
  "null_reason_row = row_of [(''id'', SQL_Number 1), (''reservation_request_id'', SQL_Text (sample_id ''5'')),
     (''reservation_request_sequence'', SQL_Number 1), (''started_at'', SQL_Time 0), (''completed_at'', SQL_Time 0),
     (''outcome'', SQL_Text ''rejected''), (''conflicting_reservation_id'', SQL_Text (sample_id ''6''))]"

lemma null_reason_passes_shape_check:
  "attempt_shape null_reason_row"
  "\<exists>e. to_processing_attempt null_reason_row = Inl e"
proof -
  show "attempt_shape null_reason_row" by code_simp
  have "case to_processing_attempt null_reason_row of Inl e \<Rightarrow> True | Inr a \<Rightarrow> False" by code_simp
  then show "\<exists>e. to_processing_attempt null_reason_row = Inl e" by (auto split: sum.splits)
qed

end
