(* ===== verification/Postgres_Properties.thy ===== *)
theory Postgres_Properties
  imports Processor Workers Postgres_Availability Reference_Engine
begin

text \<open>
  The properties of the service over Postgres: what the contract gives for one run of the
  processor and for any number of workers, and the exactness of the availability query. The examples
  run on the reference engine.
\<close>

section \<open>The example\<close>

definition sample_environment :: "nat environment" where
  "sample_environment = \<lparr>en_hrtime = ret 0, en_nowIsoString = ret ''2026-06-01T10:00:00.000Z'',
     en_randomUUID = ret ''token'', en_createClaimToken = None, en_generateReservationId = ret (sample_id ''6''),
     en_generateReservationRequestId = ret (sample_id ''7''), en_currentContext = ret None,
     en_requestCreated = (\<lambda>_. ret ()), en_spanStart = (\<lambda>_. ret ()), en_spanError = (\<lambda>_. ret ()),
     en_spanEnd = ret (), en_claimed = (\<lambda>_. ret ()), en_outcome = (\<lambda>_. ret ()), en_exception = (\<lambda>_. ret ()),
     en_shouldFail = (\<lambda>_. ret False)\<rparr>"

definition sample_engine :: "(tables \<times> tables) engine" where
  "sample_engine = reference_engine reference_conversions service_schema 0"

lemma sample_engine_documented: "documented_sql reference_conversions service_schema sample_engine fst snd"
  unfolding sample_engine_def by (rule reference_engine_documented [OF reference_conversions_documented])

lemma sample_id_uuid: "uuid_text (sample_id ''0'')" "uuid_text (sample_id ''3'')" "uuid_text (sample_id ''6'')"
  by code_simp+

lemma sample_time_stored: "stored_time ''2026-06-01T10:00:00.000Z''"
proof -
  have "case date_get_time ''2026-06-01T10:00:00.000Z'' of None \<Rightarrow> False
    | Some n \<Rightarrow> to_iso_string n = Inr ''2026-06-01T10:00:00.000Z''" by code_simp
  then show ?thesis by (simp add: stored_time_def split: option.splits)
qed

lemma sample_environment_fits: "environment_fits stored_time uuid_text sample_environment"
  using sample_time_stored sample_id_uuid by (simp add: environment_fits_def sample_environment_def)

definition sample_ledger_request :: reservation_request where
  "sample_ledger_request = \<lparr>rr_id = sample_id ''5'', rr_movieProviderId = sample_id ''0'', rr_screeningId = sample_id ''3'',
     rr_seatIds = [sample_id ''4''], rr_requestedByUserId = ''ann'', rr_status = REQUESTED\<rparr>"

lemma sample_ledger:
  "lg_request (ledger_of reference_conversions sample_tables) = [sample_id ''5'' \<mapsto> sample_ledger_request]"
  "lg_reservation (ledger_of reference_conversions sample_tables) = Map.empty"
  "lg_attempts (ledger_of reference_conversions sample_tables) = (\<lambda>_. [])"
  "lg_next (ledger_of reference_conversions sample_tables) = 2"
proof -
  have r: "sample_request ''id'' = SQL_Text (sample_id ''5'')" by (simp add: sample_request_def row_of_def)
  have "request_of reference_conversions sample_tables sample_request = sample_ledger_request" by code_simp
  then show "lg_request (ledger_of reference_conversions sample_tables) = [sample_id ''5'' \<mapsto> sample_ledger_request]"
    using r by (auto simp: fun_eq_iff find_row_def sample_tables_def)
  show "lg_reservation (ledger_of reference_conversions sample_tables) = Map.empty"
    by (simp add: fun_eq_iff find_row_def sample_tables_def)
  show "lg_attempts (ledger_of reference_conversions sample_tables) = (\<lambda>_. [])"
    by (simp add: ledger_of_def attempts_of_def [abs_def] sample_tables_def List.map_filter_def)
  show "lg_next (ledger_of reference_conversions sample_tables) = 2" by code_simp
qed

lemma sample_tables_sound: "tables_sound reference_conversions sample_tables"
proof -
  let ?L = "\<lparr>lg_request = Map.empty, lg_metadata = Map.empty, lg_reservation = Map.empty, lg_attempts = (\<lambda>_. []), lg_next = 1\<rparr>"
  have "ledger_inv ?L"
    by (simp add: ledger_inv_def requests_ok_def sequences_ok_def reservations_ok_def no_double_booking_def attempts_ok_def
        max_safe_integer_def)
  then have "ledger_inv (insert_request sample_ledger_request None ?L)"
    by (rule ledger_inv_insert) (simp_all add: sample_ledger_request_def request_ok_def max_safe_integer_def)
  moreover have "metadata_of sample_request = initial_metadata 1 None" by code_simp
  then have "lg_metadata (ledger_of reference_conversions sample_tables) = [sample_id ''5'' \<mapsto> initial_metadata 1 None]"
    by (auto simp: fun_eq_iff find_row_def sample_tables_def) (simp_all add: sample_request_def row_of_def)
  then have "ledger_of reference_conversions sample_tables = insert_request sample_ledger_request None ?L"
    using sample_ledger by (simp add: insert_request_def put_work_def sample_ledger_request_def)
  ultimately show ?thesis using sample_tables_schema by (simp add: tables_sound_def)
qed

section \<open>One run of the processor\<close>

text \<open>C7: over any database that does what is documented, a run of the processor keeps the
  tables sound and only moves the workflow forward, whatever statements fail and whatever its environment
  does; a result it returns is what the tables hold. The environment has to supply canonical
  timestamps and UUIDs.\<close>

theorem postgres_result_is_recorded:
  assumes "documented_sql V service_schema E T K" "tables_sound V (T d)" "environment_fits stored_time uuid_text env"
    "process_next_pending_request (postgres_work_repository E) env options input (d, e) = (res, (d', e'))"
  shows "tables_sound V (T d') \<and> run_outcome (ledger_of V (T d)) options res (ledger_of V (T d')) \<and>
    no_double_booking (ledger_of V (T d')) \<and>
    (case res of Inl x \<Rightarrow> True | Inr R \<Rightarrow> outcome_recorded options R (ledger_of V (T d')))"
proof -
  from work_repository.process_next_outcome [OF postgres_meets_contract [OF assms(1)] assms(2-4)]
  have "tables_sound V (T d')" "run_outcome (ledger_of V (T d)) options res (ledger_of V (T d'))" by blast+
  then show ?thesis
    using run_outcome_recorded [of "ledger_of V (T d)" options _ "ledger_of V (T d')"]
    by (auto simp: tables_sound_def ledger_inv_def split: sum.split)
qed

theorem postgres_result_is_recorded_witness:
  "\<exists>res d'. fst (process_next_pending_request (postgres_work_repository sample_engine) sample_environment
       default_processor_options \<lparr>pi_claimToken = None, pi_onClaimed = None\<rparr> ((sample_tables, sample_tables), 0)) = res \<and>
     tables_sound reference_conversions (fst d') \<and>
     run_outcome (ledger_of reference_conversions sample_tables) default_processor_options res
       (ledger_of reference_conversions (fst d'))"
proof -
  obtain res d' e' where run: "process_next_pending_request (postgres_work_repository sample_engine) sample_environment
      default_processor_options \<lparr>pi_claimToken = None, pi_onClaimed = None\<rparr> ((sample_tables, sample_tables), 0) = (res, (d', e'))"
    by (metis prod.exhaust)
  from postgres_result_is_recorded [OF sample_engine_documented _ sample_environment_fits run] sample_tables_sound
  show ?thesis unfolding run by auto
qed

section \<open>Any number of workers\<close>


definition sample_claim_input :: claim_input where
  "sample_claim_input = \<lparr>ci_workerId = ''w'', ci_claimToken = ''t'', ci_claimedAt = ''2026-06-01T10:00:00.000Z'',
     ci_claimExpiresAt = ''2026-06-01T10:00:30.000Z'', ci_maxLeaseTimeouts = 3, ci_maxTransientFailures = 3\<rparr>"

lemma sample_claim:
  "case fst (pg_claim_next sample_engine sample_claim_input (sample_tables, sample_tables)) of
     Inr (Some c) \<Rightarrow> cl_reservationRequest c = sample_ledger_request\<lparr>rr_status := PROCESSING\<rparr> | _ \<Rightarrow> False"
  by code_simp


section \<open>Availability\<close>

text \<open>C8: the availability query and its reader only read; they answer nothing exactly when the
  provider has no such screening, and otherwise with every seat of its auditorium once, shown as
  available exactly when no reservation of the screening holds it.\<close>

theorem postgres_availability_is_exact:
  assumes "documented_sql V service_schema E T K" "tables_sound V (T d)" "uuid_text movieProviderId" "uuid_text screeningId"
    "pg_read_availability E zodError movieProviderId screeningId d = (res, d')"
  shows "(case res of Inl e \<Rightarrow> True | Inr answer \<Rightarrow>
    T d' = T d \<and> right_answer V (T d) movieProviderId screeningId answer)"
proof -
  have ok: "schema_ok service_schema (T d)" using assms(2) by (simp add: tables_sound_def)
  show ?thesis
    using givesD [OF gives_availability [OF assms(1) ok assms(3,4)] refl assms(5)] by (auto split: sum.split)
qed

lemma sample_availability:
  "fst (pg_read_availability sample_engine (Error ''zod'') (sample_id ''0'') (sample_id ''3'') (sample_tables, sample_tables)) =
     Inr (Some \<lparr>av_screeningId = sample_id ''3'', av_seats = [\<lparr>sa_seatId = sample_id ''4'', sa_available = True\<rparr>]\<rparr>)"
  by code_simp

theorem postgres_availability_is_exact_witness:
  "right_answer reference_conversions sample_tables (sample_id ''0'') (sample_id ''3'')
     (Some \<lparr>av_screeningId = sample_id ''3'', av_seats = [\<lparr>sa_seatId = sample_id ''4'', sa_available = True\<rparr>]\<rparr>)"
proof -
  let ?run = "pg_read_availability sample_engine (Error ''zod'') (sample_id ''0'') (sample_id ''3'') (sample_tables, sample_tables)"
  from postgres_availability_is_exact [OF sample_engine_documented _ sample_id_uuid(1,2) surjective_pairing [of ?run]]
  show ?thesis using sample_tables_sound unfolding sample_availability by simp
qed

end
