(* ===== verification/Processor_Observability.thy ===== *)
theory Processor_Observability
  imports Logging Draining
begin

text \<open>
  The observability adapter of the reservation processor
  (\<open>infrastructure/observability/movie-reservation-observability.ts\<close>, with
  \<open>reservation-processor-span-observability.ts\<close> and
  \<open>reservation-processor-log-fields.ts\<close>): the spans, metrics and log lines of a run. The
  adapter is the environment the processor is composed with; what a run writes to the log is
  then proved from the code of the processor.
\<close>

section \<open>Spans\<close>

text \<open>
  The tracer. A span and an OpenTelemetry context are handles. An exception is recorded as the
  \<open>Error\<close> object or as a text. The consumer kind of a started span is fixed.
\<close>

record 'e processor_tracer =
  tr_activeContext :: "('e, nat) io"
  tr_extract :: "nat \<Rightarrow> (string \<times> string) list \<Rightarrow> ('e, nat) io"
  tr_startActiveSpan :: "string \<Rightarrow> attributes \<Rightarrow> nat \<Rightarrow> ('e, nat) io"
  tr_setAttributes :: "nat \<Rightarrow> attributes \<Rightarrow> ('e, unit) io"
  tr_setStatus :: "nat \<Rightarrow> span_status \<Rightarrow> string option \<Rightarrow> ('e, unit) io"
  tr_recordException :: "nat \<Rightarrow> js_error + string \<Rightarrow> ('e, unit) io"
  tr_end :: "nat \<Rightarrow> ('e, unit) io"

text \<open>
  The first part of the world is the chain of active contexts that carry a processor span under
  \<open>reservationProcessorSpanContextKey\<close>, innermost first.
\<close>

type_synonym 'e processor_world = "nat list \<times> 'e request_world"

definition telemetry_env :: "('e, 'a) io \<Rightarrow> ('e processor_world, 'a) io" where
  "telemetry_env m = on_env (on_env m)"

definition get_active_processor_span :: "('e processor_world, nat option) io" where
  "get_active_processor_span = on_db (gets (\<lambda>spans. case spans of [] \<Rightarrow> None | span # rest \<Rightarrow> Some span))"

definition create_persisted_context_span_attributes :: "work_observability_context option \<Rightarrow> attributes" where
  "create_persisted_context_span_attributes context_opt =
    (case context_opt of
       None \<Rightarrow> []
     | Some c \<Rightarrow> [(''app.correlation_id'', L_String (oc_correlationId c)), (''app.request_id'', L_String (oc_requestId c))])"

definition create_processor_span_attributes :: "span_attributes \<Rightarrow> attributes" where
  "create_processor_span_attributes a = obj_spread
     [(''reservation_request.id'', L_String (sp_reservationRequestId a)),
      (''reservation_request.sequence'', L_Number (sp_sequence a)),
      (''reservation_processor.operation'', L_String ''process''),
      (''reservation_work_queue.system'', L_String ''postgres''),
      (''reservation_work_queue.name'', L_String ''reservation_requests'')]
     (create_persisted_context_span_attributes (sp_observabilityContext a))"

definition create_optional_processor_identity_span_attributes :: "outcome_attributes \<Rightarrow> attributes" where
  "create_optional_processor_identity_span_attributes a = obj_spread
     (case oa_reservationRequestId a of None \<Rightarrow> [] | Some i \<Rightarrow> [(''reservation_request.id'', L_String i)])
     (case oa_sequence a of None \<Rightarrow> [] | Some n \<Rightarrow> [(''reservation_request.sequence'', L_Number n)])"

definition extract_processor_parent_context ::
  "'e processor_tracer \<Rightarrow> work_observability_context option \<Rightarrow> ('e, nat) io" where
  "extract_processor_parent_context R context_opt =
    (case context_opt of
       None \<Rightarrow> tr_activeContext R
     | Some c \<Rightarrow> bind_io (tr_activeContext R) (\<lambda>active.
         tr_extract R active ((''traceparent'', oc_traceparent c) #
           (case oc_tracestate c of None \<Rightarrow> [] | Some s \<Rightarrow> [(''tracestate'', s)]))))"

definition to_span_exception :: "'e telemetry \<Rightarrow> js_error \<Rightarrow> js_error + string" where
  "to_span_exception T error =
    (case error_constructor_name T error of Some n \<Rightarrow> Inl error | None \<Rightarrow> Inr (error_message T error))"

definition record_span_exception :: "'e telemetry \<Rightarrow> 'e processor_tracer \<Rightarrow> nat \<Rightarrow> js_error \<Rightarrow> ('e, unit) io" where
  "record_span_exception T R span error =
    then_io (tr_recordException R span (to_span_exception T error))
      (tr_setStatus R span Status_Error (Some (error_message T error)))"

text \<open>
  \<open>runReservationProcessorConsumerSpan\<close>, in the three parts the port is given by: what
  happens before the operation, in the \<open>catch\<close>, and in the \<open>finally\<close> with the
  return to the outer context.
\<close>

definition start_processor_consumer_span ::
  "'e processor_tracer \<Rightarrow> span_attributes \<Rightarrow> ('e processor_world, unit) io" where
  "start_processor_consumer_span R a =
    bind_io (telemetry_env (extract_processor_parent_context R (sp_observabilityContext a))) (\<lambda>parentContext.
    bind_io (telemetry_env (tr_startActiveSpan R ''reservation_request.process''
      (create_processor_span_attributes a) parentContext)) (\<lambda>span.
    on_db (modify (\<lambda>spans. span # spans))))"

definition fail_processor_consumer_span ::
  "'e telemetry \<Rightarrow> 'e processor_tracer \<Rightarrow> js_error \<Rightarrow> ('e processor_world, unit) io" where
  "fail_processor_consumer_span T R error =
    bind_io get_active_processor_span (\<lambda>active. case active of
      None \<Rightarrow> ret ()
    | Some span \<Rightarrow> telemetry_env (record_span_exception T R span error))"

definition end_processor_consumer_span :: "'e processor_tracer \<Rightarrow> ('e processor_world, unit) io" where
  "end_processor_consumer_span R =
    bind_io get_active_processor_span (\<lambda>active. case active of
      None \<Rightarrow> ret ()
    | Some span \<Rightarrow> then_io (on_db (modify tl)) (telemetry_env (tr_end R span)))"

definition annotate_active_processor_claimed_span ::
  "'e processor_tracer \<Rightarrow> span_attributes \<Rightarrow> ('e processor_world, unit) io" where
  "annotate_active_processor_claimed_span R a =
    bind_io get_active_processor_span (\<lambda>active. case active of
      None \<Rightarrow> ret ()
    | Some span \<Rightarrow> telemetry_env (tr_setAttributes R span (create_processor_span_attributes a)))"

definition annotate_active_processor_outcome_span ::
  "'e processor_tracer \<Rightarrow> outcome_attributes \<Rightarrow> ('e processor_world, unit) io" where
  "annotate_active_processor_outcome_span R a =
    bind_io get_active_processor_span (\<lambda>active. case active of
      None \<Rightarrow> ret ()
    | Some span \<Rightarrow>
        then_io (telemetry_env (tr_setAttributes R span (obj_spread (obj_spread
            (create_optional_processor_identity_span_attributes a)
            [(''reservation_processor.outcome'', L_String (processor_outcome_str (oa_outcome a))),
             (''reservation_processor.duration_ms'', L_Millis (oa_durationNs a))])
            (case oa_reason a of None \<Rightarrow> [] | Some r \<Rightarrow> [(''reservation_processor.reason'', L_String r)]))))
        (if oa_outcome a = O_Failed \<or> oa_outcome a = O_Retryable_Failure
         then telemetry_env (tr_setStatus R span Status_Error (Some (case oa_reason a of
           Some r \<Rightarrow> r | None \<Rightarrow> processor_outcome_str (oa_outcome a))))
         else telemetry_env (tr_setStatus R span Status_Ok None)))"

definition record_active_processor_span_exception ::
  "'e telemetry \<Rightarrow> 'e processor_tracer \<Rightarrow> js_error \<Rightarrow> ('e processor_world, unit) io" where
  "record_active_processor_span_exception T R error =
    bind_io get_active_processor_span (\<lambda>active. case active of
      None \<Rightarrow> ret ()
    | Some span \<Rightarrow> telemetry_env (record_span_exception T R span error))"

section \<open>Log fields\<close>

definition resolve_reservation_processor_outcome_event :: "processor_outcome \<Rightarrow> string" where
  "resolve_reservation_processor_outcome_event outcome =
    (if outcome = O_Confirmed then ''reservation_request.confirmed''
     else if outcome = O_Rejected then ''reservation_request.rejected''
     else if outcome = O_Retryable_Failure then ''reservation_request.processing_retry_scheduled''
     else ''reservation_request.processing_failed'')"

definition create_persisted_context_log_fields :: "work_observability_context option \<Rightarrow> log_fields" where
  "create_persisted_context_log_fields context_opt =
    (case context_opt of
       None \<Rightarrow> []
     | Some c \<Rightarrow> [(''correlation_id'', Some (L_String (oc_correlationId c))),
         (''trace_id'', map_option L_String (read_trace_id_from_traceparent (Some (oc_traceparent c))))])"

definition create_processor_log_fields ::
  "id option \<Rightarrow> work_observability_context option \<Rightarrow> log_fields \<Rightarrow> log_fields" where
  "create_processor_log_fields reservationRequestId context_opt flds =
    obj_spread (obj_spread flds [(''reservation_request_id'', map_option L_String reservationRequestId)])
      (create_persisted_context_log_fields context_opt)"

definition create_reservation_processor_message :: "outcome_attributes \<Rightarrow> string" where
  "create_reservation_processor_message a =
    (if oa_outcome a = O_Confirmed then ''Reservation request confirmed.''
     else if oa_reason a = Some ''seat-conflict''
     then ''Reservation request rejected because seats are already booked.''
     else if oa_reason a = Some ''unexpected-error''
     then ''Reservation request processing hit an unexpected internal error.''
     else if oa_outcome a = O_Retryable_Failure then ''Reservation request processing will be retried.''
     else if oa_outcome a = O_Failed then ''Reservation request processing failed.''
     else ''Reservation request processing completed with outcome '' @ processor_outcome_str (oa_outcome a) @ ''.'')"

definition create_processor_claimed_log_fields :: "span_attributes \<Rightarrow> log_fields" where
  "create_processor_claimed_log_fields a =
    create_processor_log_fields (Some (sp_reservationRequestId a)) (sp_observabilityContext a)
      [(''message'', Some (L_String ''Reservation request processor claimed the request.''))]"

definition create_processor_outcome_log_fields :: "outcome_attributes \<Rightarrow> log_fields" where
  "create_processor_outcome_log_fields a =
    create_processor_log_fields (oa_reservationRequestId a) (oa_observabilityContext a)
      [(''message'', Some (L_String (create_reservation_processor_message a))),
       (''outcome'', Some (L_String (processor_outcome_str (oa_outcome a)))),
       (''reason'', map_option L_String (oa_reason a)), (''duration_ms'', Some (L_Millis (oa_durationNs a)))]"

section \<open>The adapter\<close>

definition record_reservation_request_created ::
  "'e telemetry \<Rightarrow> 'e request_world application_logger \<Rightarrow> id \<Rightarrow> ('e processor_world, unit) io" where
  "record_reservation_request_created T L reservationRequestId =
    then_io (telemetry_env (increment_reservation_requests_created T))
      (on_env (lo_info L ''reservation_request.created'' (Some
        [(''message'', Some (L_String ''Reservation request created.'')),
         (''business_operation'', Some (L_String ''requestReservation'')),
         (''reservation_request_id'', Some (L_String reservationRequestId))])))"

definition record_reservation_processor_claimed ::
  "'e telemetry \<Rightarrow> 'e processor_tracer \<Rightarrow> 'e request_world application_logger \<Rightarrow> span_attributes \<Rightarrow>
    ('e processor_world, unit) io" where
  "record_reservation_processor_claimed T R L a =
    then_io (telemetry_env (increment_reservation_processor_claims T))
   (then_io (annotate_active_processor_claimed_span R a)
      (on_env (lo_info L ''reservation_request.processing_started'' (Some (create_processor_claimed_log_fields a)))))"

definition record_reservation_processor_outcome ::
  "'e telemetry \<Rightarrow> 'e processor_tracer \<Rightarrow> 'e request_world application_logger \<Rightarrow> outcome_attributes \<Rightarrow>
    ('e processor_world, unit) io" where
  "record_reservation_processor_outcome T R L a =
    then_io (annotate_active_processor_outcome_span R a)
   (then_io (telemetry_env (record_reservation_processor_outcome_metrics T (oa_outcome a) (oa_durationNs a)))
      (if oa_outcome a = O_No_Pending_Request then ret ()
       else on_env (lo_info L (resolve_reservation_processor_outcome_event (oa_outcome a))
         (Some (create_processor_outcome_log_fields a)))))"

definition record_reservation_processor_exception ::
  "'e telemetry \<Rightarrow> 'e processor_tracer \<Rightarrow> 'e request_world application_logger \<Rightarrow> js_error \<Rightarrow>
    ('e processor_world, unit) io" where
  "record_reservation_processor_exception T R L error =
    then_io (record_active_processor_span_exception T R error)
   (then_io (telemetry_env (increment_reservation_processor_exception_count T (classify_diagnostic_exception T error)))
      (on_env (lo_error L ''reservation_processor.exception'' None (Some error))))"

text \<open>
  The environment with the adapter: the clock, the generators and the failure policy are those
  of \<open>base\<close>; the context provider is the request-scoped one.
\<close>

definition otel_environment ::
  "'e telemetry \<Rightarrow> 'e processor_tracer \<Rightarrow> 'e request_world application_logger \<Rightarrow> 'e environment \<Rightarrow>
    'e processor_world environment" where
  "otel_environment T R L base =
    \<lparr>en_hrtime = telemetry_env (en_hrtime base), en_nowIsoString = telemetry_env (en_nowIsoString base),
     en_randomUUID = telemetry_env (en_randomUUID base),
     en_createClaimToken = map_option telemetry_env (en_createClaimToken base),
     en_generateReservationId = telemetry_env (en_generateReservationId base),
     en_generateReservationRequestId = telemetry_env (en_generateReservationRequestId base),
     en_currentContext = on_env (get_current_work_observability_context T),
     en_requestCreated = record_reservation_request_created T L,
     en_spanStart = start_processor_consumer_span R, en_spanError = fail_processor_consumer_span T R,
     en_spanEnd = end_processor_consumer_span R, en_claimed = record_reservation_processor_claimed T R L,
     en_outcome = record_reservation_processor_outcome T R L,
     en_exception = record_reservation_processor_exception T R L,
     en_shouldFail = (\<lambda>i. telemetry_env (en_shouldFail base i))\<rparr>"

text \<open>\<open>NoopMovieReservationObservability\<close>\<close>

definition noop_observability :: "'e environment \<Rightarrow> 'e environment" where
  "noop_observability base = base\<lparr>en_requestCreated := \<lambda>_. ret (), en_spanStart := \<lambda>_. ret (),
     en_spanError := \<lambda>_. ret (), en_spanEnd := ret (), en_claimed := \<lambda>_. ret (), en_outcome := \<lambda>_. ret (),
     en_exception := \<lambda>_. ret ()\<rparr>"

end
