(* ===== verification/Processor_Log.thy ===== *)
theory Processor_Log
  imports Graphql_Plugin Processor_Observability
begin

text \<open>
  What a run of the processor writes to the log and leaves of the active spans, when the adapter
  of \<open>Processor_Observability\<close> is its environment and telemetry does not throw. The
  repository is arbitrary: the log follows from the code of the processor alone.
\<close>

section \<open>The abstract state\<close>

text \<open>The active spans, and the events logged so far.\<close>

definition log_state :: "('e \<Rightarrow> string list) \<Rightarrow> 'e processor_world \<Rightarrow> nat list \<times> string list" where
  "log_state events w = (fst w, events (snd (snd w)))"

definition emits :: "('e \<Rightarrow> string list) \<Rightarrow> ('e processor_world, 'a) io \<Rightarrow>
    (nat list \<times> string list \<Rightarrow> nat list \<times> string list \<Rightarrow> bool) \<Rightarrow> bool" where
  "emits events m G \<longleftrightarrow> (\<forall>w. \<exists>x w'. m w = (Inr x, w') \<and> G (log_state events w) (log_state events w'))"

definition hushed :: "('e \<Rightarrow> string list) \<Rightarrow> ('e, 'a) io \<Rightarrow> bool" where
  "hushed events m \<longleftrightarrow> (\<forall>e. events (snd (m e)) = events e)"

definition appends :: "string list \<Rightarrow> nat list \<times> string list \<Rightarrow> nat list \<times> string list \<Rightarrow> bool" where
  "appends evs a b \<longleftrightarrow> b = (fst a, snd a @ evs)"

lemma appends_simps [simp]: "appends [] a b \<longleftrightarrow> b = a"
  by (cases a) (auto simp: appends_def)

text \<open>
  Telemetry, clock and generators that return, and a log that records what is written. The
  failure policy and the generator of reservation ids may throw.
\<close>

definition records_run :: "'e telemetry \<Rightarrow> 'e processor_tracer \<Rightarrow> 'e environment \<Rightarrow> ('e \<Rightarrow> string list) \<Rightarrow> bool" where
  "records_run T R base events \<longleftrightarrow>
     (\<exists>S. records_logs T S events) \<and> silent events (tr_activeContext R) \<and> (\<forall>c h. silent events (tr_extract R c h)) \<and>
     (\<forall>n a c. silent events (tr_startActiveSpan R n a c)) \<and> (\<forall>s a. silent events (tr_setAttributes R s a)) \<and>
     (\<forall>s c m. silent events (tr_setStatus R s c m)) \<and> (\<forall>s x. silent events (tr_recordException R s x)) \<and>
     (\<forall>s. silent events (tr_end R s)) \<and> silent events (en_hrtime base) \<and> silent events (en_nowIsoString base) \<and>
     silent events (en_randomUUID base) \<and> (\<forall>m. en_createClaimToken base = Some m \<longrightarrow> silent events m) \<and>
     hushed events (en_generateReservationId base) \<and> (\<forall>i. hushed events (en_shouldFail base i))"

definition quiet_input :: "('e \<Rightarrow> string list) \<Rightarrow> 'e processor_world processing_input \<Rightarrow> bool" where
  "quiet_input events input \<longleftrightarrow> (\<forall>f c. pi_onClaimed input = Some f \<longrightarrow> emits events (f c) (appends []))"

section \<open>Rules\<close>

lemma emitsD: "emits events m G \<Longrightarrow> \<exists>x w'. m w = (Inr x, w') \<and> G (log_state events w) (log_state events w')"
  unfolding emits_def by blast

lemma emits_env:
  assumes "silent events m"
  shows "emits events (telemetry_env m) (appends [])"
  unfolding emits_def
proof
  fix w :: "'a processor_world"
  obtain sp c e where w: "w = (sp, (c, e))" by (metis prod.collapse)
  obtain x e' where "m e = (Inr x, e')" "events e' = events e" using assms unfolding silent_def by blast
  then show "\<exists>x w'. telemetry_env m w = (Inr x, w') \<and> appends [] (log_state events w) (log_state events w')"
    by (simp add: w telemetry_env_def on_env_app log_state_def)
qed

lemma emits_bind:
  assumes "emits events m (appends as)" "\<And>x. emits events (f x) (appends bs)"
  shows "emits events (bind_io m f) (appends (as @ bs))"
  unfolding emits_def
proof
  fix w
  obtain x v where 1: "m w = (Inr x, v)" "appends as (log_state events w) (log_state events v)"
    using emitsD [OF assms(1)] by blast
  obtain y u where 2: "f x v = (Inr y, u)" "appends bs (log_state events v) (log_state events u)"
    using emitsD [OF assms(2)] by blast
  from 1 2 show "\<exists>x w'. bind_io m f w = (Inr x, w') \<and> appends (as @ bs) (log_state events w) (log_state events w')"
    by (simp add: bind_io_def appends_def)
qed

lemma emits_ret: "emits events (ret x) (appends [])"
  by (simp add: emits_def)

lemma emits_active:
  assumes "\<And>span. emits events (f span) (appends [])"
  shows "emits events (bind_io get_active_processor_span (\<lambda>active. case active of None \<Rightarrow> ret () | Some span \<Rightarrow> f span)) (appends [])"
  unfolding emits_def
proof
  fix w :: "'a processor_world"
  show "\<exists>x w'. bind_io get_active_processor_span (\<lambda>active. case active of None \<Rightarrow> ret () | Some span \<Rightarrow> f span) w = (Inr x, w') \<and>
      appends [] (log_state events w) (log_state events w')"
    using emitsD [OF assms, where w = w] by (cases w) (auto simp: get_active_processor_span_def bind_io_def on_db_app split: list.split)
qed

lemma emits_log:
  assumes "records_logs T S events" "jm_inv fs"
  shows "emits events (on_env (write_log T level ev (Some fs))) (appends [ev])"
  unfolding emits_def
proof
  fix w :: "'a processor_world"
  obtain sp c e where w: "w = (sp, (c, e))" by (metis prod.collapse)
  show "\<exists>x w'. on_env (write_log T level ev (Some fs)) w = (Inr x, w') \<and> appends [ev] (log_state events w) (log_state events w')"
    using write_log_appends [OF assms, of level ev c e] by (auto simp: w on_env_app log_state_def appends_def)
qed

lemma runs_emits:
  assumes "emits events m G" "\<And>x v. G (log_state events (snd w)) (log_state events v) \<Longrightarrow> runs (f x) (fst w, v) Q"
  shows "runs (bind_io (on_env m) f) w Q"
  using emitsD [OF assms(1), where w = "snd w"] assms(2) by (cases w) (auto simp: runs_def bind_io_def on_env_app)

lemma runs_inner_emits:
  assumes "emits events m G"
    "\<And>x v. G (log_state events (snd (fst w))) (log_state events v) \<Longrightarrow> runs (f x) ((fst (fst w), v), snd w) Q"
  shows "runs (bind_io (on_db (on_env m)) f) w Q"
  using emitsD [OF assms(1), where w = "snd (fst w)"] assms(2)
  by (cases w; cases "fst w") (auto simp: runs_def bind_io_def on_env_app on_db_app)

lemma runs_hushed:
  assumes "hushed events m" "\<And>x v. log_state events v = log_state events (snd w) \<Longrightarrow> Q (Inl x) (fst w, v)"
    "\<And>x v. log_state events v = log_state events (snd w) \<Longrightarrow> runs (f x) (fst w, v) Q"
  shows "runs (bind_io (on_env (telemetry_env m)) f) w Q"
proof -
  obtain s sp c e where w: "w = (s, (sp, (c, e)))" by (metis prod.collapse)
  have "log_state events (sp, (c, snd (m e))) = log_state events (sp, (c, e))"
    using assms(1) by (simp add: hushed_def log_state_def)
  then show ?thesis
    using assms(2,3) by (cases "fst (m e)") (auto simp: w runs_def bind_io_def on_env_app telemetry_env_def)
qed

section \<open>The adapter\<close>

definition outcome_events :: "processor_outcome \<Rightarrow> string list" where
  "outcome_events outcome = (if outcome = O_No_Pending_Request then []
     else [resolve_reservation_processor_outcome_event outcome])"

lemma records_runD:
  assumes "records_run T R base events"
  shows "\<exists>S. records_logs T S events" "silent events (tr_activeContext R)" "silent events (tr_extract R c h)"
    "silent events (tr_startActiveSpan R n a k)" "silent events (tr_setAttributes R s a)"
    "silent events (tr_setStatus R s st m)" "silent events (tr_recordException R s x)" "silent events (tr_end R s)"
    "silent events (en_hrtime base)" "silent events (en_nowIsoString base)" "silent events (en_randomUUID base)"
    "en_createClaimToken base = Some create \<Longrightarrow> silent events create" "hushed events (en_generateReservationId base)"
    "hushed events (en_shouldFail base i)" "silent events (tl_counterAdd T n j a)" "silent events (tl_histogramRecord T n j a)"
proof -
  from assms obtain S where "records_logs T S events" unfolding records_run_def by blast
  from records_logsD(3,4) [OF this] show "silent events (tl_counterAdd T n j a)" "silent events (tl_histogramRecord T n j a)"
    by this+
qed (use assms in \<open>simp_all add: records_run_def\<close>)

lemma emits_then: "emits events m (appends as) \<Longrightarrow> emits events k (appends bs) \<Longrightarrow> emits events (then_io m k) (appends (as @ bs))"
  by (simp add: emits_bind)

lemma claimed_emits:
  assumes "records_run T R base events"
  shows "emits events (record_reservation_processor_claimed T R (application_logger_of T) a)
    (appends [''reservation_request.processing_started''])"
proof -
  obtain S where S: "records_logs T S events" using records_runD(1) [OF assms] by blast
  have "jm_inv (create_processor_claimed_log_fields a)"
    unfolding create_processor_claimed_log_fields_def create_processor_log_fields_def
    by (intro obj_spread_inv) (simp add: jm_inv_def)
  from emits_then [OF emits_env [OF records_runD(15) [OF assms]] emits_then [OF emits_active emits_log [OF S this]]]
  show ?thesis
    unfolding record_reservation_processor_claimed_def annotate_active_processor_claimed_span_def
      increment_reservation_processor_claims_def application_logger_of_def application_logger.simps append_Nil
    by (simp add: emits_env records_runD(5) [OF assms])
qed

lemma exception_emits:
  assumes "records_run T R base events"
  shows "emits events (record_reservation_processor_exception T R (application_logger_of T) x)
    (appends [''reservation_processor.exception''])"
proof -
  obtain S where S: "records_logs T S events" using records_runD(1) [OF assms] by blast
  have "jm_inv (add_error_fields T None (Some x))"
    by (auto simp: add_error_fields_def intro!: obj_spread_inv split: option.split)
  from emits_then [OF emits_active emits_then [OF emits_env [OF records_runD(15) [OF assms]] emits_log [OF S this]]]
  show ?thesis
    unfolding record_reservation_processor_exception_def record_active_processor_span_exception_def
      increment_reservation_processor_exception_count_def application_logger_of_def application_logger.simps append_Nil
    by (simp add: emits_env record_span_exception_def silent_bind records_runD(6,7) [OF assms])
qed

lemma outcome_emits:
  assumes "records_run T R base events"
  shows "emits events (record_reservation_processor_outcome T R (application_logger_of T) a)
    (appends (outcome_events (oa_outcome a)))"
proof -
  obtain S where S: "records_logs T S events" using records_runD(1) [OF assms] by blast
  have inv: "jm_inv (create_processor_outcome_log_fields a)"
    unfolding create_processor_outcome_log_fields_def create_processor_log_fields_def
    by (intro obj_spread_inv) (simp add: jm_inv_def)
  have annotate: "emits events (annotate_active_processor_outcome_span R a) (appends [])"
    unfolding annotate_active_processor_outcome_span_def
    by (rule emits_active, rule emits_then [where as = "[]" and bs = "[]", unfolded append_Nil])
      (simp_all add: emits_env records_runD(5,6) [OF assms])
  have metrics: "emits events (telemetry_env (record_reservation_processor_outcome_metrics T (oa_outcome a) (oa_durationNs a))) (appends [])"
    by (rule emits_env) (simp add: record_reservation_processor_outcome_metrics_def Let_def silent_bind records_runD(15,16) [OF assms])
  show ?thesis
    using emits_then [OF annotate emits_then [OF metrics emits_ret [of events "()"]]] emits_then [OF annotate emits_then [OF metrics emits_log [OF S inv]]]
    unfolding record_reservation_processor_outcome_def outcome_events_def
    by (cases "oa_outcome a = O_No_Pending_Request") (simp_all add: application_logger_of_def)
qed

lemma start_emits:
  assumes "records_run T R base events"
  shows "emits events (start_processor_consumer_span R a) (\<lambda>x y. \<exists>n. y = (n # fst x, snd x))"
  unfolding emits_def
proof
  fix w :: "'a processor_world"
  have "silent events (extract_processor_parent_context R (sp_observabilityContext a))"
    by (auto simp: extract_processor_parent_context_def records_runD(2,3) [OF assms] intro: silent_bind split: option.split)
  from emitsD [OF emits_env [OF this], where w = w] obtain p v where
    1: "telemetry_env (extract_processor_parent_context R (sp_observabilityContext a)) w = (Inr p, v)"
    "log_state events v = log_state events w" by auto
  from emitsD [OF emits_env [OF records_runD(4) [OF assms]], where w = v] obtain n u where
    2: "telemetry_env (tr_startActiveSpan R ''reservation_request.process'' (create_processor_span_attributes a) p) v = (Inr n, u)"
    "log_state events u = log_state events v" by fastforce
  show "\<exists>x w'. start_processor_consumer_span R a w = (Inr x, w') \<and>
      (\<exists>n. log_state events w' = (n # fst (log_state events w), snd (log_state events w)))"
    using 1 2 by (cases u) (auto simp: start_processor_consumer_span_def bind_io_def on_db_app log_state_def)
qed

lemma fail_emits:
  assumes "records_run T R base events"
  shows "emits events (fail_processor_consumer_span T R x) (appends [])"
  unfolding fail_processor_consumer_span_def record_span_exception_def
  by (rule emits_active) (simp add: emits_env silent_bind records_runD(6,7) [OF assms])

lemma end_emits:
  assumes "records_run T R base events"
  shows "emits events (end_processor_consumer_span R) (\<lambda>x y. y = (tl (fst x), snd x))"
  unfolding emits_def
proof
  fix w :: "'a processor_world"
  obtain sp c e where w: "w = (sp, (c, e))" by (metis prod.collapse)
  show "\<exists>x w'. end_processor_consumer_span R w = (Inr x, w') \<and>
      log_state events w' = (tl (fst (log_state events w)), snd (log_state events w))"
  proof (cases sp)
    case Nil
    then show ?thesis
      by (simp add: w end_processor_consumer_span_def get_active_processor_span_def bind_io_def on_db_app log_state_def)
  next
    case (Cons n rest)
    obtain x e' where "tr_end R n e = (Inr x, e')" "events e' = events e"
      using records_runD(8) [OF assms, of n] unfolding silent_def by blast
    then show ?thesis using Cons
      by (simp add: w end_processor_consumer_span_def get_active_processor_span_def bind_io_def on_db_app telemetry_env_def
          on_env_app log_state_def)
  qed
qed

section \<open>One run\<close>

fun run_events :: "processing_result \<Rightarrow> string list" where
  "run_events No_Pending_Request = []"
| "run_events (Retryable_Failure_Result a q n) = [''reservation_request.processing_started'',
     ''reservation_processor.exception'', ''reservation_request.processing_retry_scheduled'']"
| "run_events (Failed_Result a q) = [''reservation_request.processing_started'',
     ''reservation_processor.exception'', ''reservation_request.processing_failed'']"
| "run_events (Confirmed_Result a q v) = [''reservation_request.processing_started'', ''reservation_request.confirmed'']"
| "run_events (Rejected_Result a q) = [''reservation_request.processing_started'', ''reservation_request.rejected'']"

text \<open>What the log gains after the item was claimed: \<open>logs a res b\<close>.\<close>

definition logs :: "nat list \<times> string list \<Rightarrow> js_error + processing_result \<Rightarrow> nat list \<times> string list \<Rightarrow> bool" where
  "logs a res b \<longleftrightarrow> (case res of Inl x \<Rightarrow> b = a | Inr R \<Rightarrow> R \<noteq> No_Pending_Request \<and> appends (tl (run_events R)) a b)"

abbreviation (input) otel :: "'e telemetry \<Rightarrow> 'e processor_tracer \<Rightarrow> 'e environment \<Rightarrow> 'e processor_world environment" where
  "otel T R base \<equiv> otel_environment T R (application_logger_of T) base"

lemma duration_emits: "records_run T R base events \<Longrightarrow> emits events (calculate_duration (otel T R base) d) (appends [])"
  unfolding calculate_duration_def otel_environment_def environment.simps
  using emits_bind [OF emits_env emits_ret, of events "en_hrtime base" "\<lambda>now. now - d"] by (simp add: records_runD(9))

lemma otel_fields:
  "en_nowIsoString (otel T R base) = telemetry_env (en_nowIsoString base)"
  "en_generateReservationId (otel T R base) = telemetry_env (en_generateReservationId base)"
  "en_shouldFail (otel T R base) = (\<lambda>i. telemetry_env (en_shouldFail base i))"
  "en_spanStart (otel T R base) = start_processor_consumer_span R"
  "en_spanError (otel T R base) = fail_processor_consumer_span T R"
  "en_spanEnd (otel T R base) = end_processor_consumer_span R"
  "en_claimed (otel T R base) = record_reservation_processor_claimed T R (application_logger_of T)"
  "en_outcome (otel T R base) = record_reservation_processor_outcome T R (application_logger_of T)"
  "en_exception (otel T R base) = record_reservation_processor_exception T R (application_logger_of T)"
  "en_hrtime (otel T R base) = telemetry_env (en_hrtime base)"
  "en_randomUUID (otel T R base) = telemetry_env (en_randomUUID base)"
  "en_createClaimToken (otel T R base) = map_option telemetry_env (en_createClaimToken base)"
  by (simp_all add: otel_environment_def)

lemma outcome_recorded_emits:
  assumes "records_run T R base events"
  shows "emits events (record_processor_outcome (otel T R base) res c d) (appends (outcome_events (result_outcome res)))"
proof -
  have "emits events (en_outcome (otel T R base) a) (appends (outcome_events (result_outcome res)))"
    if "oa_outcome a = result_outcome res" for a
    using outcome_emits [OF assms, of a] that by (simp add: otel_fields)
  then show ?thesis
    unfolding record_processor_outcome_def
    by (intro emits_bind [where as = "[]", unfolded append_Nil, OF duration_emits [OF assms]]) simp
qed

lemma now_emits: "records_run T R base events \<Longrightarrow> emits events (en_nowIsoString (otel T R base)) (appends [])"
  by (simp add: otel_fields emits_env records_runD(10))

text \<open>Neither committing nor failing an item logs anything; a commit gives a terminal result.\<close>

definition commits :: "('e \<Rightarrow> string list) \<Rightarrow> ('s \<times> 'e processor_world, processing_result) io \<Rightarrow> bool" where
  "commits events commit \<longleftrightarrow> (\<forall>w. runs commit w (\<lambda>res v. log_state events (snd v) = log_state events (snd w) \<and>
     (\<forall>R. res = Inr R \<longrightarrow> terminal_result R)))"

lemma reject_commits:
  assumes "records_run T R base events"
  shows "commits events (reject_for_seat_conflict W (otel T R base) c startedAt i)"
  unfolding commits_def reject_for_seat_conflict_def Let_def
  by (intro allI runs_emits [OF now_emits [OF assms]] runs_db_bind runs_pure) simp_all

lemma confirm_commits:
  assumes "records_run T R base events"
  shows "commits events (confirm_claimed_work_item W (otel T R base) c startedAt)"
  unfolding commits_def confirm_claimed_work_item_def Let_def otel_fields(2)
  by (intro allI runs_hushed [OF records_runD(13) [OF assms]] runs_emits [OF now_emits [OF assms]] runs_lift_bind runs_db_bind)
    (auto intro!: runs_pure split: confirm_result.split)

lemma terminal_events: "terminal_result R \<Longrightarrow> outcome_events (result_outcome R) = tl (run_events R) \<and> R \<noteq> No_Pending_Request"
  by (cases R) (simp_all add: outcome_events_def resolve_reservation_processor_outcome_event_def)

lemma persist_terminal_logs:
  assumes rec: "records_run T R base events" and commit: "commits events commit"
  shows "runs (persist_terminal (otel T R base) c d commit) (w, False) (\<lambda>res v.
    logs (log_state events (snd w)) res (log_state events (snd (fst v))) \<and> (isl res \<longleftrightarrow> \<not> snd v))"
  unfolding persist_terminal_def then_bind
proof (rule runs_bind, rule runs_on_db, unfold fst_conv snd_conv, rule runs_mono [OF commit [unfolded commits_def, rule_format]])
  fix res :: "js_error + processing_result" and v
  assume v: "log_state events (snd v) = log_state events (snd w) \<and> (\<forall>R. res = Inr R \<longrightarrow> terminal_result R)"
  show "case res of Inl e \<Rightarrow> logs (log_state events (snd w)) (Inl e) (log_state events (snd v)) \<and>
        (isl (Inl e :: js_error + processing_result) \<longleftrightarrow> \<not> False)
    | Inr result \<Rightarrow> runs (bind_io (modify (\<lambda>(w, _). (w, True))) (\<lambda>_.
        bind_io (on_db (on_env (record_processor_outcome (otel T R base) result c d))) (\<lambda>_. ret result))) (v, False)
        (\<lambda>res v. logs (log_state events (snd w)) res (log_state events (snd (fst v))) \<and> (isl res \<longleftrightarrow> \<not> snd v))"
  proof (cases res)
    case (Inr result)
    then have "terminal_result result" using v by blast
    note ev = terminal_events [OF this]
    have "runs (bind_io (on_db (on_env (record_processor_outcome (otel T R base) result c d))) (\<lambda>_. ret result)) (v, True)
        (\<lambda>res v. logs (log_state events (snd w)) res (log_state events (snd (fst v))) \<and> (isl res \<longleftrightarrow> \<not> snd v))"
      by (rule runs_inner_emits [OF outcome_recorded_emits [OF rec]], rule runs_pure(1)) (use v ev in \<open>simp add: logs_def\<close>)
    then show ?thesis using Inr by (auto intro!: runs_bind runs_modify)
  qed (use v in \<open>simp add: logs_def\<close>)
qed

lemma logs_error [simp]: "logs a (Inl x) b \<longleftrightarrow> b = a"
  by (simp add: logs_def)

lemma try_work_item_logs:
  assumes rec: "records_run T R base events"
  shows "runs (try_work_item W (otel T R base) c startedAt d) (w, False) (\<lambda>res v.
    logs (log_state events (snd w)) res (log_state events (snd (fst v))) \<and> (isl res \<longleftrightarrow> \<not> snd v))"
proof -
  have p: "runs (persist_terminal (otel T R base) c d commit) ((s, v), False) (\<lambda>res u.
      logs (log_state events (snd w)) res (log_state events (snd (fst u))) \<and> (isl res \<longleftrightarrow> \<not> snd u))"
    if "commits events commit" "log_state events v = log_state events (snd w)" for commit s v
    using persist_terminal_logs [OF rec that(1), of c d "(s, v)"] that(2) by simp
  note reject = p [OF reject_commits [OF rec]] and confirm = p [OF confirm_commits [OF rec]]
  obtain s v where w: "w = (s, v)" by (rule prod.exhaust)
  have policy: "runs (bind_io (on_db (on_env (throw_if_failure_policy_blocks (otel T R base) c)))
      (\<lambda>_. persist_terminal (otel T R base) c d (confirm_claimed_work_item W (otel T R base) c startedAt))) ((s', v), False)
      (\<lambda>res u. logs (log_state events (snd w)) res (log_state events (snd (fst u))) \<and> (isl res \<longleftrightarrow> \<not> snd u))" for s'
  proof -
    have h: "log_state events (snd (throw_if_failure_policy_blocks (otel T R base) c v)) = log_state events v"
    proof -
      obtain sp k e where v: "v = (sp, (k, e))" by (metis prod.collapse)
      have "events (snd (en_shouldFail base i e)) = events e" for i
        using records_runD(14) [OF rec] by (simp add: hushed_def)
      then show ?thesis
        by (auto simp: v throw_if_failure_policy_blocks_def otel_fields bind_io_def telemetry_env_def on_env_app log_state_def
            split: sum.split)
    qed
    show ?thesis
      by (rule runs_bind, rule runs_on_db, rule runsI)
        (auto simp: on_env_app h w split: sum.split intro!: confirm [unfolded w snd_conv])
  qed
  show ?thesis
    unfolding try_work_item_def then_bind w
    by (rule runs_bind, rule runs_on_db, rule runs_on_db, rule runsI)
      (auto simp: w split: sum.split option.split intro!: reject [unfolded w snd_conv] policy [unfolded w snd_conv])
qed

lemma handle_failure_logs:
  assumes "records_run T R base events"
  shows "runs (handle_unexpected_failure W (otel T R base) options c startedAt) w (\<lambda>res v.
    log_state events (snd v) = log_state events (snd w) \<and>
    (\<forall>R. res = Inr R \<longrightarrow> (\<exists>a q n. R = Retryable_Failure_Result a q n) \<or> (\<exists>a q. R = Failed_Result a q)))"
  unfolding handle_unexpected_failure_def Let_def
  by (rule runs_emits [OF now_emits [OF assms]]) (auto intro!: runs_db_bind runs_pure)

lemma catch_work_item_logs:
  assumes rec: "records_run T R base events"
  shows "runs (catch_work_item W (otel T R base) options c startedAt d x) (w, False) (\<lambda>res v.
    logs (log_state events (snd w)) res (log_state events (snd (fst v))))"
  unfolding catch_work_item_def then_bind
proof (rule runs_gets_bind, unfold snd_conv if_False, rule runs_bind, rule runs_on_db, unfold fst_conv snd_conv,
    rule runs_mono [OF handle_failure_logs [OF rec]])
  fix res :: "js_error + processing_result" and v
  assume v: "log_state events (snd v) = log_state events (snd w) \<and>
    (\<forall>R. res = Inr R \<longrightarrow> (\<exists>a q n. R = Retryable_Failure_Result a q n) \<or> (\<exists>a q. R = Failed_Result a q))"
  show "case res of Inl e \<Rightarrow> logs (log_state events (snd w)) (Inl e) (log_state events (snd v))
    | Inr result \<Rightarrow> runs (bind_io (on_db (on_env (en_exception (otel T R base) x))) (\<lambda>_.
        bind_io (on_db (on_env (record_processor_outcome (otel T R base) result c d))) (\<lambda>_. ret result))) (v, False)
        (\<lambda>res v. logs (log_state events (snd w)) res (log_state events (snd (fst v))))"
  proof (cases res)
    case (Inr result)
    have k: "logs (log_state events (snd w)) (Inr result) y"
      if "appends [''reservation_processor.exception''] (log_state events (snd v)) z"
        "appends (outcome_events (result_outcome result)) z y" for y z
      using v that Inr
      by (auto simp: logs_def appends_def outcome_events_def resolve_reservation_processor_outcome_event_def)
    have "runs (bind_io (on_db (on_env (en_exception (otel T R base) x))) (\<lambda>_.
        bind_io (on_db (on_env (record_processor_outcome (otel T R base) result c d))) (\<lambda>_. ret result))) (v, False)
        (\<lambda>res v. logs (log_state events (snd w)) res (log_state events (snd (fst v))))"
      unfolding otel_fields(9)
      by (rule runs_inner_emits [OF exception_emits [OF rec]], rule runs_inner_emits [OF outcome_recorded_emits [OF rec]],
          rule runs_pure(1)) (use k in simp)
    then show ?thesis using Inr by simp
  qed (use v in \<open>simp add: logs_def\<close>)
qed

text \<open>The whole item: the claim is logged first.\<close>

definition item_logs :: "nat list \<times> string list \<Rightarrow> js_error + processing_result \<Rightarrow> nat list \<times> string list \<Rightarrow> bool" where
  "item_logs a res b \<longleftrightarrow> (case res of
     Inl x \<Rightarrow> appends [''reservation_request.processing_started''] a b
   | Inr R \<Rightarrow> R \<noteq> No_Pending_Request \<and> appends (run_events R) a b)"

lemma run_events_started: "R \<noteq> No_Pending_Request \<Longrightarrow> run_events R = ''reservation_request.processing_started'' # tl (run_events R)"
  by (cases R) auto

lemma logs_item:
  assumes "appends [''reservation_request.processing_started''] a b" "logs b res k"
  shows "item_logs a res k"
proof (cases res)
  case (Inr R)
  then have R: "R \<noteq> No_Pending_Request" and "k = (fst b, snd b @ tl (run_events R))" using assms(2) by (simp_all add: logs_def appends_def)
  then show ?thesis using assms(1) Inr run_events_started [OF R] by (simp add: item_logs_def appends_def)
qed (use assms in \<open>simp add: logs_def item_logs_def\<close>)

lemma process_claimed_logs:
  fixes w :: "'s \<times> 'e processor_world"
  assumes rec: "records_run T R base events" and quiet: "quiet_input events input"
  shows "runs (process_claimed_work_item W (otel T R base) options input c startedAt d) w
    (\<lambda>res v. item_logs (log_state events (snd w)) res (log_state events (snd v)))"
proof -
  have main: "runs (with_local False (catch_io (try_work_item W (otel T R base) c startedAt d)
      (catch_work_item W (otel T R base) options c startedAt d))) u
      (\<lambda>res v. logs (log_state events (snd u)) res (log_state events (snd v)))" for u :: "'s \<times> 'e processor_world"
  proof (intro runs_local runs_catch, rule runs_mono [OF try_work_item_logs [OF rec]])
    fix res :: "js_error + processing_result" and v :: "('s \<times> 'e processor_world) \<times> bool"
    assume t: "logs (log_state events (snd u)) res (log_state events (snd (fst v))) \<and> (isl res \<longleftrightarrow> \<not> snd v)"
    show "case res of Inl e \<Rightarrow> runs (catch_work_item W (otel T R base) options c startedAt d e) v
          (\<lambda>r w'. logs (log_state events (snd u)) r (log_state events (snd (fst w'))))
      | Inr x \<Rightarrow> logs (log_state events (snd u)) (Inr x) (log_state events (snd (fst v)))"
    proof (cases res)
      case (Inl x)
      then have "log_state events (snd (fst v)) = log_state events (snd u)" "v = (fst v, False)"
        using t by (auto simp: logs_def prod_eq_iff)
      then show ?thesis using Inl catch_work_item_logs [OF rec, of W options c startedAt d x "fst v"] by simp
    qed (use t in simp)
  qed
  have rest: "runs (with_local False (catch_io (try_work_item W (otel T R base) c startedAt d)
      (catch_work_item W (otel T R base) options c startedAt d))) u
      (\<lambda>res v. item_logs (log_state events (snd w)) res (log_state events (snd v)))"
    if "appends [''reservation_request.processing_started''] (log_state events (snd w)) (log_state events (snd u))" for u
    by (rule runs_mono [OF main]) (rule logs_item [OF that])
  have claimed: "emits events (record_claimed_work_item (otel T R base) c) (appends [''reservation_request.processing_started''])"
    unfolding record_claimed_work_item_def otel_fields by (rule claimed_emits [OF rec])
  show ?thesis
    unfolding process_claimed_work_item_def then_bind
  proof (rule runs_emits [OF claimed], cases "pi_onClaimed input")
    case (Some f)
    then have f: "emits events (f c) (appends [])" using quiet by (simp add: quiet_input_def)
    fix x v assume v: "appends [''reservation_request.processing_started''] (log_state events (snd w)) (log_state events v)"
    show "runs (bind_io (case pi_onClaimed input of None \<Rightarrow> ret () | Some f \<Rightarrow> on_env (f c)) (\<lambda>_. with_local False
        (catch_io (try_work_item W (otel T R base) c startedAt d) (catch_work_item W (otel T R base) options c startedAt d))))
        (fst w, v) (\<lambda>res u. item_logs (log_state events (snd w)) res (log_state events (snd u)))"
      unfolding Some option.case by (rule runs_emits [OF f], rule rest) (use v in simp)
  qed (auto intro!: rest runs_bind [of "ret ()"] runs_pure)
qed

lemma span_logs:
  fixes w :: "'s \<times> 'e processor_world"
  assumes rec: "records_run T R base events"
    and item: "\<And>u :: 's \<times> 'e processor_world. runs operation u (\<lambda>res v. item_logs (log_state events (snd u)) res (log_state events (snd v)))"
  shows "runs (run_with_span (otel T R base) a operation) w (\<lambda>res v. item_logs (log_state events (snd w)) res (log_state events (snd v)))"
  unfolding run_with_span_def then_bind otel_fields
proof (rule runs_emits [OF start_emits [OF rec]], elim exE, rule runs_finally, rule runs_catch, rule runs_mono [OF item])
  fix x v n and res :: "js_error + processing_result" and u :: "'s \<times> 'e processor_world"
  assume v: "log_state events v = (n # fst (log_state events (snd w)), snd (log_state events (snd w)))"
    and u: "item_logs (log_state events (snd (fst w, v))) res (log_state events (snd u))"
  let ?ends = "\<lambda>r u. runs (on_env (end_processor_consumer_span R)) u (\<lambda>r' w''. case r' of
      Inl e \<Rightarrow> item_logs (log_state events (snd w)) (Inl e) (log_state events (snd w''))
    | Inr _ \<Rightarrow> item_logs (log_state events (snd w)) r (log_state events (snd w'')))"
  have ends: "?ends r u" if u: "item_logs (log_state events v) r (log_state events (snd u))" for r and u :: "'s \<times> 'e processor_world"
  proof -
    have "runs (bind_io (on_env (end_processor_consumer_span R)) ret) u (\<lambda>r' w''. case r' of
        Inl e \<Rightarrow> item_logs (log_state events (snd w)) (Inl e) (log_state events (snd w''))
      | Inr _ \<Rightarrow> item_logs (log_state events (snd w)) r (log_state events (snd w'')))"
      by (rule runs_emits [OF end_emits [OF rec]], rule runs_pure(1))
        (use u v in \<open>auto simp: item_logs_def appends_def split: sum.splits\<close>)
    then show ?thesis by (auto simp: runs_def bind_io_def split: prod.splits sum.splits)
  qed
  show "case res of Inl e \<Rightarrow> runs (bind_io (on_env (fail_processor_consumer_span T R e)) (\<lambda>_. throw e)) u ?ends
    | Inr x \<Rightarrow> ?ends (Inr x) u"
  proof (cases res)
    case (Inl e)
    have "runs (bind_io (on_env (fail_processor_consumer_span T R e)) (\<lambda>_. throw e)) u ?ends"
      by (rule runs_emits [OF fail_emits [OF rec]], rule runs_pure(2), rule ends)
        (use u Inl in \<open>simp add: item_logs_def\<close>)
    then show ?thesis using Inl by simp
  next
    case (Inr x)
    then show ?thesis using ends [of "Inr x" u] u by simp
  qed
qed

definition run_logs :: "nat list \<times> string list \<Rightarrow> js_error + processing_result \<Rightarrow> nat list \<times> string list \<Rightarrow> bool" where
  "run_logs a res b \<longleftrightarrow> (case res of
     Inl x \<Rightarrow> b = a \<or> appends [''reservation_request.processing_started''] a b
   | Inr R \<Rightarrow> appends (run_events R) a b)"

lemma run_logs_item: "item_logs a res b \<Longrightarrow> run_logs a res b"
  by (auto simp: item_logs_def run_logs_def split: sum.splits)

lemma process_next_logs:
  assumes rec: "records_run T R base events" and quiet: "quiet_input events input"
  shows "runs (process_next_pending_request W (otel T R base) options input) w
    (\<lambda>res v. run_logs (log_state events (snd w)) res (log_state events (snd v)))"
proof -
  have token: "emits events (claim_token (otel T R base) input) (appends [])"
    using emits_ret emits_env records_runD(11,12) [OF rec] by (auto simp: claim_token_def otel_fields split: option.split)
  have hr: "emits events (en_hrtime (otel T R base)) (appends [])"
    by (simp add: otel_fields emits_env records_runD(9) [OF rec])
  have none: "emits events (en_outcome (otel T R base) a) (appends [])" if "oa_outcome a = O_No_Pending_Request" for a
    using outcome_emits [OF rec, of a] that by (simp add: otel_fields outcome_events_def)
  show ?thesis
    unfolding process_next_pending_request_def then_bind
  proof (rule runs_emits [OF hr], rule runs_emits [OF now_emits [OF rec]], rule runs_emits [OF token], rule runs_lift_bind, goal_cases)
    case (2 d v startedAt v1 token v2 expiresAt)
    note same = 2(1-3) [simplified]
    show ?case
    proof (rule runs_db_bind, goal_cases)
      case (2 claimed s)
      show ?case
      proof (cases claimed)
        case None
        show ?thesis
          unfolding None option.case
          by (rule runs_emits [OF duration_emits [OF rec]], rule runs_emits [OF none], simp, rule runs_pure(1))
            (use same in \<open>simp add: run_logs_def\<close>)
      next
        case (Some c)
        show ?thesis
          unfolding Some option.case
          by (rule runs_mono [OF span_logs [OF rec process_claimed_logs [OF rec quiet]]])
            (use same in \<open>simp add: run_logs_item\<close>)
      qed
    qed (use same in \<open>simp add: run_logs_def\<close>)
  qed (simp_all add: run_logs_def)
qed

section \<open>A calm environment\<close>

text \<open>Such an environment is a calm one, so the passes of a worker with this adapter come to the end of the queue.\<close>

lemma emits_value: "emits events m G \<Longrightarrow> gives_value m"
  unfolding emits_def gives_value_def by (metis fst_conv)

lemma otel_environment_calm:
  assumes rec: "records_run T R base events" and quiet: "quiet_input events input"
    and lease: "\<And>e t. fst (en_nowIsoString base e) = Inr t \<Longrightarrow> \<exists>u. add_milliseconds t (po_claimLeaseMs options) = Inr u"
  shows "calm_environment options input (otel_environment T R (application_logger_of T) base)"
proof -
  note val = emits_value [where events = events]
  have token: "gives_value (claim_token (otel T R base) input)"
    by (rule val [where G = "appends []"])
      (use emits_ret emits_env records_runD(11,12) [OF rec] in \<open>auto simp: claim_token_def otel_fields split: option.split\<close>)
  have now: "fst (telemetry_env (en_nowIsoString base) w) = Inr t \<Longrightarrow> \<exists>e. fst (en_nowIsoString base e) = Inr t" for w t
    by (cases w; cases "snd w") (auto simp: telemetry_env_def on_env_app)
  have claimed: "gives_value (f c)" if "pi_onClaimed input = Some f" for f c
    using val quiet that unfolding quiet_input_def by blast
  show ?thesis
    unfolding calm_environment_def otel_fields
    using token val [OF emits_env [OF records_runD(9) [OF rec]]] val [OF emits_env [OF records_runD(10) [OF rec]]]
      val [OF start_emits [OF rec]] val [OF end_emits [OF rec]] val [OF claimed_emits [OF rec]]
      val [OF outcome_emits [OF rec]] val [OF exception_emits [OF rec]] claimed lease now
    by (simp; metis)
qed

section \<open>The property\<close>

text \<open>C20: the log of a worker run tells its result, over any repository and with the adapter as the processor's
  environment: a run that returns logs the claim, the exception if an attempt failed, and the outcome that
  is returned, and nothing when nothing was pending; a run that throws logs at most the claim.
  The spans that were active before are active again after, however it ends.\<close>

theorem processor_log_tells_result:
  assumes "records_run T R base events" "quiet_input events input"
    "process_next_pending_request W (otel_environment T R (application_logger_of T) base) options input
       (s, (spans, (c, e))) = (res, (s', (spans', (c', e'))))"
  shows "spans' = spans \<and> (case res of
      Inl x \<Rightarrow> events e' = events e \<or> events e' = events e @ [''reservation_request.processing_started'']
    | Inr result \<Rightarrow> events e' = events e @ run_events result)"
  using runsD [OF process_next_logs [OF assms(1,2)] assms(3)]
  by (auto simp: run_logs_def appends_def log_state_def split: sum.splits)

definition log_tracer :: "string list processor_tracer" where
  "log_tracer = \<lparr>tr_activeContext = ret 0, tr_extract = (\<lambda>_ _. ret 1), tr_startActiveSpan = (\<lambda>_ _ _. ret 7),
     tr_setAttributes = (\<lambda>_ _. ret ()), tr_setStatus = (\<lambda>_ _ _. ret ()), tr_recordException = (\<lambda>_ _. ret ()),
     tr_end = (\<lambda>_. ret ())\<rparr>"

definition log_environment :: "string list environment" where
  "log_environment = \<lparr>en_hrtime = ret 0, en_nowIsoString = ret ''2026-06-01T10:00:00.000Z'',
     en_randomUUID = ret ''uuid'', en_createClaimToken = None, en_generateReservationId = ret ''v1'',
     en_generateReservationRequestId = ret ''r9'', en_currentContext = ret None,
     en_requestCreated = (\<lambda>_. ret ()), en_spanStart = (\<lambda>_. ret ()), en_spanError = (\<lambda>_. ret ()),
     en_spanEnd = ret (), en_claimed = (\<lambda>_. ret ()), en_outcome = (\<lambda>_. ret ()), en_exception = (\<lambda>_. ret ()),
     en_shouldFail = (\<lambda>_. ret False)\<rparr>"

lemma log_environment_records: "records_run list_telemetry log_tracer log_environment (\<lambda>log. log)"
  using list_telemetry_records by (auto simp: records_run_def silent_def hushed_def log_tracer_def log_environment_def)

definition log_example :: "js_error + processing_result" where
  "log_example = fst (process_next_pending_request in_memory_work_repository
     (otel_environment list_telemetry log_tracer (application_logger_of list_telemetry) log_environment)
     default_processor_options \<lparr>pi_claimToken = None, pi_onClaimed = None\<rparr>
     (sy_store (do_save ''r1'' initial_system), ([], (None, []))))"

lemma log_example_confirms: "case log_example of Inr (Confirmed_Result a q v) \<Rightarrow> True | _ \<Rightarrow> False"
  by code_simp

theorem processor_log_tells_result_witness:
  "\<exists>s' c'. snd (process_next_pending_request in_memory_work_repository
     (otel_environment list_telemetry log_tracer (application_logger_of list_telemetry) log_environment)
     default_processor_options \<lparr>pi_claimToken = None, pi_onClaimed = None\<rparr>
     (sy_store (do_save ''r1'' initial_system), ([], (None, [])))) =
     (s', ([], (c', [''reservation_request.processing_started'', ''reservation_request.confirmed''])))"
proof -
  obtain res s' spans' c' e' where run: "process_next_pending_request in_memory_work_repository
     (otel_environment list_telemetry log_tracer (application_logger_of list_telemetry) log_environment)
     default_processor_options \<lparr>pi_claimToken = None, pi_onClaimed = None\<rparr>
     (sy_store (do_save ''r1'' initial_system), ([], (None, []))) = (res, (s', (spans', (c', e'))))" by (metis prod.exhaust)
  have "log_example = res" by (simp add: log_example_def run)
  then obtain a q v where R: "res = Inr (Confirmed_Result a q v)"
    using log_example_confirms by (auto split: sum.splits processing_result.splits)
  have "quiet_input (\<lambda>log. log) \<lparr>pi_claimToken = None, pi_onClaimed = None\<rparr>" by (simp add: quiet_input_def)
  then show ?thesis
    using processor_log_tells_result [OF log_environment_records _ run] unfolding run R by simp
qed

end
