(* ===== verification/Otel_Lifecycle.thy ===== *)
theory Otel_Lifecycle
  imports Telemetry
begin

text \<open>
  The lifecycle of the OpenTelemetry SDK (\<open>otel-lifecycle.ts\<close> and
  \<open>instrumentation.ts\<close> under \<open>src/src/infrastructure/observability\<close>). The SDK and the
  sink of diagnostics are parameters, and each of their operations may throw. A promise is what it
  settles to and when: the milliseconds after which it does, or never.
\<close>

section \<open>The SDK\<close>

datatype shutdown_settlement = Completed | Rejection js_error

record 'e otel_sdk =
  sdk_start :: "('e, unit) io"
  sdk_shutdown :: "('e, (int \<times> shutdown_settlement) option) io"

datatype otel_event = Bootstrap_Failed | Shutdown_Failed
datatype failure_kind = Kind_Exception | Kind_Rejection | Kind_Timeout

record otel_diagnostic =
  od_event :: otel_event
  od_error_type :: string
  od_failure_kind :: failure_kind

type_synonym 'e diagnostic_sink = "otel_diagnostic \<Rightarrow> ('e, unit) io"

record 'e start_otel_options =
  so_enabled :: bool
  so_createSdk :: "('e, 'e otel_sdk) io"
  so_diagnosticSink :: "'e diagnostic_sink"
  so_shutdownTimeoutMs :: "int option"

definition default_shutdown_timeout_ms :: int where
  "default_shutdown_timeout_ms = 3000"

section \<open>Classification of errors\<close>

text \<open>
  \<open>error.name\<close>; the error classes of the service set it to the name of the class. Of a
  foreign value \<open>foreignName\<close> gives it, and nothing when the value is no \<open>Error\<close>.
\<close>

fun error_name :: "(string \<Rightarrow> string option) \<Rightarrow> js_error \<Rightarrow> string option" where
  "error_name foreignName (Error m) = Some ''Error''"
| "error_name foreignName (RangeError m) = Some ''RangeError''"
| "error_name foreignName (TypeError m) = Some ''TypeError''"
| "error_name foreignName (AuthenticationError m) = Some ''AuthenticationError''"
| "error_name foreignName (ReservationRequestAlreadyExistsError i) = Some ''ReservationRequestAlreadyExistsError''"
| "error_name foreignName SeatReservationCommitError = Some ''SeatReservationCommitError''"
| "error_name foreignName AuditEmissionUnavailableError = Some ''AuditEmissionUnavailableError''"
| "error_name foreignName (AuditContractError issues) = Some ''AuditContractError''"
| "error_name foreignName (AuditPublisherConfigurationError f) = Some ''AuditPublisherConfigurationError''"
| "error_name foreignName (Foreign x) = foreignName x"

definition is_letter :: "char \<Rightarrow> bool" where
  "is_letter c \<longleftrightarrow> is_lower_az c \<or> is_upper_az c"

definition is_alphanumeric :: "char \<Rightarrow> bool" where
  "is_alphanumeric c \<longleftrightarrow> is_letter c \<or> is_digit c"

text \<open>\<open>/^[A-Za-z][A-Za-z0-9]*Error$/\<close>\<close>

definition error_class_name :: "string \<Rightarrow> bool" where
  "error_class_name s \<longleftrightarrow> length s > 5 \<and> drop (length s - 5) s = ''Error'' \<and> is_letter (hd s) \<and>
     list_all is_alphanumeric (take (length s - 5) s)"

definition classify_error :: "(string \<Rightarrow> string option) \<Rightarrow> js_error \<Rightarrow> string" where
  "classify_error foreignName e = (case error_name foreignName e of
     None \<Rightarrow> ''NonErrorThrown''
   | Some n \<Rightarrow> if error_class_name n then n else ''Error'')"

definition emit_diagnostic :: "'e diagnostic_sink \<Rightarrow> otel_diagnostic \<Rightarrow> ('e, unit) io" where
  "emit_diagnostic sink diagnostic = catch_io (sink diagnostic) (\<lambda>_. ret ())"

definition emit_if_sink :: "'e diagnostic_sink option \<Rightarrow> otel_diagnostic \<Rightarrow> ('e, unit) io" where
  "emit_if_sink sink diagnostic = (case sink of Some f \<Rightarrow> emit_diagnostic f diagnostic | None \<Rightarrow> ret ())"

section \<open>Shutdown\<close>

text \<open>
  \<open>Promise.race\<close> of the shutdown with a timer that was set before it: what settles first,
  and when. Nothing stands for the timeout.
\<close>

fun race_timeout :: "int \<Rightarrow> (int \<times> shutdown_settlement) option \<Rightarrow> int \<times> shutdown_settlement option" where
  "race_timeout timeoutMs None = (timeoutMs, None)"
| "race_timeout timeoutMs (Some (delay, settlement)) =
    (if delay < timeoutMs then (delay, Some settlement) else (timeoutMs, None))"

text \<open>
  The promise of a shutdown, as the delay after which it resolves; it never rejects. What the
  code does after its \<open>await\<close> is done here at once. A synchronous throw of the SDK is a
  rejection, because the call is inside an asynchronous function.
\<close>

fun after_race :: "(string \<Rightarrow> string option) \<Rightarrow> 'e diagnostic_sink option \<Rightarrow>
    int \<times> shutdown_settlement option \<Rightarrow> ('e, int) io" where
  "after_race foreignName diagnosticSink (delay, None) =
    then_io (emit_if_sink diagnosticSink \<lparr>od_event = Shutdown_Failed, od_error_type = ''TimeoutError'',
      od_failure_kind = Kind_Timeout\<rparr>) (ret delay)"
| "after_race foreignName diagnosticSink (delay, Some Completed) = ret delay"
| "after_race foreignName diagnosticSink (delay, Some (Rejection e)) =
    then_io (emit_if_sink diagnosticSink \<lparr>od_event = Shutdown_Failed,
      od_error_type = classify_error foreignName e, od_failure_kind = Kind_Rejection\<rparr>) (ret delay)"

definition shut_down_sdk :: "(string \<Rightarrow> string option) \<Rightarrow> 'e otel_sdk \<Rightarrow> int \<Rightarrow> 'e diagnostic_sink option \<Rightarrow>
    ('e, int) io" where
  "shut_down_sdk foreignName sdk timeoutMs diagnosticSink =
    bind_io (catch_io (sdk_shutdown sdk) (\<lambda>e. ret (Some (0, Rejection e)))) (\<lambda>shutdownResult.
      after_race foreignName diagnosticSink (race_timeout timeoutMs shutdownResult))"

section \<open>Start\<close>

text \<open>The lifecycle that is returned; its state is \<open>shutdownPromise\<close>.\<close>

record 'e otel_lifecycle =
  ol_sdk :: "'e otel_sdk"
  ol_timeoutMs :: int
  ol_sink :: "'e diagnostic_sink"

definition start_open_telemetry :: "(string \<Rightarrow> string option) \<Rightarrow> 'e start_otel_options \<Rightarrow>
    ('e, 'e otel_lifecycle option) io" where
  "start_open_telemetry foreignName options =
    (if \<not> so_enabled options then ret None
     else
       let timeoutMs = (case so_shutdownTimeoutMs options of Some ms \<Rightarrow> ms | None \<Rightarrow> default_shutdown_timeout_ms);
           failed = (\<lambda>e. emit_diagnostic (so_diagnosticSink options) \<lparr>od_event = Bootstrap_Failed,
             od_error_type = classify_error foreignName e, od_failure_kind = Kind_Exception\<rparr>)
       in catch_io
            (bind_io (so_createSdk options) (\<lambda>sdk.
              catch_io
                (then_io (sdk_start sdk)
                  (ret (Some \<lparr>ol_sdk = sdk, ol_timeoutMs = timeoutMs, ol_sink = so_diagnosticSink options\<rparr>)))
                (\<lambda>e. then_io (failed e) (then_io (shut_down_sdk foreignName sdk timeoutMs None) (ret None)))))
            (\<lambda>e. then_io (failed e) (ret None)))"

definition lifecycle_shutdown :: "(string \<Rightarrow> string option) \<Rightarrow> 'e otel_lifecycle \<Rightarrow> (int option \<times> 'e, int) io" where
  "lifecycle_shutdown foreignName L =
    bind_io (on_db (gets (\<lambda>p. p))) (\<lambda>shutdownPromise. case shutdownPromise of
      Some delay \<Rightarrow> ret delay
    | None \<Rightarrow> bind_io (on_env (shut_down_sdk foreignName (ol_sdk L) (ol_timeoutMs L) (Some (ol_sink L)))) (\<lambda>delay.
        then_io (on_db (modify (\<lambda>_. Some delay))) (ret delay)))"

section \<open>Bootstrap\<close>

text \<open>What \<open>instrumentation.ts\<close> reads from the environment.\<close>

definition observability_enabled :: "(string \<Rightarrow> string option) \<Rightarrow> bool" where
  "observability_enabled env \<longleftrightarrow> env ''OBSERVABILITY_ENABLED'' \<noteq> Some ''false'' \<and> env ''NODE_ENV'' \<noteq> Some ''test''"

definition otel_service_name :: "(string \<Rightarrow> string option) \<Rightarrow> string" where
  "otel_service_name env = (case env ''OTEL_SERVICE_NAME'' of Some n \<Rightarrow> n | None \<Rightarrow> ''movie-reservation-service'')"

definition otel_service_version :: "string \<Rightarrow> (string \<Rightarrow> string option) \<Rightarrow> string" where
  "otel_service_version packageVersion env = (case env ''SERVICE_VERSION'' of Some v \<Rightarrow> v | None \<Rightarrow> packageVersion)"

fun event_text :: "otel_event \<Rightarrow> string" where
  "event_text Bootstrap_Failed = ''otel.bootstrap.failed''"
| "event_text Shutdown_Failed = ''otel.shutdown.failed''"

fun kind_text :: "failure_kind \<Rightarrow> string" where
  "kind_text Kind_Exception = ''exception''"
| "kind_text Kind_Rejection = ''rejection''"
| "kind_text Kind_Timeout = ''timeout''"

text \<open>
  The line written to standard error. No value in it needs an escape in JSON: the sink is given
  classified errors only.
\<close>

definition json_member :: "string \<Rightarrow> string \<Rightarrow> string" where
  "json_member key text = ''\"'' @ key @ ''\":\"'' @ text @ ''\"''"

definition write_open_telemetry_diagnostic :: "(string \<Rightarrow> ('e, unit) io) \<Rightarrow> 'e diagnostic_sink" where
  "write_open_telemetry_diagnostic stderr d = stderr (''{'' @ json_member ''level'' ''warn'' @ '','' @
     json_member ''event'' (event_text (od_event d)) @ '','' @ json_member ''error_type'' (od_error_type d) @ '','' @
     json_member ''failure_kind'' (kind_text (od_failure_kind d)) @ ''}'' @ [CHR 0x0A])"

datatype process_signal = SIGTERM | SIGINT

text \<open>Starting the process, then the signals it is sent.\<close>

definition start_instrumentation :: "(string \<Rightarrow> string option) \<Rightarrow> (string \<Rightarrow> string option) \<Rightarrow> ('e, 'e otel_sdk) io \<Rightarrow>
    (string \<Rightarrow> ('e, unit) io) \<Rightarrow> ('e, 'e otel_lifecycle option) io" where
  "start_instrumentation foreignName env createSdk stderr = start_open_telemetry foreignName
     \<lparr>so_enabled = observability_enabled env, so_createSdk = createSdk,
      so_diagnosticSink = write_open_telemetry_diagnostic stderr, so_shutdownTimeoutMs = None\<rparr>"

definition on_signal :: "(string \<Rightarrow> string option) \<Rightarrow> 'e otel_lifecycle option \<Rightarrow> process_signal \<Rightarrow>
    (int option \<times> 'e, unit) io" where
  "on_signal foreignName telemetry signal = (case telemetry of
     None \<Rightarrow> ret () | Some L \<Rightarrow> then_io (lifecycle_shutdown foreignName L) (ret ()))"

section \<open>Facts\<close>

definition classified :: "string \<Rightarrow> bool" where
  "classified s \<longleftrightarrow> s \<in> {''NonErrorThrown'', ''TimeoutError'', ''Error''} \<or> error_class_name s"

lemma classify_error_classified [simp]: "classified (classify_error foreignName e)"
  by (auto simp: classify_error_def classified_def split: option.split)

lemma timeout_classified [simp]: "classified ''TimeoutError''"
  by (simp add: classified_def)

text \<open>A sink that refuses what is not classified.\<close>

definition guard_sink :: "'e diagnostic_sink \<Rightarrow> 'e diagnostic_sink" where
  "guard_sink sink d = (if classified (od_error_type d) then sink d else throw (Error ''unclassified diagnostic''))"

lemma emit_guarded:
  assumes "classified (od_error_type d)"
  shows "emit_diagnostic (guard_sink sink) d = emit_diagnostic sink d"
    "emit_if_sink (Some (guard_sink sink)) d = emit_if_sink (Some sink) d"
  using assms by (simp_all add: emit_diagnostic_def emit_if_sink_def guard_sink_def)

lemma catch_returns: "(\<And>x u. \<exists>y v. h x u = (Inr y, v)) \<Longrightarrow> \<exists>y v. catch_io m h w = (Inr y, v)"
  by (cases "m w"; cases "fst (m w)") (auto simp: catch_io_def)

lemma emit_returns: "\<exists>e'. emit_diagnostic sink d e = (Inr (), e')" "\<exists>e'. emit_if_sink s d e = (Inr (), e')"
proof -
  show emit: "\<exists>e'. emit_diagnostic sink d e = (Inr (), e')" for sink e
    using catch_returns [of "\<lambda>_. ret ()" "sink d" e] by (simp add: emit_diagnostic_def)
  show "\<exists>e'. emit_if_sink s d e = (Inr (), e')"
    by (cases s) (simp_all add: emit_if_sink_def emit)
qed

lemma race_bounded: "fst (race_timeout timeoutMs p) \<le> timeoutMs"
  by (cases "(timeoutMs, p)" rule: race_timeout.cases) auto

lemma then_ret: "\<exists>e'. m e = (Inr (), e') \<Longrightarrow> \<exists>e'. then_io m (ret x) e = (Inr x, e')"
  by (auto simp: bind_io_def)

lemma after_race_guarded: "after_race foreignName (Some (guard_sink sink)) r = after_race foreignName (Some sink) r"
  by (cases "(foreignName, Some sink, r)" rule: after_race.cases) (simp_all add: emit_guarded)

lemma after_race_returns: "\<exists>e'. after_race foreignName sink r e = (Inr (fst r), e')"
proof (cases "(foreignName, sink, r)" rule: after_race.cases)
  case (1 f s d)
  then show ?thesis using then_ret [OF emit_returns(2)] by (simp del: then_bind)
next
  case (3 f s d x)
  then show ?thesis using then_ret [OF emit_returns(2)] by (simp del: then_bind)
qed simp

lemma shut_down_guarded:
  "shut_down_sdk foreignName sdk timeoutMs (Some (guard_sink sink)) = shut_down_sdk foreignName sdk timeoutMs (Some sink)"
  by (simp add: shut_down_sdk_def after_race_guarded)

lemma shut_down_returns:
  obtains d e' where "shut_down_sdk foreignName sdk timeoutMs sink e = (Inr d, e')" "d \<le> timeoutMs"
proof -
  obtain p e1 where p: "catch_io (sdk_shutdown sdk) (\<lambda>e. ret (Some (0, Rejection e))) e = (Inr p, e1)"
    using catch_returns [of "\<lambda>e. ret (Some (0, Rejection e))" "sdk_shutdown sdk" e] by auto
  obtain e2 where "after_race foreignName sink (race_timeout timeoutMs p) e1 = (Inr (fst (race_timeout timeoutMs p)), e2)"
    using after_race_returns [of foreignName sink "race_timeout timeoutMs p" e1] by blast
  then show ?thesis using p race_bounded [of timeoutMs p] by (intro that) (simp_all add: shut_down_sdk_def bind_io_def)
qed

lemma failed_returns: "\<exists>y v. then_io (emit_diagnostic f d) (ret None) u = (Inr y, v)"
  by (rule exI [of _ None], rule then_ret, rule emit_returns(1))

lemma start_returns: "\<exists>r e'. start_open_telemetry foreignName options e = (Inr r, e')"
  unfolding start_open_telemetry_def Let_def
  by (cases "so_enabled options", simp_all only: not_True_eq_False not_False_eq_True if_True if_False)
    (rule catch_returns failed_returns | simp)+

text \<open>An SDK that fails to start is shut down, without a second diagnostic.\<close>

lemma failed_start_is_cleaned_up:
  assumes "so_enabled options" "so_createSdk options e = (Inr sdk, e1)" "sdk_start sdk e1 = (Inl x, e2)"
    and "emit_diagnostic (so_diagnosticSink options) \<lparr>od_event = Bootstrap_Failed,
      od_error_type = classify_error foreignName x, od_failure_kind = Kind_Exception\<rparr> e2 = (Inr (), e3)"
  shows "start_open_telemetry foreignName options e = (Inr None, snd (shut_down_sdk foreignName sdk
      (case so_shutdownTimeoutMs options of Some ms \<Rightarrow> ms | None \<Rightarrow> default_shutdown_timeout_ms) None e3))"
proof -
  obtain d e4 where "shut_down_sdk foreignName sdk
      (case so_shutdownTimeoutMs options of Some ms \<Rightarrow> ms | None \<Rightarrow> default_shutdown_timeout_ms) None e3 = (Inr d, e4)"
    by (rule shut_down_returns)
  then show ?thesis using assms by (simp add: start_open_telemetry_def Let_def catch_io_def bind_io_def)
qed

lemma start_guarded:
  "snd (start_open_telemetry foreignName (options\<lparr>so_diagnosticSink := guard_sink (so_diagnosticSink options)\<rparr>) e) =
   snd (start_open_telemetry foreignName options e)"
  by (simp add: start_open_telemetry_def Let_def emit_guarded catch_io_def bind_io_def split: prod.split sum.split)

lemma first_shutdown:
  "\<exists>d e'. lifecycle_shutdown foreignName L (None, e) = (Inr d, (Some d, e')) \<and> d \<le> ol_timeoutMs L"
proof -
  obtain d e' where "shut_down_sdk foreignName (ol_sdk L) (ol_timeoutMs L) (Some (ol_sink L)) e = (Inr d, e')" "d \<le> ol_timeoutMs L"
    by (rule shut_down_returns)
  then show ?thesis by (simp add: lifecycle_shutdown_def bind_io_def on_db_app on_env_app)
qed

lemma later_shutdown: "lifecycle_shutdown foreignName L (Some d, e) = (Inr d, (Some d, e))"
  by (simp add: lifecycle_shutdown_def bind_io_def on_db_app)

section \<open>The property\<close>

text \<open>C38: telemetry never decides over the service. Whatever the SDK and the sink of diagnostics throw,
  starting returns, with nothing touched when it is disabled; the promise of a shutdown resolves
  within the timeout, whether the SDK resolves, rejects, throws or never settles, and every later
  shutdown returns the same promise and does nothing. The sink sees classified errors only: it all
  behaves as with a sink that refuses anything else.\<close>

theorem telemetry_never_decides:
  "(\<exists>r e'. start_open_telemetry foreignName options e = (Inr r, e')) \<and>
   start_open_telemetry foreignName (options\<lparr>so_enabled := False\<rparr>) e = (Inr None, e) \<and>
   (\<exists>d e'. lifecycle_shutdown foreignName L (None, e) = (Inr d, (Some d, e')) \<and> d \<le> ol_timeoutMs L \<and>
      lifecycle_shutdown foreignName L (Some d, e2) = (Inr d, (Some d, e2))) \<and>
   snd (start_open_telemetry foreignName (options\<lparr>so_diagnosticSink := guard_sink (so_diagnosticSink options)\<rparr>) e) =
     snd (start_open_telemetry foreignName options e) \<and>
   lifecycle_shutdown foreignName (L\<lparr>ol_sink := guard_sink (ol_sink L)\<rparr>) = lifecycle_shutdown foreignName L"
proof (intro conjI)
  show "start_open_telemetry foreignName (options\<lparr>so_enabled := False\<rparr>) e = (Inr None, e)"
    by (simp add: start_open_telemetry_def)
  show "\<exists>d e'. lifecycle_shutdown foreignName L (None, e) = (Inr d, (Some d, e')) \<and> d \<le> ol_timeoutMs L \<and>
      lifecycle_shutdown foreignName L (Some d, e2) = (Inr d, (Some d, e2))"
    using first_shutdown [of foreignName L e] later_shutdown [of foreignName L] by blast
  show "lifecycle_shutdown foreignName (L\<lparr>ol_sink := guard_sink (ol_sink L)\<rparr>) = lifecycle_shutdown foreignName L"
    by (simp add: lifecycle_shutdown_def shut_down_guarded cong: option.case_cong)
qed (rule start_returns start_guarded)+

end
