(* ===== verification/Worker.thy ===== *)
theory Worker
  imports Processor Service Complex_Main "HOL-Library.Word"
begin

text \<open>
  The in-process reservation worker
  (\<open>di/movie-reservations/fake-reservation-request-worker.service.ts\<close>): its timers, the pass in
  flight and the heartbeats, as a step relation whose labels are the callbacks of the event loop;
  and the failure-simulation policy
  (\<open>infrastructure/movie-reservations/stable-random-reservation-processing-failure-policy.ts\<close>).
\<close>

section \<open>State\<close>

text \<open>
  A pass is one call of \<open>processOneWorkItem\<close>, numbered. \<open>Running p\<close>: the processor has
  not settled; \<open>Settled p\<close>: it has, and the \<open>finally\<close> of the poll has not run yet.
\<close>

datatype in_flight = Running nat | Settled nat

text \<open>
  \<open>wk_pollTimer\<close>: a poll is scheduled. \<open>wk_heartbeatTimer\<close>: the pass whose interval is
  running. \<open>wk_claimedWorkItem\<close>: the local variable of the pass in flight.
  \<open>wk_heartbeats\<close>: the heartbeat calls that have not resolved, with their pass.
  \<open>wk_unhandled\<close>: rejections nothing handles.
\<close>

record worker_state =
  wk_pollTimer :: bool
  wk_heartbeatTimer :: "nat option"
  wk_stopping :: bool
  wk_inFlight :: "in_flight option"
  wk_claimedWorkItem :: "claimed_reservation_request option"
  wk_heartbeats :: "(nat \<times> claimed_reservation_request) list"
  wk_unhandled :: "js_error list"
  wk_passes :: nat

definition new_worker :: worker_state where
  "new_worker = \<lparr>wk_pollTimer = False, wk_heartbeatTimer = None, wk_stopping = False, wk_inFlight = None,
     wk_claimedWorkItem = None, wk_heartbeats = [], wk_unhandled = [], wk_passes = 0\<rparr>"

section \<open>Methods\<close>

definition clear_poll_timer :: "worker_state \<Rightarrow> worker_state" where
  "clear_poll_timer s = s\<lparr>wk_pollTimer := False\<rparr>"

definition clear_heartbeat_timer :: "worker_state \<Rightarrow> worker_state" where
  "clear_heartbeat_timer s = s\<lparr>wk_heartbeatTimer := None\<rparr>"

definition schedule_next_poll :: "worker_state \<Rightarrow> worker_state" where
  "schedule_next_poll s = (if wk_stopping s then s else s\<lparr>wk_pollTimer := True\<rparr>)"

definition on_application_bootstrap :: "worker_state \<Rightarrow> worker_state" where
  "on_application_bootstrap s = schedule_next_poll s"

text \<open>The synchronous part of the shutdown; it then waits for the pass in flight.\<close>

definition on_application_shutdown :: "worker_state \<Rightarrow> worker_state" where
  "on_application_shutdown s = clear_heartbeat_timer (clear_poll_timer (s\<lparr>wk_stopping := True\<rparr>))"

text \<open>The poll timer fires: \<open>processOneWorkItem\<close> runs up to its first \<open>await\<close>.\<close>

definition poll_fires :: "worker_state \<Rightarrow> worker_state" where
  "poll_fires s = s\<lparr>wk_pollTimer := False, wk_heartbeatTimer := Some (wk_passes s),
     wk_inFlight := Some (Running (wk_passes s)), wk_claimedWorkItem := None, wk_passes := Suc (wk_passes s)\<rparr>"

definition on_claimed :: "claimed_reservation_request \<Rightarrow> worker_state \<Rightarrow> worker_state" where
  "on_claimed workItem s = s\<lparr>wk_claimedWorkItem := Some workItem\<rparr>"

text \<open>The interval of pass \<open>p\<close> ticks.\<close>

definition heartbeat_tick :: "nat \<Rightarrow> worker_state \<Rightarrow> worker_state" where
  "heartbeat_tick p s =
    (case wk_claimedWorkItem s of None \<Rightarrow> s
     | Some workItem \<Rightarrow> s\<lparr>wk_heartbeats := wk_heartbeats s @ [(p, workItem)]\<rparr>)"

text \<open>The \<open>finally\<close> of \<open>processOneWorkItem\<close>, and then the \<open>finally\<close> of the poll.\<close>

definition processing_settles :: "nat \<Rightarrow> worker_state \<Rightarrow> worker_state" where
  "processing_settles p s = clear_heartbeat_timer (s\<lparr>wk_inFlight := Some (Settled p)\<rparr>)"

definition poll_finishes :: "worker_state \<Rightarrow> worker_state" where
  "poll_finishes s = schedule_next_poll (s\<lparr>wk_inFlight := None\<rparr>)"

text \<open>A heartbeat call resolves, or rejects: \<open>void this.heartbeat(...)\<close> handles no rejection.\<close>

definition heartbeat_returns :: "nat \<Rightarrow> bool \<Rightarrow> worker_state \<Rightarrow> worker_state" where
  "heartbeat_returns i renewed s =
    (let s' = s\<lparr>wk_heartbeats := take i (wk_heartbeats s) @ drop (Suc i) (wk_heartbeats s)\<rparr> in
     if \<not> renewed then clear_heartbeat_timer s' else s')"

definition heartbeat_rejects :: "nat \<Rightarrow> js_error \<Rightarrow> worker_state \<Rightarrow> worker_state" where
  "heartbeat_rejects i e s =
    s\<lparr>wk_heartbeats := take i (wk_heartbeats s) @ drop (Suc i) (wk_heartbeats s), wk_unhandled := wk_unhandled s @ [e]\<rparr>"

text \<open>What one heartbeat asks of the repository.\<close>

definition worker_heartbeat :: "'s work_repository_ops \<Rightarrow> 'e environment \<Rightarrow> int \<Rightarrow> claimed_reservation_request \<Rightarrow>
    ('s \<times> 'e, bool) io" where
  "worker_heartbeat R E claimLeaseMs claimedWorkItem =
    bind_io (on_env (en_nowIsoString E)) (\<lambda>heartbeatAt.
    bind_io (lift (add_milliseconds heartbeatAt claimLeaseMs)) (\<lambda>claimExpiresAt.
    on_db (wr_heartbeat R \<lparr>hb_claimedWorkItem = claimedWorkItem, hb_heartbeatAt = heartbeatAt,
      hb_claimExpiresAt = claimExpiresAt\<rparr>)))"

section \<open>The event loop\<close>

datatype worker_event =
    Bootstrap
  | Shutdown
  | Poll_Fires
  | Claims claimed_reservation_request
  | Heartbeat_Tick nat
  | Heartbeat_Returns nat bool
  | Heartbeat_Rejects nat js_error
  | Processing_Settles nat
  | Poll_Finishes

text \<open>Nest calls the bootstrap hook once, before anything else of the worker happens.\<close>

inductive worker_step :: "worker_state \<Rightarrow> worker_event \<Rightarrow> worker_state \<Rightarrow> bool" where
  shutdown: "worker_step s Shutdown (on_application_shutdown s)"
| poll: "wk_pollTimer s \<Longrightarrow> worker_step s Poll_Fires (poll_fires s)"
| claims: "wk_inFlight s = Some (Running p) \<Longrightarrow> worker_step s (Claims item) (on_claimed item s)"
| tick: "wk_heartbeatTimer s = Some p \<Longrightarrow> worker_step s (Heartbeat_Tick p) (heartbeat_tick p s)"
| returns: "i < length (wk_heartbeats s) \<Longrightarrow> worker_step s (Heartbeat_Returns i renewed) (heartbeat_returns i renewed s)"
| rejects: "i < length (wk_heartbeats s) \<Longrightarrow> worker_step s (Heartbeat_Rejects i e) (heartbeat_rejects i e s)"
| settles: "wk_inFlight s = Some (Running p) \<Longrightarrow> worker_step s (Processing_Settles p) (processing_settles p s)"
| finishes: "wk_inFlight s = Some (Settled p) \<Longrightarrow> worker_step s Poll_Finishes (poll_finishes s)"

inductive_cases worker_stepE: "worker_step s ev s'"
inductive_simps poll_step_iff: "worker_step s Poll_Fires s'"

inductive worker_runs :: "worker_event list \<Rightarrow> worker_state \<Rightarrow> bool" where
  boot: "worker_runs [Bootstrap] (on_application_bootstrap new_worker)"
| step: "worker_runs evs s \<Longrightarrow> worker_step s ev s' \<Longrightarrow> worker_runs (evs @ [ev]) s'"

section \<open>Facts\<close>

lemmas worker_defs = on_application_shutdown_def clear_heartbeat_timer_def clear_poll_timer_def poll_fires_def
  on_claimed_def heartbeat_tick_def heartbeat_returns_def heartbeat_rejects_def processing_settles_def
  poll_finishes_def schedule_next_poll_def

text \<open>
  The invariant: a poll is scheduled or a pass is in flight, never both, and one of them unless
  the worker is stopping; an interval runs only for the pass that is still running, and not once
  the worker is stopping.
\<close>

definition worker_inv :: "worker_state \<Rightarrow> bool" where
  "worker_inv s \<longleftrightarrow>
     (if wk_stopping s then \<not> wk_pollTimer s \<and> wk_heartbeatTimer s = None
      else wk_pollTimer s \<longleftrightarrow> wk_inFlight s = None) \<and>
     (\<forall>p. wk_heartbeatTimer s = Some p \<longrightarrow> wk_inFlight s = Some (Running p)) \<and>
     (\<forall>p. wk_inFlight s = Some (Running p) \<or> wk_inFlight s = Some (Settled p) \<longrightarrow> Suc p = wk_passes s)"

lemma worker_step_inv:
  assumes "worker_step s ev s'" "worker_inv s"
  shows "worker_inv s'"
  using assms by (cases rule: worker_step.cases) (auto simp: worker_inv_def worker_defs Let_def split: option.splits)

lemma worker_runs_inv: "worker_runs evs s \<Longrightarrow> worker_inv s"
proof (induction rule: worker_runs.induct)
  case boot
  show ?case by (simp add: worker_inv_def on_application_bootstrap_def schedule_next_poll_def new_worker_def)
qed (rule worker_step_inv)

lemma worker_step_stopping:
  assumes "worker_step s ev s'" "wk_stopping s" "worker_inv s"
  shows "wk_stopping s' \<and> wk_passes s' = wk_passes s \<and> ev \<noteq> Poll_Fires \<and> (\<forall>p. ev \<noteq> Heartbeat_Tick p)"
  using assms by (cases rule: worker_step.cases) (auto simp: worker_inv_def worker_defs Let_def split: option.splits)

lemma worker_step_counts:
  assumes "worker_step s ev s'" "worker_inv s"
  shows "(if ev = Poll_Fires then 1 else 0) + (if wk_inFlight s = None then 0 else 1) =
    (if ev = Poll_Finishes then 1 else 0) + (if wk_inFlight s' = None then 0 else (1 :: nat))"
  using assms by (cases rule: worker_step.cases) (auto simp: worker_inv_def worker_defs Let_def split: option.splits if_splits)

lemma worker_pass_counts:
  "worker_runs evs s \<Longrightarrow>
    count_list evs Poll_Fires = count_list evs Poll_Finishes + (if wk_inFlight s = None then 0 else 1)"
proof (induction rule: worker_runs.induct)
  case boot
  show ?case by (simp add: on_application_bootstrap_def schedule_next_poll_def new_worker_def)
next
  case (step evs s ev s')
  then show ?case using worker_step_counts [OF step.hyps(2) worker_runs_inv [OF step.hyps(1)]]
    by (auto simp: count_list_append split: if_splits)
qed

lemma worker_after_shutdown:
  "worker_runs evs s \<Longrightarrow> evs = pre @ Shutdown # post \<Longrightarrow>
    wk_stopping s \<and> Poll_Fires \<notin> set post \<and> (\<forall>p. Heartbeat_Tick p \<notin> set post)"
proof (induction arbitrary: post rule: worker_runs.induct)
  case boot
  then show ?case by (cases pre) auto
next
  case (step evs s ev s')
  note s = worker_runs_inv [OF step.hyps(1)]
  show ?case
  proof (cases post rule: rev_cases)
    case Nil
    then have "ev = Shutdown" using step.prems by simp
    then have "wk_stopping s'" using step.hyps(2) by (auto elim: worker_stepE simp: worker_defs)
    with Nil show ?thesis by simp
  next
    case (snoc post' ev')
    then have "evs = pre @ Shutdown # post'" "ev' = ev" using step.prems by simp_all
    then show ?thesis using step.IH [of post'] worker_step_stopping [OF step.hyps(2) _ s] snoc by auto
  qed
qed

lemma worker_progress:
  assumes "worker_inv s" "\<not> wk_stopping s"
  shows "\<exists>ev s'. worker_step s ev s' \<and>
    (ev = Poll_Fires \<or> ev = Poll_Finishes \<or> (\<exists>p. ev = Processing_Settles p))"
proof (cases "wk_inFlight s")
  case None
  then show ?thesis using assms by (auto simp: worker_inv_def intro: worker_step.poll)
next
  case (Some f)
  then show ?thesis by (cases f) (auto intro: worker_step.settles worker_step.finishes)
qed

section \<open>Properties\<close>

text \<open>C31: the worker loop neither overlaps nor stalls. In every run of the event loop there is at most one
  pass in flight: as many passes have finished as were started, but for the one in flight. While
  the worker is not stopping, either the next poll is scheduled or a pass is in flight, so it can
  always go on; and from the shutdown hook on no pass starts and no heartbeat is sent.\<close>

theorem worker_loop_is_sound:
  assumes "worker_runs evs s"
  shows "count_list evs Poll_Fires = count_list evs Poll_Finishes + (if wk_inFlight s = None then 0 else 1) \<and>
    (\<not> wk_stopping s \<longrightarrow> (wk_pollTimer s \<longleftrightarrow> wk_inFlight s = None) \<and>
      (\<exists>ev s'. worker_step s ev s' \<and> (ev = Poll_Fires \<or> ev = Poll_Finishes \<or> (\<exists>p. ev = Processing_Settles p)))) \<and>
    (\<forall>pre post. evs = pre @ Shutdown # post \<longrightarrow>
      wk_stopping s \<and> Poll_Fires \<notin> set post \<and> (\<forall>p. Heartbeat_Tick p \<notin> set post))"
proof (intro conjI impI)
  note s = worker_runs_inv [OF assms]
  show "count_list evs Poll_Fires = count_list evs Poll_Finishes + (if wk_inFlight s = None then 0 else 1)"
    by (rule worker_pass_counts [OF assms])
  show "wk_pollTimer s \<longleftrightarrow> wk_inFlight s = None" if "\<not> wk_stopping s"
    using s that by (simp add: worker_inv_def)
  show "\<exists>ev s'. worker_step s ev s' \<and> (ev = Poll_Fires \<or> ev = Poll_Finishes \<or> (\<exists>p. ev = Processing_Settles p))"
    if "\<not> wk_stopping s"
    using s that by (rule worker_progress)
  show "\<forall>pre post. evs = pre @ Shutdown # post \<longrightarrow>
      wk_stopping s \<and> Poll_Fires \<notin> set post \<and> (\<forall>p. Heartbeat_Tick p \<notin> set post)"
    by (intro allI impI worker_after_shutdown [OF assms])
qed

definition sample_claim :: "string \<Rightarrow> claimed_reservation_request" where
  "sample_claim token = \<lparr>cl_reservationRequest = \<lparr>rr_id = token, rr_movieProviderId = [], rr_screeningId = [],
     rr_seatIds = [], rr_requestedByUserId = [], rr_status = PROCESSING\<rparr>, cl_observabilityContext = None,
     cl_sequence = 1, cl_claimedBy = ''worker'', cl_claimToken = token, cl_claimedAt = [], cl_claimExpiresAt = [],
     cl_leaseTimeoutCount = 0, cl_transientFailureCount = 0\<rparr>"

lemma stale_run:
  "worker_runs [Bootstrap, Poll_Fires, Claims a, Heartbeat_Tick 0, Processing_Settles 0, Poll_Finishes, Poll_Fires,
      Claims b, Heartbeat_Returns 0 False]
    \<lparr>wk_pollTimer = False, wk_heartbeatTimer = None, wk_stopping = False, wk_inFlight = Some (Running 1),
     wk_claimedWorkItem = Some b, wk_heartbeats = [], wk_unhandled = [], wk_passes = 2\<rparr>"
proof -
  let ?s = "\<lambda>t h f c q n. \<lparr>wk_pollTimer = t, wk_heartbeatTimer = h, wk_stopping = False, wk_inFlight = f,
     wk_claimedWorkItem = c, wk_heartbeats = q, wk_unhandled = [], wk_passes = n\<rparr>"
  have step: "worker_runs (evs @ [ev]) s'" if "worker_runs evs s" "worker_step s ev t" "s' = t" for evs ev s s' t
    using that by (simp add: worker_runs.step)
  have "worker_runs [Bootstrap] (?s True None None None [] 0)"
    using worker_runs.boot by (simp add: on_application_bootstrap_def schedule_next_poll_def new_worker_def)
  from step [OF this worker_step.poll refl]
  have "worker_runs [Bootstrap, Poll_Fires] (?s False (Some 0) (Some (Running 0)) None [] 1)"
    by (simp add: worker_defs)
  from step [OF this worker_step.claims [of _ 0 a] refl]
  have "worker_runs [Bootstrap, Poll_Fires, Claims a] (?s False (Some 0) (Some (Running 0)) (Some a) [] 1)"
    by (simp add: worker_defs)
  from step [OF this worker_step.tick [of _ 0] refl]
  have "worker_runs [Bootstrap, Poll_Fires, Claims a, Heartbeat_Tick 0]
      (?s False (Some 0) (Some (Running 0)) (Some a) [(0, a)] 1)"
    by (simp add: worker_defs)
  from step [OF this worker_step.settles [of _ 0] refl]
  have "worker_runs [Bootstrap, Poll_Fires, Claims a, Heartbeat_Tick 0, Processing_Settles 0]
      (?s False None (Some (Settled 0)) (Some a) [(0, a)] 1)"
    by (simp add: worker_defs)
  from step [OF this worker_step.finishes [of _ 0] refl]
  have "worker_runs [Bootstrap, Poll_Fires, Claims a, Heartbeat_Tick 0, Processing_Settles 0, Poll_Finishes]
      (?s True None None (Some a) [(0, a)] 1)"
    by (simp add: worker_defs)
  from step [OF this worker_step.poll refl]
  have "worker_runs [Bootstrap, Poll_Fires, Claims a, Heartbeat_Tick 0, Processing_Settles 0, Poll_Finishes, Poll_Fires]
      (?s False (Some 1) (Some (Running 1)) None [(0, a)] 2)"
    by (simp add: worker_defs numeral_2_eq_2)
  from step [OF this worker_step.claims [of _ 1 b] refl]
  have "worker_runs [Bootstrap, Poll_Fires, Claims a, Heartbeat_Tick 0, Processing_Settles 0, Poll_Finishes, Poll_Fires,
      Claims b] (?s False (Some 1) (Some (Running 1)) (Some b) [(0, a)] 2)"
    by (simp add: worker_defs)
  from step [OF this worker_step.returns [of 0 _ False] refl]
  show ?thesis by (simp add: worker_defs Let_def)
qed

theorem worker_loop_is_sound_witness:
  "count_list [Bootstrap, Poll_Fires, Claims (sample_claim ''a''), Heartbeat_Tick 0, Processing_Settles 0, Poll_Finishes,
      Poll_Fires, Claims (sample_claim ''b''), Heartbeat_Returns 0 False] Poll_Fires =
    count_list [Bootstrap, Poll_Fires, Claims (sample_claim ''a''), Heartbeat_Tick 0, Processing_Settles 0, Poll_Finishes,
      Poll_Fires, Claims (sample_claim ''b''), Heartbeat_Returns 0 False] Poll_Finishes + 1"
  using worker_loop_is_sound [OF stale_run [of "sample_claim ''a''" "sample_claim ''b''"]] by simp


section \<open>Failure simulation\<close>

text \<open>
  \<open>firstWord\<close> is the first 32-bit word, big-endian, of the SHA-256 digest of a text.
\<close>

record failure_policy_options =
  fp_failureRate :: rat
  fp_salt :: string

definition new_stable_random_policy :: "failure_policy_options \<Rightarrow> js_error + failure_policy_options" where
  "new_stable_random_policy options =
    (if fp_failureRate options < 0 \<or> fp_failureRate options > 1
     then Inl (Error ''failureRate must be between 0 and 1'')
     else if length (fp_salt options) = 0 then Inl (Error ''salt cannot be empty'') else Inr options)"

definition create_stable_score :: "(string \<Rightarrow> 32 word) \<Rightarrow> string \<Rightarrow> id \<Rightarrow> rat" where
  "create_stable_score firstWord salt reservationRequestId =
    of_nat (unat (firstWord (salt @ '':'' @ reservationRequestId))) / 4294967296"

definition should_fail_reservation_processing ::
  "(string \<Rightarrow> 32 word) \<Rightarrow> failure_policy_options \<Rightarrow> id \<Rightarrow> bool" where
  "should_fail_reservation_processing firstWord options reservationRequestId \<longleftrightarrow>
     create_stable_score firstWord (fp_salt options) reservationRequestId < fp_failureRate options"

lemma stable_score_bounds: "0 \<le> create_stable_score firstWord salt i \<and> create_stable_score firstWord salt i < 1"
proof -
  have "unat (firstWord (salt @ '':'' @ i)) < 2 ^ 32" using unsigned_less [of "firstWord (salt @ '':'' @ i)"] by simp
  then have "(of_nat (unat (firstWord (salt @ '':'' @ i))) :: rat) < of_nat (2 ^ 32)" by (simp only: of_nat_less_iff)
  then have "(of_nat (unat (firstWord (salt @ '':'' @ i))) :: rat) < 4294967296" by simp
  moreover have "(0 :: rat) \<le> of_nat (unat (firstWord (salt @ '':'' @ i)))" by (rule of_nat_0_le_iff)
  ultimately show ?thesis by (simp add: create_stable_score_def)
qed

end
