(* ===== verification/Config.thy ===== *)
theory Config
  imports Worker Auth_Boundary Audit_Recorder
begin

text \<open>
  The configuration of the service (\<open>config.ts\<close>) and what the composition root builds from
  it (\<open>di/app-composition.ts\<close> and the provider factories of \<open>di/movie-reservations\<close>).

  The schema is data, written as the source writes it. The library that runs it (zod) is a
  parameter: a function from the shape of an object schema and the environment to issues or to a
  value for each key. What the service relies on of it is \<open>documented_zod\<close>.
\<close>

section \<open>The schema\<close>

datatype z_value = ZV_Undefined | ZV_String string | ZV_Number rat | ZV_Bool bool

datatype z_check = Min rat | Max rat | Integral | Min_Length nat | Max_Length nat | Matches "string \<Rightarrow> bool" | Is_Url

text \<open>\<open>Z_Is_True t\<close> is \<open>t.transform((value) => value === 'true')\<close>.\<close>

datatype z_type =
    Z_String
  | Z_Coerce_Number
  | Z_Enum "string list"
  | Z_Check z_type z_check
  | Z_Default z_type z_value
  | Z_Optional z_type
  | Z_Is_True z_type

record zod_issue =
  zi_path :: "string list"
  zi_message :: string

text \<open>The general categories Cc and Cf among the code units below 256.\<close>

definition is_cc_or_cf :: "char \<Rightarrow> bool" where
  "is_cc_or_cf c \<longleftrightarrow> code_unit c \<le> 31 \<or> (127 \<le> code_unit c \<and> code_unit c \<le> 159) \<or> code_unit c = 173"

definition printable_text :: "string \<Rightarrow> bool" where
  "printable_text s \<longleftrightarrow> s \<noteq> [] \<and> list_all (\<lambda>c. \<not> is_cc_or_cf c) s"

definition environment_name_char :: "char \<Rightarrow> bool" where
  "environment_name_char c \<longleftrightarrow> is_upper_az c \<or> is_lower_az c \<or> is_digit c \<or> c \<in> set ''._:/@+-''"

definition reservation_worker_mode_schema :: z_type where
  "reservation_worker_mode_schema = Z_Enum [''disabled'', ''fake-in-process'']"

definition reservation_failure_injection_mode_schema :: z_type where
  "reservation_failure_injection_mode_schema = Z_Enum [''disabled'', ''stable-random-unexpected-error'']"

definition composition_profile_schema :: z_type where
  "composition_profile_schema =
    Z_Enum [''local-fixed-user'', ''local-jwt'', ''local-postgres'', ''production-oidc'']"

definition audit_publisher_schema :: z_type where
  "audit_publisher_schema = Z_Enum [''stdout'', ''eventbridge'']"

abbreviation integer_schema :: z_type where
  "integer_schema \<equiv> Z_Check Z_Coerce_Number Integral"

definition config_shape :: "string \<Rightarrow> (string \<times> z_type) list" where
  "config_shape serviceVersion =
    [(''PORT'', Z_Default Z_Coerce_Number (ZV_Number 3000)),
     (''HOST'', Z_Default (Z_Check Z_String (Min_Length 1)) (ZV_String ''127.0.0.1'')),
     (''LOG_LEVEL'', Z_Default (Z_Enum [''debug'', ''info'', ''warn'', ''error'']) (ZV_String ''info'')),
     (''SERVICE_VERSION'', Z_Default
        (Z_Check (Z_Check (Z_Check Z_String (Min_Length 1)) (Max_Length 128)) (Matches printable_text))
        (ZV_String serviceVersion)),
     (''COMPOSITION_PROFILE'', Z_Default composition_profile_schema (ZV_String ''local-fixed-user'')),
     (''DATABASE_URL'', Z_Optional (Z_Check Z_String Is_Url)),
     (''DATABASE_POOL_MIN'', Z_Default (Z_Check integer_schema (Min 0)) (ZV_Number 0)),
     (''DATABASE_POOL_MAX'', Z_Default (Z_Check integer_schema (Min 1)) (ZV_Number 5)),
     (''RESERVATION_WORKER_MODE'', Z_Default reservation_worker_mode_schema (ZV_String ''disabled'')),
     (''RESERVATION_WORKER_POLL_INTERVAL_MS'', Z_Default (Z_Check integer_schema (Min 1)) (ZV_Number 250)),
     (''RESERVATION_WORKER_LEASE_MS'', Z_Default (Z_Check integer_schema (Min 1)) (ZV_Number 30000)),
     (''RESERVATION_WORKER_HEARTBEAT_INTERVAL_MS'', Z_Default (Z_Check integer_schema (Min 1)) (ZV_Number 10000)),
     (''RESERVATION_WORKER_MAX_LEASE_TIMEOUTS'', Z_Default (Z_Check integer_schema (Min 0)) (ZV_Number 3)),
     (''RESERVATION_WORKER_MAX_TRANSIENT_FAILURES'', Z_Default (Z_Check integer_schema (Min 1)) (ZV_Number 3)),
     (''RESERVATION_FAILURE_INJECTION_MODE'',
        Z_Default reservation_failure_injection_mode_schema (ZV_String ''disabled'')),
     (''RESERVATION_FAILURE_INJECTION_RATE'',
        Z_Default (Z_Check (Z_Check Z_Coerce_Number (Min 0)) (Max 1)) (ZV_Number 0)),
     (''RESERVATION_FAILURE_INJECTION_SALT'', Z_Optional (Z_Check Z_String (Min_Length 1))),
     (''NODE_ENV'',
        Z_Default (Z_Enum [''development'', ''test'', ''staging'', ''production'']) (ZV_String ''development'')),
     (''OTEL_SERVICE_NAME'', Z_Default (Z_Check Z_String (Min_Length 1)) (ZV_String ''movie-reservation-service'')),
     (''DEPLOYMENT_ENVIRONMENT'',
        Z_Default (Z_Check Z_String (Matches (matches_bounded environment_name_char 1 128))) (ZV_String ''local'')),
     (''DEMO_AUTH_ENABLED'', Z_Is_True (Z_Default (Z_Enum [''true'', ''false'']) (ZV_String ''false''))),
     (''DEMO_AUTH_USERNAME'', Z_Optional (Z_Check Z_String (Max_Length 256))),
     (''DEMO_AUTH_PASSWORD'', Z_Optional (Z_Check Z_String (Max_Length 1024))),
     (''AUDIT_PUBLISHER'', Z_Default audit_publisher_schema (ZV_String ''stdout'')),
     (''AUDIT_EVENT_BUS_ARN'', Z_Optional (Z_Check Z_String (Max_Length 1600))),
     (''AUDIT_PUBLISH_TIMEOUT_MS'',
        Z_Default (Z_Check (Z_Check integer_schema (Min 100)) (Max 5000)) (ZV_Number 1000)),
     (''AUDIT_STDOUT_COMPARISON_MIRROR'',
        Z_Is_True (Z_Default (Z_Enum [''true'', ''false'']) (ZV_String ''false''))),
     (''ENABLE_GRAPHIQL'', Z_Optional (Z_Is_True (Z_Enum [''true'', ''false''])))]"

section \<open>What the service relies on of zod\<close>

text \<open>
  The documented result of parsing one key: \<open>number\<close> is \<open>Number(text)\<close> where that is
  a finite number, \<open>url\<close> the URL check. A default replaces a missing input and is not
  checked; an integer is a safe integer.
\<close>

definition max_safe :: rat where
  "max_safe = 9007199254740991"

definition z_holds :: "(string \<Rightarrow> bool) \<Rightarrow> z_check \<Rightarrow> z_value \<Rightarrow> bool" where
  "z_holds url c v =
    (case (c, v) of
       (Min lo, ZV_Number x) \<Rightarrow> lo \<le> x
     | (Max hi, ZV_Number x) \<Rightarrow> x \<le> hi
     | (Integral, ZV_Number x) \<Rightarrow> of_int \<lfloor>x\<rfloor> = x \<and> \<bar>x\<bar> \<le> max_safe
     | (Min_Length n, ZV_String s) \<Rightarrow> n \<le> length s
     | (Max_Length n, ZV_String s) \<Rightarrow> length s \<le> n
     | (Matches p, ZV_String s) \<Rightarrow> p s
     | (Is_Url, ZV_String s) \<Rightarrow> url s
     | _ \<Rightarrow> False)"

fun z_result :: "(string \<Rightarrow> rat option) \<Rightarrow> (string \<Rightarrow> bool) \<Rightarrow> z_type \<Rightarrow> string option \<Rightarrow> z_value option" where
  "z_result number url Z_String i = map_option ZV_String i"
| "z_result number url Z_Coerce_Number i = Option.bind i (\<lambda>s. map_option ZV_Number (number s))"
| "z_result number url (Z_Enum vs) i = Option.bind i (\<lambda>s. if s \<in> set vs then Some (ZV_String s) else None)"
| "z_result number url (Z_Check t c) i =
    Option.bind (z_result number url t i) (\<lambda>v. if z_holds url c v then Some v else None)"
| "z_result number url (Z_Default t d) i = (if i = None then Some d else z_result number url t i)"
| "z_result number url (Z_Optional t) i = (if i = None then Some ZV_Undefined else z_result number url t i)"
| "z_result number url (Z_Is_True t) i =
    map_option (\<lambda>v. ZV_Bool (v = ZV_String ''true'')) (z_result number url t i)"

type_synonym process_env = "string \<Rightarrow> string option"
type_synonym zod_object = "(string \<times> z_type) list \<Rightarrow> process_env \<Rightarrow> zod_issue list + (string \<Rightarrow> z_value)"

definition documented_zod :: "(string \<Rightarrow> rat option) \<Rightarrow> (string \<Rightarrow> bool) \<Rightarrow> zod_object \<Rightarrow> bool" where
  "documented_zod number url zod \<longleftrightarrow> (\<forall>shape env. distinct (List.map fst shape) \<longrightarrow>
     (case zod shape env of
        Inr v \<Rightarrow> (\<forall>(k, t) \<in> set shape. z_result number url t (env k) = Some (v k))
      | Inl issues \<Rightarrow> issues \<noteq> [] \<and> (\<exists>(k, t) \<in> set shape. z_result number url t (env k) = None)))"

section \<open>The typed settings\<close>

datatype node_env = Development | Test | Staging | Production
datatype persistence_mode = In_Memory | Postgres
datatype reservation_worker_mode = Worker_Disabled | Fake_In_Process
datatype reservation_failure_injection_mode = Injection_Disabled | Stable_Random_Unexpected_Error
datatype composition_profile = Profile_Local_Fixed_User | Profile_Local_Jwt | Profile_Local_Postgres | Profile_Production_Oidc

text \<open>Reading a parsed value at the type the schema gives its key.\<close>

fun zv_string :: "z_value \<Rightarrow> string" where
  "zv_string (ZV_String s) = s"
| "zv_string _ = []"

fun zv_number :: "z_value \<Rightarrow> rat" where
  "zv_number (ZV_Number x) = x"
| "zv_number _ = 0"

definition zv_int :: "z_value \<Rightarrow> int" where
  "zv_int v = \<lfloor>zv_number v\<rfloor>"

fun zv_optional :: "z_value \<Rightarrow> string option" where
  "zv_optional (ZV_String s) = Some s"
| "zv_optional _ = None"

fun zv_bool :: "z_value \<Rightarrow> bool option" where
  "zv_bool (ZV_Bool b) = Some b"
| "zv_bool _ = None"

definition log_level_of :: "string \<Rightarrow> log_level" where
  "log_level_of s = (if s = ''debug'' then Debug else if s = ''info'' then Info else if s = ''warn'' then Warn else Log_Error)"

definition node_env_of :: "string \<Rightarrow> node_env" where
  "node_env_of s = (if s = ''development'' then Development else if s = ''test'' then Test
     else if s = ''staging'' then Staging else Production)"

definition worker_mode_of :: "string \<Rightarrow> reservation_worker_mode" where
  "worker_mode_of s = (if s = ''disabled'' then Worker_Disabled else Fake_In_Process)"

definition failure_injection_mode_of :: "string \<Rightarrow> reservation_failure_injection_mode" where
  "failure_injection_mode_of s = (if s = ''disabled'' then Injection_Disabled else Stable_Random_Unexpected_Error)"

definition composition_profile_of :: "string \<Rightarrow> composition_profile" where
  "composition_profile_of s = (if s = ''local-fixed-user'' then Profile_Local_Fixed_User
     else if s = ''local-jwt'' then Profile_Local_Jwt
     else if s = ''local-postgres'' then Profile_Local_Postgres else Profile_Production_Oidc)"

definition audit_publisher_of :: "string \<Rightarrow> audit_publisher_name" where
  "audit_publisher_of s = (if s = ''stdout'' then P_Stdout else P_Eventbridge)"

fun get_composition_profile_dependency_modes :: "composition_profile \<Rightarrow> auth_mode \<times> persistence_mode" where
  "get_composition_profile_dependency_modes Profile_Local_Fixed_User = (Local_Fixed_User, In_Memory)"
| "get_composition_profile_dependency_modes Profile_Local_Jwt = (Local_Jwt, In_Memory)"
| "get_composition_profile_dependency_modes Profile_Local_Postgres = (Local_Fixed_User, Postgres)"
| "get_composition_profile_dependency_modes Profile_Production_Oidc = (Oidc, Postgres)"

record env_settings =
  ev_PORT :: rat
  ev_HOST :: string
  ev_LOG_LEVEL :: log_level
  ev_SERVICE_VERSION :: string
  ev_COMPOSITION_PROFILE :: composition_profile
  ev_AUTH_MODE :: auth_mode
  ev_PERSISTENCE_MODE :: persistence_mode
  ev_DATABASE_URL :: "string option"
  ev_DATABASE_POOL_MIN :: int
  ev_DATABASE_POOL_MAX :: int
  ev_WORKER_MODE :: reservation_worker_mode
  ev_WORKER_POLL_INTERVAL_MS :: int
  ev_WORKER_LEASE_MS :: int
  ev_WORKER_HEARTBEAT_INTERVAL_MS :: int
  ev_WORKER_MAX_LEASE_TIMEOUTS :: int
  ev_WORKER_MAX_TRANSIENT_FAILURES :: int
  ev_FAILURE_INJECTION_MODE :: reservation_failure_injection_mode
  ev_FAILURE_INJECTION_RATE :: rat
  ev_FAILURE_INJECTION_SALT :: "string option"
  ev_NODE_ENV :: node_env
  ev_OTEL_SERVICE_NAME :: string
  ev_DEPLOYMENT_ENVIRONMENT :: string
  ev_DEMO_AUTH_ENABLED :: bool
  ev_DEMO_AUTH_USERNAME :: "string option"
  ev_DEMO_AUTH_PASSWORD :: "string option"
  ev_AUDIT_PUBLISHER :: audit_publisher_name
  ev_AUDIT_EVENT_BUS_ARN :: "string option"
  ev_AUDIT_PUBLISH_TIMEOUT_MS :: int
  ev_AUDIT_STDOUT_COMPARISON_MIRROR :: bool
  ev_ENABLE_GRAPHIQL :: "bool option"

text \<open>The first transform of the schema.\<close>

definition settings_of_values :: "(string \<Rightarrow> z_value) \<Rightarrow> env_settings" where
  "settings_of_values v =
    (let profile = composition_profile_of (zv_string (v ''COMPOSITION_PROFILE''));
         profileModes = get_composition_profile_dependency_modes profile in
     \<lparr>ev_PORT = zv_number (v ''PORT''),
      ev_HOST = zv_string (v ''HOST''),
      ev_LOG_LEVEL = log_level_of (zv_string (v ''LOG_LEVEL'')),
      ev_SERVICE_VERSION = zv_string (v ''SERVICE_VERSION''),
      ev_COMPOSITION_PROFILE = profile,
      ev_AUTH_MODE = fst profileModes,
      ev_PERSISTENCE_MODE = snd profileModes,
      ev_DATABASE_URL = zv_optional (v ''DATABASE_URL''),
      ev_DATABASE_POOL_MIN = zv_int (v ''DATABASE_POOL_MIN''),
      ev_DATABASE_POOL_MAX = zv_int (v ''DATABASE_POOL_MAX''),
      ev_WORKER_MODE = worker_mode_of (zv_string (v ''RESERVATION_WORKER_MODE'')),
      ev_WORKER_POLL_INTERVAL_MS = zv_int (v ''RESERVATION_WORKER_POLL_INTERVAL_MS''),
      ev_WORKER_LEASE_MS = zv_int (v ''RESERVATION_WORKER_LEASE_MS''),
      ev_WORKER_HEARTBEAT_INTERVAL_MS = zv_int (v ''RESERVATION_WORKER_HEARTBEAT_INTERVAL_MS''),
      ev_WORKER_MAX_LEASE_TIMEOUTS = zv_int (v ''RESERVATION_WORKER_MAX_LEASE_TIMEOUTS''),
      ev_WORKER_MAX_TRANSIENT_FAILURES = zv_int (v ''RESERVATION_WORKER_MAX_TRANSIENT_FAILURES''),
      ev_FAILURE_INJECTION_MODE = failure_injection_mode_of (zv_string (v ''RESERVATION_FAILURE_INJECTION_MODE'')),
      ev_FAILURE_INJECTION_RATE = zv_number (v ''RESERVATION_FAILURE_INJECTION_RATE''),
      ev_FAILURE_INJECTION_SALT = zv_optional (v ''RESERVATION_FAILURE_INJECTION_SALT''),
      ev_NODE_ENV = node_env_of (zv_string (v ''NODE_ENV'')),
      ev_OTEL_SERVICE_NAME = zv_string (v ''OTEL_SERVICE_NAME''),
      ev_DEPLOYMENT_ENVIRONMENT = zv_string (v ''DEPLOYMENT_ENVIRONMENT''),
      ev_DEMO_AUTH_ENABLED = (zv_bool (v ''DEMO_AUTH_ENABLED'') = Some True),
      ev_DEMO_AUTH_USERNAME = zv_optional (v ''DEMO_AUTH_USERNAME''),
      ev_DEMO_AUTH_PASSWORD = zv_optional (v ''DEMO_AUTH_PASSWORD''),
      ev_AUDIT_PUBLISHER = audit_publisher_of (zv_string (v ''AUDIT_PUBLISHER'')),
      ev_AUDIT_EVENT_BUS_ARN = zv_optional (v ''AUDIT_EVENT_BUS_ARN''),
      ev_AUDIT_PUBLISH_TIMEOUT_MS = zv_int (v ''AUDIT_PUBLISH_TIMEOUT_MS''),
      ev_AUDIT_STDOUT_COMPARISON_MIRROR = (zv_bool (v ''AUDIT_STDOUT_COMPARISON_MIRROR'') = Some True),
      ev_ENABLE_GRAPHIQL = zv_bool (v ''ENABLE_GRAPHIQL'')\<rparr>)"

section \<open>The checks across keys\<close>

definition zod_issue :: "string \<Rightarrow> string \<Rightarrow> zod_issue" where
  "zod_issue key message = \<lparr>zi_path = [key], zi_message = message\<rparr>"

definition deployed :: "node_env \<Rightarrow> bool" where
  "deployed e \<longleftrightarrow> e = Staging \<or> e = Production"

definition blank_text :: "string option \<Rightarrow> bool" where
  "blank_text t \<longleftrightarrow> (case t of None \<Rightarrow> True | Some s \<Rightarrow> length (js_trim s) = 0)"

fun starts_with_local :: "auth_mode \<Rightarrow> bool" where
  "starts_with_local Local_Fixed_User = True"
| "starts_with_local Local_Jwt = True"
| "starts_with_local Oidc = False"

definition demo_auth_issues :: "env_settings \<Rightarrow> zod_issue list" where
  "demo_auth_issues s =
    (if ev_DEMO_AUTH_ENABLED s
     then (if deployed (ev_NODE_ENV s)
           then [zod_issue ''DEMO_AUTH_ENABLED'' ''demo authentication is only allowed in development and test environments'']
           else []) @
       concat (List.map (\<lambda>(key, t). if blank_text t
           then [zod_issue key (key @ '' is required when demo authentication is enabled'')] else [])
         [(''DEMO_AUTH_USERNAME'', ev_DEMO_AUTH_USERNAME s), (''DEMO_AUTH_PASSWORD'', ev_DEMO_AUTH_PASSWORD s)])
     else [])"

definition failure_injection_issues :: "env_settings \<Rightarrow> zod_issue list" where
  "failure_injection_issues s =
    (if ev_FAILURE_INJECTION_MODE s = Injection_Disabled \<and> ev_FAILURE_INJECTION_RATE s > 0
     then [zod_issue ''RESERVATION_FAILURE_INJECTION_RATE''
       ''RESERVATION_FAILURE_INJECTION_RATE must be 0 unless RESERVATION_FAILURE_INJECTION_MODE is stable-random-unexpected-error'']
     else []) @
    (if ev_FAILURE_INJECTION_MODE s = Stable_Random_Unexpected_Error
     then (if ev_FAILURE_INJECTION_RATE s \<le> 0
           then [zod_issue ''RESERVATION_FAILURE_INJECTION_RATE''
             ''RESERVATION_FAILURE_INJECTION_RATE must be greater than 0 when stable-random failure injection is enabled'']
           else []) @
          (if ev_FAILURE_INJECTION_SALT s = None
           then [zod_issue ''RESERVATION_FAILURE_INJECTION_SALT''
             ''RESERVATION_FAILURE_INJECTION_SALT is required when stable-random failure injection is enabled'']
           else [])
     else [])"

definition super_refine :: "env_settings \<Rightarrow> zod_issue list" where
  "super_refine s =
    demo_auth_issues s @
    (if starts_with_local (ev_AUTH_MODE s) \<and> deployed (ev_NODE_ENV s)
     then [zod_issue ''AUTH_MODE'' ''local auth modes are only allowed in development and test environments''] else []) @
    (if ev_WORKER_MODE s = Fake_In_Process \<and> deployed (ev_NODE_ENV s)
     then [zod_issue ''RESERVATION_WORKER_MODE''
       ''fake-in-process reservation worker is only allowed in development and test environments''] else []) @
    (if ev_PERSISTENCE_MODE s = Postgres \<and> ev_DATABASE_URL s = None
     then [zod_issue ''DATABASE_URL''
       ''DATABASE_URL is required when COMPOSITION_PROFILE selects Postgres persistence''] else []) @
    (if ev_DATABASE_POOL_MAX s < ev_DATABASE_POOL_MIN s
     then [zod_issue ''DATABASE_POOL_MAX''
       ''DATABASE_POOL_MAX must be greater than or equal to DATABASE_POOL_MIN''] else []) @
    (if ev_AUDIT_PUBLISHER s = P_Eventbridge \<and> blank_text (ev_AUDIT_EVENT_BUS_ARN s)
     then [zod_issue ''AUDIT_EVENT_BUS_ARN''
       ''AUDIT_EVENT_BUS_ARN is required when AUDIT_PUBLISHER is eventbridge''] else []) @
    (if ev_WORKER_HEARTBEAT_INTERVAL_MS s \<ge> ev_WORKER_LEASE_MS s
     then [zod_issue ''RESERVATION_WORKER_HEARTBEAT_INTERVAL_MS''
       ''RESERVATION_WORKER_HEARTBEAT_INTERVAL_MS must be less than RESERVATION_WORKER_LEASE_MS''] else []) @
    failure_injection_issues s"

section \<open>The configuration\<close>

datatype reservation_failure_injection = Injection_Off | Injection_Stable_Random rat string

record config =
  cf_PORT :: rat
  cf_HOST :: string
  cf_LOG_LEVEL :: log_level
  cf_SERVICE_VERSION :: string
  cf_COMPOSITION_PROFILE :: composition_profile
  cf_AUTH_MODE :: auth_mode
  cf_PERSISTENCE_MODE :: persistence_mode
  cf_DATABASE_URL :: "string option"
  cf_DATABASE_POOL_MIN :: int
  cf_DATABASE_POOL_MAX :: int
  cf_WORKER_MODE :: reservation_worker_mode
  cf_WORKER_POLL_INTERVAL_MS :: int
  cf_WORKER_LEASE_MS :: int
  cf_WORKER_HEARTBEAT_INTERVAL_MS :: int
  cf_WORKER_MAX_LEASE_TIMEOUTS :: int
  cf_WORKER_MAX_TRANSIENT_FAILURES :: int
  cf_NODE_ENV :: node_env
  cf_OTEL_SERVICE_NAME :: string
  cf_DEPLOYMENT_ENVIRONMENT :: string
  cf_DEMO_AUTH :: demo_auth_settings
  cf_AUDIT :: audit_publisher_settings
  cf_FAILURE_INJECTION :: reservation_failure_injection
  cf_ENABLE_GRAPHIQL :: bool

definition create_reservation_failure_injection ::
  "reservation_failure_injection_mode \<Rightarrow> rat \<Rightarrow> string option \<Rightarrow> js_error + reservation_failure_injection" where
  "create_reservation_failure_injection mode rate salt =
    (if mode = Injection_Disabled then Inr Injection_Off
     else case salt of
       None \<Rightarrow> Inl (Error ''RESERVATION_FAILURE_INJECTION_SALT is required when stable-random failure injection is enabled'')
     | Some s \<Rightarrow> Inr (Injection_Stable_Random rate s))"

definition create_demo_auth_settings :: "bool \<Rightarrow> string option \<Rightarrow> string option \<Rightarrow> js_error + demo_auth_settings" where
  "create_demo_auth_settings enabled username password =
    (if \<not> enabled then Inr Demo_Auth_Disabled
     else case (username, password) of
       (Some u, Some p) \<Rightarrow> Inr (Demo_Auth_Enabled u p)
     | _ \<Rightarrow> Inl (Error ''Demo authentication requires explicit credentials''))"

definition create_audit_publisher_settings ::
  "audit_publisher_name \<Rightarrow> string option \<Rightarrow> int \<Rightarrow> bool \<Rightarrow> js_error + audit_publisher_settings" where
  "create_audit_publisher_settings publisher arn timeoutMs mirror =
    (if publisher = P_Stdout then Inr Audit_Stdout
     else case arn of
       None \<Rightarrow> Inl (Error ''AUDIT_EVENT_BUS_ARN is required when AUDIT_PUBLISHER is eventbridge'')
     | Some a \<Rightarrow> Inr (Audit_Eventbridge a timeoutMs mirror))"

text \<open>The last transform of the schema.\<close>

definition config_of_settings :: "env_settings \<Rightarrow> js_error + config" where
  "config_of_settings s =
    bind_err (create_demo_auth_settings (ev_DEMO_AUTH_ENABLED s) (ev_DEMO_AUTH_USERNAME s) (ev_DEMO_AUTH_PASSWORD s))
      (\<lambda>demoAuth.
    bind_err (create_audit_publisher_settings (ev_AUDIT_PUBLISHER s) (ev_AUDIT_EVENT_BUS_ARN s)
      (ev_AUDIT_PUBLISH_TIMEOUT_MS s) (ev_AUDIT_STDOUT_COMPARISON_MIRROR s)) (\<lambda>audit.
    bind_err (create_reservation_failure_injection (ev_FAILURE_INJECTION_MODE s) (ev_FAILURE_INJECTION_RATE s)
      (ev_FAILURE_INJECTION_SALT s)) (\<lambda>injection.
    Inr \<lparr>cf_PORT = ev_PORT s, cf_HOST = ev_HOST s, cf_LOG_LEVEL = ev_LOG_LEVEL s,
      cf_SERVICE_VERSION = ev_SERVICE_VERSION s, cf_COMPOSITION_PROFILE = ev_COMPOSITION_PROFILE s,
      cf_AUTH_MODE = ev_AUTH_MODE s, cf_PERSISTENCE_MODE = ev_PERSISTENCE_MODE s, cf_DATABASE_URL = ev_DATABASE_URL s,
      cf_DATABASE_POOL_MIN = ev_DATABASE_POOL_MIN s, cf_DATABASE_POOL_MAX = ev_DATABASE_POOL_MAX s,
      cf_WORKER_MODE = ev_WORKER_MODE s, cf_WORKER_POLL_INTERVAL_MS = ev_WORKER_POLL_INTERVAL_MS s,
      cf_WORKER_LEASE_MS = ev_WORKER_LEASE_MS s,
      cf_WORKER_HEARTBEAT_INTERVAL_MS = ev_WORKER_HEARTBEAT_INTERVAL_MS s,
      cf_WORKER_MAX_LEASE_TIMEOUTS = ev_WORKER_MAX_LEASE_TIMEOUTS s,
      cf_WORKER_MAX_TRANSIENT_FAILURES = ev_WORKER_MAX_TRANSIENT_FAILURES s, cf_NODE_ENV = ev_NODE_ENV s,
      cf_OTEL_SERVICE_NAME = ev_OTEL_SERVICE_NAME s, cf_DEPLOYMENT_ENVIRONMENT = ev_DEPLOYMENT_ENVIRONMENT s,
      cf_DEMO_AUTH = demoAuth, cf_AUDIT = audit, cf_FAILURE_INJECTION = injection,
      cf_ENABLE_GRAPHIQL = (case ev_ENABLE_GRAPHIQL s of Some b \<Rightarrow> b
        | None \<Rightarrow> ev_NODE_ENV s = Development \<or> ev_NODE_ENV s = Test)\<rparr>)))"

text \<open>What \<open>parse\<close> throws: the issues as a \<open>ZodError\<close>, or what a transform throws.\<close>

datatype config_error = Zod_Error "zod_issue list" | Thrown js_error

definition parse_config :: "zod_object \<Rightarrow> string \<Rightarrow> process_env \<Rightarrow> config_error + config" where
  "parse_config zod serviceVersion env =
    (case zod (config_shape serviceVersion) env of
       Inl issues \<Rightarrow> Inl (Zod_Error issues)
     | Inr v \<Rightarrow>
         (let settings = settings_of_values v; issues = super_refine settings in
          if issues \<noteq> [] then Inl (Zod_Error issues)
          else case config_of_settings settings of Inl e \<Rightarrow> Inl (Thrown e) | Inr c \<Rightarrow> Inr c))"

section \<open>The composition root\<close>

record app_composition_overrides =
  ao_compositionProfile :: "composition_profile option"
  ao_authMode :: "auth_mode option"
  ao_persistenceMode :: "persistence_mode option"
  ao_workerMode :: "reservation_worker_mode option"
  ao_failureInjection :: "reservation_failure_injection option"

record composition_options =
  co_authMode :: auth_mode
  co_persistenceMode :: persistence_mode
  co_workerMode :: reservation_worker_mode
  co_failureInjection :: reservation_failure_injection

definition nullish_or :: "'a option \<Rightarrow> 'a \<Rightarrow> 'a" where
  "nullish_or v d = (case v of Some x \<Rightarrow> x | None \<Rightarrow> d)"

definition create_app_composition :: "app_composition_overrides \<Rightarrow> config \<Rightarrow> composition_options" where
  "create_app_composition overrides runtimeConfig =
    (let profile = nullish_or (ao_compositionProfile overrides) (cf_COMPOSITION_PROFILE runtimeConfig);
         profileModes = get_composition_profile_dependency_modes profile;
         useProfileDefaults = ao_compositionProfile overrides \<noteq> None in
     \<lparr>co_authMode = nullish_or (ao_authMode overrides)
        (if useProfileDefaults then fst profileModes else cf_AUTH_MODE runtimeConfig),
      co_persistenceMode = nullish_or (ao_persistenceMode overrides)
        (if useProfileDefaults then snd profileModes else cf_PERSISTENCE_MODE runtimeConfig),
      co_workerMode = nullish_or (ao_workerMode overrides) (cf_WORKER_MODE runtimeConfig),
      co_failureInjection = nullish_or (ao_failureInjection overrides) (cf_FAILURE_INJECTION runtimeConfig)\<rparr>)"

definition no_overrides :: app_composition_overrides where
  "no_overrides = \<lparr>ao_compositionProfile = None, ao_authMode = None, ao_persistenceMode = None,
     ao_workerMode = None, ao_failureInjection = None\<rparr>"

definition disabled_failure_policy :: "id \<Rightarrow> bool" where
  "disabled_failure_policy reservationRequestId = False"

definition create_reservation_processing_failure_policy ::
  "(string \<Rightarrow> 32 word) \<Rightarrow> reservation_failure_injection \<Rightarrow> js_error + (id \<Rightarrow> bool)" where
  "create_reservation_processing_failure_policy firstWord injection =
    (case injection of
       Injection_Off \<Rightarrow> Inr disabled_failure_policy
     | Injection_Stable_Random rate salt \<Rightarrow>
         bind_err (new_stable_random_policy \<lparr>fp_failureRate = rate, fp_salt = salt\<rparr>)
           (\<lambda>options. Inr (should_fail_reservation_processing firstWord options)))"

record postgres_connection_settings =
  pg_databaseUrl :: string
  pg_poolMin :: int
  pg_poolMax :: int

definition create_postgres_connection_settings :: "config \<Rightarrow> js_error + postgres_connection_settings" where
  "create_postgres_connection_settings c =
    (case cf_DATABASE_URL c of
       None \<Rightarrow> Inl (Error ''DATABASE_URL is required for Postgres persistence'')
     | Some url \<Rightarrow> Inr \<lparr>pg_databaseUrl = url, pg_poolMin = cf_DATABASE_POOL_MIN c, pg_poolMax = cf_DATABASE_POOL_MAX c\<rparr>)"

record worker_options =
  wo_pollIntervalMs :: int
  wo_claimLeaseMs :: int
  wo_heartbeatIntervalMs :: int

definition create_reservation_worker_providers :: "config \<Rightarrow> reservation_worker_mode \<Rightarrow> worker_options option" where
  "create_reservation_worker_providers c mode =
    (if mode = Worker_Disabled then None
     else Some \<lparr>wo_pollIntervalMs = cf_WORKER_POLL_INTERVAL_MS c, wo_claimLeaseMs = cf_WORKER_LEASE_MS c,
       wo_heartbeatIntervalMs = cf_WORKER_HEARTBEAT_INTERVAL_MS c\<rparr>)"

definition processor_options_of :: "config \<Rightarrow> processor_options" where
  "processor_options_of c = \<lparr>po_workerId = ''fake-in-process-reservation-worker'',
     po_claimLeaseMs = cf_WORKER_LEASE_MS c, po_maxLeaseTimeouts = cf_WORKER_MAX_LEASE_TIMEOUTS c,
     po_maxTransientFailures = cf_WORKER_MAX_TRANSIENT_FAILURES c\<rparr>"

section \<open>Facts\<close>

lemma z_result_int:
  assumes "z_result number url (Z_Default (Z_Check (Z_Check Z_Coerce_Number Integral) (Min lo)) (ZV_Number d)) i = Some v"
    and "lo = of_int m" "m \<le> \<lfloor>d\<rfloor>"
  shows "m \<le> zv_int v"
  using assms by (auto simp: zv_int_def z_holds_def le_floor_iff bind_eq_Some_conv split: if_splits)

lemma z_result_rate:
  assumes "z_result number url (Z_Default (Z_Check (Z_Check Z_Coerce_Number (Min 0)) (Max 1)) (ZV_Number 0)) i = Some v"
  shows "0 \<le> zv_number v \<and> zv_number v \<le> 1"
  using assms by (auto simp: z_holds_def bind_eq_Some_conv split: if_splits)

lemma z_result_timeout:
  assumes "z_result number url (Z_Default (Z_Check (Z_Check (Z_Check Z_Coerce_Number Integral) (Min 100)) (Max 5000))
      (ZV_Number 1000)) i = Some v"
  shows "100 \<le> zv_int v \<and> zv_int v \<le> 5000"
  using assms by (auto simp: zv_int_def z_holds_def le_floor_iff floor_le_iff bind_eq_Some_conv split: if_splits)

lemma z_result_text:
  assumes "z_result number url (Z_Optional (Z_Check Z_String c)) i = Some v"
  shows "case zv_optional v of None \<Rightarrow> True | Some s \<Rightarrow> z_holds url c (ZV_String s)"
  using assms by (auto simp: bind_eq_Some_conv split: if_splits)

lemma zod_on_shape:
  assumes "documented_zod number url zod"
  shows "case zod (config_shape ver) env of
      Inr v \<Rightarrow> (\<forall>(k, t) \<in> set (config_shape ver). z_result number url t (env k) = Some (v k))
    | Inl issues \<Rightarrow> issues \<noteq> [] \<and> (\<exists>(k, t) \<in> set (config_shape ver). z_result number url t (env k) = None)"
proof -
  have "distinct (List.map fst (config_shape ver))" by (simp add: config_shape_def)
  then show ?thesis using assms unfolding documented_zod_def by blast
qed

lemma shape_key:
  assumes "documented_zod number url zod" "zod (config_shape ver) env = Inr v" "(k, t) \<in> set (config_shape ver)"
  shows "z_result number url t (env k) = Some (v k)"
  using zod_on_shape [OF assms(1), of ver env] assms(2,3) by auto

text \<open>What the schema of each key gives, before the checks across keys.\<close>

definition typed_settings :: "env_settings \<Rightarrow> bool" where
  "typed_settings s \<longleftrightarrow>
     0 \<le> ev_DATABASE_POOL_MIN s \<and> 1 \<le> ev_DATABASE_POOL_MAX s \<and> 1 \<le> ev_WORKER_POLL_INTERVAL_MS s \<and>
     1 \<le> ev_WORKER_LEASE_MS s \<and> 1 \<le> ev_WORKER_HEARTBEAT_INTERVAL_MS s \<and> 0 \<le> ev_WORKER_MAX_LEASE_TIMEOUTS s \<and>
     1 \<le> ev_WORKER_MAX_TRANSIENT_FAILURES s \<and>
     0 \<le> ev_FAILURE_INJECTION_RATE s \<and> ev_FAILURE_INJECTION_RATE s \<le> 1 \<and>
     100 \<le> ev_AUDIT_PUBLISH_TIMEOUT_MS s \<and> ev_AUDIT_PUBLISH_TIMEOUT_MS s \<le> 5000 \<and>
     (\<forall>t. ev_FAILURE_INJECTION_SALT s = Some t \<longrightarrow> t \<noteq> []) \<and>
     (\<forall>t. ev_DEMO_AUTH_USERNAME s = Some t \<longrightarrow> length t \<le> 256) \<and>
     (\<forall>t. ev_DEMO_AUTH_PASSWORD s = Some t \<longrightarrow> length t \<le> 1024) \<and>
     (ev_AUTH_MODE s, ev_PERSISTENCE_MODE s) = get_composition_profile_dependency_modes (ev_COMPOSITION_PROFILE s)"

lemma settings_typed:
  assumes "documented_zod number url zod" "zod (config_shape ver) env = Inr v"
  shows "typed_settings (settings_of_values v)"
proof -
  note key = shape_key [OF assms]
  have int_key: "m \<le> zv_int (v k)"
    if "(k, Z_Default (Z_Check (Z_Check Z_Coerce_Number Integral) (Min lo)) (ZV_Number d)) \<in> set (config_shape ver)"
      "lo = of_int m" "m \<le> \<lfloor>d\<rfloor>" for k lo d m
    using z_result_int [OF key [OF that(1)] that(2,3)] .
  have "0 \<le> zv_int (v ''DATABASE_POOL_MIN'')" by (rule int_key [where lo = 0 and d = 0]) (simp_all add: config_shape_def)
  moreover have "1 \<le> zv_int (v ''DATABASE_POOL_MAX'')" by (rule int_key [where lo = 1 and d = 5]) (simp_all add: config_shape_def)
  moreover have "1 \<le> zv_int (v ''RESERVATION_WORKER_POLL_INTERVAL_MS'')" by (rule int_key [where lo = 1 and d = 250]) (simp_all add: config_shape_def)
  moreover have "1 \<le> zv_int (v ''RESERVATION_WORKER_LEASE_MS'')" by (rule int_key [where lo = 1 and d = 30000]) (simp_all add: config_shape_def)
  moreover have "1 \<le> zv_int (v ''RESERVATION_WORKER_HEARTBEAT_INTERVAL_MS'')"
    by (rule int_key [where lo = 1 and d = 10000]) (simp_all add: config_shape_def)
  moreover have "0 \<le> zv_int (v ''RESERVATION_WORKER_MAX_LEASE_TIMEOUTS'')"
    by (rule int_key [where lo = 0 and d = 3]) (simp_all add: config_shape_def)
  moreover have "1 \<le> zv_int (v ''RESERVATION_WORKER_MAX_TRANSIENT_FAILURES'')"
    by (rule int_key [where lo = 1 and d = 3]) (simp_all add: config_shape_def)
  moreover have "0 \<le> zv_number (v ''RESERVATION_FAILURE_INJECTION_RATE'') \<and>
      zv_number (v ''RESERVATION_FAILURE_INJECTION_RATE'') \<le> 1"
    by (rule z_result_rate, rule key) (simp add: config_shape_def)
  moreover have "100 \<le> zv_int (v ''AUDIT_PUBLISH_TIMEOUT_MS'') \<and> zv_int (v ''AUDIT_PUBLISH_TIMEOUT_MS'') \<le> 5000"
    by (rule z_result_timeout, rule key) (simp add: config_shape_def)
  moreover have "t \<noteq> []" if "zv_optional (v ''RESERVATION_FAILURE_INJECTION_SALT'') = Some t" for t
    using z_result_text [OF key, of "''RESERVATION_FAILURE_INJECTION_SALT''" "Min_Length 1"] that
    by (auto simp: config_shape_def z_holds_def)
  moreover have "length t \<le> 256" if "zv_optional (v ''DEMO_AUTH_USERNAME'') = Some t" for t
    using z_result_text [OF key, of "''DEMO_AUTH_USERNAME''" "Max_Length 256"] that
    by (auto simp: config_shape_def z_holds_def)
  moreover have "length t \<le> 1024" if "zv_optional (v ''DEMO_AUTH_PASSWORD'') = Some t" for t
    using z_result_text [OF key, of "''DEMO_AUTH_PASSWORD''" "Max_Length 1024"] that
    by (auto simp: config_shape_def z_holds_def)
  ultimately show ?thesis by (simp add: typed_settings_def settings_of_values_def Let_def)
qed

lemma super_refine_Nil:
  "super_refine s = [] \<longleftrightarrow>
    (ev_DEMO_AUTH_ENABLED s \<longrightarrow> \<not> deployed (ev_NODE_ENV s) \<and> \<not> blank_text (ev_DEMO_AUTH_USERNAME s) \<and>
      \<not> blank_text (ev_DEMO_AUTH_PASSWORD s)) \<and>
    (deployed (ev_NODE_ENV s) \<longrightarrow> ev_AUTH_MODE s = Oidc \<and> ev_WORKER_MODE s = Worker_Disabled) \<and>
    (ev_PERSISTENCE_MODE s = Postgres \<longrightarrow> ev_DATABASE_URL s \<noteq> None) \<and>
    ev_DATABASE_POOL_MIN s \<le> ev_DATABASE_POOL_MAX s \<and>
    (ev_AUDIT_PUBLISHER s = P_Eventbridge \<longrightarrow> \<not> blank_text (ev_AUDIT_EVENT_BUS_ARN s)) \<and>
    ev_WORKER_HEARTBEAT_INTERVAL_MS s < ev_WORKER_LEASE_MS s \<and>
    (if ev_FAILURE_INJECTION_MODE s = Injection_Disabled then ev_FAILURE_INJECTION_RATE s \<le> 0
     else ev_FAILURE_INJECTION_RATE s > 0 \<and> ev_FAILURE_INJECTION_SALT s \<noteq> None)"
proof -
  have nil: "(if b then [x] else []) = [] \<longleftrightarrow> \<not> b" for b and x :: zod_issue by simp
  have local: "starts_with_local m \<longleftrightarrow> m \<noteq> Oidc" for m by (cases m) auto
  have worker: "m = Fake_In_Process \<longleftrightarrow> m \<noteq> Worker_Disabled" for m by (cases m) auto
  have demo: "demo_auth_issues s = [] \<longleftrightarrow> (ev_DEMO_AUTH_ENABLED s \<longrightarrow> \<not> deployed (ev_NODE_ENV s) \<and>
      \<not> blank_text (ev_DEMO_AUTH_USERNAME s) \<and> \<not> blank_text (ev_DEMO_AUTH_PASSWORD s))"
    by (simp add: demo_auth_issues_def)
  have injection: "failure_injection_issues s = [] \<longleftrightarrow>
      (if ev_FAILURE_INJECTION_MODE s = Injection_Disabled then ev_FAILURE_INJECTION_RATE s \<le> 0
       else ev_FAILURE_INJECTION_RATE s > 0 \<and> ev_FAILURE_INJECTION_SALT s \<noteq> None)"
    by (cases "ev_FAILURE_INJECTION_MODE s") (simp_all add: failure_injection_issues_def not_less not_le)
  show ?thesis
    unfolding super_refine_def append_is_Nil_conv nil demo injection local worker by (auto simp: not_less not_le)
qed

lemma not_blank: "\<not> blank_text t \<longleftrightarrow> (\<exists>s. t = Some s \<and> js_trim s \<noteq> [])"
  by (auto simp: blank_text_def split: option.splits)

text \<open>Without issues the last transform does not throw, and this is what it gives.\<close>

lemma demo_auth_created:
  assumes "super_refine s = []"
  shows "create_demo_auth_settings (ev_DEMO_AUTH_ENABLED s) (ev_DEMO_AUTH_USERNAME s) (ev_DEMO_AUTH_PASSWORD s) =
    Inr (if ev_DEMO_AUTH_ENABLED s
      then Demo_Auth_Enabled (the (ev_DEMO_AUTH_USERNAME s)) (the (ev_DEMO_AUTH_PASSWORD s)) else Demo_Auth_Disabled)"
  using assms by (auto simp: create_demo_auth_settings_def super_refine_Nil not_blank)

lemma audit_created:
  assumes "super_refine s = []"
  shows "create_audit_publisher_settings (ev_AUDIT_PUBLISHER s) (ev_AUDIT_EVENT_BUS_ARN s) ms mirror =
    Inr (if ev_AUDIT_PUBLISHER s = P_Eventbridge
      then Audit_Eventbridge (the (ev_AUDIT_EVENT_BUS_ARN s)) ms mirror else Audit_Stdout)"
  using assms by (cases "ev_AUDIT_PUBLISHER s")
    (auto simp: create_audit_publisher_settings_def super_refine_Nil not_blank)

lemma injection_created:
  assumes "super_refine s = []"
  shows "create_reservation_failure_injection (ev_FAILURE_INJECTION_MODE s) rate (ev_FAILURE_INJECTION_SALT s) =
    Inr (if ev_FAILURE_INJECTION_MODE s = Injection_Disabled then Injection_Off
      else Injection_Stable_Random rate (the (ev_FAILURE_INJECTION_SALT s)))"
  using assms by (auto simp: create_reservation_failure_injection_def super_refine_Nil)

lemmas settings_created = demo_auth_created audit_created injection_created

lemma config_of_settings_total: "super_refine s = [] \<Longrightarrow> \<exists>c. config_of_settings s = Inr c"
  by (simp add: config_of_settings_def settings_created)

lemma parse_config_Inr:
  assumes "documented_zod number url zod" "parse_config zod ver env = Inr c"
  obtains s where "typed_settings s" "super_refine s = []" "config_of_settings s = Inr c"
  using assms settings_typed [OF assms(1), of ver env]
  by (fastforce simp: parse_config_def Let_def split: sum.splits if_splits)

section \<open>Properties\<close>


text \<open>A concrete zod: decimal digits are the numbers, and every text with a colon a URL.\<close>

definition sample_number :: "string \<Rightarrow> rat option" where
  "sample_number t = (if t \<noteq> [] \<and> list_all is_digit t
     then Some (of_nat (foldl (\<lambda>n c. 10 * n + (of_char c - 48)) 0 t)) else None)"

definition sample_url :: "string \<Rightarrow> bool" where
  "sample_url t \<longleftrightarrow> CHR '':'' \<in> set t"

definition sample_zod :: zod_object where
  "sample_zod shape env =
    (if list_all (\<lambda>(k, t). z_result sample_number sample_url t (env k) \<noteq> None) shape
     then Inr (\<lambda>k. case map_of shape k of
       Some t \<Rightarrow> the (z_result sample_number sample_url t (env k)) | None \<Rightarrow> ZV_Undefined)
     else Inl [zod_issue ''environment'' ''invalid''])"

lemma sample_zod_documented: "documented_zod sample_number sample_url sample_zod"
  by (auto simp: documented_zod_def sample_zod_def list_all_iff)

definition sample_env :: process_env where
  "sample_env = map_of [(''NODE_ENV'', ''test''), (''DEMO_AUTH_ENABLED'', ''true''), (''DEMO_AUTH_USERNAME'', ''demo''),
     (''DEMO_AUTH_PASSWORD'', ''secret''), (''RESERVATION_WORKER_MODE'', ''fake-in-process''),
     (''RESERVATION_WORKER_LEASE_MS'', ''20000''), (''COMPOSITION_PROFILE'', ''local-postgres''),
     (''DATABASE_URL'', ''postgres://localhost/db'')]"

definition sample_values :: "string \<Rightarrow> z_value" where
  "sample_values k = (case map_of (config_shape ''1.0.0'') k of
     Some t \<Rightarrow> the (z_result sample_number sample_url t (sample_env k)) | None \<Rightarrow> ZV_Undefined)"

lemma sample_digits: "sample_number ''20000'' = Some 20000"
  by (simp add: sample_number_def is_digit_def in_range_def code_unit_def)

lemma sample_zod_values: "sample_zod (config_shape ''1.0.0'') sample_env = Inr sample_values"
proof -
  have "list_all (\<lambda>(k, t). z_result sample_number sample_url t (sample_env k) \<noteq> None) (config_shape ''1.0.0'')"
    by (simp add: config_shape_def sample_env_def sample_digits z_holds_def sample_url_def max_safe_def
        composition_profile_schema_def reservation_worker_mode_schema_def)
  then show ?thesis by (simp add: sample_zod_def sample_values_def fun_eq_iff)
qed

definition sample_config :: config where
  "sample_config =
    \<lparr>cf_PORT = 3000, cf_HOST = ''127.0.0.1'', cf_LOG_LEVEL = Info, cf_SERVICE_VERSION = ''1.0.0'',
     cf_COMPOSITION_PROFILE = Profile_Local_Postgres, cf_AUTH_MODE = Local_Fixed_User,
     cf_PERSISTENCE_MODE = Postgres, cf_DATABASE_URL = Some ''postgres://localhost/db'', cf_DATABASE_POOL_MIN = 0,
     cf_DATABASE_POOL_MAX = 5, cf_WORKER_MODE = Fake_In_Process, cf_WORKER_POLL_INTERVAL_MS = 250,
     cf_WORKER_LEASE_MS = 20000, cf_WORKER_HEARTBEAT_INTERVAL_MS = 10000, cf_WORKER_MAX_LEASE_TIMEOUTS = 3,
     cf_WORKER_MAX_TRANSIENT_FAILURES = 3, cf_NODE_ENV = Test,
     cf_OTEL_SERVICE_NAME = ''movie-reservation-service'', cf_DEPLOYMENT_ENVIRONMENT = ''local'',
     cf_DEMO_AUTH = Demo_Auth_Enabled ''demo'' ''secret'', cf_AUDIT = Audit_Stdout,
     cf_FAILURE_INJECTION = Injection_Off, cf_ENABLE_GRAPHIQL = True\<rparr>"

definition sample_settings :: env_settings where
  "sample_settings =
    \<lparr>ev_PORT = 3000, ev_HOST = ''127.0.0.1'', ev_LOG_LEVEL = Info, ev_SERVICE_VERSION = ''1.0.0'',
     ev_COMPOSITION_PROFILE = Profile_Local_Postgres, ev_AUTH_MODE = Local_Fixed_User,
     ev_PERSISTENCE_MODE = Postgres, ev_DATABASE_URL = Some ''postgres://localhost/db'', ev_DATABASE_POOL_MIN = 0,
     ev_DATABASE_POOL_MAX = 5, ev_WORKER_MODE = Fake_In_Process, ev_WORKER_POLL_INTERVAL_MS = 250,
     ev_WORKER_LEASE_MS = 20000, ev_WORKER_HEARTBEAT_INTERVAL_MS = 10000, ev_WORKER_MAX_LEASE_TIMEOUTS = 3,
     ev_WORKER_MAX_TRANSIENT_FAILURES = 3, ev_FAILURE_INJECTION_MODE = Injection_Disabled,
     ev_FAILURE_INJECTION_RATE = 0, ev_FAILURE_INJECTION_SALT = None, ev_NODE_ENV = Test,
     ev_OTEL_SERVICE_NAME = ''movie-reservation-service'', ev_DEPLOYMENT_ENVIRONMENT = ''local'',
     ev_DEMO_AUTH_ENABLED = True, ev_DEMO_AUTH_USERNAME = Some ''demo'', ev_DEMO_AUTH_PASSWORD = Some ''secret'',
     ev_AUDIT_PUBLISHER = P_Stdout, ev_AUDIT_EVENT_BUS_ARN = None, ev_AUDIT_PUBLISH_TIMEOUT_MS = 1000,
     ev_AUDIT_STDOUT_COMPARISON_MIRROR = False, ev_ENABLE_GRAPHIQL = None\<rparr>"

lemma sample_settings: "settings_of_values sample_values = sample_settings"
proof -
  have val: "sample_values k = (case map_of (config_shape ''1.0.0'') k of
     Some t \<Rightarrow> the (z_result sample_number sample_url t (sample_env k)) | None \<Rightarrow> ZV_Undefined)" for k
    by (simp add: sample_values_def)
  show ?thesis
    by (simp add: settings_of_values_def sample_settings_def val config_shape_def sample_env_def sample_digits z_holds_def
        sample_url_def max_safe_def zv_int_def composition_profile_of_def worker_mode_of_def node_env_of_def log_level_of_def
        failure_injection_mode_of_def audit_publisher_of_def
        composition_profile_schema_def reservation_worker_mode_schema_def)
qed

lemma sample_parses: "parse_config sample_zod ''1.0.0'' sample_env = Inr sample_config"
proof -
  have "super_refine sample_settings = []"
    by (simp add: super_refine_Nil sample_settings_def deployed_def not_blank) code_simp
  then show ?thesis
    by (simp add: parse_config_def sample_zod_values sample_settings)
      (simp add: sample_settings_def sample_config_def config_of_settings_def create_demo_auth_settings_def
        create_audit_publisher_settings_def create_reservation_failure_injection_def)
qed

text \<open>What holds of a configuration whatever the environment is.\<close>

definition bounded_credentials :: "demo_auth_settings \<Rightarrow> bool" where
  "bounded_credentials d \<longleftrightarrow> (case d of Demo_Auth_Disabled \<Rightarrow> True
     | Demo_Auth_Enabled u p \<Rightarrow> js_trim u \<noteq> [] \<and> length u \<le> 256 \<and> js_trim p \<noteq> [] \<and> length p \<le> 1024)"

definition bounded_audit :: "audit_publisher_settings \<Rightarrow> bool" where
  "bounded_audit a \<longleftrightarrow> (case a of Audit_Stdout \<Rightarrow> True
     | Audit_Eventbridge arn ms mirror \<Rightarrow> js_trim arn \<noteq> [] \<and> 100 \<le> ms \<and> ms \<le> 5000)"

definition bounded_injection :: "reservation_failure_injection \<Rightarrow> bool" where
  "bounded_injection i \<longleftrightarrow> (case i of Injection_Off \<Rightarrow> True
     | Injection_Stable_Random rate salt \<Rightarrow> 0 < rate \<and> rate \<le> 1 \<and> salt \<noteq> [])"

definition config_ok :: "config \<Rightarrow> bool" where
  "config_ok c \<longleftrightarrow>
     (deployed (cf_NODE_ENV c) \<longrightarrow> cf_AUTH_MODE c = Oidc \<and> cf_PERSISTENCE_MODE c = Postgres \<and>
        cf_DEMO_AUTH c = Demo_Auth_Disabled \<and> cf_WORKER_MODE c = Worker_Disabled) \<and>
     (cf_PERSISTENCE_MODE c = Postgres \<longrightarrow> cf_DATABASE_URL c \<noteq> None) \<and>
     0 \<le> cf_DATABASE_POOL_MIN c \<and> 1 \<le> cf_DATABASE_POOL_MAX c \<and> cf_DATABASE_POOL_MIN c \<le> cf_DATABASE_POOL_MAX c \<and>
     1 \<le> cf_WORKER_POLL_INTERVAL_MS c \<and> 1 \<le> cf_WORKER_HEARTBEAT_INTERVAL_MS c \<and>
     cf_WORKER_HEARTBEAT_INTERVAL_MS c < cf_WORKER_LEASE_MS c \<and>
     0 \<le> cf_WORKER_MAX_LEASE_TIMEOUTS c \<and> 1 \<le> cf_WORKER_MAX_TRANSIENT_FAILURES c \<and>
     bounded_credentials (cf_DEMO_AUTH c) \<and> bounded_audit (cf_AUDIT c) \<and> bounded_injection (cf_FAILURE_INJECTION c)"

lemma config_selectors:
  assumes "super_refine s = []" "config_of_settings s = Inr c"
  shows "cf_AUTH_MODE c = ev_AUTH_MODE s" "cf_PERSISTENCE_MODE c = ev_PERSISTENCE_MODE s"
    "cf_NODE_ENV c = ev_NODE_ENV s" "cf_WORKER_MODE c = ev_WORKER_MODE s" "cf_DATABASE_URL c = ev_DATABASE_URL s"
    "cf_DATABASE_POOL_MIN c = ev_DATABASE_POOL_MIN s" "cf_DATABASE_POOL_MAX c = ev_DATABASE_POOL_MAX s"
    "cf_WORKER_POLL_INTERVAL_MS c = ev_WORKER_POLL_INTERVAL_MS s"
    "cf_WORKER_HEARTBEAT_INTERVAL_MS c = ev_WORKER_HEARTBEAT_INTERVAL_MS s"
    "cf_WORKER_LEASE_MS c = ev_WORKER_LEASE_MS s" "cf_WORKER_MAX_LEASE_TIMEOUTS c = ev_WORKER_MAX_LEASE_TIMEOUTS s"
    "cf_WORKER_MAX_TRANSIENT_FAILURES c = ev_WORKER_MAX_TRANSIENT_FAILURES s"
    "cf_DEMO_AUTH c = (if ev_DEMO_AUTH_ENABLED s
      then Demo_Auth_Enabled (the (ev_DEMO_AUTH_USERNAME s)) (the (ev_DEMO_AUTH_PASSWORD s)) else Demo_Auth_Disabled)"
    "cf_AUDIT c = (if ev_AUDIT_PUBLISHER s = P_Eventbridge
      then Audit_Eventbridge (the (ev_AUDIT_EVENT_BUS_ARN s)) (ev_AUDIT_PUBLISH_TIMEOUT_MS s)
        (ev_AUDIT_STDOUT_COMPARISON_MIRROR s) else Audit_Stdout)"
    "cf_FAILURE_INJECTION c = (if ev_FAILURE_INJECTION_MODE s = Injection_Disabled then Injection_Off
      else Injection_Stable_Random (ev_FAILURE_INJECTION_RATE s) (the (ev_FAILURE_INJECTION_SALT s)))"
  by (simp_all add: sym [OF assms(2) [unfolded config_of_settings_def settings_created [OF assms(1)] bind_err_simps
      sum.inject]])

lemma config_of_settings_ok:
  assumes "typed_settings s" "super_refine s = []" "config_of_settings s = Inr c"
  shows "config_ok c"
proof -
  note c = config_selectors [OF assms(2,3)]
  have modes: "ev_AUTH_MODE s = Oidc \<Longrightarrow> ev_PERSISTENCE_MODE s = Postgres"
    using assms(1) by (cases "ev_COMPOSITION_PROFILE s") (auto simp: typed_settings_def)
  note refined = assms(2) [unfolded super_refine_Nil not_blank] assms(1) [unfolded typed_settings_def]
  have "bounded_credentials (cf_DEMO_AUTH c)" using refined by (auto simp: c(13) bounded_credentials_def)
  moreover have "bounded_audit (cf_AUDIT c)" using refined by (auto simp: c(14) bounded_audit_def)
  moreover have "bounded_injection (cf_FAILURE_INJECTION c)"
    using refined by (auto simp: c(15) bounded_injection_def split: if_splits)
  moreover have "deployed (cf_NODE_ENV c) \<longrightarrow> cf_AUTH_MODE c = Oidc \<and> cf_PERSISTENCE_MODE c = Postgres \<and>
        cf_DEMO_AUTH c = Demo_Auth_Disabled \<and> cf_WORKER_MODE c = Worker_Disabled"
    using refined modes by (simp add: c)
  ultimately show ?thesis using refined by (simp add: config_ok_def c(1-12))
qed

lemma parsed_config_ok: "documented_zod number url zod \<Longrightarrow> parse_config zod ver env = Inr c \<Longrightarrow> config_ok c"
  by (auto elim!: parse_config_Inr intro: config_of_settings_ok)

text \<open>C33: a parsed configuration is safe to run, whatever the environment variables are. In staging and
  production it selects OIDC and Postgres, and neither demo authentication nor the fake worker;
  Postgres comes with a URL and consistent pool bounds; the worker polls and heartbeats at
  positive intervals, and renews its lease before it runs out; demo credentials are not blank and
  within the limits of the login; an EventBridge publisher has an ARN and a timeout of 100 to 5000
  milliseconds; and failure injection, when enabled, has a rate above 0 and at most 1.\<close>

theorem parsed_config_is_safe:
  assumes "documented_zod number url zod"
    and "parse_config zod ver env = Inr c"
  shows "(deployed (cf_NODE_ENV c) \<longrightarrow> cf_AUTH_MODE c = Oidc \<and> cf_PERSISTENCE_MODE c = Postgres \<and>
        cf_DEMO_AUTH c = Demo_Auth_Disabled \<and> cf_WORKER_MODE c = Worker_Disabled) \<and>
     (cf_PERSISTENCE_MODE c = Postgres \<longrightarrow> cf_DATABASE_URL c \<noteq> None) \<and>
     0 \<le> cf_DATABASE_POOL_MIN c \<and> 1 \<le> cf_DATABASE_POOL_MAX c \<and> cf_DATABASE_POOL_MIN c \<le> cf_DATABASE_POOL_MAX c \<and>
     1 \<le> cf_WORKER_POLL_INTERVAL_MS c \<and> 1 \<le> cf_WORKER_HEARTBEAT_INTERVAL_MS c \<and>
     cf_WORKER_HEARTBEAT_INTERVAL_MS c < cf_WORKER_LEASE_MS c \<and>
     0 \<le> cf_WORKER_MAX_LEASE_TIMEOUTS c \<and> 1 \<le> cf_WORKER_MAX_TRANSIENT_FAILURES c \<and>
     bounded_credentials (cf_DEMO_AUTH c) \<and> bounded_audit (cf_AUDIT c) \<and> bounded_injection (cf_FAILURE_INJECTION c)"
  using parsed_config_ok [OF assms] by (simp add: config_ok_def)

theorem parsed_config_is_safe_witness:
  "parse_config sample_zod ''1.0.0'' sample_env = Inr sample_config \<and> bounded_credentials (cf_DEMO_AUTH sample_config) \<and>
    cf_WORKER_HEARTBEAT_INTERVAL_MS sample_config < cf_WORKER_LEASE_MS sample_config"
  using parsed_config_is_safe [OF sample_zod_documented sample_parses] sample_parses by blast




end
