(* ===== verification/Graphql_Api.thy ===== *)
theory Graphql_Api
  imports Auth_Boundary System
begin

text \<open>
  The GraphQL API of \<open>src/src/presentation/graphql\<close>: its models and inputs as records,
  the mappers from the domain to them, and the resolvers, one definition per query or mutation,
  over the use cases of \<open>Service\<close>. The framework parses a request and calls one resolver
  with the context that the authentication middleware built.
\<close>

section \<open>Models\<close>

record authenticated_user_gql =
  ug_userId :: string
  ug_username :: string
  ug_email :: string
  ug_movieProviderId :: string
  ug_movieProviderCode :: "string option"
  ug_roles :: "user_role list"
  ug_scopes :: "string list"

record movie_gql =
  mg_id :: string
  mg_title :: string
  mg_rating :: string
  mg_durationMinutes :: int

record seat_gql =
  eg_id :: string
  eg_row :: string
  eg_number :: int

record screening_gql =
  cg_id :: string
  cg_movieId :: string
  cg_auditoriumId :: string
  cg_startsAt :: string
  cg_endsAt :: string
  cg_seats :: "seat_gql list"

record reservation_request_gql =
  qg_id :: string
  qg_screeningId :: string
  qg_seatIds :: "string list"
  qg_requestedByUserId :: string
  qg_status :: reservation_request_status

record reservation_gql =
  vg_id :: string
  vg_reservationRequestId :: string
  vg_screeningId :: string
  vg_seatIds :: "string list"
  vg_reservedByUserId :: string
  vg_confirmedAt :: string

record screening_seat_availability_gql =
  lg_seatId :: string
  lg_available :: bool

record screening_availability_gql =
  wg_screeningId :: string
  wg_seats :: "screening_seat_availability_gql list"

record request_reservation_input_gql =
  ig_screeningId :: string
  ig_seatIds :: "string list"

record movie_reservation_graphql_context =
  gc_req :: http_request
  gc_authenticatedUser :: authenticated_user
  gc_actor :: actor_context

text \<open>A nullable argument is absent, an explicit null, or given.\<close>

datatype nullable_arg = Arg_Absent | Arg_Null | Arg_Given string

section \<open>Mappers\<close>

definition to_authenticated_user_gql :: "authenticated_user \<Rightarrow> authenticated_user_gql" where
  "to_authenticated_user_gql u = \<lparr>ug_userId = us_userId u, ug_username = us_username u, ug_email = us_email u,
     ug_movieProviderId = us_movieProviderId u, ug_movieProviderCode = us_movieProviderCode u,
     ug_roles = us_roles u, ug_scopes = us_scopes u\<rparr>"

definition to_movie_gql :: "movie \<Rightarrow> movie_gql" where
  "to_movie_gql x = \<lparr>mg_id = mv_id x, mg_title = mv_title x, mg_rating = mv_rating x,
     mg_durationMinutes = mv_durationMinutes x\<rparr>"

definition to_seat_gql :: "seat \<Rightarrow> seat_gql" where
  "to_seat_gql x = \<lparr>eg_id = st_id x, eg_row = st_row x, eg_number = st_number x\<rparr>"

definition to_screening_gql :: "screening \<Rightarrow> seat list \<Rightarrow> screening_gql" where
  "to_screening_gql x seats = \<lparr>cg_id = sc_id x, cg_movieId = sc_movieId x, cg_auditoriumId = sc_auditoriumId x,
     cg_startsAt = sc_startsAt x, cg_endsAt = sc_endsAt x, cg_seats = List.map to_seat_gql seats\<rparr>"

definition to_reservation_request_gql :: "reservation_request \<Rightarrow> reservation_request_gql" where
  "to_reservation_request_gql r = \<lparr>qg_id = rr_id r, qg_screeningId = rr_screeningId r, qg_seatIds = rr_seatIds r,
     qg_requestedByUserId = rr_requestedByUserId r, qg_status = rr_status r\<rparr>"

definition to_reservation_gql :: "reservation \<Rightarrow> reservation_gql" where
  "to_reservation_gql v = \<lparr>vg_id = rv_id v, vg_reservationRequestId = rv_reservationRequestId v,
     vg_screeningId = rv_screeningId v, vg_seatIds = rv_seatIds v, vg_reservedByUserId = rv_reservedByUserId v,
     vg_confirmedAt = rv_confirmedAt v\<rparr>"

section \<open>Resolvers\<close>

definition me_query :: "movie_reservation_graphql_context \<Rightarrow> ('w, authenticated_user_gql) io" where
  "me_query ctx = ret (to_authenticated_user_gql (gc_authenticatedUser ctx))"

definition movies_query :: "'s movie_repository_ops \<Rightarrow> movie_reservation_graphql_context \<Rightarrow> ('s \<times> 'e, movie_gql list) io" where
  "movies_query R ctx = bind_io (list_movies R (gc_actor ctx)) (\<lambda>found. ret (List.map to_movie_gql found))"

text \<open>
  Only an absent argument means no filter: \<open>createMovieId\<close> of an explicit null reads
  \<open>trim\<close> of null.
\<close>

fun screening_input :: "nullable_arg \<Rightarrow> js_error + id option" where
  "screening_input Arg_Absent = Inr None"
| "screening_input Arg_Null = Inl (TypeError ''Cannot read properties of null (reading 'trim')'')"
| "screening_input (Arg_Given movieId) = bind_err (create_movie_id movieId) (\<lambda>i. Inr (Some i))"

definition screenings_query :: "'s movie_repository_ops \<Rightarrow> movie_reservation_graphql_context \<Rightarrow> nullable_arg \<Rightarrow>
    ('s \<times> 'e, screening_gql list) io" where
  "screenings_query R ctx movieId =
    bind_io (lift (screening_input movieId)) (\<lambda>screeningInput.
    bind_io (list_screenings R (gc_actor ctx) screeningInput) (\<lambda>found.
    bind_io (list_seats_for_screenings R (gc_actor ctx) (List.map sc_id found)) (\<lambda>seatsByScreeningId.
      ret (List.map (\<lambda>x. to_screening_gql x (case jm_get seatsByScreeningId (sc_id x) of
        None \<Rightarrow> [] | Some seats \<Rightarrow> seats)) found))))"

definition request_reservation_mutation :: "'s movie_repository_ops \<Rightarrow> 'e environment \<Rightarrow> movie_reservation_graphql_context \<Rightarrow>
    request_reservation_input_gql \<Rightarrow> ('s \<times> 'e, reservation_request_gql) io" where
  "request_reservation_mutation R E ctx input =
    bind_io (lift (create_screening_id (ig_screeningId input))) (\<lambda>screeningId.
    bind_io (lift (map_err create_seat_id (ig_seatIds input))) (\<lambda>seatIds.
    bind_io (request_reservation R E (gc_actor ctx) \<lparr>ri_screeningId = screeningId, ri_seatIds = seatIds\<rparr>)
      (\<lambda>r. ret (to_reservation_request_gql r))))"

definition reservation_request_status_query :: "'s movie_repository_ops \<Rightarrow> movie_reservation_graphql_context \<Rightarrow> string \<Rightarrow>
    ('s \<times> 'e, reservation_request_gql option) io" where
  "reservation_request_status_query R ctx i =
    bind_io (lift (create_reservation_request_id i)) (\<lambda>requestId.
    bind_io (get_reservation_request R (gc_actor ctx) requestId) (\<lambda>found.
      ret (map_option to_reservation_request_gql found)))"

definition reservation_result_query :: "'s movie_repository_ops \<Rightarrow> movie_reservation_graphql_context \<Rightarrow> string \<Rightarrow>
    ('s \<times> 'e, reservation_gql option) io" where
  "reservation_result_query R ctx requestId =
    bind_io (lift (create_reservation_request_id requestId)) (\<lambda>i.
    bind_io (get_reservation_by_request_id R (gc_actor ctx) i) (\<lambda>found.
      ret (map_option to_reservation_gql found)))"

definition screening_availability_query ::
  "(id \<Rightarrow> id \<Rightarrow> ('s, screening_availability option) io) \<Rightarrow> movie_reservation_graphql_context \<Rightarrow> string \<Rightarrow>
    ('s \<times> 'e, screening_availability_gql option) io" where
  "screening_availability_query reader ctx screeningId =
    bind_io (lift (create_screening_id screeningId)) (\<lambda>i.
    bind_io (screening_availability_read reader (gc_actor ctx) i) (\<lambda>found.
      ret (map_option (\<lambda>a. \<lparr>wg_screeningId = av_screeningId a, wg_seats =
        List.map (\<lambda>x. \<lparr>lg_seatId = sa_seatId x, lg_available = sa_available x\<rparr>) (av_seats a)\<rparr>) found)))"

text \<open>The queries of the API, each answered by its resolver.\<close>

datatype api_query =
    Me | Movies | Screenings nullable_arg | Reservation_Request_Status string | Reservation_Result string
  | Screening_Availability string

datatype api_answer =
    User_Answer authenticated_user_gql | Movies_Answer "movie_gql list" | Screenings_Answer "screening_gql list"
  | Request_Answer "reservation_request_gql option" | Reservation_Answer "reservation_gql option"
  | Availability_Answer "screening_availability_gql option"

fun answer :: "'s movie_repository_ops \<Rightarrow> (id \<Rightarrow> id \<Rightarrow> ('s, screening_availability option) io) \<Rightarrow>
    movie_reservation_graphql_context \<Rightarrow> api_query \<Rightarrow> ('s \<times> 'e, api_answer) io" where
  "answer R reader ctx Me = bind_io (me_query ctx) (\<lambda>x. ret (User_Answer x))"
| "answer R reader ctx Movies = bind_io (movies_query R ctx) (\<lambda>x. ret (Movies_Answer x))"
| "answer R reader ctx (Screenings i) = bind_io (screenings_query R ctx i) (\<lambda>x. ret (Screenings_Answer x))"
| "answer R reader ctx (Reservation_Request_Status i) =
    bind_io (reservation_request_status_query R ctx i) (\<lambda>x. ret (Request_Answer x))"
| "answer R reader ctx (Reservation_Result i) = bind_io (reservation_result_query R ctx i) (\<lambda>x. ret (Reservation_Answer x))"
| "answer R reader ctx (Screening_Availability i) =
    bind_io (screening_availability_query reader ctx i) (\<lambda>x. ret (Availability_Answer x))"

section \<open>What a tenant can see\<close>

definition owned_by :: "('a \<Rightarrow> id) \<Rightarrow> id \<Rightarrow> (id \<Rightarrow> 'a option) \<Rightarrow> id \<Rightarrow> 'a option" where
  "owned_by provider p f i = (case f i of None \<Rightarrow> None | Some x \<Rightarrow> if provider x = p then Some x else None)"

lemma owned_by_Some [simp]: "owned_by provider p f i = Some x \<longleftrightarrow> f i = Some x \<and> provider x = p"
  by (auto simp: owned_by_def split: option.splits if_splits)

abbreviation tenant_requests :: "id \<Rightarrow> store \<Rightarrow> id \<Rightarrow> reservation_request option" where
  "tenant_requests p s \<equiv> owned_by rr_movieProviderId p (lg_request (view s))"

abbreviation tenant_reservations :: "id \<Rightarrow> store \<Rightarrow> id \<Rightarrow> reservation option" where
  "tenant_reservations p s \<equiv> owned_by rv_movieProviderId p (lg_reservation (view s))"

text \<open>Two stores that hold the same data of provider \<open>p\<close>.\<close>

definition same_tenant_data :: "id \<Rightarrow> store \<Rightarrow> store \<Rightarrow> bool" where
  "same_tenant_data p s t \<longleftrightarrow>
     filter (\<lambda>x. mv_movieProviderId x = p) (jm_values (db_moviesById s)) =
       filter (\<lambda>x. mv_movieProviderId x = p) (jm_values (db_moviesById t)) \<and>
     filter (\<lambda>x. sc_movieProviderId x = p) (jm_values (db_screeningsById s)) =
       filter (\<lambda>x. sc_movieProviderId x = p) (jm_values (db_screeningsById t)) \<and>
     screening_for_provider s p = screening_for_provider t p \<and>
     filter (\<lambda>y. st_movieProviderId y = p) (jm_values (db_seatsById s)) =
       filter (\<lambda>y. st_movieProviderId y = p) (jm_values (db_seatsById t)) \<and>
     tenant_requests p s = tenant_requests p t \<and> tenant_reservations p s = tenant_reservations p t"

lemma same_tenant_data_refl [simp]: "same_tenant_data p s s"
  by (simp add: same_tenant_data_def)

lemma same_tenant_data_sym: "same_tenant_data p s t \<Longrightarrow> same_tenant_data p t s"
  by (simp add: same_tenant_data_def)

lemma filter_tenant: "filter (\<lambda>x. f x = p \<and> Q x) xs = filter Q (filter (\<lambda>x. f x = p) xs)"
  by (simp add: conj_commute)

lemma same_tenant_seats:
  assumes "same_tenant_data p s t"
  shows "seats_by_screening_id s p = seats_by_screening_id t p"
proof
  fix i
  show "seats_by_screening_id s p i = seats_by_screening_id t p i"
    using assms unfolding seats_by_screening_alt same_tenant_data_def filter_tenant [where f = st_movieProviderId]
    by (simp split: option.split)
qed

lemma same_tenant_screenings:
  assumes "same_tenant_data p s t"
  shows "fst (find_screenings_by_provider_id p mi s) = fst (find_screenings_by_provider_id p mi t)"
  using assms unfolding find_screenings_by_provider_id_def same_tenant_data_def filter_tenant [where f = sc_movieProviderId]
  by (simp del: filter_filter)

lemma same_tenant_occupied:
  assumes "store_inv s" "store_inv t" "same_tenant_data p s t"
  shows "set (occupied_seats s p i) = set (occupied_seats t p i)"
proof -
  have eq: "set (occupied_seats u p i) = {x. \<exists>j v. tenant_reservations p u j = Some v \<and> rv_screeningId v = i \<and> x \<in> set (rv_seatIds v)}"
    if "store_inv u" for u
    using that by (auto simp: set_eq_iff occupied_seats_iff store_inv_def)
  have "tenant_reservations p s = tenant_reservations p t" using assms(3) by (simp add: same_tenant_data_def)
  then show ?thesis unfolding eq [OF assms(1)] eq [OF assms(2)] by (rule arg_cong)
qed

lemma same_tenant_availability:
  assumes "store_inv s" "store_inv t" "same_tenant_data p s t"
  shows "fst (read_availability p i s) = fst (read_availability p i t)"
  using assms(3) same_tenant_occupied [OF assms] same_tenant_seats [OF assms(3)]
  by (simp add: read_availability_alt same_tenant_data_def)

text \<open>A request or reservation is answered exactly when the tenant owns it and the actor may read it.\<close>

abbreviation in_memory_answer :: "movie_reservation_graphql_context \<Rightarrow> api_query \<Rightarrow> (store \<times> 'e, api_answer) io" where
  "in_memory_answer \<equiv> answer in_memory_movie_repository read_availability"

lemma request_answer:
  "get_reservation_request in_memory_movie_repository actor i (s, e) =
   (Inr (case tenant_requests (ac_movieProviderId actor) s i of None \<Rightarrow> None
     | Some r \<Rightarrow> if can_read_reservation_request actor r then Some r else None), (s, e))"
  by (cases "lg_request (view s) i")
    (simp_all add: get_reservation_request_def in_memory_movie_repository_def find_reservation_request_by_id_def
      get_request_view on_db_app bind_io_def owned_by_def can_read_reservation_request_def)

lemma reservation_answer:
  assumes "store_inv s"
  shows "\<exists>found. get_reservation_by_request_id in_memory_movie_repository actor i (s, e) = (Inr found, (s, e)) \<and>
    (\<forall>v. found = Some v \<longleftrightarrow> (\<exists>j. tenant_reservations (ac_movieProviderId actor) s j = Some v) \<and>
       rv_reservationRequestId v = i \<and> can_read_reservation actor v)"
proof -
  have li: "ledger_inv (view s)" and mo: "maps_ok s" using assms by (simp_all add: store_inv_def)
  have own: "can_read_reservation actor v \<Longrightarrow> rv_movieProviderId v = ac_movieProviderId actor" for v
    by (simp add: can_read_reservation_def split: if_splits)
  let ?found = "List.find (\<lambda>v. rv_reservationRequestId v = i) (jm_values (db_reservationsById s))"
  have stored: "v \<in> set (jm_values (db_reservationsById s)) \<longleftrightarrow> (\<exists>j. lg_reservation (view s) j = Some v)" for v
    using reservations_values [OF mo] by auto
  have only: "w = v" if in_store: "w \<in> set (jm_values (db_reservationsById s))" "lg_reservation (view s) k = Some v"
    "rv_reservationRequestId w = rv_reservationRequestId v" for v w k
  proof -
    obtain j where j: "lg_reservation (view s) j = Some w" using iffD1 [OF stored in_store(1)] by (elim exE)
    from inv_reservation_unique [OF li j in_store(2,3)] show ?thesis using j in_store(2) by simp
  qed
  show ?thesis
  proof (cases ?found)
    case None
    then have run: "get_reservation_by_request_id in_memory_movie_repository actor i (s, e) = (Inr None, (s, e))"
      by (simp add: get_reservation_by_request_id_def in_memory_movie_repository_def
          find_reservation_by_request_id_def on_db_app bind_io_def)
    have "\<not> (lg_reservation (view s) j = Some v \<and> rv_reservationRequestId v = i)" for j v
      using None stored [of v] by (auto simp: find_None_iff)
    then show ?thesis using run by (intro exI [of _ None]) auto
  next
    case (Some w)
    then have w: "w \<in> set (jm_values (db_reservationsById s))" "rv_reservationRequestId w = i"
      by (auto simp: find_Some_iff)
    have run: "get_reservation_by_request_id in_memory_movie_repository actor i (s, e) =
        (Inr (if can_read_reservation actor w then Some w else None), (s, e))"
      using Some by (simp add: get_reservation_by_request_id_def in_memory_movie_repository_def
          find_reservation_by_request_id_def on_db_app bind_io_def)
    have "(if can_read_reservation actor w then Some w else None) = Some v \<longleftrightarrow>
        (\<exists>j. tenant_reservations (ac_movieProviderId actor) s j = Some v) \<and> rv_reservationRequestId v = i \<and>
        can_read_reservation actor v" for v
    proof
      assume "(if can_read_reservation actor w then Some w else None) = Some v"
      then have "w = v" "can_read_reservation actor v" by (simp_all split: if_splits)
      then show "(\<exists>j. tenant_reservations (ac_movieProviderId actor) s j = Some v) \<and> rv_reservationRequestId v = i \<and>
          can_read_reservation actor v"
        using w own [of v] stored [of v] by simp
    next
      assume "(\<exists>j. tenant_reservations (ac_movieProviderId actor) s j = Some v) \<and> rv_reservationRequestId v = i \<and>
          can_read_reservation actor v"
      then show "(if can_read_reservation actor w then Some w else None) = Some v"
        using only [OF w(1), of _ v] w(2) by auto
    qed
    then show ?thesis using run by blast
  qed
qed

lemma same_tenant_reservation:
  assumes "store_inv s" "store_inv t" "same_tenant_data (ac_movieProviderId actor) s t"
  shows "fst (get_reservation_by_request_id in_memory_movie_repository actor i (s, e)) =
    fst (get_reservation_by_request_id in_memory_movie_repository actor i (t, e))"
proof -
  obtain x where x: "get_reservation_by_request_id in_memory_movie_repository actor i (s, e) = (Inr x, (s, e))"
    "\<forall>v. x = Some v \<longleftrightarrow> (\<exists>j. tenant_reservations (ac_movieProviderId actor) s j = Some v) \<and>
       rv_reservationRequestId v = i \<and> can_read_reservation actor v"
    using reservation_answer [OF assms(1), of actor i e] by (elim exE conjE)
  obtain y where y: "get_reservation_by_request_id in_memory_movie_repository actor i (t, e) = (Inr y, (t, e))"
    "\<forall>v. y = Some v \<longleftrightarrow> (\<exists>j. tenant_reservations (ac_movieProviderId actor) t j = Some v) \<and>
       rv_reservationRequestId v = i \<and> can_read_reservation actor v"
    using reservation_answer [OF assms(2), of actor i e] by (elim exE conjE)
  have "tenant_reservations (ac_movieProviderId actor) s = tenant_reservations (ac_movieProviderId actor) t"
    using assms(3) by (simp add: same_tenant_data_def)
  then have "x = Some v \<longleftrightarrow> y = Some v" for v using spec [OF x(2), of v] spec [OF y(2), of v] by simp
  then have "x = y" by (metis not_Some_eq)
  then show ?thesis using x(1) y(1) by simp
qed

section \<open>Answers\<close>

lemma read_run: "m w = (r, w) \<Longrightarrow> bind_io m f w = (case r of Inl x \<Rightarrow> (Inl x, w) | Inr x \<Rightarrow> f x w)"
  by (simp add: bind_io_def split: sum.split)

lemma fst_bind_cong:
  assumes "fst (m v) = fst (m w)" "\<And>x. fst (f x (snd (m v))) = fst (f x (snd (m w)))"
  shows "fst (bind_io m f v) = fst (bind_io m f w)"
  using assms by (cases "m v"; cases "m w") (auto simp: bind_io_def split: sum.splits)

lemmas in_memory_reads = in_memory_movie_repository_def on_db_app movie_reads_pure

lemma same_tenant_request:
  assumes "same_tenant_data (ac_movieProviderId actor) s t"
  shows "fst (get_reservation_request in_memory_movie_repository actor i (s, e)) =
    fst (get_reservation_request in_memory_movie_repository actor i (t, e))"
  using assms by (simp add: request_answer same_tenant_data_def)

lemma answer_depends_on_tenant_data:
  assumes inv: "store_inv s" "store_inv t" and same: "same_tenant_data (ac_movieProviderId (gc_actor ctx)) s t"
  shows "fst (in_memory_answer ctx q (s, e)) = fst (in_memory_answer ctx q (t, e))"
proof (cases q)
  case Me
  then show ?thesis by (simp add: me_query_def)
next
  case Movies
  then show ?thesis
    using same by (simp add: movies_query_def list_movies_def in_memory_reads bind_io_def
        find_movies_by_provider_id_def same_tenant_data_def)
next
  case (Screenings i)
  have "fst (screenings_query in_memory_movie_repository ctx i (s, e)) =
      fst (screenings_query in_memory_movie_repository ctx i (t, e))"
    unfolding screenings_query_def
    by (intro fst_bind_cong)
      (use same_tenant_screenings [OF same] same_tenant_seats [OF same] in
        \<open>simp_all add: list_screenings_def list_seats_for_screenings_def in_memory_reads lift_def find_seats_by_screening_ids_def\<close>)
  then show ?thesis unfolding Screenings answer.simps by (intro fst_bind_cong) simp_all
next
  case (Reservation_Request_Status i)
  have "fst (reservation_request_status_query in_memory_movie_repository ctx i (s, e)) =
      fst (reservation_request_status_query in_memory_movie_repository ctx i (t, e))"
    unfolding reservation_request_status_query_def
    by (intro fst_bind_cong) (simp_all add: lift_def same_tenant_request [OF same])
  then show ?thesis unfolding Reservation_Request_Status answer.simps by (intro fst_bind_cong) simp_all
next
  case (Reservation_Result i)
  have "fst (reservation_result_query in_memory_movie_repository ctx i (s, e)) =
      fst (reservation_result_query in_memory_movie_repository ctx i (t, e))"
    unfolding reservation_result_query_def
    by (intro fst_bind_cong) (simp_all add: lift_def same_tenant_reservation [OF inv same])
  then show ?thesis unfolding Reservation_Result answer.simps by (intro fst_bind_cong) simp_all
next
  case (Screening_Availability i)
  have "fst (screening_availability_query read_availability ctx i (s, e)) =
      fst (screening_availability_query read_availability ctx i (t, e))"
    unfolding screening_availability_query_def screening_availability_read_def
    by (intro fst_bind_cong) (simp_all add: lift_def on_db_app same_tenant_availability [OF inv same])
  then show ?thesis unfolding Screening_Availability answer.simps by (intro fst_bind_cong) simp_all
qed

section \<open>Steps of the system\<close>

text \<open>The catalogue is fixed once the service runs.\<close>

lemma claimed_op_catalogue:
  assumes inv: "store_inv s"
  shows "catalogue (snd (reject_claimed c ra s)) = catalogue s" "catalogue (snd (release_claimed c fa s)) = catalogue s"
    "catalogue (snd (fail_claimed c fa s)) = catalogue s"
proof -
  have "catalogue (snd (reject_claimed c ra s)) = catalogue s \<and> catalogue (snd (release_claimed c fa s)) = catalogue s \<and>
      catalogue (snd (fail_claimed c fa s)) = catalogue s"
  proof (cases rule: owned_or_lost [of "view s" c])
    case (1 r m)
    from owned_effect_did [OF inv this] show ?thesis by (simp add: effect_def)
  next
    case 2
    from claimed_ops_lost(1-3) [OF this] show ?thesis by (metis snd_conv)
  qed
  then show "catalogue (snd (reject_claimed c ra s)) = catalogue s" "catalogue (snd (release_claimed c fa s)) = catalogue s"
    "catalogue (snd (fail_claimed c fa s)) = catalogue s" by blast+
qed

lemma step_catalogue:
  assumes inv: "system_inv y" and step: "system_step 1 y z"
  shows "catalogue (sy_store z) = catalogue (sy_store y)"
proof -
  have s: "store_inv (sy_store y)" using inv by (simp add: system_inv_def)
  show ?thesis
    using step
  proof cases
    case (save r ctx)
    then show ?thesis using save_request_law [OF s save(4,2,3), of ctx] by (simp add: prod_eq_iff)
  next
    case (heartbeat hb)
    then show ?thesis using heartbeat_claimed_law [OF s, of hb] by (simp add: prod_eq_iff)
  next
    case (claim input)
    then show ?thesis using claim_next_law [OF s, of input] by (simp add: prod_eq_iff)
  next
    case (reject c ra)
    then show ?thesis using claimed_op_catalogue [OF s] by simp
  next
    case (release c fa)
    then show ?thesis using claimed_op_catalogue [OF s] by simp
  next
    case (fail c fa)
    then show ?thesis using claimed_op_catalogue [OF s] by simp
  next
    case (confirm_begin ci)
    then show ?thesis by simp
  next
    case (confirm_finish ci p)
    obtain r conflict where p: "p = (r, conflict)" by fastforce
    obtain m where "owned (view (sy_store y)) (co_claimedWorkItem ci) r m"
      using inv confirm_finish(2) p by (auto simp: system_inv_def pending_ok_def)
    note f = owned_facts [OF _ this]
    have "ledger_inv (view (sy_store y))" using s by (simp add: store_inv_def)
    note f = f [OF this]
    show ?thesis
      using confirm_finish_free [OF f(2,4), of ci] confirm_finish_conflict [OF f(2,4), of ci] confirm_finish(1) p
      by (cases conflict) (auto simp: effect_def)
  qed
qed

text \<open>
  When the requests of a tenant are the same before and after, so are its reservations: a new
  one would belong to a request that was confirmed before, and that request has its reservation.
\<close>

lemma same_requests_same_reservations:
  assumes inv: "ledger_inv L" "ledger_inv L'" and ev: "evolves L L'"
    and same: "owned_by rr_movieProviderId p (lg_request L) = owned_by rr_movieProviderId p (lg_request L')"
  shows "owned_by rv_movieProviderId p (lg_reservation L) = owned_by rv_movieProviderId p (lg_reservation L')"
proof -
  have "lg_reservation L j = Some v" if v: "lg_reservation L' j = Some v" "rv_movieProviderId v = p" for j v
  proof -
    obtain q where q: "lg_request L' (rv_reservationRequestId v) = Some q" "rr_status q = CONFIRMED" "reservation_for q v"
      using inv_reservationD [OF inv(2) v(1)] by blast
    then have "owned_by rr_movieProviderId p (lg_request L') (rv_reservationRequestId v) = Some q"
      using v(2) by (simp add: reservation_for_def)
    then have "lg_request L (rv_reservationRequestId v) = Some q" unfolding same [symmetric] by simp
    from inv_confirmedD [OF inv(1) this q(2)] obtain k w where
      w: "lg_reservation L k = Some w" "rv_reservationRequestId w = rv_reservationRequestId v" by blast
    then have w': "lg_reservation L' k = Some w" using ev by (simp add: evolves_def)
    from inv_reservation_unique [OF inv(2) this v(1) w(2)] show ?thesis using w(1) w' v(1) by simp
  qed
  moreover have "lg_reservation L' j = Some v" if "lg_reservation L j = Some v" for j v
    using ev that by (simp add: evolves_def)
  ultimately have "owned_by rv_movieProviderId p (lg_reservation L) j = Some v \<longleftrightarrow>
      owned_by rv_movieProviderId p (lg_reservation L') j = Some v" for j v
    unfolding owned_by_Some by metis
  then show ?thesis by (intro ext) (metis not_Some_eq)
qed

lemma same_catalogue:
  assumes "catalogue s = catalogue t"
  shows "jm_values (db_moviesById s) = jm_values (db_moviesById t)" "jm_values (db_screeningsById s) = jm_values (db_screeningsById t)"
    "jm_values (db_seatsById s) = jm_values (db_seatsById t)" "screening_for_provider s = screening_for_provider t"
  using assms by (simp_all add: catalogue_def screening_for_provider_def fun_eq_iff)

section \<open>Properties\<close>

text \<open>C5: what a tenant is told depends on its own requests alone. Between two moments of a
  one-worker run at which every request of a provider is the same, every query of the GraphQL API
  gets the same answer from every actor of that provider, whatever requests of other providers were
  saved, claimed, confirmed or failed in between: movies, screenings with their seats, the status of
  a request, its reservation, and the availability of a screening.\<close>

theorem tenants_do_not_interfere:
  assumes "store_inv s0" "reachable 1 s0 y" "(system_step 1)\<^sup>*\<^sup>* y z"
    and "tenant_requests (ac_movieProviderId (gc_actor ctx)) (sy_store y) =
      tenant_requests (ac_movieProviderId (gc_actor ctx)) (sy_store z)"
  shows "fst (in_memory_answer ctx q (sy_store y, e)) = fst (in_memory_answer ctx q (sy_store z, e))"
proof -
  have run: "system_inv z \<and> evolves (view (sy_store y)) (view (sy_store z)) \<and> catalogue (sy_store z) = catalogue (sy_store y)"
    using assms(3)
  proof induction
    case base
    then show ?case using reachable_inv [OF assms(1,2)] by simp
  next
    case (step u v)
    then show ?case using system_step_inv [of u v] step_catalogue [of u v] evolves_trans by metis
  qed
  have inv: "store_inv (sy_store y)" "store_inv (sy_store z)"
    using reachable_inv [OF assms(1,2)] run by (simp_all add: system_inv_def)
  then have li: "ledger_inv (view (sy_store y))" "ledger_inv (view (sy_store z))" by (simp_all add: store_inv_def)
  have "same_tenant_data (ac_movieProviderId (gc_actor ctx)) (sy_store y) (sy_store z)"
    using same_catalogue [of "sy_store y" "sy_store z"] run assms(4)
      same_requests_same_reservations [OF li _ assms(4)]
    by (simp add: same_tenant_data_def)
  then show ?thesis by (rule answer_depends_on_tenant_data [OF inv])
qed

definition other_tenant :: movie_reservation_graphql_context where
  "other_tenant = \<lparr>gc_req = sample_req,
     gc_authenticatedUser = \<lparr>us_userId = ''u'', us_username = ''u'', us_email = ''e'', us_roles = [TENANT_ADMIN],
       us_scopes = [], us_movieProviderId = ''q'', us_movieProviderCode = None\<rparr>,
     gc_actor = \<lparr>ac_userId = ''u'', ac_movieProviderId = ''q'', ac_roles = [TENANT_ADMIN], ac_scopes = []\<rparr>\<rparr>"

lemma save_of_other_tenant:
  assumes inv: "store_inv s" and r: "request_ok r" "rr_status r = REQUESTED" "lg_next (view s) \<le> max_safe_integer"
    and p: "rr_movieProviderId r \<noteq> p"
  shows "tenant_requests p (snd (save_reservation_request r ctx s)) = tenant_requests p s"
proof -
  obtain u t where run: "save_reservation_request r ctx s = (u, t)" by fastforce
  show ?thesis
    using save_request_law [OF inv r(3,1,2) run] p run
    by (cases u) (auto simp: insert_request_def put_work_def owned_by_def fun_eq_iff)
qed

theorem tenants_do_not_interfere_witness:
  "(\<forall>q. fst (in_memory_answer other_tenant q (sy_store one_worker_trace, ())) =
     fst (in_memory_answer other_tenant q (sy_store (do_save ''r2'' one_worker_trace), ()))) \<and>
   lg_request (view (sy_store (do_save ''r2'' one_worker_trace))) ''r2'' \<noteq> None"
proof (intro conjI allI)
  fix q
  have n: "db_nextSequenceValue (sy_store one_worker_trace) \<le> max_safe_integer" by code_simp
  have r: "request_ok (trace_request i)" "rr_status (trace_request i) = REQUESTED" "rr_movieProviderId (trace_request i) = ''p''" for i
    by (simp_all add: trace_request_def request_ok_def)
  have inv: "store_inv (sy_store one_worker_trace)"
    using reachable_inv [OF empty_store_inv one_worker_trace_reachable] by (simp add: system_inv_def)
  have step: "system_step 1 one_worker_trace (do_save ''r2'' one_worker_trace)"
    unfolding do_save_def by (rule system_step.save) (use n r in \<open>simp_all add: view_def\<close>)
  show "fst (in_memory_answer other_tenant q (sy_store one_worker_trace, ())) =
      fst (in_memory_answer other_tenant q (sy_store (do_save ''r2'' one_worker_trace), ()))"
  proof (rule tenants_do_not_interfere [OF empty_store_inv one_worker_trace_reachable r_into_rtranclp, OF step])
    show "tenant_requests (ac_movieProviderId (gc_actor other_tenant)) (sy_store one_worker_trace) =
        tenant_requests (ac_movieProviderId (gc_actor other_tenant)) (sy_store (do_save ''r2'' one_worker_trace))"
      using save_of_other_tenant [OF inv r(1,2)] n r(3) [of "''r2''"]
      by (simp add: do_save_def other_tenant_def view_def)
  qed
  show "lg_request (view (sy_store (do_save ''r2'' one_worker_trace))) ''r2'' \<noteq> None"
    by code_simp
qed

text \<open>C12: a client reads its own write. When \<open>requestReservation\<close> answers, the request it
  answers with is stored as REQUESTED for the caller with the canonical ids of the input, and
  asking for the status of the answered id gives the same answer back, as does every later question
  until the request changes.\<close>

theorem request_reads_its_write:
  assumes "store_inv s" "lg_next (view s) \<le> max_safe_integer"
    and "request_reservation_mutation in_memory_movie_repository E ctx input (s, e) = (Inr g, (s', e'))"
    and "create_reservation_request_id (qg_id g) = Inr (qg_id g)"
  shows "qg_status g = REQUESTED \<and> qg_requestedByUserId g = ac_userId (gc_actor ctx) \<and>
    Inr (qg_screeningId g) = create_screening_id (ig_screeningId input) \<and>
    Inr (qg_seatIds g) = map_err create_seat_id (ig_seatIds input) \<and>
    in_memory_answer ctx (Reservation_Request_Status (qg_id g)) (s', e'') = (Inr (Request_Answer (Some g)), (s', e''))"
proof -
  obtain screeningId seatIds r where parts: "create_screening_id (ig_screeningId input) = Inr screeningId"
    "map_err create_seat_id (ig_seatIds input) = Inr seatIds" "g = to_reservation_request_gql r"
    "request_reservation in_memory_movie_repository E (gc_actor ctx)
       \<lparr>ri_screeningId = screeningId, ri_seatIds = seatIds\<rparr> (s, e) = (Inr r, (s', e'))"
    using assms(3) by (auto simp: request_reservation_mutation_def bind_io_def lift_def split: sum.splits prod.splits)
  note law = runsD [OF in_memory_movies.request_reservation_runs [OF assms(1,2)] parts(4)]
  then have acc: "in_memory_movies.accepted (gc_actor ctx) \<lparr>ri_screeningId = screeningId, ri_seatIds = seatIds\<rparr> s r"
    and stored: "lg_request (view s') (rr_id r) = Some r"
    by (auto simp: insert_request_def put_work_def)
  have "get_reservation_request in_memory_movie_repository (gc_actor ctx) (rr_id r) (s', e'') = (Inr (Some r), (s', e''))"
    using acc stored
    by (simp add: get_reservation_request_def in_memory_movie_repository_def find_reservation_request_by_id_def
        get_request_view on_db_app bind_io_def can_read_reservation_request_def in_memory_movies.accepted_def)
  then show ?thesis
    using acc parts assms(4)
    by (simp add: to_reservation_request_gql_def in_memory_movies.accepted_def reservation_request_status_query_def
        bind_io_def lift_def)
qed

definition api_store :: store where
  "api_store = empty_store\<lparr>
     db_screeningsById := [(''44444444-4444-4444-8444-444444444441'',
       \<lparr>sc_id = ''44444444-4444-4444-8444-444444444441'', sc_movieProviderId = ''q'', sc_movieId = ''m'',
        sc_auditoriumId = ''a'', sc_startsAt = ''2026-06-01T18:00:00.000Z'', sc_endsAt = ''2026-06-01T20:00:00.000Z''\<rparr>)],
     db_seatsById := [(''55555555-5555-4555-8555-55555555555a'',
       \<lparr>st_id = ''55555555-5555-4555-8555-55555555555a'', st_movieProviderId = ''q'', st_auditoriumId = ''a'',
        st_row = ''A'', st_number = 1\<rparr>)]\<rparr>"

definition api_environment :: "unit environment" where
  "api_environment = \<lparr>en_hrtime = ret 0, en_nowIsoString = ret ''2026-06-01T10:00:00.000Z'',
     en_randomUUID = ret ''uuid'', en_createClaimToken = None, en_generateReservationId = ret ''v1'',
     en_generateReservationRequestId = ret ''77777777-7777-4777-8777-777777777771'', en_currentContext = ret None,
     en_requestCreated = (\<lambda>_. ret ()), en_spanStart = (\<lambda>_. ret ()), en_spanError = (\<lambda>_. ret ()),
     en_spanEnd = ret (), en_claimed = (\<lambda>_. ret ()), en_outcome = (\<lambda>_. ret ()), en_exception = (\<lambda>_. ret ()),
     en_shouldFail = (\<lambda>_. ret False)\<rparr>"

text \<open>The seat id is given in upper case and comes back in lower case.\<close>

definition api_input :: request_reservation_input_gql where
  "api_input = \<lparr>ig_screeningId = ''44444444-4444-4444-8444-444444444441'',
     ig_seatIds = ['' 55555555-5555-4555-8555-55555555555A '']\<rparr>"

definition api_reply :: "js_error + reservation_request_gql" where
  "api_reply = fst (request_reservation_mutation in_memory_movie_repository api_environment other_tenant api_input (api_store, ()))"

lemma api_reply_value: "api_reply = Inr \<lparr>qg_id = ''77777777-7777-4777-8777-777777777771'',
    qg_screeningId = ''44444444-4444-4444-8444-444444444441'', qg_seatIds = [''55555555-5555-4555-8555-55555555555a''],
    qg_requestedByUserId = ''u'', qg_status = REQUESTED\<rparr>"
  by code_simp

lemma api_store_inv: "store_inv api_store" "lg_next (view api_store) \<le> max_safe_integer"
proof -
  have "view api_store = view empty_store" "maps_ok api_store = maps_ok empty_store"
    by (simp_all add: api_store_def view_def maps_ok_def)
  then show "store_inv api_store" using empty_store_inv by (simp add: store_inv_def)
  show "lg_next (view api_store) \<le> max_safe_integer"
    by (simp add: api_store_def view_def empty_store_def max_safe_integer_def)
qed

theorem request_reads_its_write_witness:
  "\<exists>g s'. request_reservation_mutation in_memory_movie_repository api_environment other_tenant api_input (api_store, ()) =
     (Inr g, (s', ())) \<and> qg_seatIds g = [''55555555-5555-4555-8555-55555555555a''] \<and>
     in_memory_answer other_tenant (Reservation_Request_Status (qg_id g)) (s', ()) = (Inr (Request_Answer (Some g)), (s', ()))"
proof -
  obtain r s' where run: "request_reservation_mutation in_memory_movie_repository api_environment other_tenant api_input
      (api_store, ()) = (r, (s', ()))" by (metis prod.collapse unit.exhaust)
  then have "r = api_reply" by (simp add: api_reply_def)
  then obtain g where g: "r = Inr g" "qg_id g = ''77777777-7777-4777-8777-777777777771''"
    "qg_seatIds g = [''55555555-5555-4555-8555-55555555555a'']"
    by (simp add: api_reply_value)
  have "create_reservation_request_id ''77777777-7777-4777-8777-777777777771'' = Inr ''77777777-7777-4777-8777-777777777771''"
    by code_simp
  then show ?thesis
    using request_reads_its_write [OF api_store_inv run [unfolded g(1)], of "()"] run g by simp
qed

end
