(* ===== verification/Composition.thy ===== *)
theory Composition
  imports Config Graphql_Api Processor_Observability Postgres_Availability Demo_Data
begin

text \<open>
  The composition of the service (\<open>src/src/app.module.ts\<close>, \<open>src/src/di\<close> and
  \<open>movie-reservations-graphql.module.ts\<close>). First the dependency injection as data: each
  provider with its token and the tokens its factory or constructor takes, in modules that import
  one another. Then what the factories build, as the operations the components of the model take.
\<close>

section \<open>Tokens, providers and modules\<close>

datatype di_token =
    AUTHENTICATION_MANAGER | TOKEN_VALIDATION_CLIENT | MOVIE_RESERVATION_REPOSITORY | RESERVATION_REQUEST_PROCESSOR
  | RESERVATION_REQUEST_WORK_REPOSITORY | RESERVATION_PROCESSING_FAILURE_POLICY | RESERVATION_WORKER_OPTIONS
  | IN_MEMORY_MOVIE_RESERVATION_STORE | POSTGRES_KNEX | RESERVATION_ID_GENERATOR | RESERVATION_REQUEST_ID_GENERATOR
  | CLOCK | RESERVATION_WORK_OBSERVABILITY_CONTEXT_PROVIDER | MOVIE_RESERVATION_OBSERVABILITY
  | AUTHENTICATION_AUDIT_RECORDER | READINESS_CHECKS
  | Authentication_Service | Authorization_Service | Movie_Reservations_Service | Screening_Availability_Service
  | Postgres_Knex_Lifecycle_Service | Fake_Reservation_Request_Worker_Service | Health_Service | Demo_Login_Service
  | Graphql_Authentication_Middleware | Movie_Reservations_Resolver | Screening_Availability_Resolver
  | Health_Controller | Demo_Auth_Controller

record provider =
  pv_provide :: di_token
  pv_inject :: "di_token list"

text \<open>A class is its own token; its injections are those of its constructor.\<close>

abbreviation provides :: "di_token \<Rightarrow> di_token list \<Rightarrow> provider" where
  "provides t ts \<equiv> \<lparr>pv_provide = t, pv_inject = ts\<rparr>"

datatype di_module = Di_Module (mod_imports: "di_module list") (mod_providers: "provider list")
  (mod_controllers: "provider list") (mod_exports: "di_token list")

section \<open>The movie reservation composition\<close>

definition create_authentication_service_provider :: provider where
  "create_authentication_service_provider = provides Authentication_Service [AUTHENTICATION_MANAGER]"

definition create_authentication_providers :: "auth_mode \<Rightarrow> js_error + provider list" where
  "create_authentication_providers mode =
    (if mode = Local_Fixed_User then
       Inr [provides AUTHENTICATION_MANAGER [], create_authentication_service_provider]
     else if mode = Local_Jwt then
       Inr [provides TOKEN_VALIDATION_CLIENT [], provides AUTHENTICATION_MANAGER [TOKEN_VALIDATION_CLIENT],
            create_authentication_service_provider]
     else Inl (Error ''OIDC token validation is not implemented yet''))"

definition create_postgres_persistence_providers :: "provider list" where
  "create_postgres_persistence_providers =
    [provides POSTGRES_KNEX [], provides Postgres_Knex_Lifecycle_Service [POSTGRES_KNEX],
     provides MOVIE_RESERVATION_REPOSITORY [POSTGRES_KNEX], provides RESERVATION_REQUEST_WORK_REPOSITORY [POSTGRES_KNEX]]"

definition create_in_memory_persistence_providers :: "provider list" where
  "create_in_memory_persistence_providers =
    [provides IN_MEMORY_MOVIE_RESERVATION_STORE [],
     provides MOVIE_RESERVATION_REPOSITORY [IN_MEMORY_MOVIE_RESERVATION_STORE],
     provides RESERVATION_REQUEST_WORK_REPOSITORY [IN_MEMORY_MOVIE_RESERVATION_STORE]]"

definition create_persistence_providers :: "persistence_mode \<Rightarrow> provider list" where
  "create_persistence_providers mode =
    (if mode = Postgres then create_postgres_persistence_providers else create_in_memory_persistence_providers)"

definition create_persistence_exports :: "persistence_mode \<Rightarrow> di_token list" where
  "create_persistence_exports mode = (if mode = In_Memory then [IN_MEMORY_MOVIE_RESERVATION_STORE] else [POSTGRES_KNEX])"

definition create_screening_availability_providers :: "persistence_mode \<Rightarrow> provider list" where
  "create_screening_availability_providers mode =
    [if mode = Postgres then provides Screening_Availability_Service [POSTGRES_KNEX]
     else provides Screening_Availability_Service [IN_MEMORY_MOVIE_RESERVATION_STORE]]"

definition create_failure_policy_providers :: "provider list" where
  "create_failure_policy_providers = [provides RESERVATION_PROCESSING_FAILURE_POLICY []]"

definition create_use_case_providers :: "provider list" where
  "create_use_case_providers =
    [provides Authorization_Service [], provides RESERVATION_ID_GENERATOR [],
     provides RESERVATION_REQUEST_ID_GENERATOR [], provides CLOCK [],
     provides RESERVATION_WORK_OBSERVABILITY_CONTEXT_PROVIDER [], provides MOVIE_RESERVATION_OBSERVABILITY [],
     provides RESERVATION_REQUEST_PROCESSOR [RESERVATION_REQUEST_WORK_REPOSITORY, RESERVATION_ID_GENERATOR, CLOCK,
       MOVIE_RESERVATION_OBSERVABILITY, RESERVATION_PROCESSING_FAILURE_POLICY],
     provides Movie_Reservations_Service [MOVIE_RESERVATION_REPOSITORY, Authorization_Service,
       RESERVATION_REQUEST_ID_GENERATOR, RESERVATION_WORK_OBSERVABILITY_CONTEXT_PROVIDER, MOVIE_RESERVATION_OBSERVABILITY]]"

definition worker_providers :: "reservation_worker_mode \<Rightarrow> provider list" where
  "worker_providers mode =
    (if mode = Worker_Disabled then []
     else [provides RESERVATION_WORKER_OPTIONS [], provides Fake_Reservation_Request_Worker_Service
       [RESERVATION_REQUEST_PROCESSOR, RESERVATION_REQUEST_WORK_REPOSITORY, CLOCK, RESERVATION_WORKER_OPTIONS]])"

record movie_reservations_composition_options =
  mo_authMode :: auth_mode
  mo_persistenceMode :: "persistence_mode option"
  mo_workerMode :: "reservation_worker_mode option"
  mo_failureInjection :: "reservation_failure_injection option"

definition create_providers :: "config \<Rightarrow> movie_reservations_composition_options \<Rightarrow> js_error + provider list" where
  "create_providers c options =
    (let persistenceMode = nullish_or (mo_persistenceMode options) In_Memory;
         reservationWorkerMode = nullish_or (mo_workerMode options) (cf_WORKER_MODE c) in
     bind_err (create_authentication_providers (mo_authMode options)) (\<lambda>authentication.
       Inr (authentication @ create_persistence_providers persistenceMode @
         create_screening_availability_providers persistenceMode @ create_failure_policy_providers @
         create_use_case_providers @ worker_providers reservationWorkerMode)))"

definition create_exports :: "persistence_mode \<Rightarrow> di_token list" where
  "create_exports mode =
    [Authentication_Service, Screening_Availability_Service, Authorization_Service, CLOCK] @
    create_persistence_exports mode @
    [MOVIE_RESERVATION_REPOSITORY, Movie_Reservations_Service, RESERVATION_ID_GENERATOR, MOVIE_RESERVATION_OBSERVABILITY,
     RESERVATION_REQUEST_ID_GENERATOR, RESERVATION_REQUEST_PROCESSOR, RESERVATION_REQUEST_WORK_REPOSITORY,
     RESERVATION_WORK_OBSERVABILITY_CONTEXT_PROVIDER]"

definition movie_reservations_composition_module ::
  "config \<Rightarrow> movie_reservations_composition_options \<Rightarrow> js_error + di_module" where
  "movie_reservations_composition_module c options =
    (let persistenceMode = nullish_or (mo_persistenceMode options) In_Memory in
     bind_err (create_providers c options) (\<lambda>ps. Inr (Di_Module [] ps [] (create_exports persistenceMode))))"

section \<open>The application\<close>

definition health_composition_module :: di_module where
  "health_composition_module =
    Di_Module [] [provides READINESS_CHECKS [], provides Health_Service [READINESS_CHECKS]] [] [Health_Service]"

definition health_module :: di_module where
  "health_module = Di_Module [health_composition_module] [] [provides Health_Controller [Health_Service]] []"

definition movie_reservations_graphql_module ::
  "config \<Rightarrow> movie_reservations_composition_options \<Rightarrow> js_error + di_module" where
  "movie_reservations_graphql_module c options =
    bind_err (movie_reservations_composition_module c options) (\<lambda>m. Inr (Di_Module [m]
      [provides AUTHENTICATION_AUDIT_RECORDER [],
       provides Graphql_Authentication_Middleware [Authentication_Service, AUTHENTICATION_AUDIT_RECORDER],
       provides Movie_Reservations_Resolver [Movie_Reservations_Service],
       provides Screening_Availability_Resolver [Screening_Availability_Service]] [] []))"

definition demo_auth_module :: "demo_auth_settings \<Rightarrow> di_module" where
  "demo_auth_module settings = (case settings of
     Demo_Auth_Disabled \<Rightarrow> Di_Module [] [] [] []
   | Demo_Auth_Enabled username password \<Rightarrow>
       Di_Module [] [provides Demo_Login_Service []] [provides Demo_Auth_Controller [Demo_Login_Service]] [])"

record app_module_options =
  am_overrides :: app_composition_overrides
  am_demoAuth :: "demo_auth_settings option"

definition composition_of :: "composition_options \<Rightarrow> movie_reservations_composition_options" where
  "composition_of opts = \<lparr>mo_authMode = co_authMode opts, mo_persistenceMode = Some (co_persistenceMode opts),
     mo_workerMode = Some (co_workerMode opts), mo_failureInjection = Some (co_failureInjection opts)\<rparr>"

text \<open>The module of the framework that serves GraphQL takes nothing from the others and is left out.\<close>

definition app_module_for_root :: "config \<Rightarrow> app_module_options \<Rightarrow> js_error + di_module" where
  "app_module_for_root c options =
    (let appComposition = create_app_composition (am_overrides options) c in
     bind_err (movie_reservations_graphql_module c (composition_of appComposition)) (\<lambda>graphql.
       Inr (Di_Module [health_module, graphql, demo_auth_module (nullish_or (am_demoAuth options) (cf_DEMO_AUTH c))]
         [] [] [])))"


section \<open>The container\<close>

text \<open>
  What the container can construct: a token another module exports to this one, or one of its
  own providers all of whose injections it can construct.
\<close>

inductive constructible :: "di_token set \<Rightarrow> provider list \<Rightarrow> di_token \<Rightarrow> bool" for imported ps where
  imported: "t \<in> imported \<Longrightarrow> constructible imported ps t"
| provided: "p \<in> set ps \<Longrightarrow> (\<And>d. d \<in> set (pv_inject p) \<Longrightarrow> constructible imported ps d) \<Longrightarrow>
    constructible imported ps (pv_provide p)"

text \<open>
  A module works when its tokens are provided once, every provider and controller can be
  constructed, what it exports is its own, and the modules it imports work.
\<close>

inductive wired :: "di_module \<Rightarrow> bool" where
  "(\<And>m. m \<in> set ims \<Longrightarrow> wired m) \<Longrightarrow> distinct (List.map pv_provide ps) \<Longrightarrow>
   (\<And>p. p \<in> set (ps @ cs) \<Longrightarrow> list_all (constructible (\<Union>m\<in>set ims. set (mod_exports m)) ps) (pv_inject p)) \<Longrightarrow>
   set es \<subseteq> pv_provide ` set ps \<Longrightarrow> wired (Di_Module ims ps cs es)"

text \<open>
  Construction in rounds. A round gives the tokens of the providers all of whose injections are
  available, and the providers left over.
\<close>

fun construct_round :: "di_token list \<Rightarrow> provider list \<Rightarrow> di_token list \<times> provider list" where
  "construct_round available [] = ([], [])"
| "construct_round available (p # ps) = (case construct_round available ps of (built, later) \<Rightarrow>
     if list_all (\<lambda>d. d \<in> set available) (pv_inject p) then (pv_provide p # built, later) else (built, p # later))"

fun buildable :: "nat \<Rightarrow> di_token list \<Rightarrow> provider list \<Rightarrow> bool" where
  "buildable 0 available ps = (ps = [])"
| "buildable (Suc n) available ps =
    (case construct_round available ps of (built, later) \<Rightarrow> buildable n (built @ available) later)"

lemma construct_round_eq: "construct_round available ps =
    (List.map pv_provide (filter (\<lambda>p. list_all (\<lambda>d. d \<in> set available) (pv_inject p)) ps),
     filter (\<lambda>p. \<not> list_all (\<lambda>d. d \<in> set available) (pv_inject p)) ps)"
  by (induction ps) auto

lemma buildable_constructible:
  assumes "buildable n available qs" "set qs \<subseteq> set ps" "\<And>d. d \<in> set available \<Longrightarrow> constructible imported ps d"
    and "p \<in> set qs"
  shows "list_all (constructible imported ps) (pv_inject p) \<and> constructible imported ps (pv_provide p)"
  using assms
proof (induction n available qs arbitrary: p rule: buildable.induct)
  case (2 n available qs)
  let ?now = "filter (\<lambda>p. list_all (\<lambda>d. d \<in> set available) (pv_inject p)) qs"
  have now: "list_all (constructible imported ps) (pv_inject q) \<and> constructible imported ps (pv_provide q)"
    if "q \<in> set ?now" for q
  proof
    show inj: "list_all (constructible imported ps) (pv_inject q)"
      using that 2(4) by (auto simp: list_all_iff)
    show "constructible imported ps (pv_provide q)"
      by (rule provided) (use that 2(3) inj in \<open>auto simp: list_all_iff\<close>)
  qed
  show ?case
  proof (cases "p \<in> set ?now")
    case False
    show ?thesis
      by (rule 2(1) [OF construct_round_eq [symmetric]]) (use 2 now False in \<open>auto simp: construct_round_eq\<close>)
  qed (rule now)
qed simp

text \<open>The check that is evaluated.\<close>

definition module_ok :: "di_module \<Rightarrow> bool" where
  "module_ok m \<longleftrightarrow>
     (let imported = concat (List.map mod_exports (mod_imports m)); ps = mod_providers m; own = List.map pv_provide ps in
      distinct own \<and> buildable (length ps) imported ps \<and>
      list_all (\<lambda>p. list_all (\<lambda>d. d \<in> set imported \<or> d \<in> set own) (pv_inject p)) (mod_controllers m) \<and>
      list_all (\<lambda>t. t \<in> set own) (mod_exports m))"

lemma module_ok_wired:
  assumes "module_ok m" "\<And>i. i \<in> set (mod_imports m) \<Longrightarrow> wired i"
  shows "wired m"
proof (cases m)
  case (Di_Module ims ps cs es)
  let ?imported = "concat (List.map mod_exports ims)"
  let ?C = "constructible (\<Union>m\<in>set ims. set (mod_exports m)) ps"
  have ok: "distinct (List.map pv_provide ps)" "buildable (length ps) ?imported ps"
    "\<And>p d. p \<in> set cs \<Longrightarrow> d \<in> set (pv_inject p) \<Longrightarrow> d \<in> set ?imported \<or> d \<in> pv_provide ` set ps"
    "set es \<subseteq> pv_provide ` set ps"
    using assms(1) by (auto simp: module_ok_def Di_Module Let_def list_all_iff)
  have imported: "d \<in> set ?imported \<Longrightarrow> ?C d" for d by (auto intro: constructible.imported)
  have built: "list_all ?C (pv_inject p) \<and> ?C (pv_provide p)" if "p \<in> set ps" for p
    by (rule buildable_constructible [OF ok(2) subset_refl imported that])
  have "list_all ?C (pv_inject p)" if "p \<in> set cs" for p
    using ok(3) [OF that] imported built by (fastforce simp: list_all_iff)
  then have "wired (Di_Module ims ps cs es)"
    by (intro wired.intros) (use assms(2) ok(1,4) built Di_Module in auto)
  then show ?thesis by (simp add: Di_Module)
qed

section \<open>Every composition is wired\<close>

lemma health_wired: "wired health_module"
proof -
  have "wired health_composition_module" by (rule module_ok_wired) (code_simp, simp add: health_composition_module_def)
  then show ?thesis by (rule_tac module_ok_wired) (code_simp, simp add: health_module_def)
qed

lemma demo_auth_wired: "wired (demo_auth_module settings)"
proof (rule module_ok_wired)
  show "module_ok (demo_auth_module settings)"
    by (cases settings) (simp_all add: demo_auth_module_def module_ok_def)
qed (simp add: demo_auth_module_def split: demo_auth_settings.splits)

definition composition_ok :: "auth_mode \<Rightarrow> persistence_mode \<Rightarrow> reservation_worker_mode \<Rightarrow> bool" where
  "composition_ok a p w =
    (case bind_err (create_authentication_providers a) (\<lambda>authentication. Inr (authentication @
        create_persistence_providers p @ create_screening_availability_providers p @ create_failure_policy_providers @
        create_use_case_providers @ worker_providers w)) of
       Inl e \<Rightarrow> a = Oidc \<and> e = Error ''OIDC token validation is not implemented yet''
     | Inr ps \<Rightarrow> a \<noteq> Oidc \<and> module_ok (Di_Module [] ps [] (create_exports p)) \<and>
         list_all (\<lambda>t. t \<in> set (create_exports p))
           [Authentication_Service, Movie_Reservations_Service, Screening_Availability_Service] \<and>
         AUTHENTICATION_AUDIT_RECORDER \<notin> set (create_exports p))"

lemma all_compositions_ok: "composition_ok a p w"
proof -
  have "list_all (\<lambda>a. list_all (\<lambda>p. list_all (composition_ok a p) [Worker_Disabled, Fake_In_Process])
      [In_Memory, Postgres]) [Local_Fixed_User, Local_Jwt, Oidc]"
    by code_simp
  then show ?thesis by (cases a; cases p; cases w) simp_all
qed

lemma composition_module_ok:
  "case movie_reservations_composition_module c options of
     Inl e \<Rightarrow> mo_authMode options = Oidc \<and> e = Error ''OIDC token validation is not implemented yet''
   | Inr m \<Rightarrow> mo_authMode options \<noteq> Oidc \<and> mod_imports m = [] \<and> module_ok m \<and>
       {Authentication_Service, Movie_Reservations_Service, Screening_Availability_Service} \<subseteq> set (mod_exports m) \<and>
       AUTHENTICATION_AUDIT_RECORDER \<notin> set (mod_exports m)"
  using all_compositions_ok [of "mo_authMode options" "nullish_or (mo_persistenceMode options) In_Memory"
      "nullish_or (mo_workerMode options) (cf_WORKER_MODE c)"]
  by (auto simp: composition_ok_def movie_reservations_composition_module_def create_providers_def Let_def
      bind_err_def split: sum.splits)

lemma graphql_module_wired:
  "case movie_reservations_graphql_module c options of
     Inl e \<Rightarrow> mo_authMode options = Oidc \<and> e = Error ''OIDC token validation is not implemented yet''
   | Inr m \<Rightarrow> mo_authMode options \<noteq> Oidc \<and> wired m \<and> mod_exports m = []"
proof (cases "movie_reservations_composition_module c options")
  case (Inl e)
  then show ?thesis using composition_module_ok [where c = c and options = options] by (simp add: movie_reservations_graphql_module_def)
next
  case (Inr m)
  then have m: "mod_imports m = []" "module_ok m" "mo_authMode options \<noteq> Oidc"
    "Authentication_Service \<in> set (mod_exports m)" "Movie_Reservations_Service \<in> set (mod_exports m)"
    "Screening_Availability_Service \<in> set (mod_exports m)" "AUTHENTICATION_AUDIT_RECORDER \<notin> set (mod_exports m)"
    using composition_module_ok [where c = c and options = options] by simp_all
  have wm: "wired m" by (rule module_ok_wired [OF m(2)]) (simp add: m(1))
  let ?g = "Di_Module [m]
      [provides AUTHENTICATION_AUDIT_RECORDER [],
       provides Graphql_Authentication_Middleware [Authentication_Service, AUTHENTICATION_AUDIT_RECORDER],
       provides Movie_Reservations_Resolver [Movie_Reservations_Service],
       provides Screening_Availability_Resolver [Screening_Availability_Service]] [] []"
  have "module_ok ?g" using m(4-7) by (simp add: module_ok_def Let_def)
  then have "wired ?g" by (rule module_ok_wired) (simp add: wm)
  then show ?thesis using Inr m(3) by (simp add: movie_reservations_graphql_module_def)
qed



section \<open>What the factories build\<close>

text \<open>The adapters for the port of persistence, which share one store or one connection pool.\<close>

record 's persistence =
  ps_repository :: "'s movie_repository_ops"
  ps_workRepository :: "'s work_repository_ops"
  ps_availabilityReader :: "id \<Rightarrow> id \<Rightarrow> ('s, screening_availability option) io"

definition in_memory_persistence :: "store persistence" where
  "in_memory_persistence = \<lparr>ps_repository = in_memory_movie_repository, ps_workRepository = in_memory_work_repository,
     ps_availabilityReader = read_availability\<rparr>"

definition postgres_persistence :: "'d engine \<Rightarrow> js_error \<Rightarrow> 'd persistence" where
  "postgres_persistence E zodError = \<lparr>ps_repository = postgres_movie_repository E,
     ps_workRepository = postgres_work_repository E, ps_availabilityReader = pg_read_availability E zodError\<rparr>"

text \<open>\<open>PostgresKnexLifecycleService\<close>: the pool is closed when the application stops.\<close>

definition postgres_knex_on_application_shutdown :: "('d, unit) io \<Rightarrow> ('d, unit) io" where
  "postgres_knex_on_application_shutdown destroy = destroy"

definition generate_random_reservation_id :: "('e, string) io \<Rightarrow> ('e, id) io" where
  "generate_random_reservation_id randomUUID = bind_io randomUUID (\<lambda>u. lift (create_reservation_id u))"

definition generate_random_reservation_request_id :: "('e, string) io \<Rightarrow> ('e, id) io" where
  "generate_random_reservation_request_id randomUUID = bind_io randomUUID (\<lambda>u. lift (create_reservation_request_id u))"

text \<open>\<open>new Date().toISOString()\<close>, of the milliseconds since 1970\<close>

definition system_clock_now_iso_string :: "('e, int) io \<Rightarrow> ('e, string) io" where
  "system_clock_now_iso_string now = bind_io now (\<lambda>t. lift (to_iso_string t))"

text \<open>
  The environment of the use cases and of the processor: the request-scoped context, the
  OpenTelemetry adapter, the random generators, the system clock and the failure policy.
\<close>

definition use_case_environment ::
  "'e telemetry \<Rightarrow> 'e processor_tracer \<Rightarrow> ('e, int) io \<Rightarrow> (id \<Rightarrow> bool) \<Rightarrow> 'e processor_world environment" where
  "use_case_environment T R now failurePolicy = otel_environment T R (application_logger_of T)
    \<lparr>en_hrtime = tl_hrtime T, en_nowIsoString = system_clock_now_iso_string now, en_randomUUID = tl_randomUUID T,
     en_createClaimToken = None, en_generateReservationId = generate_random_reservation_id (tl_randomUUID T),
     en_generateReservationRequestId = generate_random_reservation_request_id (tl_randomUUID T),
     en_currentContext = ret None, en_requestCreated = (\<lambda>_. ret ()), en_spanStart = (\<lambda>_. ret ()),
     en_spanError = (\<lambda>_. ret ()), en_spanEnd = ret (), en_claimed = (\<lambda>_. ret ()), en_outcome = (\<lambda>_. ret ()),
     en_exception = (\<lambda>_. ret ()), en_shouldFail = (\<lambda>i. ret (failurePolicy i))\<rparr>"

text \<open>The context of a GraphQL operation.\<close>

definition require_authenticated_user :: "request_identity \<Rightarrow> js_error + authenticated_user" where
  "require_authenticated_user i = (case id_authenticatedUser i of
     None \<Rightarrow> Inl (Error ''GraphQL authenticated user context was not initialized'') | Some u \<Rightarrow> Inr u)"

definition require_actor :: "request_identity \<Rightarrow> js_error + actor_context" where
  "require_actor i = (case id_actor i of
     None \<Rightarrow> Inl (Error ''GraphQL actor context was not initialized'') | Some a \<Rightarrow> Inr a)"

definition gql_context :: "http_request \<Rightarrow> request_identity \<Rightarrow> js_error + movie_reservation_graphql_context" where
  "gql_context req i = bind_err (require_authenticated_user i) (\<lambda>u. bind_err (require_actor i) (\<lambda>a.
     Inr \<lparr>gc_req = req, gc_authenticatedUser = u, gc_actor = a\<rparr>))"

text \<open>What the authentication middleware leaves on a request is what the context needs.\<close>

lemma gql_context_of_sound_identity:
  assumes "sound_identity i"
  obtains ctx where "gql_context req i = Inr ctx" "sound_user (gc_authenticatedUser ctx)"
    "gc_actor ctx = create_actor_context (gc_authenticatedUser ctx)"
  using assms by (auto simp: sound_identity_def gql_context_def require_authenticated_user_def require_actor_def
      split: option.splits)

text \<open>The generators never throw, and what they generate is canonical.\<close>

lemma generators_canonical:
  assumes "generates_uuids T"
  obtains u e' where "generate_random_reservation_id (tl_randomUUID T) e = (Inr u, e')"
    "generate_random_reservation_request_id (tl_randomUUID T) e = (Inr u, e')"
    "create_reservation_id u = Inr u" "create_reservation_request_id u = Inr u"
proof -
  obtain u e' where u: "tl_randomUUID T e = (Inr u, e')" and "matches_classes uuid_lower_pattern u"
    using assms by (rule generates_uuidsE)
  have ids: "create_reservation_id u = Inr u" "create_reservation_request_id u = Inr u"
    unfolding create_id_defs by (rule lower_uuid_accepted, fact)+
  have steps: "generate_random_reservation_id (tl_randomUUID T) e = (Inr u, e')"
    "generate_random_reservation_request_id (tl_randomUUID T) e = (Inr u, e')"
    by (simp_all add: generate_random_reservation_id_def generate_random_reservation_request_id_def
        bind_io_def u ids)
  show ?thesis by (rule that [OF steps ids])
qed

end
