(* ===== verification/Booking.thy ===== *)
theory Booking
  imports Draining Graphql_Api
begin

text \<open>
  From the request to the reservation: a request whose seats are free is booked by the first pass
  of a worker that claims it, and the client who asked for it is told so.
\<close>

section \<open>A work item with nothing in its way\<close>

text \<open>Nothing stands in the way of a work item: its seats are free, the failure policy lets it pass,
  and the ids that are generated are new.\<close>

definition ready_to_book :: "ledger \<Rightarrow> 'e environment \<Rightarrow> claimed_reservation_request \<Rightarrow> bool" where
  "ready_to_book L E c \<longleftrightarrow>
     (\<forall>j w. lg_reservation L j = Some w \<longrightarrow>
        \<not> seats_conflict (rr_screeningId (cl_reservationRequest c)) (rr_seatIds (cl_reservationRequest c)) w) \<and>
     (\<forall>e i. fst (en_shouldFail E i e) = Inr False) \<and>
     (\<forall>e. \<exists>j. fst (en_generateReservationId E e) = Inr j \<and> lg_reservation L j = None)"

context reliable_work_repository
begin

lemma confirm_item_returns:
  assumes calm: "calm_environment options input E" and ready: "ready_to_book (ledger s) E c" and ok: "sound s"
    and o: "owned (ledger s) c (cl_reservationRequest c) m"
  shows "runs (confirm_claimed_work_item W E c startedAt) (s, e) (\<lambda>res w. \<not> isl res)"
proof -
  let ?r = "cl_reservationRequest c"
  obtain i e1 where i: "en_generateReservationId E e = (Inr i, e1)" "lg_reservation (ledger s) i = None"
    using ready unfolding ready_to_book_def by (metis prod.collapse)
  have now: "gives_value (en_nowIsoString E)" using calm by (simp add: calm_environment_def)
  obtain t e2 where t: "en_nowIsoString E e1 = (Inr t, e2)" using gives_valueD [OF now] by (metis prod.collapse)
  obtain u e3 where u: "en_nowIsoString E e2 = (Inr u, e3)" using gives_valueD [OF now] by (metis prod.collapse)
  have "lg_request (ledger s) (rr_id ?r) = Some ?r" using o by (simp add: owned_def)
  then have r: "request_ok ?r" by (rule inv_requestD [OF inv_ledger [OF ok]])
  let ?v = "\<lparr>rv_id = i, rv_movieProviderId = rr_movieProviderId ?r, rv_reservationRequestId = rr_id ?r,
      rv_screeningId = rr_screeningId ?r, rv_seatIds = rr_seatIds ?r, rv_reservedByUserId = rr_requestedByUserId ?r,
      rv_confirmedAt = t\<rparr>"
  let ?ci = "\<lparr>co_claimedWorkItem = c, co_reservation = ?v, co_attempt =
      \<lparr>at_reservationRequestId = rr_id ?r, at_sequence = cl_sequence c, at_startedAt = startedAt,
       at_completedAt = u, at_reservationId = i\<rparr>\<rparr>"
  have v: "create_reservation ?v = Inr ?v" using r by (simp add: create_reservation_Inr request_ok_def)
  have "fst (wr_confirm W ?ci s) \<noteq> Inl x" for x by (rule confirm_total [OF ok, of ?ci]) (use o i in simp_all)
  then obtain q s' where q: "wr_confirm W ?ci s = (Inr q, s')" by (metis obj_sumE prod.collapse)
  show ?thesis
    by (cases q) (simp_all add: confirm_claimed_work_item_def Let_def bind_io_def runs_def on_env_app on_db_app i t u v q)
qed

lemma confirmed_when_ready:
  assumes "ready_to_book L E c" "terminal_result R" "settled L c m options R L'"
  obtains a q v where "R = Confirmed_Result a q v"
  using assms by (cases R) (auto simp: ready_to_book_def)

lemma try_work_item_books:
  assumes calm: "calm_environment options input E" and ready: "ready_to_book (ledger s) E c" and ok: "sound s"
    and fits: "environment_fits time_ok id_ok E" "time_ok startedAt"
    and o: "owned (ledger s) c (cl_reservationRequest c) m"
  shows "runs (try_work_item W E c startedAt d) ((s, e), False) (\<lambda>res w. \<exists>a q v. res = Inr (Confirmed_Result a q v) \<and>
    sound (fst (fst w)) \<and> settled (ledger s) c m options (Confirmed_Result a q v) (ledger (fst (fst w))))"
proof -
  let ?r = "cl_reservationRequest c"
  obtain f s1 where f: "wr_findConflict W (rr_screeningId ?r) (rr_seatIds ?r) s = (f, s1)" by fastforce
  have "lg_request (ledger s) (rr_id ?r) = Some ?r" using o by (simp add: owned_def)
  note law = find_law [OF ok this f]
  have "f \<noteq> Inl x" for x using find_total [OF ok] f by (metis fst_conv)
  then have f': "f = Inr None"
    using law ready by (cases f; cases "projr f") (auto simp: ready_to_book_def)
  have s1: "sound s1" "ready_to_book (ledger s1) E c" "owned (ledger s1) c ?r m" using law ready o by simp_all
  have "fst (en_shouldFail E (rr_id ?r) e) = Inr False" using ready by (simp add: ready_to_book_def)
  then obtain e1 where "en_shouldFail E (rr_id ?r) e = (Inr False, e1)" by (metis prod.collapse)
  then have p: "throw_if_failure_policy_blocks E c e = (Inr (), e1)"
    by (simp add: throw_if_failure_policy_blocks_def bind_io_def)
  have commit: "runs (confirm_claimed_work_item W E c startedAt) (s1, e1) (\<lambda>res w. \<not> isl res)"
    by (rule confirm_item_returns [OF calm s1(2,1,3)])
  have "runs (persist_terminal E c d (confirm_claimed_work_item W E c startedAt)) ((s1, e1), False) (\<lambda>res w. \<not> isl res)"
    unfolding persist_terminal_def then_bind
    by (rule runs_bind, rule runs_on_db, unfold fst_conv snd_conv, rule runs_mono [OF commit])
      (auto split: sum.split intro!: runs_bind [of "modify _"] runs_modify runs_inner_env_calm [OF calm_outcome [OF calm]] runs_pure)
  then have "runs (try_work_item W E c startedAt d) ((s, e), False) (\<lambda>res w. \<not> isl res)"
    using f f' p by (simp add: try_work_item_def runs_def bind_io_def on_db_app on_env_app)
  from runs_both [OF try_work_item_tried [OF ok fits o, where options = options] this] show ?thesis
    by (rule runs_mono) (auto simp: tried_def elim!: confirmed_when_ready [OF ready])
qed

lemma process_claimed_books:
  assumes calm: "calm_environment options input E" and ready: "ready_to_book (ledger s) E c" and ok: "sound s"
    and fits: "environment_fits time_ok id_ok E" "time_ok startedAt"
    and o: "owned (ledger s) c (cl_reservationRequest c) m"
  shows "runs (process_claimed_work_item W E options input c startedAt d) (s, e) (\<lambda>res w. \<exists>a q v.
    res = Inr (Confirmed_Result a q v) \<and> sound (fst w) \<and>
    settled (ledger s) c m options (Confirmed_Result a q v) (ledger (fst w)))"
    (is "runs _ _ ?Q")
proof -
  have main: "runs (with_local False (catch_io (try_work_item W E c startedAt d)
      (catch_work_item W E options c startedAt d))) (s, e') ?Q" for e'
    by (rule runs_local, rule runs_catch, rule runs_mono [OF try_work_item_books [OF assms]]) auto
  have "gives_value (record_claimed_work_item E c)"
    "\<And>f. pi_onClaimed input = Some f \<Longrightarrow> gives_value (f c)"
    using calm by (simp_all add: calm_environment_def record_claimed_work_item_def)
  then show ?thesis
    unfolding process_claimed_work_item_def then_bind
    by (cases "pi_onClaimed input") (auto simp del: settled.simps intro!: runs_env_calm main runs_bind [of "ret ()"] runs_pure)
qed

end

section \<open>The only open request\<close>

definition only_open :: "ledger \<Rightarrow> id \<Rightarrow> bool" where
  "only_open L i \<longleftrightarrow> (\<forall>j q. lg_request L j = Some q \<longrightarrow> j \<noteq> i \<longrightarrow> terminal_status (rr_status q))"

lemma only_open_claimed:
  assumes inv: "store_inv s" and r: "lg_request (view s) i = Some r" "rr_status r = REQUESTED"
    and m: "lg_metadata (view s) i = Some m" "md_transientFailureCount m < ci_maxTransientFailures ci"
    and lone: "only_open (view s) i" and run: "claim_next ci s = (res, s1)"
  shows "res = Inr (Some (claimed_item ci r m)) \<and> store_inv s1 \<and>
    view s1 = put_work (r\<lparr>rr_status := PROCESSING\<rparr>) (claimed_metadata ci (work_item ci r m)) (view s)"
proof -
  have el: "eligible (view s) ci i r m" using r m by (simp add: eligible_def claimable_def)
  have only: "j = i \<and> q = r \<and> n = m" if "eligible (view s) ci j q n" for j q n
  proof -
    have "\<not> terminal_status (rr_status q)" "lg_request (view s) j = Some q" "lg_metadata (view s) j = Some n"
      using that claimable_status [of ci q n] by (auto simp: eligible_def terminal_status_def)
    moreover from this have "j = i" using lone unfolding only_open_def by blast
    ultimately show ?thesis using r(1) m(1) by simp
  qed
  show ?thesis
  proof (cases rule: claim_next_cases [OF inv, of ci, case_names none exhausted claimed])
    case none
    then show ?thesis using el by blast
  next
    case (exhausted q n)
    then show ?thesis using only [of "rr_id q" q n] r(2)
      by (simp add: oldest_eligible_def lease_exhausted_def is_expired_processing_request_def)
  next
    case (claimed q n)
    then have "q = r" "n = m" using only [of "rr_id q" q n] by (simp_all add: oldest_eligible_def)
    then show ?thesis using effect_cases [OF claimed(3) run] claim_next_law [OF inv run] by simp
  qed
qed

text \<open>A calm environment in which nothing stands in the way of the request \<open>r\<close>.\<close>

definition booking_environment ::
  "processor_options \<Rightarrow> 'e processing_input \<Rightarrow> 'e environment \<Rightarrow> ledger \<Rightarrow> id \<Rightarrow> id list \<Rightarrow> bool" where
  "booking_environment options input E L screening seats \<longleftrightarrow> calm_environment options input E \<and>
     (\<forall>j w. lg_reservation L j = Some w \<longrightarrow> \<not> seats_conflict screening seats w) \<and>
     (\<forall>e i. fst (en_shouldFail E i e) = Inr False) \<and>
     (\<forall>e. \<exists>j. fst (en_generateReservationId E e) = Inr j \<and> lg_reservation L j = None)"

lemma only_open_booked:
  fixes E :: "'e environment"
  assumes inv: "store_inv s" and r: "lg_request (view s) i = Some r" "rr_status r = REQUESTED"
    and m: "lg_metadata (view s) i = Some m" "md_transientFailureCount m < po_maxTransientFailures options"
    and lone: "only_open (view s) i"
    and env: "booking_environment options input E (view s) (rr_screeningId r) (rr_seatIds r)"
  obtains a v s' e' where "process_next_pending_request in_memory_work_repository E options input (s, e) =
      (Inr (Confirmed_Result a (r\<lparr>rr_status := CONFIRMED\<rparr>) v), (s', e'))"
    "store_inv s'" "reservation_for r v" "lg_request (view s') = (lg_request (view s))(i \<mapsto> r\<lparr>rr_status := CONFIRMED\<rparr>)"
    "lg_reservation (view s') = (lg_reservation (view s))(rv_id v \<mapsto> v)"
proof -
  let ?q = "r\<lparr>rr_status := CONFIRMED\<rparr>"
  let ?P = "\<lambda>R t. \<exists>a v. R = Confirmed_Result a ?q v \<and> store_inv t \<and> reservation_for r v \<and>
    lg_request (view t) = (lg_request (view s))(i \<mapsto> ?q) \<and> lg_reservation (view t) = (lg_reservation (view s))(rv_id v \<mapsto> v)"
  have i: "rr_id r = i" using inv_request_id [OF _ r(1)] inv by (simp add: store_inv_def)
  have claim: "claimed = Some (claimed_item ci r m) \<and> store_inv s1 \<and>
      view s1 = put_work (r\<lparr>rr_status := PROCESSING\<rparr>) (claimed_metadata ci (work_item ci r m)) (view s)"
    if "claim_options options ci" "wr_claimNext in_memory_work_repository ci s = (Inr claimed, s1)" for ci claimed s1
    using only_open_claimed [OF inv r m(1) _ lone, of ci "Inr claimed" s1] that m(2)
    by (simp add: claim_options_def in_memory_work_repository_def)
  have item: "runs (process_claimed_work_item in_memory_work_repository E options input c startedAt d) (s1, e1)
      (\<lambda>res w. \<exists>R. res = Inr R \<and> ?P R (fst w))"
    if ci: "claim_options options ci" "wr_claimNext in_memory_work_repository ci s = (Inr (Some c), s1)"
    for ci c s1 e1 d startedAt
  proof -
    from claim [OF ci] have c: "c = claimed_item ci r m" and s1: "store_inv s1"
      "view s1 = put_work (r\<lparr>rr_status := PROCESSING\<rparr>) (claimed_metadata ci (work_item ci r m)) (view s)" by simp_all
    have rq: "cl_reservationRequest c = r\<lparr>rr_status := PROCESSING\<rparr>" by (simp add: c claimed_item_def)
    have o: "owned (view s1) c (cl_reservationRequest c) (claimed_metadata ci (work_item ci r m))"
      by (simp add: s1(2) c owned_def put_work_def claimed_item_def claimed_metadata_def work_item_def)
    have ready: "ready_to_book (view s1) E c"
      using env by (simp add: ready_to_book_def booking_environment_def s1(2) rq put_work_def)
    have calm: "calm_environment options input E" using env by (simp add: booking_environment_def)
    show ?thesis
      by (rule runs_mono [OF in_memory_total.process_claimed_books [OF calm ready s1(1) environment_fits_any TrueI o]])
        (auto simp: rq s1(2) i reservation_for_def change_defs)
  qed
  have "runs (process_next_pending_request in_memory_work_repository E options input) (s, e)
      (\<lambda>res w. \<exists>R. res = Inr R \<and> ?P R (fst w))"
  proof (rule in_memory_total.process_next_runs [OF _ inv environment_fits_any])
    show "calm_environment options input E" using env by (simp add: booking_environment_def)
  next
    fix ci s1 assume "claim_options options ci" "wr_claimNext in_memory_work_repository ci s = (Inr None, s1)"
    from claim [OF this] show "?P No_Pending_Request s1" by simp
  qed (rule item)
  then show ?thesis
    using that by (cases "process_next_pending_request in_memory_work_repository E options input (s, e)")
      (auto dest!: runsD)
qed

section \<open>From the request to the reservation\<close>

lemma accepted_mutation:
  assumes "store_inv s" "lg_next (view s) \<le> max_safe_integer"
    and "request_reservation_mutation in_memory_movie_repository A ctx input (s, e) = (Inr g, (s1, e1))"
  obtains r octx where "g = to_reservation_request_gql r" "store_inv s1"
    "view s1 = insert_request r octx (view s)" "rr_status r = REQUESTED" "lg_request (view s) (rr_id r) = None"
    "rr_movieProviderId r = ac_movieProviderId (gc_actor ctx)" "rr_requestedByUserId r = ac_userId (gc_actor ctx)"
proof -
  obtain ri r where parts: "g = to_reservation_request_gql r"
    "request_reservation in_memory_movie_repository A (gc_actor ctx) ri (s, e) = (Inr r, (s1, e1))"
    using assms(3) by (auto simp: request_reservation_mutation_def bind_io_def lift_def split: sum.splits prod.splits)
  from runsD [OF in_memory_movies.request_reservation_runs [OF assms(1,2)] parts(2)]
  show ?thesis by (auto simp: in_memory_movies.accepted_def intro: that [OF parts(1)])
qed

lemma own_reservation_answer:
  assumes inv: "store_inv s" and v: "lg_reservation (view s) (rv_id v) = Some v" "rv_reservationRequestId v = i"
    and own: "rv_movieProviderId v = ac_movieProviderId (gc_actor ctx)" "rv_reservedByUserId v = ac_userId (gc_actor ctx)"
    and i: "create_reservation_request_id i = Inr i"
  shows "in_memory_answer ctx (Reservation_Result i) (s, e) = (Inr (Reservation_Answer (Some (to_reservation_gql v))), (s, e))"
proof -
  have c: "can_read_reservation (gc_actor ctx) v" using own by (simp add: can_read_reservation_def)
  obtain found where f: "get_reservation_by_request_id in_memory_movie_repository (gc_actor ctx) i (s, e) = (Inr found, (s, e))"
    "\<forall>v. found = Some v \<longleftrightarrow> (\<exists>j. tenant_reservations (ac_movieProviderId (gc_actor ctx)) s j = Some v) \<and>
       rv_reservationRequestId v = i \<and> can_read_reservation (gc_actor ctx) v"
    using reservation_answer [OF inv, of "gc_actor ctx" i e] by (elim exE conjE)
  have "found = Some v" using f(2) v own c by auto
  then show ?thesis using f(1) i by (simp add: reservation_result_query_def bind_io_def lift_def)
qed

lemma own_request_answer:
  assumes "lg_request (view s) (rr_id r) = Some r" "rr_movieProviderId r = ac_movieProviderId (gc_actor ctx)"
    "rr_requestedByUserId r = ac_userId (gc_actor ctx)" "create_reservation_request_id (rr_id r) = Inr (rr_id r)"
  shows "in_memory_answer ctx (Reservation_Request_Status (rr_id r)) (s, e) =
    (Inr (Request_Answer (Some (to_reservation_request_gql r))), (s, e))"
  using assms by (simp add: reservation_request_status_query_def bind_io_def lift_def request_answer owned_by_def
      can_read_reservation_request_def)


lemma api_environment_books:
  "booking_environment default_processor_options \<lparr>pi_claimToken = None, pi_onClaimed = None\<rparr> api_environment
     (view api_store) i js"
proof -
  have lease: "\<exists>u. add_milliseconds ''2026-06-01T10:00:00.000Z'' (po_claimLeaseMs default_processor_options) = Inr u"
    by (rule exI [of _ "projr (add_milliseconds ''2026-06-01T10:00:00.000Z'' (po_claimLeaseMs default_processor_options))"])
      code_simp
  have "lg_reservation (view api_store) j = None" for j by (simp add: api_store_def view_def empty_store_def)
  then show ?thesis
    using lease by (simp add: booking_environment_def calm_environment_def api_environment_def gives_value_def claim_token_def)
qed


end
