(* ===== verification/Database_Tools.thy ===== *)
theory Database_Tools
  imports Postgres_Effects Authentication Reference_Engine
begin

text \<open>
  The command-line tools of the database (\<open>infrastructure/database/seed-local.ts\<close> and
  \<open>migrate.ts\<close>). Seeding writes the demo catalogue with one upsert per table in a transaction;
  as the other statements, an upsert is data and its documented effect a relation. The migration
  runner reads what the query builder reports, whose shape it does not trust.
\<close>

section \<open>Upserts\<close>

text \<open>\<open>insert(rows).onConflict(columns)\<close>, followed by \<open>merge()\<close>, \<open>merge(columns)\<close>
  or \<open>ignore()\<close>.\<close>

datatype on_conflict = Merge_Inserted | Merge_Columns "string list" | Ignore_Conflict

record upsert =
  up_table :: string
  up_rows :: "(string \<times> param) list list"
  up_conflict :: "string list"
  up_action :: on_conflict

definition merged_columns :: "upsert \<Rightarrow> string list" where
  "merged_columns u = (case up_action u of
     Merge_Inserted \<Rightarrow> concat (List.map (List.map fst) (up_rows u)) | Merge_Columns cs \<Rightarrow> cs | Ignore_Conflict \<Rightarrow> [])"

definition row_conflicts :: "string list \<Rightarrow> row \<Rightarrow> row \<Rightarrow> bool" where
  "row_conflicts ks n r \<longleftrightarrow> key_of ks r = key_of ks n \<and> no_null (key_of ks n)"

definition merge_row :: "string list \<Rightarrow> row \<Rightarrow> row \<Rightarrow> row" where
  "merge_row cs n r = (\<lambda>c. if c \<in> set cs then n c else r c)"

text \<open>Each proposed row in turn updates the rows it conflicts with, or is added.\<close>

definition upsert_row :: "string list \<Rightarrow> string list \<Rightarrow> row \<Rightarrow> row list \<Rightarrow> row list" where
  "upsert_row ks cs n rs = (if list_ex (row_conflicts ks n) rs
     then List.map (\<lambda>r. if row_conflicts ks n r then merge_row cs n r else r) rs else rs @ [n])"

text \<open>An update may not touch a row twice: with \<open>merge\<close> the proposed rows have different keys.\<close>

definition upsert_effect :: "conversions \<Rightarrow> schema \<Rightarrow> upsert \<Rightarrow> tables \<Rightarrow> tables \<Rightarrow> bool" where
  "upsert_effect V S u t t' \<longleftrightarrow> (\<exists>new. list_all2 (is_inserted V S (up_table u)) (up_rows u) new \<and>
     (up_action u \<noteq> Ignore_Conflict \<longrightarrow> distinct (List.map (key_of (up_conflict u)) new)) \<and>
     t' = t(up_table u := fold (upsert_row (up_conflict u) (merged_columns u)) new (t (up_table u))))"

text \<open>The connection of the other statements, which also runs upserts.\<close>

record 'd seed_engine = "'d engine" +
  eg_upsert :: "upsert \<Rightarrow> ('d, unit) io"

definition documented_upserts ::
  "conversions \<Rightarrow> schema \<Rightarrow> 'd seed_engine \<Rightarrow> ('d \<Rightarrow> tables) \<Rightarrow> ('d \<Rightarrow> tables) \<Rightarrow> bool" where
  "documented_upserts V S E T K \<longleftrightarrow> documented_sql V S (engine.truncate E) T K \<and>
     (\<forall>u d. K (snd (eg_upsert E u d)) = K d \<and>
        (case fst (eg_upsert E u d) of
           Inl e \<Rightarrow> T (snd (eg_upsert E u d)) = T d
         | Inr _ \<Rightarrow> upsert_effect V S u (T d) (T (snd (eg_upsert E u d)))))"

section \<open>Seeding\<close>

definition require_seed_screening_auditorium_id :: "store_input \<Rightarrow> id \<Rightarrow> js_error + id" where
  "require_seed_screening_auditorium_id demoData screeningId =
    (case List.find (\<lambda>x. sc_id x = screeningId) (si_screenings demoData) of
       None \<Rightarrow> Inl (Error (''Seed screening '' @ screeningId @ '' was not found''))
     | Some x \<Rightarrow> Inr (sc_auditoriumId x))"

definition requested_at :: string where
  "requested_at = ''2026-05-29T00:00:00.000Z''"

definition merge_by_id :: "string \<Rightarrow> (string \<times> param) list list \<Rightarrow> upsert" where
  "merge_by_id tab rows = \<lparr>up_table = tab, up_rows = rows, up_conflict = [''id''], up_action = Merge_Inserted\<rparr>"

definition seed_movie_providers :: "store_input \<Rightarrow> upsert" where
  "seed_movie_providers demoData = merge_by_id ''movie_providers'' (List.map (\<lambda>p.
     [(''id'', P_Text (mp_id p)), (''code'', P_Text (mp_code p)), (''name'', P_Text (mp_name p))])
     (si_movieProviders demoData))"

definition seed_auditoriums :: "store_input \<Rightarrow> upsert" where
  "seed_auditoriums demoData = merge_by_id ''auditoriums'' (List.map (\<lambda>a.
     [(''id'', P_Text (au_id a)), (''movie_provider_id'', P_Text (au_movieProviderId a)), (''name'', P_Text (au_name a))])
     (si_auditoriums demoData))"

definition seed_movies :: "store_input \<Rightarrow> upsert" where
  "seed_movies demoData = merge_by_id ''movies'' (List.map (\<lambda>m.
     [(''id'', P_Text (mv_id m)), (''movie_provider_id'', P_Text (mv_movieProviderId m)), (''title'', P_Text (mv_title m)),
      (''rating'', P_Text (mv_rating m)), (''duration_minutes'', P_Number (mv_durationMinutes m))])
     (si_movies demoData))"

definition seed_screenings :: "store_input \<Rightarrow> upsert" where
  "seed_screenings demoData = merge_by_id ''screenings'' (List.map (\<lambda>x.
     [(''id'', P_Text (sc_id x)), (''movie_provider_id'', P_Text (sc_movieProviderId x)),
      (''movie_id'', P_Text (sc_movieId x)), (''auditorium_id'', P_Text (sc_auditoriumId x)),
      (''starts_at'', P_Text (sc_startsAt x)), (''ends_at'', P_Text (sc_endsAt x))])
     (si_screenings demoData))"

definition seed_seats :: "store_input \<Rightarrow> upsert" where
  "seed_seats demoData = merge_by_id ''seats'' (List.map (\<lambda>x.
     [(''id'', P_Text (st_id x)), (''movie_provider_id'', P_Text (st_movieProviderId x)),
      (''auditorium_id'', P_Text (st_auditoriumId x)), (''row_label'', P_Text (st_row x)),
      (''seat_number'', P_Number (st_number x))])
     (si_seats demoData))"

definition seed_reservation_requests :: "store_input \<Rightarrow> upsert" where
  "seed_reservation_requests demoData = \<lparr>up_table = ''reservation_requests'', up_rows = List.map (\<lambda>r.
     [(''id'', P_Text (rr_id r)), (''movie_provider_id'', P_Text (rr_movieProviderId r)),
      (''screening_id'', P_Text (rr_screeningId r)), (''requested_by_user_id'', P_Text (rr_requestedByUserId r)),
      (''status'', P_Text (status_str (rr_status r))), (''requested_at'', P_Text requested_at),
      (''claimed_by'', P_Null), (''claim_token'', P_Null), (''claimed_at'', P_Null), (''claim_expires_at'', P_Null),
      (''last_heartbeat_at'', P_Null), (''lease_timeout_count'', P_Number 0), (''transient_failure_count'', P_Number 0),
      (''processed_at'', P_Text requested_at), (''updated_at'', P_Text requested_at)])
     (si_reservationRequests demoData),
     up_conflict = [''id''], up_action = Merge_Columns [''movie_provider_id'', ''screening_id'', ''requested_by_user_id'',
       ''status'', ''requested_at'', ''claimed_by'', ''claim_token'', ''claimed_at'', ''claim_expires_at'',
       ''last_heartbeat_at'', ''lease_timeout_count'', ''transient_failure_count'', ''processed_at'', ''updated_at'']\<rparr>"

definition seed_request_seats :: "store_input \<Rightarrow> js_error + upsert" where
  "seed_request_seats demoData =
    bind_err (map_err (\<lambda>r. bind_err (require_seed_screening_auditorium_id demoData (rr_screeningId r)) (\<lambda>auditoriumId.
      Inr (List.map (\<lambda>seatId. [(''reservation_request_id'', P_Text (rr_id r)),
        (''movie_provider_id'', P_Text (rr_movieProviderId r)), (''screening_id'', P_Text (rr_screeningId r)),
        (''auditorium_id'', P_Text auditoriumId), (''seat_id'', P_Text seatId)]) (rr_seatIds r))))
      (si_reservationRequests demoData)) (\<lambda>rows.
    Inr \<lparr>up_table = ''reservation_request_seats'', up_rows = concat rows,
      up_conflict = [''reservation_request_id'', ''seat_id''], up_action = Ignore_Conflict\<rparr>)"

definition seed_reservations :: "store_input \<Rightarrow> upsert" where
  "seed_reservations demoData = merge_by_id ''reservations'' (List.map (\<lambda>v.
     [(''id'', P_Text (rv_id v)), (''movie_provider_id'', P_Text (rv_movieProviderId v)),
      (''reservation_request_id'', P_Text (rv_reservationRequestId v)), (''screening_id'', P_Text (rv_screeningId v)),
      (''reserved_by_user_id'', P_Text (rv_reservedByUserId v)), (''confirmed_at'', P_Text (rv_confirmedAt v))])
     (si_reservations demoData))"

definition seed_reservation_seats :: "store_input \<Rightarrow> js_error + upsert" where
  "seed_reservation_seats demoData =
    bind_err (map_err (\<lambda>v. bind_err (require_seed_screening_auditorium_id demoData (rv_screeningId v)) (\<lambda>auditoriumId.
      Inr (List.map (\<lambda>seatId. [(''reservation_id'', P_Text (rv_id v)),
        (''movie_provider_id'', P_Text (rv_movieProviderId v)), (''screening_id'', P_Text (rv_screeningId v)),
        (''auditorium_id'', P_Text auditoriumId), (''seat_id'', P_Text seatId)]) (rv_seatIds v))))
      (si_reservations demoData)) (\<lambda>rows.
    Inr \<lparr>up_table = ''reservation_seats'', up_rows = concat rows,
      up_conflict = [''reservation_id'', ''seat_id''], up_action = Ignore_Conflict\<rparr>)"

text \<open>The statements of the transaction, in order. A missing screening throws when its turn comes.\<close>

definition seed_statements :: "store_input \<Rightarrow> (js_error + upsert) list" where
  "seed_statements demoData =
    [Inr (seed_movie_providers demoData), Inr (seed_auditoriums demoData), Inr (seed_movies demoData),
     Inr (seed_screenings demoData), Inr (seed_seats demoData), Inr (seed_reservation_requests demoData),
     seed_request_seats demoData, Inr (seed_reservations demoData), seed_reservation_seats demoData]"

fun run_upserts :: "'d seed_engine \<Rightarrow> (js_error + upsert) list \<Rightarrow> ('d, unit) io" where
  "run_upserts E [] = ret ()"
| "run_upserts E (st # sts) = bind_io (lift st) (\<lambda>u. then_io (eg_upsert E u) (run_upserts E sts))"

definition seed_catalog :: "'d seed_engine \<Rightarrow> store_input \<Rightarrow> ('d, unit) io" where
  "seed_catalog E demoData = transaction (engine.truncate E) (run_upserts E (seed_statements demoData))"

definition seed_local_movie_reservation_catalog :: "'d seed_engine \<Rightarrow> ('d, unit) io" where
  "seed_local_movie_reservation_catalog E =
    bind_io (lift create_movie_reservation_demo_data) (\<lambda>demoData. seed_catalog E demoData)"

definition run_local_seed :: "'d seed_engine \<Rightarrow> ('d, unit) io \<Rightarrow> (string \<Rightarrow> ('d, unit) io) \<Rightarrow> ('d, unit) io" where
  "run_local_seed E destroy log = finally_io
    (then_io (seed_local_movie_reservation_catalog E)
       (log (''Seeded local movie reservation catalog for provider='' @ obj_prop demo_provider_codes ''aurora''))) destroy"

section \<open>One row\<close>

text \<open>A proposed row is settled in a table that has its key and agrees with it on the merged columns.\<close>

definition row_settled :: "string list \<Rightarrow> string list \<Rightarrow> row \<Rightarrow> row list \<Rightarrow> bool" where
  "row_settled ks cs n rs \<longleftrightarrow> (\<exists>r \<in> set rs. row_conflicts ks n r) \<and>
     (\<forall>r \<in> set rs. row_conflicts ks n r \<longrightarrow> (\<forall>c \<in> set cs. r c = n c))"

lemma conflicts_self: "no_null (key_of ks n) \<Longrightarrow> row_conflicts ks n n"
  by (simp add: row_conflicts_def)

lemma conflicts_same_key: "row_conflicts ks n r \<Longrightarrow> row_conflicts ks m r \<longleftrightarrow> key_of ks m = key_of ks n"
  by (auto simp: row_conflicts_def)

lemma merge_row_key: "row_conflicts ks n r \<Longrightarrow> key_of ks (merge_row cs n r) = key_of ks n"
  by (auto simp: row_conflicts_def key_of_def merge_row_def)

lemma upsert_row_settles: "no_null (key_of ks n) \<Longrightarrow> row_settled ks cs n (upsert_row ks cs n rs)"
proof (cases "list_ex (row_conflicts ks n) rs")
  case True
  then obtain r where r: "r \<in> set rs" "row_conflicts ks n r" by (auto simp: list_ex_iff)
  have m: "row_conflicts ks n (merge_row cs n q)" if "row_conflicts ks n q" for q
    using merge_row_key [OF that] that by (simp add: row_conflicts_def)
  show ?thesis using True r m [OF r(2)] by (auto simp: upsert_row_def row_settled_def merge_row_def)
next
  case False
  assume "no_null (key_of ks n)"
  then show ?thesis using False conflicts_self by (auto simp: upsert_row_def row_settled_def list_ex_iff)
qed

lemma upsert_row_keeps:
  assumes "row_settled ks cs n rs" "cs = [] \<or> key_of ks m \<noteq> key_of ks n"
  shows "row_settled ks cs n (upsert_row ks cs m rs)"
proof (cases "cs = []")
  case True
  then have "merge_row cs m = id" by (simp add: merge_row_def fun_eq_iff)
  then show ?thesis using assms(1) True by (auto simp: upsert_row_def row_settled_def)
next
  case False
  then have k: "key_of ks m \<noteq> key_of ks n" using assms(2) by simp
  then have "row_conflicts ks n r \<Longrightarrow> \<not> row_conflicts ks m r" "\<not> row_conflicts ks n m"
    "row_conflicts ks m r \<Longrightarrow> \<not> row_conflicts ks n (merge_row cs m r)" for r
    using merge_row_key [of ks m r cs] by (auto simp: row_conflicts_def)
  then show ?thesis using assms(1) by (auto simp: upsert_row_def row_settled_def)
qed

lemma upsert_row_idle: "row_settled ks cs n rs \<Longrightarrow> upsert_row ks cs n rs = rs"
  by (auto simp: upsert_row_def row_settled_def list_ex_iff merge_row_def fun_eq_iff intro!: map_idI)

lemma row_settled_cong:
  assumes "row_settled ks cs n rs" "\<And>c. c \<in> set ks \<union> set cs \<Longrightarrow> m c = n c"
  shows "row_settled ks cs m rs"
proof -
  have "key_of ks m = key_of ks n" using assms(2) by (simp add: key_of_def)
  then show ?thesis using assms by (simp add: row_settled_def row_conflicts_def)
qed

section \<open>One statement\<close>

text \<open>The rows give a text for every key column and a literal for every merged one.\<close>

fun literal :: "param \<Rightarrow> bool" where
  "literal P_Now = False"
| "literal P_Plus_One = False"
| "literal _ = True"

fun is_text :: "param \<Rightarrow> bool" where
  "is_text (P_Text s) = True"
| "is_text _ = False"

definition upsert_ok :: "upsert \<Rightarrow> bool" where
  "upsert_ok u \<longleftrightarrow> (\<forall>vals \<in> set (up_rows u).
     (\<forall>c \<in> set (up_conflict u). \<exists>p. map_of vals c = Some p \<and> is_text p) \<and>
     (\<forall>c \<in> set (merged_columns u). \<exists>p. map_of vals c = Some p \<and> literal p)) \<and>
     (up_action u = Ignore_Conflict \<longrightarrow> merged_columns u = [])"

text \<open>The row \<open>r\<close> has the key and the merged values of the proposed one.\<close>

definition row_written :: "conversions \<Rightarrow> schema \<Rightarrow> upsert \<Rightarrow> (string \<times> param) list \<Rightarrow> row \<Rightarrow> bool" where
  "row_written V S u vals r \<longleftrightarrow> (\<forall>c \<in> set (up_conflict u) \<union> set (merged_columns u). \<exists>p.
     map_of vals c = Some p \<and> convert V (column_type S (up_table u) c) p = Some (r c))"

definition upsert_settled :: "conversions \<Rightarrow> schema \<Rightarrow> upsert \<Rightarrow> tables \<Rightarrow> bool" where
  "upsert_settled V S u t \<longleftrightarrow> (\<forall>vals \<in> set (up_rows u).
     (\<exists>r \<in> set (t (up_table u)). row_written V S u vals r) \<and>
     (\<forall>n. is_inserted V S (up_table u) vals n \<longrightarrow>
       row_settled (up_conflict u) (merged_columns u) n (t (up_table u))))"

lemma literal_assigns: "literal p \<Longrightarrow> assigns V ty p old new \<longleftrightarrow> convert V ty p = Some new"
  by (cases p) simp_all

lemma is_text_literal: "is_text p \<Longrightarrow> literal p"
  by (cases p) simp_all

lemma is_text_not_null: "is_text p \<Longrightarrow> convert V ty p \<noteq> Some SQL_Null"
  by (cases p; cases ty) auto

lemma inserted_value:
  assumes "is_inserted V S tab vals n" "map_of vals c = Some p" "literal p"
  shows "convert V (column_type S tab c) p = Some (n c)"
  using assms literal_assigns unfolding is_inserted_def by (metis option.simps(5))

lemma inserted_no_null:
  assumes "upsert_ok u" "vals \<in> set (up_rows u)" "is_inserted V S (up_table u) vals n"
  shows "no_null (key_of (up_conflict u) n)"
proof -
  have "n c \<noteq> SQL_Null" if c: "c \<in> set (up_conflict u)" for c
  proof -
    obtain p where p: "map_of vals c = Some p" "is_text p" using assms(1,2) c unfolding upsert_ok_def by blast
    from inserted_value [OF assms(3) p(1) is_text_literal [OF p(2)]] is_text_not_null [OF p(2)] show ?thesis by metis
  qed
  then show ?thesis by (simp add: no_null_def key_of_def image_iff) metis
qed

lemma inserted_same:
  assumes "upsert_ok u" "vals \<in> set (up_rows u)" "is_inserted V S (up_table u) vals n" "is_inserted V S (up_table u) vals m"
    and "c \<in> set (up_conflict u) \<union> set (merged_columns u)"
  shows "m c = n c"
proof -
  obtain p where p: "map_of vals c = Some p" "literal p"
    using assms(1,2,5) is_text_literal unfolding upsert_ok_def by blast
  from inserted_value [OF assms(3) p] inserted_value [OF assms(4) p] show ?thesis by simp
qed

lemma fold_upsert_keeps:
  assumes "row_settled ks cs n rs" "cs = [] \<or> key_of ks n \<notin> key_of ks ` set ms"
  shows "row_settled ks cs n (fold (upsert_row ks cs) ms rs)"
  using assms
proof (induction ms arbitrary: rs)
  case (Cons m ms)
  show ?case
    using Cons.IH [OF upsert_row_keeps [OF Cons.prems(1), of m]] Cons.prems(2) by auto
qed simp

lemma fold_upsert_settles:
  assumes "\<forall>n \<in> set new. no_null (key_of ks n)" "cs = [] \<or> distinct (List.map (key_of ks) new)"
  shows "\<forall>n \<in> set new. row_settled ks cs n (fold (upsert_row ks cs) new rs)"
  using assms
proof (induction new arbitrary: rs)
  case (Cons m ms)
  have "row_settled ks cs m (fold (upsert_row ks cs) ms (upsert_row ks cs m rs))"
    by (rule fold_upsert_keeps [OF upsert_row_settles]) (use Cons.prems in auto)
  then show ?case using Cons.IH [of "upsert_row ks cs m rs"] Cons.prems by auto
qed simp

lemma fold_upsert_idle:
  "\<forall>n \<in> set new. row_settled ks cs n rs \<Longrightarrow> fold (upsert_row ks cs) new rs = rs"
  by (induction new) (simp_all add: upsert_row_idle)

lemma list_all2_witness: "list_all2 P xs ys \<Longrightarrow> x \<in> set xs \<Longrightarrow> \<exists>y \<in> set ys. P x y"
  by (induction rule: list_all2_induct) auto

lemma list_all2_origin: "list_all2 P xs ys \<Longrightarrow> y \<in> set ys \<Longrightarrow> \<exists>x \<in> set xs. P x y"
  by (induction rule: list_all2_induct) auto

lemma settled_written:
  assumes ok: "upsert_ok u" and v: "vals \<in> set (up_rows u)" "is_inserted V S (up_table u) vals n"
    and st: "row_settled (up_conflict u) (merged_columns u) n rs"
  shows "\<exists>r \<in> set rs. row_written V S u vals r"
proof -
  obtain r where r: "r \<in> set rs" "row_conflicts (up_conflict u) n r" "\<forall>c \<in> set (merged_columns u). r c = n c"
    using st by (auto simp: row_settled_def)
  have "r c = n c" if "c \<in> set (up_conflict u) \<union> set (merged_columns u)" for c
    using r that by (auto simp: row_conflicts_def key_of_def)
  moreover have "\<exists>p. map_of vals c = Some p \<and> literal p" if "c \<in> set (up_conflict u) \<union> set (merged_columns u)" for c
    using ok v(1) that is_text_literal unfolding upsert_ok_def by blast
  ultimately have "row_written V S u vals r"
    using inserted_value [OF v(2)] unfolding row_written_def by metis
  then show ?thesis using r(1) by blast
qed

lemma upsert_settles:
  assumes ok: "upsert_ok u" and eff: "upsert_effect V S u t t'"
  shows "upsert_settled V S u t'"
proof -
  obtain new where new: "list_all2 (is_inserted V S (up_table u)) (up_rows u) new"
    "up_action u \<noteq> Ignore_Conflict \<longrightarrow> distinct (List.map (key_of (up_conflict u)) new)"
    "t' = t(up_table u := fold (upsert_row (up_conflict u) (merged_columns u)) new (t (up_table u)))"
    using eff unfolding upsert_effect_def by blast
  note rs = fun_cong [OF new(3), of "up_table u", simplified]
  have "\<forall>n \<in> set new. no_null (key_of (up_conflict u) n)"
    using list_all2_origin [OF new(1)] inserted_no_null [OF ok] by blast
  then have st: "\<forall>n \<in> set new. row_settled (up_conflict u) (merged_columns u) n (t' (up_table u))"
    unfolding rs using fold_upsert_settles new(2) ok by (metis upsert_ok_def)
  show ?thesis
    unfolding upsert_settled_def
  proof (intro ballI allI impI conjI)
    fix vals assume v: "vals \<in> set (up_rows u)"
    obtain n where n: "n \<in> set new" "is_inserted V S (up_table u) vals n" using list_all2_witness [OF new(1) v] by blast
    show "\<exists>r \<in> set (t' (up_table u)). row_written V S u vals r"
      by (rule settled_written [OF ok v n(2)]) (use st n(1) in blast)
    fix m assume m: "is_inserted V S (up_table u) vals m"
    show "row_settled (up_conflict u) (merged_columns u) m (t' (up_table u))"
      by (rule row_settled_cong [OF bspec [OF st n(1)]]) (rule inserted_same [OF ok v n(2) m])
  qed
qed

lemma upsert_keeps:
  "upsert_settled V S u t \<Longrightarrow> upsert_effect V S w t t' \<Longrightarrow> up_table w \<noteq> up_table u \<Longrightarrow> upsert_settled V S u t'"
  by (auto simp: upsert_settled_def upsert_effect_def)

lemma upsert_idle:
  assumes "upsert_settled V S u t" "upsert_effect V S u t t'"
  shows "t' = t"
proof -
  obtain new where new: "list_all2 (is_inserted V S (up_table u)) (up_rows u) new"
    "t' = t(up_table u := fold (upsert_row (up_conflict u) (merged_columns u)) new (t (up_table u)))"
    using assms(2) by (auto simp: upsert_effect_def)
  have "\<forall>n \<in> set new. row_settled (up_conflict u) (merged_columns u) n (t (up_table u))"
    using list_all2_origin [OF new(1)] assms(1) by (auto simp: upsert_settled_def)
  from fold_upsert_idle [OF this] show ?thesis by (simp add: new(2))
qed

section \<open>The whole seed\<close>

fun upserts_effect :: "conversions \<Rightarrow> schema \<Rightarrow> upsert list \<Rightarrow> tables \<Rightarrow> tables \<Rightarrow> bool" where
  "upserts_effect V S [] t t' \<longleftrightarrow> t' = t"
| "upserts_effect V S (u # us) t t' \<longleftrightarrow> (\<exists>t1. upsert_effect V S u t t1 \<and> upserts_effect V S us t1 t')"

lemma gives_upsert:
  assumes "documented_upserts V S E T K"
  shows "gives T K (eg_upsert E u) t (\<lambda>_ t'. upsert_effect V S u t t')"
  unfolding gives_def
proof (intro allI impI)
  fix d r d' assume "T d = t" "eg_upsert E u d = (r, d')"
  then show "K d' = K d \<and> (\<forall>x. r = Inr x \<longrightarrow> upsert_effect V S u t (T d'))"
    using assms unfolding documented_upserts_def by (metis (no_types, lifting) fst_conv snd_conv sum.case(2))
qed

lemma run_upserts_gives:
  assumes "documented_upserts V S E T K"
  shows "gives T K (run_upserts E sts) t (\<lambda>_ t'. \<exists>us. sts = List.map Inr us \<and> upserts_effect V S us t t')"
proof (induction sts arbitrary: t)
  case Nil
  show ?case by (simp add: gives_def)
next
  case (Cons st sts)
  have "gives T K (then_io (eg_upsert E u) (run_upserts E sts)) t
      (\<lambda>_ t'. \<exists>us. Inr u # sts = List.map Inr us \<and> upserts_effect V S us t t')" for u
  proof (rule gives_then [OF gives_upsert [OF assms]])
    fix x t1 assume e: "upsert_effect V S u t t1"
    show "gives T K (run_upserts E sts) t1 (\<lambda>_ t'. \<exists>us. Inr u # sts = List.map Inr us \<and> upserts_effect V S us t t')"
    proof (rule gives_mono [OF Cons.IH], elim exE conjE)
      fix t' us assume "sts = List.map Inr us" "upserts_effect V S us t1 t'"
      then show "\<exists>us. Inr u # sts = List.map Inr us \<and> upserts_effect V S us t t'"
        using e by (intro exI [of _ "u # us"]) auto
    qed
  qed
  then show ?case unfolding run_upserts.simps by (intro gives_lift_bind) simp
qed

lemma upserts_keep:
  "upserts_effect V S us t t' \<Longrightarrow> upsert_settled V S u t \<Longrightarrow> up_table u \<notin> up_table ` set us \<Longrightarrow> upsert_settled V S u t'"
  by (induction us arbitrary: t) (auto dest: upsert_keeps)

lemma upserts_settle:
  assumes "upserts_effect V S us t t'" "\<forall>u \<in> set us. upsert_ok u" "distinct (List.map up_table us)"
  shows "\<forall>u \<in> set us. upsert_settled V S u t'"
  using assms
proof (induction us arbitrary: t)
  case (Cons u us)
  then obtain t1 where t1: "upsert_effect V S u t t1" "upserts_effect V S us t1 t'" by auto
  have "upsert_settled V S u t'"
    using upserts_keep [OF t1(2) upsert_settles [OF _ t1(1)]] Cons.prems(2,3) by simp
  then show ?case using Cons.IH [OF t1(2)] Cons.prems(2,3) by simp
qed simp

lemma upserts_idle:
  "upserts_effect V S us t t' \<Longrightarrow> \<forall>u \<in> set us. upsert_settled V S u t \<Longrightarrow> t' = t"
  by (induction us arbitrary: t) (auto dest: upsert_idle)

text \<open>The statements of the seed: rows of one shape, a text for every key.\<close>

lemma upsert_ok_uniform:
  assumes "\<And>vals. vals \<in> set (up_rows u) \<Longrightarrow> List.map fst vals = cols \<and> (\<forall>(c, p) \<in> set vals. literal p) \<and>
      (\<forall>c \<in> set (up_conflict u). \<exists>p. map_of vals c = Some p \<and> is_text p)"
    and "\<And>cs. up_action u = Merge_Columns cs \<Longrightarrow> set cs \<subseteq> set cols"
  shows "upsert_ok u"
proof -
  have "set (merged_columns u) \<subseteq> set cols"
  proof (cases "up_action u")
    case Merge_Inserted
    have "set (List.map fst vals) = set cols" if "vals \<in> set (up_rows u)" for vals using assms(1) [OF that] by simp
    then show ?thesis using Merge_Inserted by (auto simp: merged_columns_def)
  qed (use assms(2) in \<open>simp_all add: merged_columns_def\<close>)
  moreover have "\<exists>p. map_of vals c = Some p \<and> literal p" if "vals \<in> set (up_rows u)" "c \<in> set cols" for vals c
  proof -
    have "c \<in> fst ` set vals" using assms(1) [OF that(1)] that(2) by (metis set_map)
    then obtain p where "map_of vals c = Some p" by (metis map_of_eq_None_iff not_None_eq)
    then show ?thesis using assms(1) [OF that(1)] by (auto dest: map_of_SomeD)
  qed
  moreover have "up_action u = Ignore_Conflict \<Longrightarrow> merged_columns u = []" by (simp add: merged_columns_def)
  ultimately show ?thesis using assms(1) unfolding upsert_ok_def by blast
qed

lemma map_err_rows:
  assumes "map_err f xs = Inr rows" "row \<in> set (concat rows)"
  obtains x ys where "x \<in> set xs" "f x = Inr ys" "row \<in> set ys"
  using assms
proof (induction xs arbitrary: rows)
  case (Cons a xs)
  then obtain y ys where y: "f a = Inr y" "map_err f xs = Inr ys" "rows = y # ys" by (auto simp: bind_err_Inr)
  show ?case
  proof (cases "row \<in> set y")
    case True
    then show ?thesis using Cons.prems(1) [of a y] y(1) by simp
  next
    case False
    then have "row \<in> set (concat ys)" using Cons.prems(3) y(3) by simp
    from Cons.IH [OF _ y(2) this] Cons.prems(1) show ?thesis by (metis list.set_intros(2))
  qed
qed simp

lemmas seed_defs = seed_movie_providers_def seed_auditoriums_def seed_movies_def seed_screenings_def seed_seats_def
  seed_reservation_requests_def seed_reservations_def merge_by_id_def

lemma seed_merges_ok:
  "upsert_ok (seed_movie_providers demoData)" "upsert_ok (seed_auditoriums demoData)" "upsert_ok (seed_movies demoData)"
  "upsert_ok (seed_screenings demoData)" "upsert_ok (seed_seats demoData)"
  "upsert_ok (seed_reservation_requests demoData)" "upsert_ok (seed_reservations demoData)"
  by (rule upsert_ok_uniform, (auto simp: seed_defs)[1], auto simp: seed_defs)+

lemma join_ok:
  assumes "map_err f xs = Inr rows"
    and "\<And>x ys. f x = Inr ys \<Longrightarrow> \<forall>row \<in> set ys. \<forall>c \<in> set ks. \<exists>p. map_of row c = Some p \<and> is_text p"
  shows "upsert_ok \<lparr>up_table = tab, up_rows = concat rows, up_conflict = ks, up_action = Ignore_Conflict\<rparr>"
proof -
  have "\<exists>p. map_of row c = Some p \<and> is_text p" if "row \<in> set (concat rows)" "c \<in> set ks" for row c
    by (rule map_err_rows [OF assms(1) that(1)]) (use assms(2) that(2) in blast)
  then show ?thesis by (simp add: upsert_ok_def merged_columns_def del: set_concat)
qed

lemma seed_joins_ok:
  "seed_request_seats demoData = Inr u \<Longrightarrow> upsert_ok u \<and> up_table u = ''reservation_request_seats''"
  "seed_reservation_seats demoData = Inr w \<Longrightarrow> upsert_ok w \<and> up_table w = ''reservation_seats''"
  unfolding seed_request_seats_def seed_reservation_seats_def bind_err_Inr
  by (elim exE conjE, drule sym [of "Inr _" "Inr _"], simp, rule join_ok, assumption, (auto simp: bind_err_Inr)[1])+

lemma seed_statements_ok:
  assumes "seed_statements demoData = List.map Inr us"
  shows "\<forall>u \<in> set us. upsert_ok u" "distinct (List.map up_table us)"
proof -
  obtain u w where "seed_request_seats demoData = Inr u" "seed_reservation_seats demoData = Inr w"
    "us = [seed_movie_providers demoData, seed_auditoriums demoData, seed_movies demoData, seed_screenings demoData,
       seed_seats demoData, seed_reservation_requests demoData, u, seed_reservations demoData, w]"
    using assms by (auto simp: seed_statements_def Cons_eq_map_conv)
  then show "\<forall>u \<in> set us. upsert_ok u" "distinct (List.map up_table us)"
    using seed_joins_ok by (simp_all add: seed_merges_ok) (simp_all add: seed_defs)
qed

text \<open>The demo data has the screening of everything it reserves, so its seed never throws by itself.\<close>

lemma demo_statements: "\<exists>us. seed_statements demo_data = List.map Inr us"
proof -
  note data = demo_data_def demo_request_list_def demo_reservation_list_def demo_screenings_def obj_prop_def
    demo_screening_ids_def demo_auditorium_ids_def
  obtain u where u: "seed_request_seats demo_data = Inr u"
    by (simp add: seed_request_seats_def require_seed_screening_auditorium_id_def data)
  obtain w where w: "seed_reservation_seats demo_data = Inr w"
    by (simp add: seed_reservation_seats_def require_seed_screening_auditorium_id_def data)
  show ?thesis
    by (rule exI [of _ "[seed_movie_providers demo_data, seed_auditoriums demo_data, seed_movies demo_data,
      seed_screenings demo_data, seed_seats demo_data, seed_reservation_requests demo_data, u,
      seed_reservations demo_data, w]"]) (simp add: seed_statements_def u w)
qed

lemma seed_local_runs: "seed_local_movie_reservation_catalog E = seed_catalog E demo_data"
  by (simp add: seed_local_movie_reservation_catalog_def demo_data_created bind_io_def lift_def fun_eq_iff)

text \<open>C40: seeding is idempotent and all or nothing. A seed that fails leaves every table as it was. After one
  that returns, every row of the catalogue is in its table with the key and the values it merges, and
  running it again, whatever comes of that, changes nothing.\<close>

theorem local_seed_is_idempotent:
  assumes doc: "documented_upserts V S E T K"
    and first: "seed_catalog E demoData d = (Inr (), d1)"
  shows "(\<forall>u vals. Inr u \<in> set (seed_statements demoData) \<and> vals \<in> set (up_rows u) \<longrightarrow>
      (\<exists>r \<in> set (T d1 (up_table u)). row_written V S u vals r)) \<and>
    T (snd (seed_catalog E demoData d1)) = T d1 \<and>
    (case seed_catalog E demoData e of (Inl x, e') \<Rightarrow> T e' = T e | _ \<Rightarrow> True)"
proof -
  have doc': "documented_sql V S (engine.truncate E) T K" using doc by (simp add: documented_upserts_def)
  have seeds: "case fst (seed_catalog E demoData x) of Inl _ \<Rightarrow> T (snd (seed_catalog E demoData x)) = T x
    | Inr _ \<Rightarrow> \<exists>us. seed_statements demoData = List.map Inr us \<and>
        upserts_effect V S us (T x) (T (snd (seed_catalog E demoData x)))" for x
  proof -
    obtain r x' where r: "seed_catalog E demoData x = (r, x')" by fastforce
    from transaction_gives [OF doc' run_upserts_gives [OF doc] r [unfolded seed_catalog_def]] show ?thesis
      unfolding r fst_conv snd_conv .
  qed
  obtain us where us: "seed_statements demoData = List.map Inr us" "upserts_effect V S us (T d) (T d1)"
    using seeds [of d] first by auto
  have st: "\<forall>u \<in> set us. upsert_settled V S u (T d1)"
    by (rule upserts_settle [OF us(2) seed_statements_ok [OF us(1)]])
  have again: "T (snd (seed_catalog E demoData d1)) = T d1"
  proof (cases "fst (seed_catalog E demoData d1)")
    case (Inr z)
    then obtain us' where "seed_statements demoData = List.map Inr us'"
      "upserts_effect V S us' (T d1) (T (snd (seed_catalog E demoData d1)))" using seeds [of d1] by auto
    moreover from this us(1) have "us' = us" by (metis Inr_inject inj_map_eq_map inj_onI)
    ultimately show ?thesis using upserts_idle st by blast
  qed (use seeds [of d1] in simp)
  show ?thesis
    using us(1) st again seeds [of e] by (auto simp: upsert_settled_def split: sum.splits prod.splits)
qed

section \<open>An engine that upserts\<close>

definition reference_upsert :: "conversions \<Rightarrow> schema \<Rightarrow> int \<Rightarrow> upsert \<Rightarrow> (tables \<times> tables, unit) io" where
  "reference_upsert V S now u = (\<lambda>(t, k).
     (let new = List.map (inserted_row V S now (length (t (up_table u))) (up_table u)) (up_rows u) in
      if list_all (\<lambda>v. Reference_Engine.accepted V S now (up_table u) v null_row) (up_rows u) \<and>
         distinct (List.map (key_of (up_conflict u)) new)
      then (Inr (), (t(up_table u := fold (upsert_row (up_conflict u) (merged_columns u)) new (t (up_table u))), k))
      else (Inl (Error ''input''), (t, k))))"

definition reference_seed_engine :: "conversions \<Rightarrow> schema \<Rightarrow> int \<Rightarrow> (tables \<times> tables) seed_engine" where
  "reference_seed_engine V S now = engine.extend (reference_engine V S now) (seed_engine.fields (reference_upsert V S now))"

lemma reference_seed_engine_parts:
  "engine.truncate (reference_seed_engine V S now) = reference_engine V S now"
  "eg_upsert (reference_seed_engine V S now) = reference_upsert V S now"
  by (simp_all add: reference_seed_engine_def engine.defs seed_engine.defs)

lemma reference_upserts_documented:
  assumes "documented_conversions V"
  shows "documented_upserts V S (reference_seed_engine V S now) fst snd"
proof -
  have "snd (snd (reference_upsert V S now u d)) = snd d \<and> (case fst (reference_upsert V S now u d) of
      Inl e \<Rightarrow> fst (snd (reference_upsert V S now u d)) = fst d
    | Inr _ \<Rightarrow> upsert_effect V S u (fst d) (fst (snd (reference_upsert V S now u d))))" for u d
  proof -
    obtain t k where d: "d = (t, k)" by fastforce
    let ?new = "List.map (inserted_row V S now (length (t (up_table u))) (up_table u)) (up_rows u)"
    have "list_all2 (is_inserted V S (up_table u)) (up_rows u) ?new"
      if "list_all (\<lambda>v. Reference_Engine.accepted V S now (up_table u) v null_row) (up_rows u)"
      using that by (auto simp: list_all2_conv_all_nth list_all_length intro!: inserted_row)
    then show ?thesis by (auto simp: reference_upsert_def d Let_def upsert_effect_def)
  qed
  then show ?thesis
    unfolding documented_upserts_def reference_seed_engine_parts
    using reference_engine_documented [OF assms] by blast
qed

text \<open>A provider whose name changed is written again; the run is evaluated.\<close>

definition small_catalog :: store_input where
  "small_catalog = \<lparr>si_movieProviders = [\<lparr>mp_id = sample_id ''0'', mp_code = ''odeon'', mp_name = ''Odeon''\<rparr>],
     si_auditoriums = [], si_movies = [], si_screenings = [], si_seats = [], si_reservationRequests = [],
     si_reservations = [], si_processingAttempts = None\<rparr>"

definition small_seed :: "(tables \<times> tables, unit) io" where
  "small_seed = seed_catalog (reference_seed_engine reference_conversions [movie_providers_table] 0) small_catalog"

definition old_tables :: tables where
  "old_tables = (\<lambda>_. [])(''movie_providers'' := [row_of [(''id'', SQL_Text (sample_id ''0'')), (''code'', SQL_Text ''odeon''),
     (''name'', SQL_Text ''Old'')]])"

lemma small_seed_runs: "fst (small_seed (old_tables, old_tables)) = Inr ()"
  "List.map (\<lambda>r. r ''name'') (fst (snd (small_seed (old_tables, old_tables))) ''movie_providers'') = [SQL_Text ''Odeon'']"
  by code_simp+

theorem local_seed_is_idempotent_witness:
  "fst (small_seed (old_tables, old_tables)) = Inr () \<and>
   fst (snd (small_seed (snd (small_seed (old_tables, old_tables))))) = fst (snd (small_seed (old_tables, old_tables))) \<and>
   List.map (\<lambda>r. r ''name'') (fst (snd (small_seed (old_tables, old_tables))) ''movie_providers'') = [SQL_Text ''Odeon'']"
proof -
  have run: "seed_catalog (reference_seed_engine reference_conversions [movie_providers_table] 0) small_catalog
      (old_tables, old_tables) = (Inr (), snd (small_seed (old_tables, old_tables)))"
    using small_seed_runs(1) by (metis prod.collapse small_seed_def)
  from local_seed_is_idempotent [OF reference_upserts_documented [OF reference_conversions_documented] run,
      of "(old_tables, old_tables)"]
  show ?thesis using small_seed_runs by (simp add: small_seed_def)
qed

section \<open>The migration runner\<close>

datatype migration_command = Latest | Status

fun strings_of :: "json list \<Rightarrow> string list option" where
  "strings_of [] = Some []"
| "strings_of (JString s # xs) = map_option ((#) s) (strings_of xs)"
| "strings_of _ = None"

definition is_string_array :: "json \<Rightarrow> bool" where
  "is_string_array v = (case v of JArray xs \<Rightarrow> strings_of xs \<noteq> None | _ \<Rightarrow> False)"

fun read_latest_migration_result :: "json \<Rightarrow> js_error + int \<times> string list" where
  "read_latest_migration_result (JArray [JNumber batchNumber, JArray xs]) =
     (if is_string_array (JArray xs) then Inr (batchNumber, the (strings_of xs))
      else Inl (Error ''Unexpected Knex migration result''))"
| "read_latest_migration_result _ = Inl (Error ''Unexpected Knex migration result'')"

definition nullish_json :: "json option \<Rightarrow> json option \<Rightarrow> json option" where
  "nullish_json v fallback = (if v = None \<or> v = Some JNull then fallback else v)"

definition read_migration_status_item :: "json \<Rightarrow> js_error + string" where
  "read_migration_status_item item =
    (if \<not> is_record (Some item) then Inl (Error ''Unexpected Knex migration status result'')
     else case nullish_json (json_prop item ''name'') (json_prop item ''file'') of
       Some (JString s) \<Rightarrow> Inr s | _ \<Rightarrow> Inl (Error ''Unexpected Knex migration status result''))"

definition read_migration_status_items :: "json \<Rightarrow> js_error + string list" where
  "read_migration_status_items v = (case v of
     JArray items \<Rightarrow> map_err read_migration_status_item items
   | _ \<Rightarrow> Inl (Error ''Unexpected Knex migration status result''))"

fun read_migration_status_result :: "json \<Rightarrow> js_error + string list \<times> string list" where
  "read_migration_status_result (JArray [completed, pending]) =
     bind_err (read_migration_status_items completed) (\<lambda>cs.
     bind_err (read_migration_status_items pending) (\<lambda>ps. Inr (cs, ps)))"
| "read_migration_status_result _ = Inl (Error ''Unexpected Knex migration status result'')"

definition read_command :: "string list \<Rightarrow> js_error + migration_command" where
  "read_command args = (let command = (case args of [] \<Rightarrow> ''latest'' | a # _ \<Rightarrow> a) in
     if command = ''latest'' then Inr Latest else if command = ''status'' then Inr Status
     else Inl (Error (''Unsupported migration command: '' @ command)))"

text \<open>The connection is a parameter: what \<open>migrate.latest()\<close> and \<open>migrate.list()\<close> give, and
  closing it.\<close>

record 'e migrator =
  mg_latest :: "('e, json) io"
  mg_list :: "('e, json) io"
  mg_destroy :: "('e, unit) io"

fun log_pending :: "(string \<Rightarrow> ('e, unit) io) \<Rightarrow> string list \<Rightarrow> ('e, unit) io" where
  "log_pending log [] = ret ()"
| "log_pending log (m # ms) = then_io (log (''pending '' @ m)) (log_pending log ms)"

definition run_migration_command :: "'e migrator \<Rightarrow> (string \<Rightarrow> ('e, unit) io) \<Rightarrow> migration_command \<Rightarrow> ('e, unit) io" where
  "run_migration_command M log command = finally_io
    (case command of
       Latest \<Rightarrow> bind_io (mg_latest M) (\<lambda>latestMigrationResult.
         bind_io (lift (read_latest_migration_result latestMigrationResult)) (\<lambda>(batchNumber, migrationNames).
         log (''Database migrations complete: batch='' @ int_str batchNumber @ '' applied='' @
           nat_str (length migrationNames))))
     | Status \<Rightarrow> bind_io (mg_list M) (\<lambda>migrationStatusResult.
         bind_io (lift (read_migration_status_result migrationStatusResult)) (\<lambda>(completed, pending).
         then_io (log (''Database migration status: completed='' @ nat_str (length completed) @ '' pending='' @
           nat_str (length pending)))
           (log_pending log pending))))
    (mg_destroy M)"

lemma strings_of_Some: "strings_of xs = Some ys \<longleftrightarrow> xs = List.map JString ys"
  by (induction xs arbitrary: ys rule: strings_of.induct) (auto simp: Cons_eq_map_conv)

lemma strings_of_strings [simp]: "strings_of (List.map JString ys) = Some ys"
  by (simp add: strings_of_Some)

text \<open>Each reader accepts exactly the documented shape.\<close>

lemma read_latest_exact:
  "read_latest_migration_result v = Inr (n, names) \<longleftrightarrow> v = JArray [JNumber n, JArray (List.map JString names)]"
  by (cases v rule: read_latest_migration_result.cases) (auto simp: is_string_array_def strings_of_Some)

lemma read_status_item_exact:
  "read_migration_status_item item = Inr s \<longleftrightarrow>
     (\<exists>ps. item = JObject ps \<and> (map_of ps ''name'' = Some (JString s) \<or>
        map_of ps ''name'' \<in> {None, Some JNull} \<and> map_of ps ''file'' = Some (JString s)))"
  by (cases item) (auto simp: read_migration_status_item_def nullish_json_def split: option.splits json.splits)

text \<open>What the query builder lists, one object per migration with its file name, is read back.\<close>

lemma read_status_items_roundtrip:
  "read_migration_status_items (JArray (List.map (\<lambda>m. JObject [(''file'', JString m)]) ms)) = Inr ms"
  by (induction ms) (simp_all add: read_migration_status_items_def read_migration_status_item_def nullish_json_def)

end
