(* ===== verification/Audit_Redaction.thy ===== *)
theory Audit_Redaction
  imports Js_String
begin

text \<open>
  Redaction of diagnostics (\<open>packages/audit-sdk/src/core/redaction.ts\<close>). The values it is
  given may share objects and contain cycles, so objects live in a heap and a value refers to them;
  what it returns is detached, a tree.
\<close>

section \<open>Values\<close>

text \<open>\<open>V_Other\<close> is a function, a symbol or a big integer.\<close>

datatype js_val =
    V_Undefined | V_Null | V_Bool bool | V_Number int | V_String string | V_Other nat | V_Ref nat

datatype js_node = N_Array "js_val list" | N_Object "(string \<times> js_val) list"

type_synonym js_heap = "nat \<Rightarrow> js_node"

datatype detached = D_Scalar js_val | D_Array "detached list" | D_Object "(string \<times> detached) list"

section \<open>Strings\<close>

definition redacted_audit_value :: string where
  "redacted_audit_value = ''[REDACTED]''"

text \<open>For a pattern that is not empty, \<open>s.replaceAll(p, replacement)\<close>\<close>

fun js_replace_all :: "string \<Rightarrow> string \<Rightarrow> string \<Rightarrow> string" where
  "js_replace_all (p # ps) replacement (c # cs) =
     (if js_starts_with (c # cs) (p # ps) then replacement @ js_replace_all (p # ps) replacement (drop (length ps) cs)
      else c # js_replace_all (p # ps) replacement cs)"
| "js_replace_all _ replacement s = s"

text \<open>The sensitive words, each in lower case; \<open>[-_]?\<close> is written out.\<close>

definition sensitive_key :: "string \<Rightarrow> bool" where
  "sensitive_key key = list_ex (js_includes (js_lower key))
     [''authorization'', ''cookie'', ''credential'', ''password'', ''passphrase'', ''secret'', ''token'',
      ''apikey'', ''api-key'', ''api_key'', ''privatekey'', ''private-key'', ''private_key'']"

definition is_word_char :: "char \<Rightarrow> bool" where
  "is_word_char c \<longleftrightarrow> is_digit c \<or> is_lower_az c \<or> is_upper_az c \<or> c = CHR ''_''"

definition is_credential_char :: "char \<Rightarrow> bool" where
  "is_credential_char c \<longleftrightarrow> is_digit c \<or> is_lower_az c \<or> is_upper_az c \<or> c \<in> set ''._~+/=-''"

text \<open>
  The length of the match of \<open>\b(?:Basic|Bearer)\s+[A-Za-z0-9._~+/=-]+\<close> at a position, given
  whether a word character comes before it. The classes after the scheme are disjoint, so the
  greedy match is the only one.
\<close>

definition scheme_length :: "string \<Rightarrow> nat" where
  "scheme_length s = (if js_lower (take 5 s) = ''basic'' then 5 else if js_lower (take 6 s) = ''bearer'' then 6 else 0)"

definition credential_length :: "bool \<Rightarrow> string \<Rightarrow> nat" where
  "credential_length afterWord s =
    (let k = scheme_length s; spaces = length (takeWhile is_js_space (drop k s));
         chars = length (takeWhile is_credential_char (drop (k + spaces) s)) in
     if afterWord \<or> k = 0 \<or> spaces = 0 \<or> chars = 0 then 0 else k + spaces + chars)"

fun redact_credentials :: "bool \<Rightarrow> string \<Rightarrow> string" where
  "redact_credentials afterWord [] = []"
| "redact_credentials afterWord (c # cs) =
     (case credential_length afterWord (c # cs) of
        0 \<Rightarrow> c # redact_credentials (is_word_char c) cs
      | Suc n \<Rightarrow> redacted_audit_value @ redact_credentials (is_word_char (last (take (Suc n) (c # cs)))) (drop n cs))"

definition redact_string :: "string list \<Rightarrow> string \<Rightarrow> string" where
  "redact_string replacements s =
     fold (\<lambda>r. js_replace_all r redacted_audit_value) replacements (redact_credentials False s)"

section \<open>Values, to a depth\<close>

text \<open>A list is redacted in order, with the set of objects visited so far.\<close>

fun thread :: "('a \<Rightarrow> 's \<Rightarrow> 'b \<times> 's) \<Rightarrow> 'a list \<Rightarrow> 's \<Rightarrow> 'b list \<times> 's" where
  "thread f [] s = ([], s)"
| "thread f (x # xs) s = (case f x s of (y, t) \<Rightarrow> case thread f xs t of (ys, u) \<Rightarrow> (y # ys, u))"

text \<open>\<open>redact\<close>, by the number of levels left: the maximal depth less the depth.\<close>

definition redact_entry :: "(js_val \<Rightarrow> nat set \<Rightarrow> detached \<times> nat set) \<Rightarrow> string \<times> js_val \<Rightarrow> nat set \<Rightarrow>
    (string \<times> detached) \<times> nat set" where
  "redact_entry f kv visited = (case kv of (key, nestedValue) \<Rightarrow>
     if sensitive_key key then ((key, D_Scalar (V_String redacted_audit_value)), visited)
     else case f nestedValue visited of (d, visited') \<Rightarrow> ((key, d), visited'))"

primrec redact :: "js_heap \<Rightarrow> string list \<Rightarrow> nat \<Rightarrow> js_val \<Rightarrow> nat set \<Rightarrow> detached \<times> nat set" where
  "redact h replacements 0 = (\<lambda>current visited. case current of
     V_String s \<Rightarrow> (D_Scalar (V_String (redact_string replacements s)), visited)
   | V_Ref i \<Rightarrow> (D_Scalar (V_String redacted_audit_value), visited)
   | v \<Rightarrow> (D_Scalar v, visited))"
| "redact h replacements (Suc n) = (\<lambda>current visited. case current of
     V_String s \<Rightarrow> (D_Scalar (V_String (redact_string replacements s)), visited)
   | V_Ref i \<Rightarrow> if i \<in> visited then (D_Scalar (V_String redacted_audit_value), visited)
       else (case h i of
         N_Array items \<Rightarrow> (case thread (redact h replacements n) items (insert i visited) of
           (ds, visited') \<Rightarrow> (D_Array ds, visited'))
       | N_Object entries \<Rightarrow> (case thread (redact_entry (redact h replacements n)) entries (insert i visited) of
           (ds, visited') \<Rightarrow> (D_Object ds, visited')))
   | v \<Rightarrow> (D_Scalar v, visited))"

record audit_redaction_options =
  ro_sensitiveValues :: "string list option"
  ro_maxDepth :: "int option"

definition redact_sensitive_values :: "js_heap \<Rightarrow> js_val \<Rightarrow> audit_redaction_options \<Rightarrow> detached" where
  "redact_sensitive_values h v options =
    (let maxDepth = (case ro_maxDepth options of None \<Rightarrow> 8 | Some m \<Rightarrow> m);
         replacements = filter (\<lambda>item. length item > 0) (case ro_sensitiveValues options of None \<Rightarrow> [] | Some vs \<Rightarrow> vs)
     in fst (redact h replacements (nat maxDepth) v {}))"

section \<open>What is left of a string\<close>

lemma js_starts_with_prefix: "js_starts_with s p \<longleftrightarrow> (\<exists>t. s = p @ t)"
  by (induction s p rule: js_starts_with.induct) auto

lemma js_includes_infix: "js_includes s p \<longleftrightarrow> (\<exists>a b. s = a @ p @ b)"
proof (induction s)
  case (Cons c cs)
  have "(\<exists>a b. c # cs = a @ p @ b) \<longleftrightarrow> (\<exists>b. c # cs = p @ b) \<or> (\<exists>a b. cs = a @ p @ b)"
    by (metis append_Cons append_Nil list.sel(3) neq_Nil_conv tl_append2)
  then show ?case using Cons by (simp add: js_starts_with_prefix)
qed auto

text \<open>A text that shares no character with the mark lies in what was copied.\<close>

lemma infix_after_mark:
  assumes "set v \<inter> set m = {}" "v \<noteq> []" "m @ s = a @ v @ b"
  shows "\<exists>a'. s = a' @ v @ b"
proof (cases "length m \<le> length a")
  case True
  then show ?thesis using assms(3) by (metis append_eq_append_conv_if append_eq_append_conv2)
next
  case False
  then obtain x xs where "m = a @ x # xs"
    using assms(3) by (metis append_eq_append_conv2 append_Nil2 le_refl length_append list.exhaust trans_le_add1)
  then have "x # xs @ s = v @ b" using assms(3) by simp
  then have "x = hd v" using assms(2) by (cases v) auto
  then show ?thesis using assms(1,2) \<open>m = a @ x # xs\<close> by auto
qed

lemma prefix_after_replace:
  assumes "set v \<inter> set m = {}" "m \<noteq> []" "js_starts_with (js_replace_all p m s) v"
  shows "js_starts_with s v"
  using assms
proof (induction p m s arbitrary: v rule: js_replace_all.induct)
  case (1 p ps m c cs)
  show ?case
  proof (cases v)
    case (Cons x xs)
    show ?thesis
    proof (cases "js_starts_with (c # cs) (p # ps)")
      case True
      obtain y ys where m: "m = y # ys" using "1.prems"(2) by (cases m) auto
      then have "x = y" using "1.prems"(3) Cons True by simp
      then show ?thesis using "1.prems"(1) Cons m by simp
    next
      case False
      have "js_replace_all (p # ps) m (c # cs) = c # js_replace_all (p # ps) m cs"
        by (simp only: js_replace_all.simps False if_False)
      then have "c = x" "js_starts_with (js_replace_all (p # ps) m cs) xs" using "1.prems"(3) Cons
        by (simp_all del: js_replace_all.simps)
      then show ?thesis using "1.IH"(2) [OF False, of xs] "1.prems"(1,2) Cons by simp
    qed
  qed simp
qed simp_all

lemma includes_suffix: "js_includes (drop n s) v \<Longrightarrow> js_includes s v"
  unfolding js_includes_infix by (metis append_assoc append_take_drop_id)

lemma replace_step:
  assumes "set v \<inter> set m = {}" "v \<noteq> []" "m \<noteq> []" "js_includes (js_replace_all (p # ps) m (c # cs)) v"
  obtains (replaced) "js_starts_with (c # cs) (p # ps)" "js_includes (js_replace_all (p # ps) m (drop (length ps) cs)) v"
  | (starts) "\<not> js_starts_with (c # cs) (p # ps)" "js_starts_with (c # cs) v"
  | (copied) "\<not> js_starts_with (c # cs) (p # ps)" "js_includes (js_replace_all (p # ps) m cs) v"
proof (cases "js_starts_with (c # cs) (p # ps)")
  case True
  then have "js_includes (m @ js_replace_all (p # ps) m (drop (length ps) cs)) v" using assms(4) by simp
  then have "js_includes (js_replace_all (p # ps) m (drop (length ps) cs)) v"
    using infix_after_mark [OF assms(1,2)] unfolding js_includes_infix by blast
  then show ?thesis by (rule replaced [OF True])
next
  case False
  have e: "js_replace_all (p # ps) m (c # cs) = c # js_replace_all (p # ps) m cs"
    by (simp only: js_replace_all.simps False if_False)
  have "js_starts_with (js_replace_all (p # ps) m (c # cs)) v \<or> js_includes (js_replace_all (p # ps) m cs) v"
    using assms(4) unfolding e by simp
  then show ?thesis using prefix_after_replace [OF assms(1,3)] starts [OF False] copied [OF False] by blast
qed

lemma replace_keeps_clean:
  assumes "set v \<inter> set m = {}" "v \<noteq> []" "m \<noteq> []" "js_includes (js_replace_all p m s) v"
  shows "js_includes s v"
  using assms
proof (induction p m s rule: js_replace_all.induct)
  case (1 p ps m c cs)
  show ?case
  proof (cases rule: replace_step [OF "1.prems", case_names replaced starts copied])
    case replaced
    then have "js_includes (drop (length ps) cs) v" using "1.IH"(1) "1.prems" by blast
    from includes_suffix [OF this] show ?thesis by simp
  next
    case starts
    then show ?thesis by simp
  next
    case copied
    then have "js_includes cs v" using "1.IH"(2) "1.prems" by blast
    then show ?thesis by simp
  qed
qed simp_all

lemma replace_removes:
  assumes "set v \<inter> set m = {}" "v \<noteq> []" "m \<noteq> []"
  shows "\<not> js_includes (js_replace_all v m s) v"
  using assms
proof (induction v m s rule: js_replace_all.induct)
  case (1 p ps m c cs)
  show ?case
  proof
    assume "js_includes (js_replace_all (p # ps) m (c # cs)) (p # ps)"
    then show False
      by (cases rule: replace_step [OF "1.prems"]) (use "1.IH" "1.prems" in blast)+
  qed
qed simp_all

lemma redact_string_hides:
  assumes "v \<in> set replacements" "v \<noteq> []" "set v \<inter> set redacted_audit_value = {}"
  shows "\<not> js_includes (redact_string replacements s) v"
proof -
  have m: "redacted_audit_value \<noteq> []" by (simp add: redacted_audit_value_def)
  have keeps: "\<not> js_includes t v \<Longrightarrow> \<not> js_includes (fold (\<lambda>r. js_replace_all r redacted_audit_value) rs t) v" for rs t
    by (induction rs arbitrary: t) (auto dest: replace_keeps_clean [OF assms(3,2) m])
  have "\<not> js_includes (fold (\<lambda>r. js_replace_all r redacted_audit_value) rs t) v" if "v \<in> set rs" for rs t
    using that
  proof (induction rs arbitrary: t)
    case (Cons r rs)
    then show ?case using keeps [OF replace_removes [OF assms(3,2) m]] by auto
  qed simp
  then show ?thesis using assms(1) by (simp add: redact_string_def)
qed

section \<open>What is left of a value\<close>

text \<open>No sensitive text is left in \<open>s\<close>; those that share a character with the mark are not covered.\<close>

definition hides :: "string list \<Rightarrow> string \<Rightarrow> bool" where
  "hides sensitive s \<longleftrightarrow> (\<forall>v \<in> set sensitive. v = [] \<or> set v \<inter> set redacted_audit_value \<noteq> {} \<or> \<not> js_includes s v)"

text \<open>A tree of at most \<open>n\<close> levels without references, with the mark under every sensitive key.\<close>

fun safe_tree :: "(string \<Rightarrow> bool) \<Rightarrow> nat \<Rightarrow> detached \<Rightarrow> bool" where
  "safe_tree ok n (D_Scalar (V_String s)) = ok s"
| "safe_tree ok n (D_Scalar (V_Ref i)) = False"
| "safe_tree ok n (D_Scalar v) = True"
| "safe_tree ok 0 (D_Array ds) = False"
| "safe_tree ok (Suc n) (D_Array ds) = list_all (safe_tree ok n) ds"
| "safe_tree ok 0 (D_Object ds) = False"
| "safe_tree ok (Suc n) (D_Object ds) = list_all (\<lambda>(k, d).
     if sensitive_key k then d = D_Scalar (V_String redacted_audit_value) else safe_tree ok n d) ds"

lemma thread_all:
  assumes "\<And>x s. P (fst (f x s))"
  shows "list_all P (fst (thread f xs s))"
proof (induction xs arbitrary: s)
  case (Cons x xs)
  obtain y t where y: "f x s = (y, t)" by fastforce
  obtain ys u where ys: "thread f xs t = (ys, u)" by fastforce
  show ?case using assms [of x s] Cons.IH [of t] by (simp add: y ys)
qed simp

lemma hides_mark: "hides sensitive redacted_audit_value"
proof -
  have "v = [] \<or> set v \<inter> set redacted_audit_value \<noteq> {}" if v: "js_includes redacted_audit_value v" for v
  proof -
    obtain a b where "redacted_audit_value = a @ v @ b" using v unfolding js_includes_infix by blast
    from arg_cong [OF this, of set] have "set v \<subseteq> set redacted_audit_value" by auto
    then show ?thesis by (cases v) auto
  qed
  then show ?thesis by (auto simp: hides_def)
qed

lemma redact_safe: "safe_tree (hides replacements) n (fst (redact h replacements n v visited))"
proof (induction n arbitrary: v visited)
  case 0
  show ?case using redact_string_hides hides_mark by (cases v) (auto simp: hides_def)
next
  case (Suc n)
  have clean: "hides replacements (redact_string replacements s)" for s
    using redact_string_hides by (auto simp: hides_def)
  show ?case
  proof (cases v)
    case (V_Ref i)
    have arr: "list_all (safe_tree (hides replacements) n) (fst (thread (redact h replacements n) items vis))" for items vis
      by (rule thread_all) (rule Suc.IH)
    have obj: "safe_tree (hides replacements) (Suc n)
        (D_Object (fst (thread (redact_entry (redact h replacements n)) entries vis)))" for entries vis
      unfolding safe_tree.simps by (rule thread_all) (use Suc.IH in \<open>auto simp: redact_entry_def split: prod.split\<close>, metis fst_conv)
    show ?thesis
    proof (cases "i \<in> visited")
      case False
      show ?thesis
      proof (cases "h i")
        case (N_Array items)
        then show ?thesis using V_Ref False arr [of items "insert i visited"] by (auto split: prod.split)
      next
        case (N_Object entries)
        then show ?thesis using V_Ref False obj [of entries "insert i visited"]
          by (cases "thread (redact_entry (redact h replacements n)) entries (insert i visited)") (simp del: safe_tree.simps)
      qed
    qed (use V_Ref hides_mark in simp)
  qed (use clean in simp_all)
qed


text \<open>An object that contains itself, with a credential, a sensitive key and a sensitive value.\<close>

lemma redaction_example:
  "redact_sensitive_values (\<lambda>_. N_Object [(''self'', V_Ref 0), (''API-Key'', V_Number 7),
       (''note'', V_String ''bearer  abc.def for ann, xBearer kept'')]) (V_Ref 0)
     \<lparr>ro_sensitiveValues = Some [''ann'', []], ro_maxDepth = None\<rparr> =
   D_Object [(''self'', D_Scalar (V_String ''[REDACTED]'')), (''API-Key'', D_Scalar (V_String ''[REDACTED]'')),
     (''note'', D_Scalar (V_String ''[REDACTED] for [REDACTED], xBearer kept''))]"
  by code_simp

text \<open>The names of properties are passed on as they are, also when one is a sensitive value.\<close>

lemma redaction_keeps_names:
  "redact_sensitive_values (\<lambda>_. N_Object [(''ann'', V_Number 7)]) (V_Ref 0)
     \<lparr>ro_sensitiveValues = Some [''ann''], ro_maxDepth = None\<rparr> = D_Object [(''ann'', D_Scalar (V_Number 7))]"
  by code_simp

end
