(* ===== verification/Audit_Release.thy ===== *)
theory Audit_Release
  imports Audit_Sdk "HOL-Library.AList" "HOL-Library.Char_ord" "HOL-Library.List_Lexorder"
begin

text \<open>
  The release bundle of the audit package (\<open>packages/audit-sdk/scripts/release-lib.mjs\<close>): how
  it is put together, and how its checksum manifest is verified. A directory is the list of its
  files, each with its path relative to the root; SHA-256 is a parameter.
\<close>

section \<open>Files\<close>

type_synonym release_tree = "(string \<times> string) list"

definition sums_path :: string where
  "sums_path = ''SHA256SUMS''"

definition list_files :: "release_tree \<Rightarrow> string list" where
  "list_files d = sort (List.map fst d)"

definition is_unsafe_manifest_path :: "string \<Rightarrow> bool" where
  "is_unsafe_manifest_path artifactPath \<longleftrightarrow>
     length artifactPath = 0 \<or> js_starts_with artifactPath ''/'' \<or> CHR 0x5C \<in> set artifactPath \<or>
     list_ex (\<lambda>segment. segment = [] \<or> segment = ''.'' \<or> segment = ''..'') (js_split CHR ''/'' artifactPath)"

section \<open>Verifying\<close>

text \<open>\<open>^([0-9a-f]{64}) {2}(.+)$\<close>\<close>

definition checksum_line :: "string \<Rightarrow> (string \<times> string) option" where
  "checksum_line entry =
    (let h = take 64 entry; path = drop 66 entry in
     if length h = 64 \<and> list_all is_hex_lower h \<and> take 2 (drop 64 entry) = ''  '' \<and> path \<noteq> [] \<and>
        list_all (\<lambda>c. code_unit c \<noteq> 10 \<and> code_unit c \<noteq> 13) path
     then Some (h, path) else None)"

fun read_checksums :: "string list \<Rightarrow> (string \<times> string) list \<Rightarrow> js_error + (string \<times> string) list" where
  "read_checksums [] expected = Inr expected"
| "read_checksums (entry # entries) expected =
     (case checksum_line entry of
        None \<Rightarrow> Inl (Error ''Release checksum manifest is malformed'')
      | Some (checksum, artifactPath) \<Rightarrow>
          if is_unsafe_manifest_path artifactPath \<or> artifactPath \<in> fst ` set expected
          then Inl (Error (''Unsafe or duplicate checksum path: '' @ artifactPath))
          else read_checksums entries (expected @ [(artifactPath, checksum)]))"

fun check_files :: "(string \<Rightarrow> string) \<Rightarrow> release_tree \<Rightarrow> (string \<times> string) list \<Rightarrow> js_error + unit" where
  "check_files sha256 d [] = Inr ()"
| "check_files sha256 d ((artifactPath, expectedChecksum) # rest) =
     (case map_of d artifactPath of
        None \<Rightarrow> Inl (Foreign ''ENOENT'')
      | Some content \<Rightarrow> if sha256 content \<noteq> expectedChecksum
          then Inl (Error (''Checksum mismatch for '' @ artifactPath)) else check_files sha256 d rest)"

text \<open>\<open>split\<close> never gives an empty list, so the check for one never throws. Two arrays of strings have
  the same JSON text when they are equal.\<close>

definition verify_release :: "(string \<Rightarrow> string) \<Rightarrow> release_tree \<Rightarrow> js_error + unit" where
  "verify_release sha256 d =
    (case map_of d sums_path of
       None \<Rightarrow> Inl (Foreign ''ENOENT'')
     | Some manifest \<Rightarrow>
         let entries = js_split CHR 0x0A (js_trim manifest) in
         if entries = [] then Inl (Error ''Release checksum manifest is empty'')
         else bind_err (read_checksums entries []) (\<lambda>expectedChecksums.
           let actualPaths = filter (\<lambda>p. p \<noteq> sums_path) (list_files d);
               expectedPaths = sort (List.map fst expectedChecksums) in
           if expectedPaths \<noteq> actualPaths
           then Inl (Error ''Release checksum manifest does not match the release file set'')
           else check_files sha256 d expectedChecksums))"

section \<open>Child processes\<close>

text \<open>What \<open>spawnSync\<close> returns; without \<open>capture\<close> the streams are inherited and not read.\<close>

record spawn_result =
  sp_status :: "int option"
  sp_stdout :: "string option"
  sp_stderr :: "string option"

definition run_command :: "string \<Rightarrow> string list \<Rightarrow> bool \<Rightarrow> spawn_result \<Rightarrow> js_error + string" where
  "run_command command arguments capture result =
    (if sp_status result \<noteq> Some 0
     then (let detail = (if capture then (case sp_stdout result of None \<Rightarrow> [] | Some s \<Rightarrow> s) @
                           (case sp_stderr result of None \<Rightarrow> [] | Some s \<Rightarrow> s) else []) in
           Inl (Error (command @ '' '' @ js_join CHR '' '' arguments @ '' failed'' @
             (if length detail = 0 then [] else CHR 0x0A # detail))))
     else Inr (case sp_stdout result of None \<Rightarrow> [] | Some s \<Rightarrow> s))"

text \<open>\<open>path.basename\<close>: what follows the last slash that is not at the end.\<close>

definition basename :: "string \<Rightarrow> string" where
  "basename path = rev (takeWhile (\<lambda>c. c \<noteq> CHR ''/'') (dropWhile (\<lambda>c. c = CHR ''/'') (rev path)))"

definition packed_filename :: "json \<Rightarrow> string option" where
  "packed_filename result = (case result of
     JArray [JObject ps] \<Rightarrow> (case map_of ps ''filename'' of Some (JString filename) \<Rightarrow> Some filename | _ \<Rightarrow> None)
   | _ \<Rightarrow> None)"

text \<open>The name of the packed file in the destination; \<open>JSON.parse\<close> is a parameter.\<close>

definition pack_package :: "(string \<Rightarrow> js_error + json) \<Rightarrow> string \<Rightarrow> spawn_result \<Rightarrow> js_error + string" where
  "pack_package parse destination npm =
     bind_err (run_command ''npm'' [''pack'', ''--json'', ''--pack-destination'', destination] True npm) (\<lambda>output.
     bind_err (parse output) (\<lambda>result.
       case packed_filename result of
         None \<Rightarrow> Inl (Error ''npm pack returned an unexpected result'')
       | Some filename \<Rightarrow> Inr (basename filename)))"

section \<open>Building\<close>

text \<open>The keys of an object are written in the order of their code units.\<close>

fun stable_json :: "json \<Rightarrow> string" where
  "stable_json (JArray xs) = CHR ''['' # join_comma (List.map stable_json xs) @ '']''"
| "stable_json (JObject ps) = CHR ''{'' # join_comma (List.map (\<lambda>(k, v). json_string k @ CHR '':'' # v)
     (sort_key fst (List.map (\<lambda>(k, v). (k, stable_json v)) ps))) @ ''}''"
| "stable_json v = json_stringify v"

record package_manifest =
  pm_name :: string
  pm_version :: string

definition artifact_name :: "package_manifest \<Rightarrow> string" where
  "artifact_name manifest = ''audit-sdk-'' @ pm_version manifest @ ''.tgz''"

definition release_manifest :: "package_manifest \<Rightarrow> string \<Rightarrow> string \<Rightarrow> json" where
  "release_manifest manifest sourceRevision sourceStatus = JObject
    [(''bundle_format'', JString ''movie-platform-audit-sdk-release/1''),
     (''package'', JObject [(''name'', JString (pm_name manifest)), (''version'', JString (pm_version manifest)),
       (''artifact'', JString (artifact_name manifest))]),
     (''contract'', JObject [(''name'', JString ''platform-audit''), (''version'', JString ''1''),
       (''ocsf_version'', JString ''1.3.0''), (''directory'', JString ''contract'')]),
     (''source'', JObject [(''revision'', JString sourceRevision), (''dirty'', JBool (length sourceStatus > 0))])]"

definition checksum_entry :: "(string \<Rightarrow> string) \<Rightarrow> release_tree \<Rightarrow> string \<Rightarrow> string" where
  "checksum_entry sha256 d path = sha256 (the (map_of d path)) @ ''  '' @ path"

text \<open>The last step of a build: every file that is there gets its line.\<close>

definition add_checksums :: "(string \<Rightarrow> string) \<Rightarrow> release_tree \<Rightarrow> release_tree" where
  "add_checksums sha256 d = (let files = filter (\<lambda>p. p \<noteq> sums_path) (list_files d) in
     d @ [(sums_path, js_join CHR 0x0A (List.map (checksum_entry sha256 d) files) @ [CHR 0x0A])])"

text \<open>
  What the child processes do to a build: the outcome of \<open>npm pack\<close> with the files it left in its
  destination, and what the two \<open>git\<close> commands returned.
\<close>

record release_runs =
  rr_pack :: spawn_result
  rr_packed :: "(string \<times> string) list"
  rr_revParse :: spawn_result
  rr_status :: spawn_result

definition git_output :: "string list \<Rightarrow> spawn_result \<Rightarrow> js_error + string" where
  "git_output arguments result = bind_err (run_command ''git'' arguments True result) (\<lambda>s. Inr (js_trim s))"

definition within :: "string \<Rightarrow> (string \<times> string) list \<Rightarrow> release_tree" where
  "within directory files = List.map (\<lambda>(name, content). (directory @ CHR ''/'' # name, content)) files"

text \<open>The files in front of the manifests, by the version of the package, a semantic version.\<close>

definition build_release ::
  "(string \<Rightarrow> string) \<Rightarrow> (string \<Rightarrow> js_error + json) \<Rightarrow> package_manifest \<Rightarrow> (string \<times> string) list \<Rightarrow> string \<Rightarrow>
    release_runs \<Rightarrow> release_tree \<times> (js_error + string \<times> string list)" where
  "build_release sha256 parse manifest contract outputDirectory children =
    (let artifactName = artifact_name manifest in
     case bind_err (pack_package parse (outputDirectory @ ''/.pack'') (rr_pack children)) (\<lambda>name.
            case map_of (rr_packed children) name of None \<Rightarrow> Inl (Foreign ''ENOENT'') | Some content \<Rightarrow> Inr content) of
       Inl e \<Rightarrow> (within ''.pack'' (rr_packed children), Inl e)
     | Inr packed \<Rightarrow>
         let copied = (artifactName, packed) # within ''contract'' contract in
         case bind_err (git_output [''rev-parse'', ''HEAD''] (rr_revParse children)) (\<lambda>sourceRevision.
                bind_err (git_output [''status'', ''--porcelain'', ''--'', ''.'', ''../../package.json'', ''../../package-lock.json'']
                  (rr_status children)) (\<lambda>sourceStatus. Inr (sourceRevision, sourceStatus))) of
           Inl e \<Rightarrow> (copied, Inl e)
         | Inr (sourceRevision, sourceStatus) \<Rightarrow>
             let files = copied @ [(''release-manifest.json'',
                   stable_json (release_manifest manifest sourceRevision sourceStatus) @ [CHR 0x0A])] in
             (add_checksums sha256 files, Inr (artifactName, filter (\<lambda>p. p \<noteq> sums_path) (list_files files) @ [sums_path])))"

section \<open>Checking a release\<close>

definition hash_release_tree :: "(string \<Rightarrow> string) \<Rightarrow> release_tree \<Rightarrow> string" where
  "hash_release_tree sha256 d = sha256 (List.concat
     (List.map (\<lambda>path. path @ CHR 0x00 # the (map_of d path) @ [CHR 0x00]) (list_files d)))"

definition write_file :: "string \<Rightarrow> string \<Rightarrow> release_tree \<Rightarrow> release_tree" where
  "write_file path content d = AList.update path content d"

definition remove_file :: "string \<Rightarrow> release_tree \<Rightarrow> release_tree" where
  "remove_file path d = AList.delete path d"

definition expect_verification_failure :: "(string \<Rightarrow> string) \<Rightarrow> release_tree \<Rightarrow> string \<Rightarrow> js_error + unit" where
  "expect_verification_failure sha256 d scenario = (case verify_release sha256 d of
     Inl e \<Rightarrow> Inr ()
   | Inr u \<Rightarrow> Inl (Error (''Release verification accepted '' @ scenario)))"

definition js_trim_end :: "string \<Rightarrow> string" where
  "js_trim_end s = rev (dropWhile is_js_space (rev s))"

text \<open>\<open>firstLine.replace(/^[0-9a-f]{64} {2}/, '')\<close>\<close>

definition without_checksum :: "string \<Rightarrow> string" where
  "without_checksum line = (if length (take 64 line) = 64 \<and> list_all is_hex_lower (take 64 line) \<and> take 2 (drop 64 line) = ''  ''
     then drop 66 line else line)"

definition verify_tampering_is_detected :: "(string \<Rightarrow> string) \<Rightarrow> release_tree \<Rightarrow> js_error + unit" where
  "verify_tampering_is_detected sha256 d =
    (case map_of d sums_path of
       None \<Rightarrow> Inl (Foreign ''ENOENT'')
     | Some originalChecksums \<Rightarrow>
         let added = write_file ''unexpected.txt'' (''unexpected'' @ [CHR 0x0A]) d in
         bind_err (expect_verification_failure sha256 added ''an unlisted release file'') (\<lambda>_.
         let removed = remove_file ''unexpected.txt'' added in
         case js_split CHR 0x0A (js_trim_end originalChecksums) of
           firstLine # remainingLine # remainingLines \<Rightarrow>
             let shortened = write_file sums_path (js_join CHR 0x0A (remainingLine # remainingLines) @ [CHR 0x0A]) removed in
             bind_err (expect_verification_failure sha256 shortened ''a missing checksum entry'') (\<lambda>_.
             let restored = write_file sums_path originalChecksums shortened;
                 tampered = write_file (without_checksum firstLine) (''tampered'' @ [CHR 0x0A]) restored in
             expect_verification_failure sha256 tampered ''tampered artifact content'')
         | _ \<Rightarrow> Inl (Error ''Expected multiple release artifacts in SHA256SUMS'')))"

text \<open>The release check, given the results of its two clean builds.\<close>

definition check_release :: "(string \<Rightarrow> string) \<Rightarrow> release_tree \<Rightarrow> release_tree \<Rightarrow> js_error + unit" where
  "check_release sha256 first second =
     bind_err (verify_release sha256 first) (\<lambda>_.
     bind_err (verify_release sha256 second) (\<lambda>_.
     if hash_release_tree sha256 first \<noteq> hash_release_tree sha256 second
     then Inl (Error ''Release bundle is not reproducible across clean builds'')
     else verify_tampering_is_detected sha256 first))"

section \<open>What verification accepts\<close>

lemma read_checksums_distinct:
  "read_checksums entries expected = Inr es \<Longrightarrow> distinct (List.map fst expected) \<Longrightarrow> distinct (List.map fst es)"
  by (induction entries expected rule: read_checksums.induct) (auto split: option.splits if_splits)

lemma check_files_exact:
  "check_files sha256 d es = Inr () \<longleftrightarrow> (\<forall>(p, h) \<in> set es. map_option sha256 (map_of d p) = Some h)"
  by (induction sha256 d es rule: check_files.induct) (auto split: option.split)

lemma map_of_sort_paths: "distinct (List.map fst es) \<Longrightarrow> sort (List.map fst es) = sort ps \<Longrightarrow> distinct ps \<Longrightarrow>
    set (List.map fst es) = set ps"
  by (metis set_sort)

text \<open>A directory verifies exactly when its manifest lists its files with their checksums.\<close>

lemma verify_exact:
  assumes "distinct (List.map fst d)"
  shows "verify_release sha256 d = Inr () \<longleftrightarrow> (\<exists>manifest es. map_of d sums_path = Some manifest \<and>
    read_checksums (js_split CHR 0x0A (js_trim manifest)) [] = Inr es \<and>
    map_of es = (map_option sha256 \<circ> map_of d)(sums_path := None))"
proof -
  have iff: "sort (List.map fst es) = filter (\<lambda>p. p \<noteq> sums_path) (list_files d) \<and> check_files sha256 d es = Inr () \<longleftrightarrow>
      map_of es = (map_option sha256 \<circ> map_of d)(sums_path := None)" if dist: "distinct (List.map fst es)" for es
  proof
    assume asm: "sort (List.map fst es) = filter (\<lambda>p. p \<noteq> sums_path) (list_files d) \<and> check_files sha256 d es = Inr ()"
    from arg_cong [OF conjunct1 [OF asm], of set] have keys: "fst ` set es = fst ` set d - {sums_path}"
      by (simp add: list_files_def set_diff_eq)
    have all: "\<forall>(p, h) \<in> set es. map_option sha256 (map_of d p) = Some h"
      using asm by (simp add: check_files_exact)
    show "map_of es = (map_option sha256 \<circ> map_of d)(sums_path := None)"
    proof
      fix p
      show "map_of es p = ((map_option sha256 \<circ> map_of d)(sums_path := None)) p"
      proof (cases "p \<in> fst ` set es")
        case True
        then obtain h where "map_of es p = Some h" by (metis map_of_eq_None_iff not_None_eq)
        moreover from this have "(p, h) \<in> set es" by (rule map_of_SomeD)
        ultimately show ?thesis using all keys True by auto
      next
        case False
        then show ?thesis using keys by (metis (no_types, lifting) DiffI comp_apply fun_upd_apply map_of_eq_None_iff
              option.map_disc_iff singletonD)
      qed
    qed
  next
    assume m: "map_of es = (map_option sha256 \<circ> map_of d)(sums_path := None)"
    have "fst ` set es = fst ` set d - {sums_path}"
      using arg_cong [OF m, of dom] by (auto simp: dom_map_of_conv_image_fst)
    then have "set (sort (List.map fst es)) = set (filter (\<lambda>p. p \<noteq> sums_path) (list_files d))"
      by (auto simp: list_files_def)
    then have "sort (List.map fst es) = filter (\<lambda>p. p \<noteq> sums_path) (list_files d)"
      using dist assms by (intro sorted_distinct_set_unique) (simp_all add: list_files_def sorted_wrt_filter)
    moreover have "map_option sha256 (map_of d p) = Some h" if "(p, h) \<in> set es" for p h
      using that dist fun_cong [OF m, of p] by (auto split: if_splits)
    ultimately show "sort (List.map fst es) = filter (\<lambda>p. p \<noteq> sums_path) (list_files d) \<and> check_files sha256 d es = Inr ()"
      by (auto simp: check_files_exact)
  qed
  show ?thesis
  proof (cases "map_of d sums_path")
    case None
    then show ?thesis by (simp add: verify_release_def)
  next
    case (Some manifest)
    show ?thesis
    proof (cases "read_checksums (js_split CHR 0x0A (js_trim manifest)) []")
      case (Inl e)
      then show ?thesis using Some by (simp add: verify_release_def Let_def)
    next
      case (Inr es)
      have "distinct (List.map fst es)" using read_checksums_distinct [OF Inr] by simp
      from iff [OF this] show ?thesis using Some Inr by (auto simp: verify_release_def Let_def)
    qed
  qed
qed

section \<open>Reading back what was written\<close>

definition plain_path :: "string \<Rightarrow> bool" where
  "plain_path p \<longleftrightarrow> \<not> is_unsafe_manifest_path p \<and> list_all (\<lambda>c. \<not> is_js_space c) p"

definition digest_ok :: "(string \<Rightarrow> string) \<Rightarrow> bool" where
  "digest_ok sha256 \<longleftrightarrow> (\<forall>c. length (sha256 c) = 64 \<and> list_all is_hex_lower (sha256 c))"

lemma plain_path_nonempty: "plain_path p \<Longrightarrow> p \<noteq> []"
  by (auto simp: plain_path_def is_unsafe_manifest_path_def)

lemma split_join: "xs \<noteq> [] \<Longrightarrow> \<forall>x \<in> set xs. sep \<notin> set x \<Longrightarrow> js_split sep (js_join sep xs) = xs"
  by (induction sep xs rule: js_join.induct) (simp_all add: js_split_unit js_split_app)

lemma trim_line:
  assumes "s \<noteq> []" "\<not> is_js_space (hd s)" "\<not> is_js_space (last s)"
  shows "js_trim (s @ [CHR 0x0A]) = s"
proof -
  have "dropWhile is_js_space (s @ [CHR 0x0A]) = s @ [CHR 0x0A]" using assms(1,2) by (cases s) auto
  moreover have "is_js_space CHR 0x0A" by code_simp
  moreover have "dropWhile is_js_space (rev s) = rev s"
    using assms(1,3) by (cases s rule: rev_cases) auto
  ultimately show ?thesis by (simp add: js_trim_def)
qed

lemma join_ends: "xs \<noteq> [] \<Longrightarrow> \<forall>x \<in> set xs. x \<noteq> [] \<Longrightarrow>
    js_join sep xs \<noteq> [] \<and> hd (js_join sep xs) = hd (hd xs) \<and> last (js_join sep xs) = last (last xs)"
  by (induction sep xs rule: js_join.induct) auto

lemma hex_not_space: "is_hex_lower c \<Longrightarrow> \<not> is_js_space c"
  by (auto simp: class_defs)

lemma line_facts:
  assumes "digest_ok sha256" "plain_path p"
  shows "checksum_line (checksum_entry sha256 d p) = Some (sha256 (the (map_of d p)), p)"
    "CHR 0x0A \<notin> set (checksum_entry sha256 d p)" "checksum_entry sha256 d p \<noteq> []"
    "\<not> is_js_space (hd (checksum_entry sha256 d p))" "\<not> is_js_space (last (checksum_entry sha256 d p))"
proof -
  let ?h = "sha256 (the (map_of d p))"
  have h: "length ?h = 64" "list_all is_hex_lower ?h" using assms(1) by (simp_all add: digest_ok_def)
  have p: "p \<noteq> []" "\<forall>c \<in> set p. \<not> is_js_space c"
    using assms(2) plain_path_nonempty by (auto simp: plain_path_def list_all_iff)
  have nl: "is_js_space CHR 0x0A" "is_js_space CHR 0x0D" by code_simp+
  have path: "list_all (\<lambda>c. code_unit c \<noteq> 10 \<and> code_unit c \<noteq> 13) p"
    using p(2) by (auto simp: list_all_iff is_js_space_def)
  show "checksum_line (checksum_entry sha256 d p) = Some (?h, p)"
    using h p path by (simp add: checksum_line_def checksum_entry_def)
  have "\<forall>c \<in> set ?h. \<not> is_js_space c" using h(2) hex_not_space by (auto simp: list_all_iff)
  then show "CHR 0x0A \<notin> set (checksum_entry sha256 d p)" using p(2) nl by (auto simp: checksum_entry_def)
  show "checksum_entry sha256 d p \<noteq> []" by (simp add: checksum_entry_def)
  have "?h \<noteq> []" using h(1) by auto
  then show "\<not> is_js_space (hd (checksum_entry sha256 d p))" using h(2) hex_not_space
    by (cases ?h) (auto simp: checksum_entry_def)
  show "\<not> is_js_space (last (checksum_entry sha256 d p))" using p by (simp add: checksum_entry_def)
qed

lemma lines_facts:
  assumes "digest_ok sha256" "\<forall>p \<in> set ps. plain_path p"
  shows "\<forall>x \<in> set (List.map (checksum_entry sha256 d) ps). x \<noteq> []"
    "\<forall>x \<in> set (List.map (checksum_entry sha256 d) ps). CHR 0x0A \<notin> set x"
  using assms by (simp_all add: line_facts)

lemma read_written:
  assumes "digest_ok sha256" "\<forall>p \<in> set ps. plain_path p" "distinct ps" "fst ` set es \<inter> set ps = {}"
  shows "read_checksums (List.map (checksum_entry sha256 d) ps) es =
    Inr (es @ List.map (\<lambda>p. (p, sha256 (the (map_of d p)))) ps)"
  using assms
proof (induction ps arbitrary: es)
  case (Cons p ps)
  have "\<not> is_unsafe_manifest_path p" "p \<notin> fst ` set es" using Cons.prems by (auto simp: plain_path_def)
  then show ?case using Cons by (simp add: line_facts(1))
qed simp

lemma read_manifest:
  assumes "digest_ok sha256" "\<forall>p \<in> set ps. plain_path p" "distinct ps" "ps \<noteq> []"
  shows "read_checksums (js_split CHR 0x0A (js_trim (js_join CHR 0x0A (List.map (checksum_entry sha256 d) ps) @ [CHR 0x0A]))) [] =
    Inr (List.map (\<lambda>p. (p, sha256 (the (map_of d p)))) ps)"
proof -
  let ?ls = "List.map (checksum_entry sha256 d) ps"
  note ls = lines_facts [OF assms(1,2), of d]
  have ne: "?ls \<noteq> []" using assms(4) by simp
  have "\<not> is_js_space (hd (hd ?ls))" "\<not> is_js_space (last (last ?ls))"
    using assms by (simp_all add: hd_map last_map line_facts)
  then have "js_trim (js_join CHR 0x0A ?ls @ [CHR 0x0A]) = js_join CHR 0x0A ?ls"
    using join_ends [OF ne ls(1)] by (intro trim_line) auto
  then show ?thesis using split_join [OF ne ls(2)] read_written [OF assms(1-3), of "[]"] by simp
qed

text \<open>A directory with the manifest of \<open>b\<close> verifies exactly when its files have the digests of those of \<open>b\<close>.\<close>

lemma verify_against_built:
  assumes "digest_ok sha256" and d: "d \<noteq> []" "sums_path \<notin> fst ` set d" "distinct (List.map fst d)"
    and plain: "\<forall>p \<in> fst ` set d. plain_path p" and b: "b = add_checksums sha256 d"
    and t: "distinct (List.map fst t)" "map_of t sums_path = map_of b sums_path"
  shows "verify_release sha256 t = Inr () \<longleftrightarrow> (\<forall>p. map_option sha256 (map_of t p) = map_option sha256 (map_of b p))"
proof -
  let ?ps = "filter (\<lambda>p. p \<noteq> sums_path) (list_files d)"
  let ?es = "List.map (\<lambda>p. (p, sha256 (the (map_of d p)))) ?ps"
  have ps: "set ?ps = fst ` set d" "distinct ?ps" using d by (force simp: list_files_def)+
  then have ne: "?ps \<noteq> []" using d(1) by (metis image_is_empty list.set(1) set_empty)
  have none: "map_of d sums_path = None" using d(2) by (simp add: map_of_eq_None_iff)
  have mb: "map_of b sums_path = Some (js_join CHR 0x0A (List.map (checksum_entry sha256 d) ?ps) @ [CHR 0x0A])"
    "p \<noteq> sums_path \<Longrightarrow> map_of b p = map_of d p" for p
    using none by (simp_all add: b add_checksums_def Let_def map_add_def split: option.split)
  have es: "map_of ?es = (map_option sha256 \<circ> map_of d)(sums_path := None)"
  proof
    fix p
    have "map_of (List.map (\<lambda>p. (p, f p)) qs) p = (if p \<in> set qs then Some (f p) else None)" for f :: "string \<Rightarrow> string" and qs
      by (induction qs) auto
    moreover have "p \<in> fst ` set d \<longleftrightarrow> map_of d p \<noteq> None" by (simp add: map_of_eq_None_iff)
    ultimately show "map_of ?es p = ((map_option sha256 \<circ> map_of d)(sums_path := None)) p"
      using ps(1) none by auto
  qed
  have rd: "read_checksums (js_split CHR 0x0A (js_trim (the (map_of b sums_path)))) [] = Inr ?es"
    unfolding mb(1) option.sel by (rule read_manifest [OF assms(1) _ ps(2) ne]) (use plain ps(1) in blast)
  have "verify_release sha256 t = Inr () \<longleftrightarrow> map_of ?es = (map_option sha256 \<circ> map_of t)(sums_path := None)"
    unfolding verify_exact [OF t(1)] using t(2) mb(1) rd by auto
  also have "\<dots> \<longleftrightarrow> (\<forall>p. map_option sha256 (map_of t p) = map_option sha256 (map_of b p))"
  proof -
    have "map_of ?es p = ((map_option sha256 \<circ> map_of t)(sums_path := None)) p \<longleftrightarrow>
        map_option sha256 (map_of t p) = map_option sha256 (map_of b p)" for p
    proof (cases "p = sums_path")
      case True
      then show ?thesis using fun_cong [OF es, of p] t(2) by simp
    next
      case False
      then show ?thesis using fun_cong [OF es, of p] mb(2) [of p] by (simp only: fun_upd_apply comp_apply if_False) metis
    qed
    then show ?thesis unfolding fun_eq_iff by blast
  qed
  finally show ?thesis .
qed

section \<open>The release check\<close>

lemma map_of_snoc: "map_of d k = None \<Longrightarrow> map_of (d @ [(k, v)]) = (map_of d)(k \<mapsto> v)"
  by (induction d) (auto simp: fun_eq_iff split: if_splits)

lemma map_of_write_file: "map_of (write_file path content d) = (map_of d)(path \<mapsto> content)"
  by (simp add: write_file_def update_conv')

lemma keys_write_file: "distinct (List.map fst d) \<Longrightarrow> distinct (List.map fst (write_file path content d))"
  by (simp add: write_file_def distinct_update)

lemma map_of_remove_file: "map_of (remove_file path d) = (map_of d)(path := None)"
  by (simp add: remove_file_def delete_conv')

lemma keys_remove_file: "distinct (List.map fst d) \<Longrightarrow> distinct (List.map fst (remove_file path d))"
  by (simp add: remove_file_def distinct_delete)

text \<open>What a manifest that lists only some of the files is worth.\<close>

lemma verify_listed:
  assumes "digest_ok sha256" "\<forall>p \<in> set ps. plain_path p" "distinct ps" "ps \<noteq> []" "distinct (List.map fst t)"
    and "map_of t sums_path = Some (js_join CHR 0x0A (List.map (checksum_entry sha256 d) ps) @ [CHR 0x0A])"
    and "verify_release sha256 t = Inr ()" "p \<noteq> sums_path" "map_of t p \<noteq> None"
  shows "p \<in> set ps"
proof -
  have "map_of (List.map (\<lambda>p. (p, sha256 (the (map_of d p)))) ps) = (map_option sha256 \<circ> map_of t)(sums_path := None)"
    using assms(7) unfolding verify_exact [OF assms(5)] assms(6) using read_manifest [OF assms(1-4)] by auto
  from fun_cong [OF this, of p] have "map_of (List.map (\<lambda>p. (p, sha256 (the (map_of d p)))) ps) p \<noteq> None"
    using assms(8,9) by auto
  then show ?thesis by (simp add: map_of_eq_None_iff image_image)
qed


lemma trim_end_line: "s \<noteq> [] \<Longrightarrow> \<not> is_js_space (last s) \<Longrightarrow> js_trim_end (s @ [CHR 0x0A]) = s"
proof -
  have "is_js_space CHR 0x0A" by code_simp
  then show "s \<noteq> [] \<Longrightarrow> \<not> is_js_space (last s) \<Longrightarrow> ?thesis" by (cases s rule: rev_cases) (auto simp: js_trim_end_def)
qed

lemma without_checksum_entry: "digest_ok sha256 \<Longrightarrow> without_checksum (checksum_entry sha256 d p) = p"
  by (simp add: without_checksum_def checksum_entry_def digest_ok_def)

text \<open>The three changes the release check makes are all noticed.\<close>

lemma tampering_is_detected:
  assumes sha: "digest_ok sha256" and d: "sums_path \<notin> fst ` set d" "distinct (List.map fst d)"
    and plain: "\<forall>p \<in> fst ` set d. plain_path p" and b: "b = add_checksums sha256 d"
    and ps: "sort (List.map fst d) = p # q # ps" and u: "''unexpected.txt'' \<notin> fst ` set d"
    and "sha256 (''tampered'' @ [CHR 0x0A]) \<noteq> sha256 (the (map_of d p))"
  shows "verify_tampering_is_detected sha256 b = Inr ()"
proof -
  let ?u = "''unexpected.txt''" and ?m = "js_join CHR 0x0A (List.map (checksum_entry sha256 d) (p # q # ps)) @ [CHR 0x0A]"
  let ?added = "write_file ?u (''unexpected'' @ [CHR 0x0A]) b"
  let ?removed = "remove_file ?u ?added"
  let ?short = "write_file sums_path (js_join CHR 0x0A (List.map (checksum_entry sha256 d) (q # ps)) @ [CHR 0x0A]) ?removed"
  let ?tampered = "write_file p (''tampered'' @ [CHR 0x0A]) (write_file sums_path ?m ?short)"
  have set: "set (p # q # ps) = fst ` set d" "distinct (p # q # ps)"
    using arg_cong [OF ps, of set] d(2) arg_cong [OF ps, of distinct] by auto
  have files: "filter (\<lambda>p. p \<noteq> sums_path) (list_files d) = p # q # ps"
    using d(1) unfolding list_files_def ps set(1) [symmetric] by (intro filter_True ballI) auto
  have dist: "distinct (List.map fst b)" using d by (simp add: b add_checksums_def)
  have none: "map_of d sums_path = None" "map_of d ?u = None" using d(1) u by (simp_all add: map_of_eq_None_iff)
  have mb: "map_of b = (map_of d)(sums_path \<mapsto> ?m)"
    unfolding b add_checksums_def Let_def files by (rule map_of_snoc [OF none(1)])
  have us: "?u \<noteq> sums_path" by (simp add: sums_path_def)
  have plain': "\<forall>x \<in> set (p # q # ps). plain_path x" using plain by (simp only: set(1))
  have pin: "p \<in> fst ` set d" by (simp flip: set(1))
  have p: "p \<noteq> sums_path" "p \<noteq> ?u" "map_of d p \<noteq> None" "p \<notin> set (q # ps)"
    subgoal using d(1) pin by blast
    subgoal using u pin by blast
    subgoal using pin by (simp add: map_of_eq_None_iff)
    subgoal using set(2) by simp
    done
  have ne: "d \<noteq> []" using p(3) by auto
  note against = verify_against_built [OF sha ne d plain b]
  have "verify_release sha256 ?added \<noteq> Inr ()"
    using against [OF keys_write_file [OF dist], of ?u "''unexpected'' @ [CHR 0x0A]"] us none(2)
    by (auto simp: map_of_write_file mb dest: spec [of _ ?u])
  moreover have "verify_release sha256 ?short \<noteq> Inr ()"
  proof
    assume "verify_release sha256 ?short = Inr ()"
    from verify_listed [OF sha _ _ _ _ _ this, of "q # ps" d p] show False
      using p set(2) plain' dist us by (simp add: map_of_write_file map_of_remove_file mb keys_write_file keys_remove_file)
  qed
  moreover have "verify_release sha256 ?tampered \<noteq> Inr ()"
  proof
    assume "verify_release sha256 ?tampered = Inr ()"
    moreover have "distinct (List.map fst ?tampered)" using dist by (intro keys_write_file keys_remove_file)
    moreover have "map_of ?tampered sums_path = map_of b sums_path" using p(1) by (simp add: map_of_write_file mb)
    ultimately have "map_option sha256 (map_of ?tampered p) = map_option sha256 (map_of b p)" using against by blast
    then show False using p(1,3) assms(8) by (auto simp: map_of_write_file mb)
  qed
  moreover have "js_split CHR 0x0A (js_trim_end ?m) = List.map (checksum_entry sha256 d) (p # q # ps)"
  proof -
    let ?ls = "List.map (checksum_entry sha256 d) (p # q # ps)"
    note ls = lines_facts [OF sha plain', of d]
    have ne: "?ls \<noteq> []" by simp
    have "last (p # q # ps) \<in> set (p # q # ps)" by (rule last_in_set) simp
    then have "plain_path (last (p # q # ps))" using plain' by blast
    then have "\<not> is_js_space (last (last ?ls))" using line_facts(5) [OF sha] by (simp only: last_map list.distinct simp_thms)
    then have "js_trim_end ?m = js_join CHR 0x0A ?ls" using join_ends [OF ne ls(1)] by (intro trim_end_line) auto
    then show ?thesis using split_join [OF ne ls(2)] by simp
  qed
  ultimately show ?thesis
    by (auto simp: verify_tampering_is_detected_def mb expect_verification_failure_def Let_def bind_err_def
        without_checksum_entry [OF sha] split: sum.split)
qed


section \<open>What a build gives\<close>

definition plain_version :: "string \<Rightarrow> bool" where
  "plain_version v \<longleftrightarrow> list_all (\<lambda>c. c \<noteq> CHR ''/'' \<and> c \<noteq> CHR 0x5C \<and> \<not> is_js_space c) v"

lemma plain_contract: "plain_path p \<Longrightarrow> plain_path (''contract'' @ CHR ''/'' # p)"
proof -
  have "js_split CHR ''/'' (''contract'' @ CHR ''/'' # p) = ''contract'' # js_split CHR ''/'' p"
    by (rule js_split_app) simp
  moreover have "list_all (\<lambda>c. \<not> is_js_space c) ''contract/''" by code_simp
  ultimately show "plain_path p \<Longrightarrow> ?thesis" by (simp add: plain_path_def is_unsafe_manifest_path_def)
qed

lemma plain_artifact:
  assumes "plain_version (pm_version manifest)"
  shows "plain_path (artifact_name manifest)"
proof -
  have "CHR ''/'' \<notin> set (artifact_name manifest)" "CHR 0x5C \<notin> set (artifact_name manifest)"
    using assms by (auto simp: artifact_name_def plain_version_def list_all_iff)
  moreover have "list_all (\<lambda>c. \<not> is_js_space c) (''audit-sdk-'' @ ''.tgz'')" by code_simp
  ultimately show ?thesis using assms js_split_unit [of "CHR ''/''" "artifact_name manifest"]
    by (simp add: plain_path_def is_unsafe_manifest_path_def plain_version_def list_all_iff artifact_name_def)
qed

lemma plain_manifest: "plain_path ''release-manifest.json''"
  by code_simp

lemma built_tree:
  assumes "build_release sha256 parse manifest contract outputDirectory children = (b, Inr (artifactName, files))"
  obtains content body where
    "b = add_checksums sha256 ((artifact_name manifest, content) # within ''contract'' contract @ [(''release-manifest.json'', body)])"
    "files = filter (\<lambda>p. p \<noteq> sums_path) (list_files ((artifact_name manifest, content) # within ''contract'' contract @
       [(''release-manifest.json'', body)])) @ [sums_path]" "artifactName = artifact_name manifest"
proof -
  let ?pack = "bind_err (pack_package parse (outputDirectory @ ''/.pack'') (rr_pack children)) (\<lambda>name.
      case map_of (rr_packed children) name of None \<Rightarrow> Inl (Foreign ''ENOENT'') | Some content \<Rightarrow> Inr content)"
  let ?git = "bind_err (git_output [''rev-parse'', ''HEAD''] (rr_revParse children)) (\<lambda>sourceRevision.
      bind_err (git_output [''status'', ''--porcelain'', ''--'', ''.'', ''../../package.json'', ''../../package-lock.json'']
        (rr_status children)) (\<lambda>sourceStatus. Inr (sourceRevision, sourceStatus)))"
  obtain content where pack: "?pack = Inr content"
    using assms by (cases ?pack) (simp_all only: build_release_def Let_def sum.case prod.inject sum.distinct simp_thms)
  obtain revision status where git: "?git = Inr (revision, status)"
    using assms by (cases ?git) (simp_all only: build_release_def Let_def pack sum.case prod.inject sum.distinct simp_thms,
      metis surj_pair)
  note built = assms [unfolded build_release_def Let_def pack git sum.case prod.case prod.inject sum.inject append_Cons]
  show thesis
    by (rule that [of content "stable_json (release_manifest manifest revision status) @ [CHR 0x0A]"])
      (insert built, (elim conjE, hypsubst, rule refl)+)
qed

lemma keys_within: "List.map fst (within directory files) = List.map (\<lambda>n. directory @ CHR ''/'' # n) (List.map fst files)"
  by (induction files) (auto simp: within_def)

lemma build_facts:
  assumes "plain_version (pm_version manifest)" "distinct (List.map fst contract)" "list_all (\<lambda>(p, c). plain_path p) contract"
    and d: "d = (artifact_name manifest, content) # within ''contract'' contract @ [(''release-manifest.json'', body)]"
  shows "d \<noteq> []" "sums_path \<notin> fst ` set d" "distinct (List.map fst d)" "\<forall>p \<in> fst ` set d. plain_path p"
    "''unexpected.txt'' \<notin> fst ` set d"
proof -
  have keys: "List.map fst d = artifact_name manifest # List.map (\<lambda>n. ''contract'' @ CHR ''/'' # n) (List.map fst contract) @
      [''release-manifest.json'']"
    by (simp add: d keys_within)
  have set: "fst ` set d = set (List.map fst d)" by simp
  show "d \<noteq> []" by (simp add: d)
  show "sums_path \<notin> fst ` set d" "''unexpected.txt'' \<notin> fst ` set d"
    unfolding set keys by (auto simp: sums_path_def artifact_name_def)
  show "distinct (List.map fst d)"
    unfolding keys using assms(2) by (auto simp: distinct_map artifact_name_def inj_on_def)
  show "\<forall>p \<in> fst ` set d. plain_path p"
    unfolding set keys using plain_artifact [OF assms(1)] plain_manifest plain_contract assms(3) by (auto simp: list_all_iff)
qed

lemma keys_built: "b = add_checksums sha256 d \<Longrightarrow> sums_path \<notin> fst ` set d \<Longrightarrow>
    set (filter (\<lambda>p. p \<noteq> sums_path) (list_files d) @ [sums_path]) = dom (map_of b)"
  by (auto simp: add_checksums_def list_files_def Let_def dom_map_of_conv_image_fst)

lemma two_files: "length d \<ge> 2 \<Longrightarrow> \<exists>p q ps. sort (List.map fst d) = p # q # ps"
  by (cases "sort (List.map fst d)" rule: remdups_adj.cases) (auto dest: arg_cong [of _ _ length])

text \<open>C37: a release that is built verifies, and its list names its files. Another directory with the same
  checksum manifest verifies exactly when it holds the same files, each with the digest of the
  built one: none is missing, added or changed. The release check's three manipulations are noticed,
  when the digest of the first artifact is not that of the text written over it.\<close>

theorem release_verification_is_exact:
  assumes "digest_ok sha256" "plain_version (pm_version manifest)"
    and "distinct (List.map fst contract)" "list_all (\<lambda>(p, c). plain_path p) contract"
    and "build_release sha256 parse manifest contract outputDirectory children = (b, Inr (artifactName, files))"
  shows "verify_release sha256 b = Inr () \<and> set files = dom (map_of b) \<and>
    (\<forall>t. distinct (List.map fst t) \<and> map_of t sums_path = map_of b sums_path \<longrightarrow>
       (verify_release sha256 t = Inr () \<longleftrightarrow> (\<forall>p. map_option sha256 (map_of t p) = map_option sha256 (map_of b p)))) \<and>
    (sha256 (''tampered'' @ [CHR 0x0A]) \<noteq> sha256 (the (map_of b (hd files))) \<longrightarrow>
       verify_tampering_is_detected sha256 b = Inr ())"
proof -
  from built_tree [OF assms(5)] obtain content body d where d: "d = (artifact_name manifest, content) #
      within ''contract'' contract @ [(''release-manifest.json'', body)]" and b: "b = add_checksums sha256 d"
    and files: "files = filter (\<lambda>p. p \<noteq> sums_path) (list_files d) @ [sums_path]" by metis
  note facts = build_facts [OF assms(2-4) d]
  note against = verify_against_built [OF assms(1) facts(1-4) b]
  have dist: "distinct (List.map fst b)" using facts(2,3) by (simp add: b add_checksums_def)
  have "length d \<ge> 2" by (simp add: d)
  then obtain p q ps where ps: "sort (List.map fst d) = p # q # ps" using two_files by blast
  have "p \<in> fst ` set d" using arg_cong [OF ps, of set] by auto
  then have p: "p \<noteq> sums_path" using facts(2) by blast
  then have hd: "hd files = p" by (simp add: files list_files_def ps)
  have "map_of b p = map_of d p" using p facts(2) by (simp add: b add_checksums_def Let_def map_add_def split: option.split)
  then have "verify_tampering_is_detected sha256 b = Inr ()" if "sha256 (''tampered'' @ [CHR 0x0A]) \<noteq> sha256 (the (map_of b (hd files)))"
    using tampering_is_detected [OF assms(1) facts(2,3,4) b ps facts(5)] that by (simp add: hd)
  then show ?thesis using against [OF dist] against keys_built [OF b facts(2)] files by blast
qed

text \<open>The theorem on a small package; the tree with a changed contract file does not verify.\<close>

definition sample_digest :: "string \<Rightarrow> string" where
  "sample_digest c = replicate 63 (CHR ''0'') @ [hex_digit (length c mod 16)]"

definition sample_children :: release_runs where
  "sample_children = \<lparr>rr_pack = \<lparr>sp_status = Some 0, sp_stdout = Some ''[]'', sp_stderr = None\<rparr>,
     rr_packed = [(''sdk.tgz'', ''archive'')], rr_revParse = \<lparr>sp_status = Some 0, sp_stdout = Some ''abc'', sp_stderr = None\<rparr>,
     rr_status = \<lparr>sp_status = Some 0, sp_stdout = Some [], sp_stderr = None\<rparr>\<rparr>"

definition sample_build :: "release_tree \<times> (js_error + string \<times> string list)" where
  "sample_build = build_release sample_digest (\<lambda>s. Inr (JArray [JObject [(''filename'', JString ''sdk.tgz'')]]))
     \<lparr>pm_name = ''sdk'', pm_version = ''0.1.2''\<rparr> [(''v1.json'', ''{}'')] ''out'' sample_children"

lemma sample_digest_ok: "digest_ok sample_digest"
proof -
  have "is_hex_lower (hex_digit n)" if "n < 16" for n
  proof -
    have "list_all (\<lambda>n. is_hex_lower (hex_digit n)) [0..<16]" by code_simp
    then show ?thesis using that by (simp add: list_all_iff)
  qed
  moreover have "is_hex_lower CHR ''0''" by code_simp
  ultimately show ?thesis by (simp add: digest_ok_def sample_digest_def list_all_iff)
qed

lemma sample_build_ok: "snd sample_build = Inr (''audit-sdk-0.1.2.tgz'',
    [''audit-sdk-0.1.2.tgz'', ''contract/v1.json'', ''release-manifest.json'', sums_path])"
  by code_simp

lemma sample_built_artifact: "map_of (fst sample_build) ''audit-sdk-0.1.2.tgz'' = Some ''archive''"
  by code_simp

lemma release_verification_is_exact_witness:
  "verify_release sample_digest (fst sample_build) = Inr () \<and>
   verify_tampering_is_detected sample_digest (fst sample_build) = Inr ()"
proof -
  have "plain_version ''0.1.2''" "plain_path ''v1.json''" by code_simp+
  moreover have "sample_build = (fst sample_build, Inr (''audit-sdk-0.1.2.tgz'',
      [''audit-sdk-0.1.2.tgz'', ''contract/v1.json'', ''release-manifest.json'', sums_path]))"
    by (simp flip: sample_build_ok)
  moreover have "sample_digest (''tampered'' @ [CHR 0x0A]) \<noteq> sample_digest ''archive''" by code_simp
  ultimately show ?thesis
    using release_verification_is_exact [OF sample_digest_ok, of "\<lparr>pm_name = ''sdk'', pm_version = ''0.1.2''\<rparr>" "[(''v1.json'', ''{}'')]"
      "\<lambda>s. Inr (JArray [JObject [(''filename'', JString ''sdk.tgz'')]])" "''out''" sample_children "fst sample_build"]
    by (simp add: sample_build_def [symmetric] sample_built_artifact)
qed

text \<open>
  The text that is hashed for a whole tree does not determine it: a file may hold the separator, as
  a compressed archive does.
\<close>

lemma tree_hash_confuses_trees:
  "hash_release_tree sha256 [(''a'', ''x'' @ [CHR 0x00] @ ''b'' @ [CHR 0x00] @ ''y'')] =
   hash_release_tree sha256 [(''a'', ''x''), (''b'', ''y'')]"
proof -
  have "sort [''a'', ''b''] = [''a'', ''b'']" by code_simp
  then show ?thesis by (simp add: hash_release_tree_def list_files_def)
qed

end
