(* ===== verification/Audit_Testing.thy ===== *)
theory Audit_Testing
  imports Audit_Sdk
begin

text \<open>
  The test doubles the audit package offers its clients
  (\<open>packages/audit-sdk/src/testing\<close>): a publisher that answers from a queue and remembers what it was
  given, and providers that answer with fixed values.
\<close>

section \<open>The publisher\<close>

datatype fake_audit_publish_outcome =
    Fake_Accepted "string option"
  | Fake_Refused audit_publish_failure_reason

record fake_audit_publisher =
  fp_events :: "authentication_audit_event list"
  fp_queuedOutcomes :: "fake_audit_publish_outcome list"

definition new_fake_audit_publisher :: "fake_audit_publish_outcome list \<Rightarrow> fake_audit_publisher" where
  "new_fake_audit_publisher outcomes = \<lparr>fp_events = [], fp_queuedOutcomes = outcomes\<rparr>"

definition published_events :: "fake_audit_publisher \<Rightarrow> authentication_audit_event list" where
  "published_events f = fp_events f"

definition fake_enqueue :: "fake_audit_publish_outcome \<Rightarrow> fake_audit_publisher \<Rightarrow> fake_audit_publisher" where
  "fake_enqueue outcome f = f\<lparr>fp_queuedOutcomes := fp_queuedOutcomes f @ [outcome]\<rparr>"

definition fake_reset :: "fake_audit_publisher \<Rightarrow> fake_audit_publisher" where
  "fake_reset f = f\<lparr>fp_events := [], fp_queuedOutcomes := []\<rparr>"

text \<open>The outcome when none is queued, by the number of the event.\<close>

definition fake_default_outcome :: "nat \<Rightarrow> fake_audit_publish_outcome" where
  "fake_default_outcome n = Fake_Accepted (Some (''fake-event-'' @ pad_start 4 CHR ''0'' (nat_str n)))"

definition fake_publish :: "fake_audit_publisher audit_publisher" where
  "fake_publish event signal = (\<lambda>f.
    if signal = Some True then (Inr (publish_refused (mt_uid (ev_metadata event)) F_Aborted), f)
    else
      let events = fp_events f @ [event]; sequence = length events;
          outcome = (case fp_queuedOutcomes f of [] \<Rightarrow> fake_default_outcome sequence | q # qs \<Rightarrow> q) in
      (Inr (case outcome of
         Fake_Accepted transportEventId \<Rightarrow> publish_accepted (mt_uid (ev_metadata event)) transportEventId
       | Fake_Refused reason \<Rightarrow> publish_refused (mt_uid (ev_metadata event)) reason),
       f\<lparr>fp_events := events, fp_queuedOutcomes := tl (fp_queuedOutcomes f)\<rparr>))"

section \<open>The providers\<close>

definition create_fixed_audit_event_providers :: "int \<Rightarrow> string \<Rightarrow> 'e audit_event_providers" where
  "create_fixed_audit_event_providers time uuid = \<lparr>pv_now = ret time, pv_generate = ret uuid\<rparr>"

section \<open>What they promise\<close>

fun fake_publish_all :: "authentication_audit_event list \<Rightarrow> fake_audit_publisher \<Rightarrow>
    (js_error + audit_publish_result) list \<times> fake_audit_publisher" where
  "fake_publish_all [] f = ([], f)"
| "fake_publish_all (ev # evs) f =
     (case fake_publish ev None f of (r, g) \<Rightarrow> case fake_publish_all evs g of (rs, h) \<Rightarrow> (r # rs, h))"

definition fake_answer :: "fake_audit_publish_outcome \<Rightarrow> authentication_audit_event \<Rightarrow> audit_publish_result" where
  "fake_answer outcome ev = (case outcome of
     Fake_Accepted i \<Rightarrow> publish_accepted (mt_uid (ev_metadata ev)) i
   | Fake_Refused reason \<Rightarrow> publish_refused (mt_uid (ev_metadata ev)) reason)"

lemma fake_publish_step: "fake_publish ev None f =
    (Inr (fake_answer ((fp_queuedOutcomes f @ [fake_default_outcome (Suc (length (fp_events f)))]) ! 0) ev),
     \<lparr>fp_events = fp_events f @ [ev], fp_queuedOutcomes = tl (fp_queuedOutcomes f)\<rparr>)"
  by (cases f; cases "fp_queuedOutcomes f")
    (simp_all add: fake_publish_def fake_answer_def Let_def split: fake_audit_publish_outcome.split)

text \<open>The queued outcomes answer the first events in order, the rest is accepted by its number.\<close>

lemma fake_publish_in_order: "fake_publish_all evs f = (rs, g) \<Longrightarrow>
    published_events g = published_events f @ evs \<and> fp_queuedOutcomes g = drop (length evs) (fp_queuedOutcomes f) \<and>
    rs = List.map (\<lambda>i. Inr (fake_answer
      (if i < length (fp_queuedOutcomes f) then fp_queuedOutcomes f ! i
       else fake_default_outcome (length (fp_events f) + Suc i)) (evs ! i))) [0..<length evs]"
proof (induction evs arbitrary: f rs g)
  case (Cons ev evs)
  let ?f1 = "\<lparr>fp_events = fp_events f @ [ev], fp_queuedOutcomes = tl (fp_queuedOutcomes f)\<rparr>"
  obtain rs' where all: "fake_publish_all evs ?f1 = (rs', g)"
    and rs: "rs = fst (fake_publish ev None f) # rs'"
    using Cons.prems by (auto simp: fake_publish_step split: prod.splits)
  have "[0..<length (ev # evs)] = 0 # List.map Suc [0..<length evs]"
    by (simp only: upt_conv_Cons map_Suc_upt list.size zero_less_Suc add_Suc_right add_0_right One_nat_def)
  then show ?case using Cons.IH [OF all] rs
    by (cases "fp_queuedOutcomes f") (simp_all add: fake_publish_step published_events_def)
qed (simp add: published_events_def)

lemma aborted_publish_is_not_recorded:
  "fake_publish ev (Some True) f = (Inr (publish_refused (mt_uid (ev_metadata ev)) F_Aborted), f)"
  by (simp add: fake_publish_def)

text \<open>With the fixed providers the event that is built is determined by its input.\<close>

lemma fixed_providers_build: "build_authentication_audit_event schema (create_fixed_audit_event_providers time uuid) input w =
   (if list_ex (\<lambda>key. key \<notin> set allowed_input_keys) (ei_keys input) then Inl (AuditContractError [(''forbidden_field'', ''/'')])
    else bind_err (assert_valid_authentication_audit_event schema (authentication_audit_event_of input time uuid))
      (\<lambda>_. Inr (authentication_audit_event_of input time uuid)), w)"
  by (auto simp: build_authentication_audit_event_def create_fixed_audit_event_providers_def Let_def bind_io_def then_io_def
      ret_def throw_def lift_def bind_err_def split: sum.split)

end
