(* ===== verification/Spec2Isabelle.thy ===== *)
theory Spec2Isabelle
  imports Workflow Audit_Recorder Graphql_Plugin Postgres_Properties Processor_Log Otel_Lifecycle Composition Booking Database_Tools
    Audit_Redaction Audit_Release Audit_Testing
begin

text \<open>
  A model of the movie reservation service and the theorems that make it correct.

  \<^bold>\<open>The program.\<close> The service books cinema seats. A GraphQL call stores a
  reservation request; a worker claims pending requests in order under a lease, renews the lease
  with heartbeats, and confirms the request (a reservation is made), rejects it (a seat is
  taken), or releases or fails it (an error). Around this workflow are the authentication and
  authorization of callers, an audit trail of authentication attempts, the structured logs,
  traces and metrics of every request, and the configuration that selects and wires all parts.

  \<^bold>\<open>The theories\<close>, with what they model under \<open>src/src\<close> unless said otherwise.

  \<^item> \<open>Prelude\<close>: errors, the effect type \<open>io\<close> (state in, result or error and
    state out; writes survive a throw), weakest-precondition and preservation rules, the
    insertion-ordered \<open>Map\<close> as a locale with its implementation.
  \<^item> \<open>Js_String\<close>, \<open>Iso_Time\<close>: the string operations and the part of
    \<open>Date\<close> the service uses, with the round trip of timestamps.
  \<^item> \<open>Domain\<close> (\<open>domain\<close>), \<open>Ports\<close> (\<open>application/.../ports\<close>):
    entities, branded ids, status transitions, and the records of operations the parts call.
  \<^item> \<open>Store\<close>, \<open>Work_Repository\<close>, \<open>Movie_Repository\<close>
    (\<open>infrastructure/repositories/in-memory\<close>): the in-memory store, the worker's view of
    it, the product's view of it, and seat availability.
  \<^item> \<open>Ledger\<close>, \<open>Work_Properties\<close>, \<open>Work_Contract\<close>: the abstract state
    of the workflow with its invariant, the effect of every operation on it, and the contract of
    the work repository as a locale, interpreted on the in-memory repository. The contract has two
    parameters, the form of the times and of the ids a repository may promise to record.
  \<^item> \<open>Processor\<close>, \<open>Service\<close> (\<open>application\<close>): one run of the processor
    with every collaborator free to throw; the use cases and the authorization rules. Both rest
    on the contracts, not on the store.
  \<^item> \<open>System\<close>, \<open>Workflow\<close>: API calls and \<open>k\<close> workers interleaved over
    one store, one atomic step at a time (confirming is two steps, split at its \<open>await\<close>);
    the properties of the whole workflow. \<open>Draining\<close>: the attempts a queue has left, and that
    the passes of a worker use them up.
  \<^item> \<open>Sql\<close>, \<open>Postgres_Schema\<close>, \<open>Postgres_Mappers\<close>,
    \<open>Postgres_Work\<close>, \<open>Postgres_Movie\<close>
    (\<open>infrastructure/database/migrations\<close>, \<open>infrastructure/repositories/postgres\<close>):
    statements as data with their documented effect, the schema of the migrations, the row mappers,
    and the two repositories over a database engine, which is a parameter.
  \<^item> \<open>Postgres_Ledger\<close>, \<open>Postgres_Effects\<close>, \<open>Postgres_Contract\<close>,
    \<open>Postgres_Availability\<close>: the tables seen as a ledger; rules for transactions and
    statements; the contract of the work repository over Postgres; the joins of the availability
    query. \<open>Workers\<close>: any number of workers over any repository that meets the contract.
    \<open>Reference_Engine\<close>: an engine that meets the hypotheses made of Postgres, for the
    examples. \<open>Postgres_Properties\<close>: what follows for the service.
  \<^item> \<open>Database_Tools\<close> (\<open>infrastructure/database\<close>): the local seed as upserts in a
    transaction, and the migration runner.
  \<^item> \<open>Seeding\<close>, \<open>Demo_Data\<close> (\<open>infrastructure/fixtures\<close>): the constructor
    of the store establishes the invariant; the demo catalogue is consistent.
  \<^item> \<open>Telemetry\<close>, \<open>Logging\<close>, \<open>Http_Boundary\<close>, \<open>Graphql_Plugin\<close>
    (\<open>infrastructure/observability\<close>, \<open>presentation\<close>): request context and trace
    propagation, the logger and the metrics, the HTTP middleware, the Apollo logging plugin.
    \<open>Processor_Observability\<close>, \<open>Processor_Log\<close>: the logs, spans and metrics of
    the processor as one of its environments, and what a run of it writes.
    \<open>Otel_Lifecycle\<close>: start and shutdown of the telemetry SDK, as the process does it.
  \<^item> \<open>Authentication\<close>, \<open>Auth_Boundary\<close>: claims to users, the authentication
    managers, the GraphQL middleware and the demo login.
  \<^item> \<open>Graphql_Api\<close> (\<open>presentation/graphql\<close>): the resolvers with the objects
    they answer with. \<open>Booking\<close>: from the request to the reservation, through the API and
    the worker.
  \<^item> \<open>Audit_Sdk\<close>, \<open>Audit_Contract\<close> (\<open>packages/audit-sdk\<close>),
    \<open>Audit_Recorder\<close> (\<open>infrastructure/audit\<close>, \<open>di/audit\<close>): building,
    validating and publishing audit events; their JSON contract; publishers as a hierarchy of
    locales; the recorder. \<open>Audit_Redaction\<close>, \<open>Audit_Testing\<close>,
    \<open>Audit_Release\<close>: what else the package holds, the redaction of diagnostics, the test doubles
    for clients, and building and verifying its release bundle.
  \<^item> \<open>Worker\<close> (\<open>di/movie-reservations\<close>): the in-process worker as a step
    relation over the callbacks of the event loop; failure simulation.
  \<^item> \<open>Config\<close> (\<open>config.ts\<close>, \<open>di\<close>): the settings schema as data, the
    parsed configuration, and the factories that consume it.
  \<^item> \<open>Composition\<close> (\<open>app.module.ts\<close>, \<open>di\<close>): the dependency injection as
    data, what its container can construct, and what the factories build.

  \<^bold>\<open>What the theorems show.\<close> Workflow: with one worker no interleaving double-books
  a seat, history is permanent, claims are first come first served, leases expire exactly on
  time, a processor run settles its item at most once whatever its environment does, a free seat that
  is asked for is booked; with two
  workers the in-memory confirm can double-book. Over Postgres, whose unique key on the seats of a
  screening decides, any number of workers never double-book; a worker comes to the end of its
  queue; availability is exact over both stores. Access: reads are tenant-isolated, what a tenant is
  told depends on its own requests alone, a client reads its own writes, no handler
  runs without a sound identity, rejected requests are answered whatever the audit does. Audit:
  built events fit the published contract, publishing fails closed, the comparison mirror is
  transparent, redaction hides what it is told to hide, a release verifies exactly when its files
  are those that were built. Observability: no unsafe header text or sensitive field gets through, operation
  logs are paired, the log of a processor run tells its result, telemetry never decides over the
  service. Operation: the worker loop neither overlaps nor stalls until shutdown, a parsed
  configuration is safe to run, and every composition is wired.

  \<^bold>\<open>Conventions and bounds.\<close> A JavaScript string is a list of UTF-16 code units, of
  which the model covers those below 256. Numbers are \<open>int\<close> (\<open>rat\<close> where a
  fraction matters) with the safe-integer bound written out; hash words are \<open>32 word\<close>;
  durations are nanoseconds. Of the formats of \<open>Date\<close> only that of \<open>toISOString\<close>
  is parsed. Every recursion is structural or has a termination proof; no fuel is used.

  \<^bold>\<open>Parameters.\<close> Code outside the repository is an argument of the definitions that
  use it, with its documented behaviour as a hypothesis where a theorem needs it: clock and id
  generators, OpenTelemetry, Pino, Ajv, the AWS client, the JWT decoder, SHA-256, zod, and the
  database with its driver and query builder. Of the database \<open>documented_sql\<close> assumes: a
  statement fails and changes nothing, or has its documented effect and leaves the declared
  constraints satisfied; a transaction is all or nothing and is not interleaved with another; the
  conversions of texts to UUIDs and timestamps. Any statement may fail at any time.

  \<^bold>\<open>Not modelled.\<close> The NestJS container and the GraphQL framework with the schema it
  generates from the decorators, the guards that run a module as a script (I/O only). Saving a request over Postgres is
  modelled, but is not part of the contract of the work repository: the generated sequence numbers
  may have gaps and are not bounded by the number of requests.
\<close>

end
